(* ===== verification/Prelude.thy ===== *)
theory Prelude
  imports Main "HOL-Library.Word"
begin

text \<open>
  Shared vocabulary of the development: machine words, byte strings, byte-addressed memory
  and little-endian integers, together with the list and memory lemmas the component theories
  use. \<open>mem_simps\<close> collects the memory algebra.
\<close>

section \<open>Machine types\<close>

type_synonym byte = "8 word"
type_synonym u16 = "16 word"
type_synonym u32 = "32 word"
type_synonym u64 = "64 word"
type_synonym bytes = "byte list"

text \<open>An address of the 32-bit target is a natural number; \<open>NULL\<close> is 0.\<close>
type_synonym addr = nat

abbreviation (input) NULL :: addr where "NULL \<equiv> 0"

unbundle bit_operations_syntax

text \<open>Arithmetic on \<open>size_t\<close> (32 bits) and on nanopb's \<open>pb_size_t\<close> (16 bits) wraps around.\<close>
abbreviation wrap32 :: "nat \<Rightarrow> nat" where "wrap32 n \<equiv> n mod 4294967296"
abbreviation wrap16 :: "nat \<Rightarrow> nat" where "wrap16 n \<equiv> n mod 65536"

named_theorems mem_simps \<open>reading and writing memory\<close>
named_theorems le_simps \<open>little-endian integers\<close>

section \<open>Memory\<close>

type_synonym mem = "addr \<Rightarrow> byte"

text \<open>\<open>memcpy\<close> out of memory: the \<open>n\<close> bytes at \<open>a\<close>.\<close>
definition mem_read :: "mem \<Rightarrow> addr \<Rightarrow> nat \<Rightarrow> bytes" where
  "mem_read m a n = map m [a..<a + n]"

text \<open>\<open>memcpy\<close> into memory: \<open>bs\<close> stored from address \<open>a\<close> on.\<close>
definition mem_write :: "mem \<Rightarrow> addr \<Rightarrow> bytes \<Rightarrow> mem" where
  "mem_write m a bs = (\<lambda>x. if a \<le> x \<and> x < a + length bs then bs ! (x - a) else m x)"

text \<open>\<open>memset (a, v, n)\<close>.\<close>
definition mem_set :: "mem \<Rightarrow> addr \<Rightarrow> byte \<Rightarrow> nat \<Rightarrow> mem" where
  "mem_set m a v n = mem_write m a (replicate n v)"

text \<open>Two memories that agree outside the address set \<open>A\<close>.\<close>
definition mem_frame :: "addr set \<Rightarrow> mem \<Rightarrow> mem \<Rightarrow> bool" where
  "mem_frame A m m' \<longleftrightarrow> (\<forall>x. x \<notin> A \<longrightarrow> m' x = m x)"

section \<open>Little-endian integers\<close>

primrec le_nat :: "bytes \<Rightarrow> nat" where
  "le_nat [] = 0"
| "le_nat (b # bs) = unat b + 256 * le_nat bs"

primrec nat_le :: "nat \<Rightarrow> nat \<Rightarrow> bytes" where
  "nat_le 0 n = []"
| "nat_le (Suc k) n = of_nat (n mod 256) # nat_le k (n div 256)"

section \<open>Lemmas on memory\<close>

lemma length_mem_read [simp]: "length (mem_read m a n) = n"
  by (simp add: mem_read_def)

lemma mem_read_0 [simp]: "mem_read m a 0 = []"
  by (simp add: mem_read_def)

lemma mem_read_Suc: "mem_read m a (Suc n) = m a # mem_read m (Suc a) n"
  unfolding mem_read_def by (simp add: upt_conv_Cons del: upt_Suc)

lemma nth_mem_read [simp]: "i < n \<Longrightarrow> mem_read m a n ! i = m (a + i)"
  by (simp add: mem_read_def)

lemma mem_read_add: "mem_read m a (i + j) = mem_read m a i @ mem_read m (a + i) j"
  by (rule nth_equalityI) (auto simp: nth_append)

lemma mem_read_cong: "(\<And>x. a \<le> x \<Longrightarrow> x < a + n \<Longrightarrow> m x = m' x) \<Longrightarrow> mem_read m a n = mem_read m' a n"
  by (rule nth_equalityI) auto

lemma mem_write_Nil [simp, mem_simps]: "mem_write m a [] = m"
  by (rule ext) (auto simp: mem_write_def)

lemma mem_write_outside [mem_simps]: "x < a \<or> a + length bs \<le> x \<Longrightarrow> mem_write m a bs x = m x"
  by (auto simp: mem_write_def)

lemma mem_write_inside [mem_simps]: "i < length bs \<Longrightarrow> mem_write m a bs (a + i) = bs ! i"
  by (simp add: mem_write_def)

lemma mem_write_append: "mem_write (mem_write m a bs) (a + length bs) cs = mem_write m a (bs @ cs)"
proof
  fix x
  show "mem_write (mem_write m a bs) (a + length bs) cs x = mem_write m a (bs @ cs) x"
    by (auto simp: mem_write_def nth_append diff_diff_left less_diff_conv2 not_less)
qed

lemma mem_read_write_same [simp, mem_simps]: "n = length bs \<Longrightarrow> mem_read (mem_write m a bs) a n = bs"
  by (rule nth_equalityI) (auto simp: mem_write_inside)

lemma mem_read_write_disjoint [mem_simps]:
  "a + n \<le> b \<or> b + length bs \<le> a \<Longrightarrow> mem_read (mem_write m b bs) a n = mem_read m a n"
  by (rule mem_read_cong) (auto simp: mem_write_def)

lemma mem_frame_refl [simp, intro]: "mem_frame A m m"
  by (simp add: mem_frame_def)

lemma mem_frame_trans [trans]: "mem_frame A m m' \<Longrightarrow> mem_frame A m' m'' \<Longrightarrow> mem_frame A m m''"
  by (simp add: mem_frame_def)

lemma mem_frame_mono: "mem_frame A m m' \<Longrightarrow> A \<subseteq> B \<Longrightarrow> mem_frame B m m'"
  by (auto simp: mem_frame_def)

lemma mem_frame_write [intro]: "{a..<a + length bs} \<subseteq> A \<Longrightarrow> mem_frame A m (mem_write m a bs)"
  by (auto simp: mem_frame_def mem_write_def subset_iff)

lemma mem_frame_read:
  "mem_frame A m m' \<Longrightarrow> {a..<a + n} \<inter> A = {} \<Longrightarrow> mem_read m' a n = mem_read m a n"
  by (rule mem_read_cong) (auto simp: mem_frame_def)

section \<open>Lemmas on little-endian integers\<close>

lemma length_nat_le [simp]: "length (nat_le k n) = k"
  by (induction k arbitrary: n) auto

lemma unat_byte_less [simp]: "unat (b :: byte) < 256"
  by (rule order.strict_trans2 [OF unsigned_less]) simp

lemma le_nat_bound [simp]: "le_nat bs < 256 ^ length bs"
proof (induction bs)
  case (Cons b bs)
  have "unat b + 256 * le_nat bs < 256 * Suc (le_nat bs)" by simp
  also have "\<dots> \<le> 256 * 256 ^ length bs" using Cons by (intro mult_le_mono2) simp
  finally show ?case by simp
qed simp

lemma le_nat_nat_le [le_simps]: "le_nat (nat_le k n) = n mod 256 ^ k"
proof (induction k arbitrary: n)
  case (Suc k)
  have "unat (of_nat (n mod 256) :: byte) = n mod 256"
    by (simp add: unat_of_nat)
  then show ?case
    by (simp add: Suc mod_mult2_eq)
qed simp

lemma nat_le_le_nat [le_simps]: "k = length bs \<Longrightarrow> nat_le k (le_nat bs) = bs"
proof (induction bs arbitrary: k)
  case (Cons b bs)
  have "(unat b + 256 * le_nat bs) mod 256 = unat b" and "(unat b + 256 * le_nat bs) div 256 = le_nat bs"
    by simp_all
  with Cons show ?case by simp
qed simp

section \<open>Seven-bit groups\<close>

text \<open>
  Both wire formats (protobuf varints and the MQTT remaining length) store a number in groups of
  seven bits, with bit 7 of a byte saying that another group follows.
\<close>

named_theorems group_simps \<open>seven-bit groups as arithmetic on naturals\<close>

lemma unat_and_7f [group_simps]: "unat (x AND 0x7f :: byte) = unat x mod 128"
proof -
  have "(0x7f :: byte) = mask 7" by (simp add: mask_eq_exp_minus_1)
  then have "x AND 0x7f = take_bit 7 x" by (simp only: take_bit_eq_mask)
  then show ?thesis by (simp add: take_bit_eq_mod unat_mod)
qed

lemma bit_7_byte: "bit (x :: byte) 7 \<longleftrightarrow> 128 \<le> unat x"
proof -
  have "unat x div 128 = (if 128 \<le> unat x then 1 else 0)"
    using unat_byte_less [of x] by (auto intro: div_nat_eqI)
  moreover have "bit x 7 \<longleftrightarrow> odd (unat x div 128)"
    using bit_unsigned_iff [of x 7, where ?'a = nat] by (simp add: bit_iff_odd del: bit_unsigned_iff)
  ultimately show ?thesis by simp
qed

lemma and_80_iff [group_simps]: "x AND 0x80 = (0 :: byte) \<longleftrightarrow> unat x < 128"
  using and_exp_eq_0_iff_not_bit [of x 7] by (simp add: bit_7_byte not_le)

lemma unat_or_80 [group_simps]: "unat x < 128 \<Longrightarrow> unat (x OR 0x80 :: byte) = unat x + 128"
proof -
  assume x: "unat x < 128"
  then have "x AND 0x80 = 0" by (simp add: and_80_iff)
  then have "x OR 0x80 = x + 0x80" by (simp add: disjunctive_add_eq_or)
  with x show ?thesis by (simp add: unat_word_ariths)
qed

lemma unat_of_nat_byte [group_simps]: "unat (of_nat n :: byte) = n mod 256"
  by (simp add: unat_of_nat)

end
