(* ===== verification/Safe_Queue.thy ===== *)
theory Safe_Queue
  imports Prelude
begin

text \<open>
  The blocking queue between the MQTT callback thread and the worker thread of the gateway
  service (\<^verbatim>\<open>src/gateway-service/src/safe_queue.hpp\<close>). The critical sections of \<open>push\<close>,
  \<open>pop\<close> and \<open>abort\<close> run under \<open>mutex_\<close> and are functions on the queue's state; \<open>pop\<close> is
  \<open>None\<close> where its \<open>cond_.wait\<close> predicate is false, that is, where the caller blocks. The
  condition variable itself (wait set, \<open>notify_one\<close>, \<open>notify_all\<close>, spurious wake-ups) is
  the step relation \<open>sq_step\<close> over any number of threads.
\<close>

section \<open>The queue\<close>

record safe_queue =
  queue :: "bytes list"
  aborted :: bool

definition sq_init :: safe_queue where
  "sq_init = \<lparr>queue = [], aborted = False\<rparr>"

definition push :: "bytes \<Rightarrow> safe_queue \<Rightarrow> safe_queue" where
  "push r q = q\<lparr>queue := queue q @ [r]\<rparr>"

text \<open>The predicate of \<open>cond_.wait\<close>.\<close>
definition wait_pred :: "safe_queue \<Rightarrow> bool" where
  "wait_pred q \<longleftrightarrow> queue q \<noteq> [] \<or> aborted q"

definition pop :: "safe_queue \<Rightarrow> (bytes option \<times> safe_queue) option" where
  "pop q =
     (if \<not> wait_pred q then None
      else if aborted q \<and> queue q = [] then Some (None, q)
      else Some (Some (hd (queue q)), q\<lparr>queue := tl (queue q)\<rparr>))"

definition abort :: "safe_queue \<Rightarrow> safe_queue" where
  "abort q = q\<lparr>aborted := True\<rparr>"

section \<open>Threads and the condition variable\<close>

text \<open>
  A thread is outside \<open>pop\<close> (\<open>Running\<close>), in the condition variable's wait set (\<open>Waiting\<close>),
  or removed from it by a notification and about to test the predicate again (\<open>Notified\<close>).
  \<open>pushed\<close> and \<open>popped\<close> record the history of the records that went in and came out.
\<close>

datatype tstate = Running | Waiting | Notified

record sq_sys =
  shared :: safe_queue
  threads :: "nat \<Rightarrow> tstate"
  pushed :: "bytes list"
  popped :: "bytes list"

datatype sq_event = EPush bytes | EPop nat | ESpurious nat | EAbort

definition sq_start :: sq_sys where
  "sq_start = \<lparr>shared = sq_init, threads = (\<lambda>_. Running), pushed = [], popped = []\<rparr>"

inductive sq_step :: "sq_sys \<Rightarrow> sq_event \<Rightarrow> sq_sys \<Rightarrow> bool" where
  push_none: "\<forall>t. threads s t \<noteq> Waiting \<Longrightarrow>
    sq_step s (EPush r) (s\<lparr>shared := push r (shared s), pushed := pushed s @ [r]\<rparr>)"
| push_one: "threads s t = Waiting \<Longrightarrow>
    sq_step s (EPush r) (s\<lparr>shared := push r (shared s), pushed := pushed s @ [r],
                           threads := (threads s)(t := Notified)\<rparr>)"
| pop_return: "threads s t \<noteq> Waiting \<Longrightarrow> pop (shared s) = Some (res, q) \<Longrightarrow>
    sq_step s (EPop t) (s\<lparr>shared := q, popped := popped s @ (case res of None \<Rightarrow> [] | Some r \<Rightarrow> [r]),
                          threads := (threads s)(t := Running)\<rparr>)"
| pop_block: "threads s t \<noteq> Waiting \<Longrightarrow> pop (shared s) = None \<Longrightarrow>
    sq_step s (EPop t) (s\<lparr>threads := (threads s)(t := Waiting)\<rparr>)"
| spurious: "threads s t = Waiting \<Longrightarrow>
    sq_step s (ESpurious t) (s\<lparr>threads := (threads s)(t := Notified)\<rparr>)"
| abort_all: "sq_step s EAbort
    (s\<lparr>shared := abort (shared s),
       threads := (\<lambda>t. if threads s t = Waiting then Notified else threads s t)\<rparr>)"

inductive sq_reachable :: "sq_sys \<Rightarrow> bool" where
  sq_reach_start: "sq_reachable sq_start"
| sq_reach_step: "sq_reachable s \<Longrightarrow> sq_step s e s' \<Longrightarrow> sq_reachable s'"

inductive_cases sq_step_popE: "sq_step s (EPop t) s'"
inductive_simps sq_step_abort_iff: "sq_step s EAbort s'"

definition in_pop :: "(nat \<Rightarrow> tstate) \<Rightarrow> nat set" where
  "in_pop f = {t. f t \<noteq> Running}"

definition notified :: "(nat \<Rightarrow> tstate) \<Rightarrow> nat set" where
  "notified f = {t. f t = Notified}"

definition sq_inv :: "sq_sys \<Rightarrow> bool" where
  "sq_inv s \<longleftrightarrow>
     finite (in_pop (threads s)) \<and>
     pushed s = popped s @ queue (shared s) \<and>
     (\<forall>t. threads s t = Waiting \<longrightarrow>
        \<not> aborted (shared s) \<and> length (queue (shared s)) \<le> card (notified (threads s)))"

section \<open>The interface a consumer relies on\<close>

text \<open>
  A closable first-in first-out buffer: what a consumer loop may assume of \<open>pop\<close>. \<open>items\<close>
  is the abstract content, \<open>closed\<close> says that a close was requested.
\<close>

primrec drain :: "('q \<Rightarrow> ('a option \<times> 'q) option) \<Rightarrow> nat \<Rightarrow> 'q \<Rightarrow> 'a list \<times> 'q" where
  "drain get 0 q = ([], q)"
| "drain get (Suc n) q =
     (case get q of
        None \<Rightarrow> ([], q)
      | Some (None, q') \<Rightarrow> ([], q')
      | Some (Some x, q') \<Rightarrow> (let (xs, q'') = drain get n q' in (x # xs, q'')))"

locale closable_fifo =
  fixes put :: "'a \<Rightarrow> 'q \<Rightarrow> 'q"
    and take_item :: "'q \<Rightarrow> ('a option \<times> 'q) option"
    and close :: "'q \<Rightarrow> 'q"
    and items :: "'q \<Rightarrow> 'a list"
    and closed :: "'q \<Rightarrow> bool"
  assumes items_put: "items (put x q) = items q @ [x]"
    and closed_put: "closed (put x q) = closed q"
    and items_close: "items (close q) = items q"
    and closed_close: "closed (close q)"
    and take_Cons: "items q = x # xs \<Longrightarrow> \<exists>q'. take_item q = Some (Some x, q') \<and> items q' = xs \<and> closed q' = closed q"
    and take_open: "items q = [] \<Longrightarrow> \<not> closed q \<Longrightarrow> take_item q = None"
    and take_closed: "items q = [] \<Longrightarrow> closed q \<Longrightarrow> take_item q = Some (None, q)"
begin

lemma take_blocks_iff: "take_item q = None \<longleftrightarrow> items q = [] \<and> \<not> closed q"
  using take_Cons [of q] take_open [of q] take_closed [of q] by (cases "items q") auto

lemma drain_items:
  "\<exists>q'. drain take_item n q = (take n (items q), q') \<and> items q' = drop n (items q) \<and> closed q' = closed q"
proof (induction n arbitrary: q)
  case 0
  show ?case by simp
next
  case (Suc n)
  show ?case
  proof (cases "items q")
    case Nil
    then show ?thesis
      using take_open [of q] take_closed [of q] by (cases "closed q") auto
  next
    case (Cons x xs)
    then obtain q1 where q1: "take_item q = Some (Some x, q1)" "items q1 = xs" "closed q1 = closed q"
      using take_Cons by blast
    obtain q2 where "drain take_item n q1 = (take n xs, q2)" "items q2 = drop n xs" "closed q2 = closed q1"
      using Suc.IH [of q1] q1 by auto
    with q1 Cons show ?thesis by simp
  qed
qed

lemma items_puts: "items (fold put xs q) = items q @ xs"
  by (induction xs arbitrary: q) (auto simp: items_put)

lemma drain_puts:
  assumes "items q = []"
  shows "fst (drain take_item (length xs) (fold put xs q)) = xs"
  using drain_items [of "length xs" "fold put xs q"] assms by (auto simp: items_puts)

lemma closed_puts: "closed (fold put xs q) = closed q"
  by (induction xs arbitrary: q) (auto simp: closed_put)

text \<open>After a close the consumer gets what is left and what still comes, and then the end, without blocking.\<close>
lemma drain_closed:
  "\<exists>q'. drain take_item (length (items q @ ys)) (fold put ys (close q)) = (items q @ ys, q') \<and> take_item q' = Some (None, q')"
proof -
  obtain q' where "drain take_item (length (items q @ ys)) (fold put ys (close q)) = (items q @ ys, q')" "items q' = []" "closed q'"
    using drain_items [of "length (items q @ ys)" "fold put ys (close q)"]
    by (auto simp: items_puts items_close closed_puts closed_close)
  with take_closed show ?thesis by blast
qed

lemma close_never_blocks: "take_item (close q) \<noteq> None"
  using take_blocks_iff [of "close q"] closed_close by simp

end

interpretation sq: closable_fifo push pop abort queue aborted
proof unfold_locales
  fix q :: safe_queue and x xs
  assume "queue q = x # xs"
  then show "\<exists>q'. pop q = Some (Some x, q') \<and> queue q' = xs \<and> aborted q' = aborted q"
    by (simp add: pop_def wait_pred_def)
qed (simp_all add: push_def abort_def pop_def wait_pred_def)

section \<open>Reachable states\<close>

lemma sq_inv_start: "sq_inv sq_start"
  by (simp add: sq_inv_def sq_start_def sq_init_def in_pop_def)

lemma popped_queue:
  assumes "pop q = Some (res, q')"
  shows "queue q = (case res of None \<Rightarrow> [] | Some r \<Rightarrow> [r]) @ queue q'" and "aborted q' = aborted q"
  using assms by (auto simp: pop_def wait_pred_def split: if_splits)

lemma finite_in_pop_upd [simp]: "finite (in_pop f) \<Longrightarrow> finite (in_pop (f(t := x)))"
  by (rule finite_subset [of _ "insert t (in_pop f)"]) (auto simp: in_pop_def)

lemma finite_notified [simp]: "finite (in_pop f) \<Longrightarrow> finite (notified f)"
  by (rule finite_subset [of _ "in_pop f"]) (auto simp: in_pop_def notified_def)

lemma card_notify:
  assumes "finite (in_pop f)" and "f t \<noteq> Notified"
  shows "card (notified (f(t := Notified))) = Suc (card (notified f))"
proof -
  have "notified (f(t := Notified)) = insert t (notified f)" and "t \<notin> notified f"
    using assms(2) by (auto simp: notified_def)
  with assms(1) show ?thesis by simp
qed

lemma card_unnotify:
  assumes "finite (in_pop f)" and "x \<noteq> Notified"
  shows "card (notified f) \<le> Suc (card (notified (f(t := x))))"
proof -
  have "notified (f(t := x)) = notified f - {t}"
    using assms(2) by (auto simp: notified_def)
  then show ?thesis
    using finite_notified [OF assms(1)] by (simp add: card_Diff_singleton_if) linarith
qed

lemma sq_inv_push_one:
  assumes "sq_inv s" and "threads s t = Waiting"
  shows "sq_inv (s\<lparr>shared := push r (shared s), pushed := pushed s @ [r],
                  threads := (threads s)(t := Notified)\<rparr>)"
  using assms card_notify [of "threads s" t] by (auto simp: sq_inv_def push_def)

lemma sq_inv_pop_return:
  assumes "sq_inv s" and "threads s t \<noteq> Waiting" and "pop (shared s) = Some (res, q)"
  shows "sq_inv (s\<lparr>shared := q, popped := popped s @ (case res of None \<Rightarrow> [] | Some r \<Rightarrow> [r]),
                  threads := (threads s)(t := Running)\<rparr>)"
proof -
  have fin: "finite (in_pop (threads s))" using assms(1) by (simp add: sq_inv_def)
  have "\<not> aborted q \<and> length (queue q) \<le> card (notified ((threads s)(t := Running)))"
    if w: "threads s v = Waiting" for v
  proof -
    from w assms(1) have na: "\<not> aborted (shared s)"
      and le: "length (queue (shared s)) \<le> card (notified (threads s))"
      by (auto simp: sq_inv_def)
    from na assms(3) obtain r where "res = Some r"
      by (auto simp: pop_def split: if_splits)
    with popped_queue [OF assms(3)] le card_unnotify [OF fin, of Running t] na show ?thesis by simp
  qed
  with assms(1) popped_queue [OF assms(3)] fin show ?thesis by (auto simp: sq_inv_def)
qed

lemma sq_inv_pop_block:
  assumes "sq_inv s" and "pop (shared s) = None"
  shows "sq_inv (s\<lparr>threads := (threads s)(t := Waiting)\<rparr>)"
  using assms sq.take_blocks_iff [of "shared s"] by (simp add: sq_inv_def)

lemma sq_inv_spurious:
  assumes "sq_inv s" and "threads s t = Waiting"
  shows "sq_inv (s\<lparr>threads := (threads s)(t := Notified)\<rparr>)"
  using assms card_notify [of "threads s" t] by (auto simp: sq_inv_def)

lemma sq_inv_abort:
  assumes "sq_inv s"
  shows "sq_inv (s\<lparr>shared := abort (shared s),
       threads := (\<lambda>t. if threads s t = Waiting then Notified else threads s t)\<rparr>)"
proof -
  have "in_pop (\<lambda>t. if threads s t = Waiting then Notified else threads s t) = in_pop (threads s)"
    by (auto simp: in_pop_def)
  with assms show ?thesis by (auto simp: sq_inv_def abort_def)
qed

lemma sq_step_inv: "sq_step s e s' \<Longrightarrow> sq_inv s \<Longrightarrow> sq_inv s'"
proof (induction rule: sq_step.induct)
  case (push_none s r)
  then show ?case by (simp add: sq_inv_def push_def)
qed (blast intro: sq_inv_push_one sq_inv_pop_return sq_inv_pop_block sq_inv_spurious sq_inv_abort)+

lemma sq_reachable_inv: "sq_reachable s \<Longrightarrow> sq_inv s"
  by (induction rule: sq_reachable.induct) (blast intro: sq_inv_start sq_step_inv)+

section \<open>A run with two blocked consumers\<close>

text \<open>
  Threads 0 and 1 block in \<open>pop\<close>; a \<open>push\<close> then notifies thread 0 while thread 1 stays in
  the wait set.
\<close>

definition sq_two_waiters :: sq_sys where
  "sq_two_waiters = \<lparr>shared = \<lparr>queue = [], aborted = False\<rparr>,
     threads = (\<lambda>_. Running)(0 := Waiting, 1 := Waiting), pushed = [], popped = []\<rparr>"

definition sq_one_notified :: sq_sys where
  "sq_one_notified = \<lparr>shared = \<lparr>queue = [[7]], aborted = False\<rparr>,
     threads = (\<lambda>_. Running)(0 := Notified, 1 := Waiting), pushed = [[7]], popped = []\<rparr>"

lemma sq_step_eq: "sq_step s e s' \<Longrightarrow> s' = s'' \<Longrightarrow> sq_step s e s''"
  by simp

lemma sq_two_waiters_reachable: "sq_reachable sq_two_waiters"
proof -
  let ?s1 = "sq_start\<lparr>threads := (threads sq_start)(0 := Waiting)\<rparr>"
  have "sq_step sq_start (EPop 0) ?s1"
    by (rule sq_step.pop_block) (simp_all add: sq_start_def sq_init_def pop_def wait_pred_def)
  moreover have "sq_step ?s1 (EPop 1) sq_two_waiters"
    by (rule sq_step_eq [OF sq_step.pop_block])
      (simp_all add: sq_two_waiters_def sq_start_def sq_init_def pop_def wait_pred_def)
  ultimately show ?thesis
    by (blast intro: sq_reachable.intros)
qed

lemma sq_one_notified_reachable: "sq_reachable sq_one_notified"
proof -
  have "sq_step sq_two_waiters (EPush [7]) sq_one_notified"
    by (rule sq_step_eq [OF sq_step.push_one [of _ 0]])
      (simp_all add: sq_two_waiters_def sq_one_notified_def push_def fun_upd_twist)
  with sq_two_waiters_reachable show ?thesis
    by (rule sq_reachable.sq_reach_step)
qed

section \<open>Properties\<close>

text \<open>
  C9. No record is lost, duplicated or reordered between producers and consumers: in every
  reachable state the records pushed so far are the records popped so far followed by the
  records still queued.
\<close>
theorem safe_queue_fifo:
  assumes "sq_reachable s"
  shows "pushed s = popped s @ queue (shared s)"
  using sq_reachable_inv [OF assms] by (simp add: sq_inv_def)

theorem safe_queue_fifo_witness:
  "pushed sq_one_notified = popped sq_one_notified @ queue (shared sq_one_notified)
   \<and> queue (shared sq_one_notified) = [[7]]"
  using safe_queue_fifo [OF sq_one_notified_reachable] by (simp add: sq_one_notified_def)

text \<open>Steps of \<open>pop\<close> by the given threads, one after the other.\<close>
inductive sq_pops :: "sq_sys \<Rightarrow> nat list \<Rightarrow> sq_sys \<Rightarrow> bool" where
  sq_pops_nil: "sq_pops s [] s"
| sq_pops_cons: "sq_step s (EPop u) s' \<Longrightarrow> sq_pops s' us s'' \<Longrightarrow> sq_pops s (u # us) s''"

lemma awake_threads_pop:
  assumes "length us = length (queue (shared s))" and "\<forall>u \<in> set us. threads s u \<noteq> Waiting"
  shows "\<exists>s'. sq_pops s us s' \<and> queue (shared s') = [] \<and> popped s' = popped s @ queue (shared s)"
  using assms
proof (induction us arbitrary: s)
  case Nil
  then show ?case by (auto intro: sq_pops_nil)
next
  case (Cons u us)
  from Cons.prems(1) obtain r rs where q: "queue (shared s) = r # rs" by (cases "queue (shared s)") auto
  then have "pop (shared s) = Some (Some r, shared s\<lparr>queue := rs\<rparr>)" by (simp add: pop_def wait_pred_def)
  from sq_step.pop_return [OF _ this, of u] Cons.prems(2)
  have st: "sq_step s (EPop u) (s\<lparr>shared := shared s\<lparr>queue := rs\<rparr>, popped := popped s @ [r], threads := (threads s)(u := Running)\<rparr>)" (is "sq_step s _ ?s1")
    by simp
  have "length us = length (queue (shared ?s1))" "\<forall>v \<in> set us. threads ?s1 v \<noteq> Waiting" using Cons.prems q by simp_all
  from Cons.IH [OF this] obtain s' where "sq_pops ?s1 us s'" "queue (shared s') = []" "popped s' = popped s @ r # rs" by auto
  with sq_pops_cons [OF st] q show ?case by auto
qed

text \<open>
  C17. No wake-up is lost: whenever a thread sleeps in \<open>cond_.wait\<close>, the queue is not aborted, for every queued record a thread of its own
  has been notified, and these threads alone, each with its next step, take all the queued records in order.
\<close>
theorem safe_queue_no_lost_wakeup:
  assumes "sq_reachable s" and "threads s t = Waiting"
  shows "\<not> aborted (shared s) \<and> (\<exists>us s'. distinct us \<and> length us = length (queue (shared s)) \<and> (\<forall>u \<in> set us. threads s u = Notified)
    \<and> sq_pops s us s' \<and> queue (shared s') = [] \<and> popped s' = popped s @ queue (shared s))"
proof -
  from sq_reachable_inv [OF assms(1)] assms(2)
  have na: "\<not> aborted (shared s)" and le: "length (queue (shared s)) \<le> card (notified (threads s))"
    and fin: "finite (notified (threads s))" by (auto simp: sq_inv_def)
  from le obtain U where U: "U \<subseteq> notified (threads s)" "card U = length (queue (shared s))"
    by (meson obtain_subset_with_card_n)
  with fin obtain us where us: "distinct us" "set us = U" by (meson finite_distinct_list finite_subset)
  then have l: "length us = length (queue (shared s))" using U(2) distinct_card [OF us(1)] by simp
  have n: "\<forall>u \<in> set us. threads s u = Notified" using us(2) U(1) by (auto simp: notified_def)
  with awake_threads_pop [OF l] us(1) l na show ?thesis by force
qed

theorem safe_queue_no_lost_wakeup_witness:
  "\<exists>us s'. distinct us \<and> length us = 1 \<and> (\<forall>u \<in> set us. threads sq_one_notified u = Notified)
     \<and> sq_pops sq_one_notified us s' \<and> popped s' = [[7]]"
proof -
  have "threads sq_one_notified 1 = Waiting" by (simp add: sq_one_notified_def)
  from safe_queue_no_lost_wakeup [OF sq_one_notified_reachable this]
  have "\<exists>us s'. distinct us \<and> length us = length (queue (shared sq_one_notified)) \<and> (\<forall>u \<in> set us. threads sq_one_notified u = Notified)
    \<and> sq_pops sq_one_notified us s' \<and> popped s' = popped sq_one_notified @ queue (shared sq_one_notified)" by blast
  moreover have "length (queue (shared sq_one_notified)) = 1" "popped sq_one_notified @ queue (shared sq_one_notified) = [[7]]"
    by (simp_all add: sq_one_notified_def)
  ultimately show ?thesis by (simp only:)
qed

text \<open>
  C18. \<open>abort\<close> releases every consumer: once the queue is aborted no thread is in the wait set,
  and no later call of \<open>pop\<close> blocks.
\<close>
theorem safe_queue_abort_releases:
  assumes "sq_reachable s" and "aborted (shared s)"
  shows "threads s t \<noteq> Waiting \<and> pop (shared s) \<noteq> None"
  using sq_reachable_inv [OF assms(1)] assms(2) sq.take_blocks_iff [of "shared s"]
  by (auto simp: sq_inv_def)

theorem safe_queue_abort_releases_witness:
  "\<exists>s. sq_step sq_two_waiters EAbort s \<and> threads s 0 \<noteq> Waiting \<and> pop (shared s) \<noteq> None"
proof -
  obtain s where s: "sq_step sq_two_waiters EAbort s" "aborted (shared s)"
    by (auto simp: sq_step_abort_iff abort_def)
  from sq_reachable.sq_reach_step [OF sq_two_waiters_reachable s(1)] s(2)
  have "threads s 0 \<noteq> Waiting \<and> pop (shared s) \<noteq> None"
    by (rule safe_queue_abort_releases)
  with s show ?thesis by blast
qed

text \<open>
  C19. \<open>abort\<close> loses nothing: after any pushes into an empty queue, any number of calls of \<open>pop\<close>, \<open>abort\<close> and any later pushes, the calls of
  \<open>pop\<close> return exactly the records that were not yet taken, in order, and the next one returns \<open>nullopt\<close>; none of them blocks.
\<close>
theorem safe_queue_drain:
  "\<exists>q q'. drain pop k (fold push rs sq_init) = (take k rs, q)
    \<and> drain pop (length (drop k rs @ rs')) (fold push rs' (abort q)) = (drop k rs @ rs', q') \<and> pop q' = Some (None, q')"
proof -
  obtain q where q: "drain pop k (fold push rs sq_init) = (take k rs, q)" "queue q = drop k rs"
    using sq.drain_items [of k "fold push rs sq_init"] by (auto simp: sq.items_puts sq_init_def)
  from sq.drain_closed [of q rs'] q show ?thesis by auto
qed

end
