(* ===== verification/Sensor_Data.thy ===== *)
theory Sensor_Data
  imports Prelude
begin

text \<open>
  The message both tiers exchange (\<^verbatim>\<open>src/proto/sensor_data.proto\<close>). The two floats are their
  IEEE-754 bit patterns: no component computes with them, they are stored, copied and printed.
\<close>

record sensor_data =
  device_id :: bytes
  temperature :: u32
  humidity :: u32
  uptime_ms :: u32

end
