(* ===== verification/Gateway_Service.thy ===== *)
theory Gateway_Service
  imports Safe_Queue Sensor_Data
begin

text \<open>
  The gateway daemon: the MQTT wrapper (\<^verbatim>\<open>src/gateway-service/src/mqtt_wrapper.hpp\<close>) and the
  main program with its worker thread (\<^verbatim>\<open>src/gateway-service/src/main.cpp\<close>). The Paho client
  and the generated \<open>ParseFromString\<close> are not part of the repository: they are the parameters
  \<open>P\<close> and \<open>parse\<close>. A client call, with the wait for its token, returns, throws, or never comes back; an exception that leaves the
  destructor ends the process in \<open>std::terminate\<close>. A blocked \<open>pop\<close> and a call that never comes back are
  steps that are not enabled (that a sleeping worker is woken is \<open>Safe_Queue\<close>'s concern).
\<close>

section \<open>The MQTT wrapper\<close>

datatype 'a outcome = Returns 'a | Throws 'a | Blocks

record 'c paho =
  p_connect :: "'c \<Rightarrow> string \<Rightarrow> bool \<Rightarrow> 'c outcome"
  p_subscribe :: "'c \<Rightarrow> string \<Rightarrow> nat \<Rightarrow> 'c outcome"
  p_is_connected :: "'c \<Rightarrow> bool"
  p_disconnect :: "'c \<Rightarrow> 'c outcome"

text \<open>
  \<open>MqttWrapper::connect\<close>: connect with the trust store and a clean session, wait, subscribe. Every exception is caught.
\<close>
definition wrapper_connect :: "'c paho \<Rightarrow> string \<Rightarrow> 'c \<Rightarrow> (bool \<times> 'c) outcome" where
  "wrapper_connect P ca_path c =
     (case p_connect P c ca_path True of
        Blocks \<Rightarrow> Blocks
      | Throws c1 \<Rightarrow> Returns (False, c1)
      | Returns c1 \<Rightarrow>
          (case p_subscribe P c1 ''industrial/telemetry/#'' 1 of
             Blocks \<Rightarrow> Blocks
           | Throws c2 \<Rightarrow> Returns (False, c2)
           | Returns c2 \<Rightarrow> Returns (True, c2)))"

text \<open>\<open>MqttWrapper::~MqttWrapper\<close>: disconnect and wait, with no handler around it.\<close>
definition wrapper_destroy :: "'c paho \<Rightarrow> 'c \<Rightarrow> 'c outcome" where
  "wrapper_destroy P c = (if p_is_connected P c then p_disconnect P c else Returns c)"

text \<open>\<open>MqttWrapper::message_arrived\<close>: the producer.\<close>
definition message_arrived :: "bytes \<Rightarrow> safe_queue \<Rightarrow> safe_queue" where
  "message_arrived payload q = push payload q"

section \<open>The daemon\<close>

datatype worker_pc = WLoop | WPop | WExit

text \<open>\<open>MTerminated\<close>: the process was ended by an exception that left the destructor.\<close>
datatype main_pc = MConnect | MSleep | MAbort | MJoin | MDestroy | MDone | MTerminated

text \<open>
  \<open>arrived\<close> and \<open>taken\<close> are histories: the payloads the callback pushed and the worker popped;
  \<open>ingested\<close> is what the worker printed (node and temperature).
\<close>

record 'c gateway =
  running :: bool
  telemetry_queue :: safe_queue
  worker :: worker_pc
  main_at :: main_pc
  client :: 'c
  ready :: bool
  arrived :: "bytes list"
  taken :: "bytes list"
  ingested :: "(bytes \<times> u32) list"

definition gw_init :: "'c \<Rightarrow> 'c gateway" where
  "gw_init c = \<lparr>running = True, telemetry_queue = sq_init, worker = WLoop, main_at = MConnect,
     client = c, ready = False, arrived = [], taken = [], ingested = []\<rparr>"

text \<open>One record handled by the worker's loop body.\<close>
definition ingest :: "(bytes \<Rightarrow> sensor_data option) \<Rightarrow> bytes \<Rightarrow> (bytes \<times> u32) list" where
  "ingest parse raw = (case parse raw of None \<Rightarrow> [] | Some msg \<Rightarrow> [(device_id msg, temperature msg)])"

datatype label = Signal | Arrive bytes | Internal

inductive gw_step :: "'c paho \<Rightarrow> (bytes \<Rightarrow> sensor_data option) \<Rightarrow> 'c gateway \<Rightarrow> label \<Rightarrow> 'c gateway \<Rightarrow> bool"
  for P parse where
  gw_signal: "gw_step P parse s Signal (s\<lparr>running := False\<rparr>)"
| gw_arrive: "main_at s \<notin> {MDone, MTerminated} \<Longrightarrow>
    gw_step P parse s (Arrive r) (s\<lparr>telemetry_queue := message_arrived r (telemetry_queue s), arrived := arrived s @ [r]\<rparr>)"
| gw_w_test: "worker s = WLoop \<Longrightarrow>
    gw_step P parse s Internal (s\<lparr>worker := (if running s then WPop else WExit)\<rparr>)"
| gw_w_null: "worker s = WPop \<Longrightarrow> pop (telemetry_queue s) = Some (None, q) \<Longrightarrow>
    gw_step P parse s Internal (s\<lparr>telemetry_queue := q, worker := WExit\<rparr>)"
| gw_w_item: "worker s = WPop \<Longrightarrow> pop (telemetry_queue s) = Some (Some r, q) \<Longrightarrow>
    gw_step P parse s Internal (s\<lparr>telemetry_queue := q, worker := WLoop, taken := taken s @ [r],
                                  ingested := ingested s @ ingest parse r\<rparr>)"
| gw_m_connect: "main_at s = MConnect \<Longrightarrow>
    wrapper_connect P ''/etc/mosquitto/certs/ca.crt'' (client s) = Returns (ok, c) \<Longrightarrow>
    gw_step P parse s Internal (s\<lparr>client := c, ready := ok, main_at := MSleep\<rparr>)"
| gw_m_leave: "main_at s = MSleep \<Longrightarrow> \<not> running s \<Longrightarrow>
    gw_step P parse s Internal (s\<lparr>main_at := MAbort\<rparr>)"
| gw_m_abort: "main_at s = MAbort \<Longrightarrow>
    gw_step P parse s Internal (s\<lparr>telemetry_queue := abort (telemetry_queue s), main_at := MJoin\<rparr>)"
| gw_m_join: "main_at s = MJoin \<Longrightarrow> worker s = WExit \<Longrightarrow>
    gw_step P parse s Internal (s\<lparr>main_at := MDestroy\<rparr>)"
| gw_m_destroy: "main_at s = MDestroy \<Longrightarrow> wrapper_destroy P (client s) = Returns c \<Longrightarrow>
    gw_step P parse s Internal (s\<lparr>client := c, main_at := MDone\<rparr>)"
| gw_m_terminate: "main_at s = MDestroy \<Longrightarrow> wrapper_destroy P (client s) = Throws c \<Longrightarrow>
    gw_step P parse s Internal (s\<lparr>client := c, main_at := MTerminated\<rparr>)"

inductive gw_reachable :: "'c paho \<Rightarrow> (bytes \<Rightarrow> sensor_data option) \<Rightarrow> 'c \<Rightarrow> 'c gateway \<Rightarrow> bool"
  for P parse c0 where
  gw_reach_init: "gw_reachable P parse c0 (gw_init c0)"
| gw_reach_step: "gw_reachable P parse c0 s \<Longrightarrow> gw_step P parse s l s' \<Longrightarrow> gw_reachable P parse c0 s'"

text \<open>A finite run, with the labels of its steps.\<close>
inductive gw_run :: "'c paho \<Rightarrow> (bytes \<Rightarrow> sensor_data option) \<Rightarrow> 'c gateway \<Rightarrow> label list \<Rightarrow> 'c gateway \<Rightarrow> bool"
  for P parse where
  gw_run_nil: "gw_run P parse s [] s"
| gw_run_cons: "gw_step P parse s l s' \<Longrightarrow> gw_run P parse s' ls s'' \<Longrightarrow> gw_run P parse s (l # ls) s''"

inductive_simps gw_run_Nil_iff: "gw_run P parse s [] s'"
inductive_simps gw_run_Cons_iff: "gw_run P parse s (l # ls) s'"

definition gw_inv :: "(bytes \<Rightarrow> sensor_data option) \<Rightarrow> 'c gateway \<Rightarrow> bool" where
  "gw_inv parse s \<longleftrightarrow>
     arrived s = taken s @ queue (telemetry_queue s) \<and>
     ingested s = concat (map (ingest parse) (taken s)) \<and>
     (main_at s \<in> {MAbort, MJoin, MDestroy, MDone, MTerminated} \<longrightarrow> \<not> running s) \<and>
     (aborted (telemetry_queue s) \<longleftrightarrow> main_at s \<in> {MJoin, MDestroy, MDone, MTerminated}) \<and>
     (main_at s \<in> {MDestroy, MDone, MTerminated} \<longrightarrow> worker s = WExit)"

text \<open>
  How far the daemon is from having returned, once \<open>running\<close> is false: the stages left to the
  main thread and to the worker.
\<close>
definition main_rank :: "main_pc \<Rightarrow> nat" where
  "main_rank m = (case m of MConnect \<Rightarrow> 5 | MSleep \<Rightarrow> 4 | MAbort \<Rightarrow> 3 | MJoin \<Rightarrow> 2 | MDestroy \<Rightarrow> 1 | MDone \<Rightarrow> 0 | MTerminated \<Rightarrow> 0)"

definition worker_rank :: "worker_pc \<Rightarrow> nat" where
  "worker_rank w = (case w of WPop \<Rightarrow> 2 | WLoop \<Rightarrow> 1 | WExit \<Rightarrow> 0)"

definition shutdown_rank :: "'c gateway \<Rightarrow> nat" where
  "shutdown_rank s = main_rank (main_at s) + worker_rank (worker s)"

section \<open>The invariant\<close>

lemma gw_inv_init: "gw_inv parse (gw_init c)"
  by (simp add: gw_inv_def gw_init_def sq_init_def)

lemma gw_step_inv: "gw_step P parse s l s' \<Longrightarrow> gw_inv parse s \<Longrightarrow> gw_inv parse s'"
proof (induction rule: gw_step.induct)
  case (gw_w_null s q)
  then show ?case using popped_queue [OF gw_w_null(2)] by (auto simp: gw_inv_def)
next
  case (gw_w_item s r q)
  then show ?case using popped_queue [OF gw_w_item(2)] by (auto simp: gw_inv_def)
qed (auto simp: gw_inv_def message_arrived_def push_def abort_def)

lemma gw_reachable_inv: "gw_reachable P parse c0 s \<Longrightarrow> gw_inv parse s"
  by (induction rule: gw_reachable.induct) (blast intro: gw_inv_init gw_step_inv)+

section \<open>Shutting down\<close>

lemma stopped_step:
  assumes "gw_step P parse s l s'" and "\<not> running s"
  shows "\<not> running s'"
    and "length (taken s') + (if worker s' = WPop then 1 else 0) \<le> length (taken s) + (if worker s = WPop then 1 else 0)"
  using assms by (induction rule: gw_step.induct) auto

lemma stopped_run:
  assumes "gw_run P parse s ls s'" and "\<not> running s"
  shows "length (taken s') + (if worker s' = WPop then 1 else 0) \<le> length (taken s) + (if worker s = WPop then 1 else 0)"
  using assms
proof (induction rule: gw_run.induct)
  case (gw_run_cons s l s' ls s'')
  then show ?case
    using stopped_step [OF gw_run_cons.hyps(1)] by (meson le_trans)
qed simp

lemma internal_step_rank:
  assumes "gw_step P parse s Internal s'" and "\<not> running s"
  shows "shutdown_rank s' < shutdown_rank s"
  using assms
  by (cases rule: gw_step.cases) (auto simp: shutdown_rank_def main_rank_def worker_rank_def)

text \<open>Every call of the client comes back: \<open>wait\<close> ends when the library completes the token, with success or with an exception.\<close>
definition calls_return :: "'c paho \<Rightarrow> bool" where
  "calls_return P \<longleftrightarrow> (\<forall>c ca clean. p_connect P c ca clean \<noteq> Blocks) \<and> (\<forall>c t q. p_subscribe P c t q \<noteq> Blocks) \<and> (\<forall>c. p_disconnect P c \<noteq> Blocks)"

lemma wrapper_connect_returns: "calls_return P \<Longrightarrow> \<exists>ok c'. wrapper_connect P ca c = Returns (ok, c')"
  by (auto simp: calls_return_def wrapper_connect_def split: outcome.splits)

lemma wrapper_destroy_ends:
  assumes "calls_return P"
  obtains c' where "wrapper_destroy P c = Returns c'" | c' where "wrapper_destroy P c = Throws c'"
  using assms by (cases "wrapper_destroy P c") (auto simp: calls_return_def wrapper_destroy_def split: if_splits)

definition gw_ended :: "'c gateway \<Rightarrow> bool" where
  "gw_ended s \<longleftrightarrow> main_at s = MDone \<or> main_at s = MTerminated"

lemma stopped_main_step:
  assumes "calls_return P" and "\<not> running s" and "\<not> gw_ended s" and "main_at s \<noteq> MJoin"
  shows "\<exists>s'. gw_step P parse s Internal s'"
proof (cases "main_at s")
  case MConnect
  with wrapper_connect_returns [OF assms(1), of "''/etc/mosquitto/certs/ca.crt''" "client s"] show ?thesis by (blast intro: gw_m_connect)
next
  case MDestroy
  from assms(1) show ?thesis by (rule wrapper_destroy_ends [of _ "client s"]) (blast intro: MDestroy gw_m_destroy gw_m_terminate)+
next
  case MSleep
  from gw_m_leave [OF this assms(2)] show ?thesis by blast
next
  case MAbort
  from gw_m_abort [OF this] show ?thesis by blast
qed (use assms in \<open>simp_all add: gw_ended_def\<close>)

lemma stopped_worker_step:
  assumes "aborted (telemetry_queue s)" and "worker s \<noteq> WExit"
  shows "\<exists>s'. gw_step P parse s Internal s'"
proof (cases "worker s")
  case WPop
  have "pop (telemetry_queue s) \<noteq> None"
    using assms(1) sq.take_blocks_iff [of "telemetry_queue s"] by simp
  then obtain res q where "pop (telemetry_queue s) = Some (res, q)" by auto
  with WPop show ?thesis by (cases res) (blast intro: gw_w_null gw_w_item)+
qed (use assms in \<open>blast intro: gw_step.intros\<close>)+

lemma stopped_progress:
  assumes "calls_return P" and "gw_inv parse s" and "\<not> running s" and "\<not> gw_ended s"
  shows "\<exists>s'. gw_step P parse s Internal s'"
proof (cases "main_at s = MJoin")
  case True
  with assms(2) have "aborted (telemetry_queue s)" by (simp add: gw_inv_def)
  with True show ?thesis
    by (cases "worker s = WExit") (blast intro: gw_m_join stopped_worker_step)+
qed (use assms stopped_main_step in blast)

text \<open>The process is terminated only by a disconnect that threw.\<close>
definition disconnect_threw :: "'c paho \<Rightarrow> 'c gateway \<Rightarrow> bool" where
  "disconnect_threw P s \<longleftrightarrow> (\<exists>c. p_is_connected P c \<and> p_disconnect P c = Throws (client s))"

lemma terminated_step:
  assumes "gw_step P parse s l s'" and "main_at s' = MTerminated" and "main_at s = MTerminated \<longrightarrow> disconnect_threw P s"
  shows "disconnect_threw P s'"
  using assms by (induction rule: gw_step.induct) (auto simp: disconnect_threw_def wrapper_destroy_def split: if_splits)

lemma gw_reachable_terminated: "gw_reachable P parse c0 s \<Longrightarrow> main_at s = MTerminated \<longrightarrow> disconnect_threw P s"
  by (induction rule: gw_reachable.induct) (simp add: gw_init_def, blast intro: terminated_step)

lemma gw_reachable_run: "gw_run P parse s ls s' \<Longrightarrow> gw_reachable P parse c0 s \<Longrightarrow> gw_reachable P parse c0 s'"
  by (induction rule: gw_run.induct) (auto intro: gw_reach_step)

lemma shutdown_run:
  assumes "calls_return P" and "gw_inv parse s" and "\<not> running s"
  shows "\<exists>n s'. n \<le> shutdown_rank s \<and> gw_run P parse s (replicate n Internal) s' \<and> gw_ended s' \<and> worker s' = WExit"
  using assms(2,3)
proof (induction "shutdown_rank s" arbitrary: s rule: less_induct)
  case less
  show ?case
  proof (cases "gw_ended s")
    case True
    with less.prems(1) have "worker s = WExit" by (auto simp: gw_inv_def gw_ended_def)
    with True gw_run_nil show ?thesis by (intro exI [of _ 0]) auto
  next
    case False
    then obtain s1 where s1: "gw_step P parse s Internal s1"
      using stopped_progress [OF assms(1)] less.prems by blast
    have rank: "shutdown_rank s1 < shutdown_rank s"
      using internal_step_rank [OF s1] less.prems(2) by blast
    obtain n s2 where "n \<le> shutdown_rank s1" "gw_run P parse s1 (replicate n Internal) s2"
      "gw_ended s2" "worker s2 = WExit"
      using less.hyps [OF rank gw_step_inv [OF s1 less.prems(1)] stopped_step(1) [OF s1 less.prems(2)]] by blast
    with s1 rank show ?thesis
      by (intro exI [of _ "Suc n"] exI [of _ s2]) (auto intro: gw_run.gw_run_cons)
  qed
qed

text \<open>A disconnect that never comes back keeps the daemon from returning: no internal step is left.\<close>
lemma destructor_hangs:
  assumes "gw_reachable P parse c0 s" and "main_at s = MDestroy" and "p_is_connected P (client s)" and "p_disconnect P (client s) = Blocks"
  shows "\<not> (\<exists>s'. gw_step P parse s Internal s')"
proof
  assume "\<exists>s'. gw_step P parse s Internal s'"
  moreover have "worker s = WExit" using gw_reachable_inv [OF assms(1)] assms(2) by (simp add: gw_inv_def)
  ultimately show False using assms(2-4) by (auto elim!: gw_step.cases simp: wrapper_destroy_def)
qed

section \<open>A concrete client and run\<close>

text \<open>A client that connects, and a parser that accepts one-byte payloads.\<close>

definition demo_paho :: "bool paho" where
  "demo_paho = \<lparr>p_connect = (\<lambda>c ca clean. Returns True), p_subscribe = (\<lambda>c topic qos. Returns c),
     p_is_connected = (\<lambda>c. c), p_disconnect = (\<lambda>c. Returns False)\<rparr>"

definition demo_parse :: "bytes \<Rightarrow> sensor_data option" where
  "demo_parse raw = (if length raw = 1 then Some \<lparr>device_id = raw, temperature = 5, humidity = 6, uptime_ms = 7\<rparr> else None)"

text \<open>After: a parsable and an unparsable payload arrive, the worker has taken the first, a signal comes.\<close>
definition demo_stopped :: "bool gateway" where
  "demo_stopped = (gw_init False)\<lparr>running := False, telemetry_queue := \<lparr>queue = [[1, 2]], aborted = False\<rparr>,
     arrived := [[9], [1, 2]], taken := [[9]], ingested := [([9], 5)]\<rparr>"

lemma gw_step_eq: "gw_step P parse s l s' \<Longrightarrow> s' = s'' \<Longrightarrow> gw_step P parse s l s''"
  by simp

lemma demo_stopped_run: "gw_reachable demo_paho demo_parse False demo_stopped"
proof -
  let ?s1 = "(gw_init False)\<lparr>telemetry_queue := \<lparr>queue = [[9]], aborted = False\<rparr>, arrived := [[9]]\<rparr>"
  let ?s2 = "?s1\<lparr>telemetry_queue := \<lparr>queue = [[9], [1, 2]], aborted = False\<rparr>, arrived := [[9], [1, 2]]\<rparr>"
  let ?s3 = "?s2\<lparr>worker := WPop\<rparr>"
  let ?s4 = "?s3\<lparr>telemetry_queue := \<lparr>queue = [[1, 2]], aborted = False\<rparr>, worker := WLoop, taken := [[9]], ingested := [([9], 5)]\<rparr>"
  have a1: "gw_step demo_paho demo_parse (gw_init False) (Arrive [9]) ?s1"
    by (rule gw_step_eq [OF gw_arrive]) (simp_all add: gw_init_def message_arrived_def push_def sq_init_def)
  have a2: "gw_step demo_paho demo_parse ?s1 (Arrive [1, 2]) ?s2"
    by (rule gw_step_eq [OF gw_arrive]) (simp_all add: gw_init_def message_arrived_def push_def)
  have a3: "gw_step demo_paho demo_parse ?s2 Internal ?s3"
    by (rule gw_step_eq [OF gw_w_test]) (simp_all add: gw_init_def)
  have a4: "gw_step demo_paho demo_parse ?s3 Internal ?s4"
    by (rule gw_step_eq [OF gw_w_item [of _ "[9]" "\<lparr>queue = [[1, 2]], aborted = False\<rparr>"]]) (simp_all add: gw_init_def pop_def wait_pred_def ingest_def demo_parse_def)
  have a5: "gw_step demo_paho demo_parse ?s4 Signal demo_stopped"
    by (rule gw_step_eq [OF gw_signal]) (simp add: demo_stopped_def gw_init_def)
  show ?thesis
    by (rule gw_reach_step [OF gw_reach_step [OF gw_reach_step [OF gw_reach_step [OF gw_reach_step
          [OF gw_reach_init a1] a2] a3] a4] a5])
qed

section \<open>Properties\<close>

text \<open>
  C10. Telemetry is ingested in order of arrival: in every reachable state of the daemon, what the
  worker has printed is exactly the parsable payloads among a prefix of the arrived ones, and the
  rest of the arrived payloads is still queued.
\<close>
theorem gateway_ingests_in_order:
  assumes "gw_reachable P parse c0 s"
  shows "arrived s = taken s @ queue (telemetry_queue s) \<and> ingested s = concat (map (ingest parse) (taken s))"
  using gw_reachable_inv [OF assms] by (simp add: gw_inv_def)

theorem gateway_ingests_in_order_witness:
  "arrived demo_stopped = taken demo_stopped @ queue (telemetry_queue demo_stopped)
   \<and> ingested demo_stopped = concat (map (ingest demo_parse) (taken demo_stopped))"
  by (rule gateway_ingests_in_order [OF demo_stopped_run])

text \<open>
  C20. After a stop signal the worker takes at most one more record, the one whose \<open>pop\<close> was already
  under way, whatever arrives and in whatever order the threads are scheduled.
\<close>
theorem gateway_stop_takes_at_most_one:
  assumes "gw_run P parse s ls s'" and "\<not> running s"
  shows "length (taken s') \<le> Suc (length (taken s))"
  using stopped_run [OF assms] by (simp split: if_splits)

theorem gateway_stop_takes_at_most_one_witness:
  "gw_run demo_paho demo_parse demo_stopped [Internal] (demo_stopped\<lparr>worker := WExit\<rparr>)
   \<and> length (taken (demo_stopped\<lparr>worker := WExit\<rparr>)) \<le> Suc (length (taken demo_stopped))"
proof -
  have stop: "\<not> running demo_stopped" by (simp add: demo_stopped_def)
  have "gw_step demo_paho demo_parse demo_stopped Internal (demo_stopped\<lparr>worker := WExit\<rparr>)"
    by (rule gw_step_eq [OF gw_w_test]) (simp_all add: demo_stopped_def gw_init_def)
  then have run: "gw_run demo_paho demo_parse demo_stopped [Internal] (demo_stopped\<lparr>worker := WExit\<rparr>)"
    by (simp add: gw_run_Cons_iff gw_run_Nil_iff)
  from run gateway_stop_takes_at_most_one [OF run stop] show ?thesis by blast
qed

text \<open>
  C21. The shutdown terminates and does not deadlock, provided that the calls of the Paho client come back: from every reachable state in which
  \<open>running\<close> is false, an internal step is enabled until the daemon has ended, every internal step of main or worker
  lowers a rank that is at most 7, and at most 7 of them bring the daemon to its end with the worker joined. The end is the return of
  \<open>main\<close>, unless the client was still connected and the wait for its disconnect threw: the destructor lets
  the exception out and the process is terminated.
\<close>
theorem gateway_shutdown_terminates:
  assumes "calls_return P" and "gw_reachable P parse c0 s" and "\<not> running s"
  shows "(\<not> gw_ended s \<longrightarrow> (\<exists>s'. gw_step P parse s Internal s')) \<and>
    (\<forall>s'. gw_step P parse s Internal s' \<longrightarrow> shutdown_rank s' < shutdown_rank s) \<and>
    (\<exists>n s'. n \<le> 7 \<and> gw_run P parse s (replicate n Internal) s' \<and> worker s' = WExit
       \<and> (main_at s' = MDone \<or> main_at s' = MTerminated \<and> disconnect_threw P s'))"
proof -
  have r: "shutdown_rank s \<le> 7"
    by (simp add: shutdown_rank_def main_rank_def worker_rank_def split: main_pc.splits worker_pc.splits)
  obtain n s' where s': "n \<le> shutdown_rank s" "gw_run P parse s (replicate n Internal) s'" "gw_ended s'" "worker s' = WExit"
    using shutdown_run [OF assms(1) gw_reachable_inv [OF assms(2)] assms(3)] by blast
  have "main_at s' = MDone \<or> main_at s' = MTerminated \<and> disconnect_threw P s'"
    using s'(3) gw_reachable_terminated [OF gw_reachable_run [OF s'(2) assms(2)]] by (auto simp: gw_ended_def)
  with s' r stopped_progress [OF assms(1) gw_reachable_inv [OF assms(2)] assms(3)] internal_step_rank assms(3)
  show ?thesis by (meson le_trans)
qed

text \<open>A client whose disconnect fails.\<close>
definition failing_paho :: "bool paho" where
  "failing_paho = demo_paho\<lparr>p_disconnect := (\<lambda>c. Throws c)\<rparr>"

theorem gateway_shutdown_terminates_witness:
  "\<exists>n s'. n \<le> 7 \<and> gw_run demo_paho demo_parse demo_stopped (replicate n Internal) s' \<and> main_at s' = MDone \<and> worker s' = WExit"
proof -
  have c: "calls_return demo_paho" and d: "\<not> disconnect_threw demo_paho s" for s
    by (simp_all add: calls_return_def disconnect_threw_def demo_paho_def)
  from gateway_shutdown_terminates [OF c demo_stopped_run] d show ?thesis by (auto simp: demo_stopped_def)
qed

text \<open>With the failing client the connected daemon is terminated by its destructor.\<close>
lemma destructor_terminates:
  "wrapper_destroy failing_paho True = Throws True"
  "main_at s = MDestroy \<Longrightarrow> client s \<Longrightarrow> \<exists>s'. gw_step failing_paho parse s Internal s' \<and> main_at s' = MTerminated"
proof -
  show t: "wrapper_destroy failing_paho True = Throws True" by (simp add: wrapper_destroy_def failing_paho_def demo_paho_def)
  assume "main_at s = MDestroy" "client s"
  with t gw_m_terminate [of s failing_paho True parse] show "\<exists>s'. gw_step failing_paho parse s Internal s' \<and> main_at s' = MTerminated" by auto
qed

end
