(* ===== verification/Mqtt_Msg.thy ===== *)
theory Mqtt_Msg
  imports Prelude "HOL-Library.Signed_Division"
begin

unbundle bit_operations_syntax

text \<open>
  The MQTT 3.1/3.1.1 packet builder and the packet readers of the client
  (\<^verbatim>\<open>espressif__mqtt/lib/mqtt_msg.c\<close>, \<^verbatim>\<open>lib/include/mqtt_msg.h\<close>). The target has 32-bit \<open>int\<close>
  and \<open>size_t\<close>: sizes are natural numbers with the reduction modulo \<open>2^32\<close> written out, \<open>sz\<close> is the
  conversion of an \<open>int\<close> to \<open>size_t\<close> and \<open>s32\<close> the conversion back. A write outside the connection's
  buffer or outside a local array, a read past the source and a shift by more than the width are
  \<open>Inl Overrun\<close>; the random source running dry is \<open>Inl NoEntropy\<close>, a loop that does not end \<open>Inl Hang\<close>. A pointer into the buffer is an
  offset, a C string is its bytes without the terminator, \<open>None\<close> is \<open>NULL\<close>.
\<close>

section \<open>Data\<close>

datatype fault = Overrun | NoEntropy | Hang | Null_Pointer | Double_Free

text \<open>What follows a step that may fault.\<close>
definition lft :: "fault + 'a \<Rightarrow> ('a \<Rightarrow> fault + 'b) \<Rightarrow> fault + 'b" where
  "lft r k = (case r of Inl f \<Rightarrow> Inl f | Inr a \<Rightarrow> k a)"

definition sz :: "int \<Rightarrow> nat" where
  "sz x = nat (x mod 4294967296)"

definition s32 :: "int \<Rightarrow> int" where
  "s32 x = (x + 2147483648) mod 4294967296 - 2147483648"

datatype protocol_ver = MQTT_PROTOCOL_UNDEFINED | MQTT_PROTOCOL_V_3_1 | MQTT_PROTOCOL_V_3_1_1 | MQTT_PROTOCOL_V_5

record mqtt_message =
  m_data :: nat
  m_length :: nat
  m_frag_total :: nat
  m_frag_offset :: nat

record mqtt_connect_info =
  client_id :: "bytes option"
  username :: "bytes option"
  password :: "bytes option"
  will_topic :: "bytes option"
  will_message :: "bytes option"
  keepalive :: int
  will_length :: int
  will_qos :: int
  will_retain :: int
  clean_session :: int
  protocol_ver :: protocol_ver

text \<open>
  \<open>id_incremental\<close> is the build option \<open>MQTT_MSG_ID_INCREMENTAL\<close>; \<open>entropy\<close> is what the coming calls
  of \<open>esp_random\<close> return.
\<close>
record mqtt_connection =
  outbound :: mqtt_message
  id_incremental :: bool
  last_message_id :: nat
  entropy :: "nat list"
  cbuffer :: bytes
  cbuffer_length :: nat

abbreviation (input) MQTT_MSG_TYPE_CONNECT :: int where "MQTT_MSG_TYPE_CONNECT \<equiv> 1"
abbreviation (input) MQTT_MSG_TYPE_CONNACK :: int where "MQTT_MSG_TYPE_CONNACK \<equiv> 2"
abbreviation (input) MQTT_MSG_TYPE_PUBLISH :: int where "MQTT_MSG_TYPE_PUBLISH \<equiv> 3"
abbreviation (input) MQTT_MSG_TYPE_PUBACK :: int where "MQTT_MSG_TYPE_PUBACK \<equiv> 4"
abbreviation (input) MQTT_MSG_TYPE_PUBREC :: int where "MQTT_MSG_TYPE_PUBREC \<equiv> 5"
abbreviation (input) MQTT_MSG_TYPE_PUBREL :: int where "MQTT_MSG_TYPE_PUBREL \<equiv> 6"
abbreviation (input) MQTT_MSG_TYPE_PUBCOMP :: int where "MQTT_MSG_TYPE_PUBCOMP \<equiv> 7"
abbreviation (input) MQTT_MSG_TYPE_SUBSCRIBE :: int where "MQTT_MSG_TYPE_SUBSCRIBE \<equiv> 8"
abbreviation (input) MQTT_MSG_TYPE_SUBACK :: int where "MQTT_MSG_TYPE_SUBACK \<equiv> 9"
abbreviation (input) MQTT_MSG_TYPE_UNSUBSCRIBE :: int where "MQTT_MSG_TYPE_UNSUBSCRIBE \<equiv> 10"
abbreviation (input) MQTT_MSG_TYPE_UNSUBACK :: int where "MQTT_MSG_TYPE_UNSUBACK \<equiv> 11"
abbreviation (input) MQTT_MSG_TYPE_PINGREQ :: int where "MQTT_MSG_TYPE_PINGREQ \<equiv> 12"
abbreviation (input) MQTT_MSG_TYPE_PINGRESP :: int where "MQTT_MSG_TYPE_PINGRESP \<equiv> 13"
abbreviation (input) MQTT_MSG_TYPE_DISCONNECT :: int where "MQTT_MSG_TYPE_DISCONNECT \<equiv> 14"

section \<open>Writing into the buffer\<close>

definition set_length :: "nat \<Rightarrow> mqtt_connection \<Rightarrow> mqtt_connection" where
  "set_length n c = c\<lparr>outbound := (outbound c)\<lparr>m_length := n\<rparr>\<rparr>"

definition out_length :: "mqtt_connection \<Rightarrow> nat" where
  "out_length c = m_length (outbound c)"

definition overlay :: "bytes \<Rightarrow> nat \<Rightarrow> bytes \<Rightarrow> bytes" where
  "overlay xs i ys = take i xs @ ys @ drop (i + length ys) xs"

text \<open>Stores to consecutive cells of \<open>connection->buffer\<close>.\<close>
definition buf_put :: "nat \<Rightarrow> bytes \<Rightarrow> mqtt_connection \<Rightarrow> fault + mqtt_connection" where
  "buf_put i bs c =
     (if i + length bs \<le> length (cbuffer c) then Inr (c\<lparr>cbuffer := overlay (cbuffer c) i bs\<rparr>) else Inl Overrun)"

text \<open>\<open>memcpy (connection->buffer + i, src, n)\<close>.\<close>
definition buf_memcpy :: "nat \<Rightarrow> bytes \<Rightarrow> nat \<Rightarrow> mqtt_connection \<Rightarrow> fault + mqtt_connection" where
  "buf_memcpy i src n c = (if n \<le> length src then buf_put i (take n src) c else Inl Overrun)"

definition append_string :: "mqtt_connection \<Rightarrow> bytes \<Rightarrow> int \<Rightarrow> fault + int \<times> mqtt_connection" where
  "append_string c s n =
     (if wrap32 (out_length c + sz n + 2) > cbuffer_length c then Inr (- 1, c)
      else case buf_put (out_length c) [of_int (n div 256), of_int (n mod 256)] c of
        Inl f \<Rightarrow> Inl f
      | Inr c1 \<Rightarrow>
          (case buf_memcpy (wrap32 (out_length c + 2)) s (sz n) c1 of
             Inl f \<Rightarrow> Inl f
           | Inr c2 \<Rightarrow> Inr (n + 2, set_length (wrap32 (out_length c + 2 + sz n)) c2)))"

text \<open>\<open>platform_random (65535)\<close> until it is not zero.\<close>
fun draw_random :: "nat list \<Rightarrow> (nat \<times> nat list) option" where
  "draw_random [] = None"
| "draw_random (r # rs) = (if r mod 65535 = 0 then draw_random rs else Some (r mod 65535, rs))"

text \<open>The loop \<open>while (message_id == 0)\<close>; the 16-bit counter is 1 after the step that makes it 0.\<close>
definition next_message_id :: "mqtt_connection \<Rightarrow> (nat \<times> mqtt_connection) option" where
  "next_message_id c =
     (if id_incremental c then
        (let i = (last_message_id c + 1) mod 65536; j = (if i = 0 then 1 else i)
         in Some (j, c\<lparr>last_message_id := j\<rparr>))
      else map_option (\<lambda>(i, rs). (i, c\<lparr>entropy := rs\<rparr>)) (draw_random (entropy c)))"

definition append_message_id :: "mqtt_connection \<Rightarrow> nat \<Rightarrow> fault + nat \<times> mqtt_connection" where
  "append_message_id c mid =
     (case (if mid = 0 then next_message_id c else Some (mid, c)) of
        None \<Rightarrow> Inl NoEntropy
      | Some (i, c1) \<Rightarrow>
          (if wrap32 (out_length c1 + 2) > cbuffer_length c1 then Inr (0, c1)
           else case buf_put (out_length c1) [of_nat (i div 256), of_nat (i mod 256)] c1 of
             Inl f \<Rightarrow> Inl f
           | Inr c2 \<Rightarrow> Inr (i, set_length (wrap32 (out_length c1 + 2)) c2)))"

definition set_message_header_size :: "mqtt_connection \<Rightarrow> mqtt_connection" where
  "set_message_header_size c = set_length 5 c"

definition fail_message :: "mqtt_connection \<Rightarrow> mqtt_connection" where
  "fail_message c = c\<lparr>outbound := (outbound c)\<lparr>m_data := 0, m_length := 0\<rparr>\<rparr>"

text \<open>The \<open>do\<close> loop that encodes the remaining length, least significant group first.\<close>
function encoded_lens :: "int \<Rightarrow> bytes" where
  "encoded_lens n =
     (if n sdiv 128 > 0
      then (of_int (n smod 128) OR 0x80) # encoded_lens (n sdiv 128)
      else [of_int (n smod 128)])"
  by pat_completeness auto
termination
proof (relation "measure nat")
  fix n :: int
  assume "n sdiv 128 > 0"
  then have "0 < n" and "n sdiv 128 = n div 128"
    by (auto simp: signed_divide_int_def sgn_if split: if_splits)
  then show "(n sdiv 128, n) \<in> measure nat"
    by (simp add: nat_mono_iff)
qed simp

declare encoded_lens.simps [simp del]

definition type_byte :: "int \<Rightarrow> int \<Rightarrow> int \<Rightarrow> int \<Rightarrow> byte" where
  "type_byte ty dup qos retain =
     of_int (push_bit 4 (ty AND 0x0f) OR push_bit 3 (dup AND 1) OR push_bit 1 (qos AND 3) OR (retain AND 1))"

definition fini_message :: "mqtt_connection \<Rightarrow> int \<Rightarrow> int \<Rightarrow> int \<Rightarrow> int \<Rightarrow> fault + mqtt_connection" where
  "fini_message c ty dup qos retain =
     (let o' = outbound c;
          message_length = s32 (int (m_length o') - 5);
          total_length = (if m_frag_total o' \<noteq> 0 then s32 (int (m_frag_total o') - 5) else message_length);
          lens = encoded_lens total_length
      in if length lens > 4 then Inl Overrun
         else if length lens + 1 > 5 then Inr (fail_message c)
         else
           (let offs = 4 - length lens;
                o2 = o'\<lparr>m_length := sz (message_length + int (length lens) + 1), m_data := offs,
                        m_frag_offset := sz (int (m_frag_offset o') - int offs)\<rparr>
            in buf_put offs (type_byte ty dup qos retain # lens) (c\<lparr>outbound := o2\<rparr>)))"

section \<open>Readers\<close>

definition rd :: "bytes \<Rightarrow> nat \<Rightarrow> fault + byte" where
  "rd b i = (if i < length b then Inr (b ! i) else Inl Overrun)"

definition type_of :: "byte \<Rightarrow> int" where "type_of x = uint (drop_bit 4 (x AND 0xf0))"
definition dup_of :: "byte \<Rightarrow> int" where "dup_of x = uint (drop_bit 3 (x AND 0x08))"
definition qos_of :: "byte \<Rightarrow> int" where "qos_of x = uint (drop_bit 1 (x AND 0x06))"
definition retain_of :: "byte \<Rightarrow> int" where "retain_of x = uint (x AND 0x01)"

definition mqtt_get_type :: "bytes \<Rightarrow> fault + int" where
  "mqtt_get_type b = (case rd b 0 of Inl f \<Rightarrow> Inl f | Inr x \<Rightarrow> Inr (type_of x))"
definition mqtt_get_dup :: "bytes \<Rightarrow> fault + int" where
  "mqtt_get_dup b = (case rd b 0 of Inl f \<Rightarrow> Inl f | Inr x \<Rightarrow> Inr (dup_of x))"
definition mqtt_get_qos :: "bytes \<Rightarrow> fault + int" where
  "mqtt_get_qos b = (case rd b 0 of Inl f \<Rightarrow> Inl f | Inr x \<Rightarrow> Inr (qos_of x))"
definition mqtt_get_retain :: "bytes \<Rightarrow> fault + int" where
  "mqtt_get_retain b = (case rd b 0 of Inl f \<Rightarrow> Inl f | Inr x \<Rightarrow> Inr (retain_of x))"
definition mqtt_set_dup :: "bytes \<Rightarrow> fault + bytes" where
  "mqtt_set_dup b = (case rd b 0 of Inl f \<Rightarrow> Inl f | Inr x \<Rightarrow> Inr (b[0 := x OR 0x08]))"
definition mqtt_get_connect_session_present :: "bytes \<Rightarrow> fault + int" where
  "mqtt_get_connect_session_present b = (case rd b 2 of Inl f \<Rightarrow> Inl f | Inr x \<Rightarrow> Inr (uint (x AND 0x01)))"
definition mqtt_get_connect_return_code :: "bytes \<Rightarrow> fault + int" where
  "mqtt_get_connect_return_code b = (case rd b 3 of Inl f \<Rightarrow> Inl f | Inr x \<Rightarrow> Inr (uint x))"

text \<open>\<open>for (i = 1; i < length; ++i)\<close> summing the length groups; the sum and the index after the loop.\<close>
function total_scan :: "bytes \<Rightarrow> nat \<Rightarrow> nat \<Rightarrow> u32 \<Rightarrow> fault + u32 \<times> nat" where
  "total_scan b n i tot =
     (if i < n then
        case rd b i of
          Inl f \<Rightarrow> Inl f
        | Inr x \<Rightarrow>
            if 7 * (i - 1) \<ge> 32 then Inl Overrun
            else (let tot' = tot + push_bit (7 * (i - 1)) (ucast (x AND 0x7f))
                  in if x AND 0x80 = 0 then Inr (tot', i + 1) else total_scan b n (i + 1) tot')
      else Inr (tot, i))"
  by pat_completeness auto
termination by (relation "measure (\<lambda>(b, n, i, tot). n - i)") auto

declare total_scan.simps [simp del]

definition mqtt_get_total_length :: "bytes \<Rightarrow> nat \<Rightarrow> fault + u32 \<times> nat" where
  "mqtt_get_total_length b n =
     (case total_scan b n 1 0 of Inl f \<Rightarrow> Inl f | Inr (tot, i) \<Rightarrow> Inr (tot + of_nat i, i))"

text \<open>The same loop where only the index after it is used.\<close>
function header_scan :: "bytes \<Rightarrow> nat \<Rightarrow> nat \<Rightarrow> fault + nat" where
  "header_scan b n i =
     (if i < n then
        case rd b i of
          Inl f \<Rightarrow> Inl f
        | Inr x \<Rightarrow> if x AND 0x80 = 0 then Inr (i + 1) else header_scan b n (i + 1)
      else Inr i)"
  by pat_completeness auto
termination by (relation "measure (\<lambda>(b, n, i). n - i)") auto

declare header_scan.simps [simp del]

text \<open>The bounded variant of \<open>mqtt_header_complete\<close>; \<open>None\<close> is its early \<open>return false\<close>.\<close>
function header_scan5 :: "bytes \<Rightarrow> nat \<Rightarrow> nat \<Rightarrow> fault + nat option" where
  "header_scan5 b n i =
     (if i < 5 then
        if i \<ge> n then Inr None
        else case rd b i of
          Inl f \<Rightarrow> Inl f
        | Inr x \<Rightarrow> if x AND 0x80 = 0 then Inr (Some (i + 1)) else header_scan5 b n (i + 1)
      else Inr (Some i))"
  by pat_completeness auto
termination by (relation "measure (\<lambda>(b, n, i). 5 - i)") auto

declare header_scan5.simps [simp del]

text \<open>The two-byte big-endian number at \<open>i\<close>.\<close>
definition rd16 :: "bytes \<Rightarrow> nat \<Rightarrow> fault + nat" where
  "rd16 b i =
     (case rd b i of Inl f \<Rightarrow> Inl f | Inr hi \<Rightarrow>
      case rd b (i + 1) of Inl f \<Rightarrow> Inl f | Inr lo \<Rightarrow> Inr (unat hi * 256 + unat lo))"

definition mqtt_header_complete :: "bytes \<Rightarrow> nat \<Rightarrow> fault + bool" where
  "mqtt_header_complete b n =
     (case header_scan5 b n 1 of
        Inl f \<Rightarrow> Inl f
      | Inr None \<Rightarrow> Inr False
      | Inr (Some i) \<Rightarrow>
          (if i + 2 \<ge> n then Inr False
           else case rd16 b i of
             Inl f \<Rightarrow> Inl f
           | Inr topiclen \<Rightarrow>
               (case mqtt_get_qos b of
                  Inl f \<Rightarrow> Inl f
                | Inr q \<Rightarrow>
                    (let i1 = (i + 2 + topiclen) mod 65536;
                         i2 = (if q > 0 then (i1 + 2) mod 65536 else i1)
                     in Inr (n \<ge> i2)))))"

text \<open>The offset and the length of the topic, \<open>None\<close> for \<open>NULL\<close>.\<close>
definition mqtt_get_publish_topic :: "bytes \<Rightarrow> nat \<Rightarrow> fault + (nat \<times> nat) option" where
  "mqtt_get_publish_topic b n =
     (case header_scan b n 1 of
        Inl f \<Rightarrow> Inl f
      | Inr i \<Rightarrow>
          (if i + 2 \<ge> n then Inr None
           else case rd16 b i of
             Inl f \<Rightarrow> Inl f
           | Inr topiclen \<Rightarrow>
               (if i + 2 + topiclen > n then Inr None else Inr (Some (i + 2, topiclen)))))"

text \<open>The offset of the payload and the length stored through the pointer (0 with \<open>NULL\<close>).\<close>
definition mqtt_get_publish_data :: "bytes \<Rightarrow> nat \<Rightarrow> fault + (nat \<times> nat) option" where
  "mqtt_get_publish_data b n =
     (case total_scan b n 1 0 of
        Inl f \<Rightarrow> Inl f
      | Inr (tot, i) \<Rightarrow>
          (let totlen = sint (tot + of_nat i) in
           if i + 2 \<ge> n then Inr None
           else case rd16 b i of
             Inl f \<Rightarrow> Inl f
           | Inr topiclen \<Rightarrow>
               (if i + 2 + topiclen \<ge> n then Inr None
                else case mqtt_get_qos b of
                  Inl f \<Rightarrow> Inl f
                | Inr q \<Rightarrow>
                    (let j = i + 2 + topiclen; k = (if q > 0 then j + 2 else j)
                     in if q > 0 \<and> j + 2 \<ge> n then Inr None
                        else if totlen < int k then Inr None
                        else if totlen \<le> int n then Inr (Some (k, nat (totlen - int k)))
                        else Inr (Some (k, n - k))))))"

definition mqtt_get_suback_data :: "nat \<Rightarrow> (nat \<times> nat) option" where
  "mqtt_get_suback_data n = (if n > 4 then Some (4, n - 4) else None)"

definition mqtt_get_id :: "bytes \<Rightarrow> nat \<Rightarrow> fault + nat" where
  "mqtt_get_id b n =
     (if n < 1 then Inr 0
      else case mqtt_get_type b of
        Inl f \<Rightarrow> Inl f
      | Inr ty \<Rightarrow>
          (if ty = MQTT_MSG_TYPE_PUBLISH then
             case header_scan b n 1 of
               Inl f \<Rightarrow> Inl f
             | Inr i \<Rightarrow>
                 (if i + 2 \<ge> n then Inr 0
                  else case rd16 b i of
                    Inl f \<Rightarrow> Inl f
                  | Inr topiclen \<Rightarrow>
                      (if i + 2 + topiclen > n then Inr 0
                       else case mqtt_get_qos b of
                         Inl f \<Rightarrow> Inl f
                       | Inr q \<Rightarrow>
                           (if q > 0 then
                              (if i + 2 + topiclen + 2 > n then Inr 0 else rd16 b (i + 2 + topiclen))
                            else Inr 0)))
           else if ty \<in> {MQTT_MSG_TYPE_PUBACK, MQTT_MSG_TYPE_PUBREC, MQTT_MSG_TYPE_PUBREL, MQTT_MSG_TYPE_PUBCOMP,
                         MQTT_MSG_TYPE_SUBACK, MQTT_MSG_TYPE_UNSUBACK, MQTT_MSG_TYPE_SUBSCRIBE, MQTT_MSG_TYPE_UNSUBSCRIBE} then
             (if n \<ge> 4 then
                case rd b 1 of
                  Inl f \<Rightarrow> Inl f
                | Inr x \<Rightarrow> if x AND 0x80 = 0 then rd16 b 2 else Inr 0
              else Inr 0)
           else Inr 0))"

text \<open>The flag bits of the fixed header [MQTT-2.2.2-1], [MQTT-2.2.2-2].\<close>
definition valid_hdr_byte :: "byte \<Rightarrow> bool" where
  "valid_hdr_byte x =
     (if type_of x \<in> {MQTT_MSG_TYPE_CONNECT, MQTT_MSG_TYPE_CONNACK, MQTT_MSG_TYPE_PUBACK, MQTT_MSG_TYPE_PUBREC,
                      MQTT_MSG_TYPE_PUBCOMP, MQTT_MSG_TYPE_SUBACK, MQTT_MSG_TYPE_UNSUBACK, MQTT_MSG_TYPE_PINGREQ,
                      MQTT_MSG_TYPE_PINGRESP, MQTT_MSG_TYPE_DISCONNECT}
      then x AND 0x0f = 0
      else if type_of x \<in> {MQTT_MSG_TYPE_PUBREL, MQTT_MSG_TYPE_SUBSCRIBE, MQTT_MSG_TYPE_UNSUBSCRIBE}
      then x AND 0x0f = 0x02
      else if type_of x = MQTT_MSG_TYPE_PUBLISH then qos_of x < 3 \<and> (qos_of x > 0 \<or> dup_of x = 0)
      else False)"

definition mqtt_has_valid_msg_hdr :: "bytes \<Rightarrow> nat \<Rightarrow> fault + bool" where
  "mqtt_has_valid_msg_hdr b n =
     (if n < 1 then Inr False
      else case rd b 0 of Inl f \<Rightarrow> Inl f | Inr x \<Rightarrow> Inr (valid_hdr_byte x))"

section \<open>Packets\<close>

text \<open>
  The builders return the connection they leave; the packet is in it, \<open>fail_message\<close> leaves length 0.
  \<open>append_or_fail\<close> is the \<open>if (append_string (...) < 0) return fail_message (...)\<close> of the source, with the
  rest of the function as its continuation.
\<close>

definition append_or_fail ::
  "mqtt_connection \<Rightarrow> bytes \<Rightarrow> int \<Rightarrow> (mqtt_connection \<Rightarrow> fault + mqtt_connection) \<Rightarrow> fault + mqtt_connection" where
  "append_or_fail c s n k =
     (case append_string c s n of
        Inl f \<Rightarrow> Inl f
      | Inr (r, c') \<Rightarrow> if r < 0 then Inr (fail_message c') else k c')"

definition nonempty :: "bytes option \<Rightarrow> bool" where
  "nonempty s = (case s of None \<Rightarrow> False | Some t \<Rightarrow> t \<noteq> [])"

text \<open>\<open>strlen\<close> passed as an \<open>int\<close>.\<close>
definition strlen :: "bytes \<Rightarrow> int" where
  "strlen s = s32 (int (length s))"

definition or_byte :: "nat \<Rightarrow> byte \<Rightarrow> mqtt_connection \<Rightarrow> mqtt_connection" where
  "or_byte i v c = c\<lparr>cbuffer := (cbuffer c)[i := cbuffer c ! i OR v]\<rparr>"

definition variable_header :: "mqtt_connect_info \<Rightarrow> bytes" where
  "variable_header info =
     (if protocol_ver info = MQTT_PROTOCOL_V_3_1
      then [0, 6] @ map (of_nat \<circ> of_char) ''MQIsdp'' @ [3]
      else [0, 4] @ map (of_nat \<circ> of_char) ''MQTT'' @ [4])
     @ [0, of_int (keepalive info div 256), of_int (keepalive info mod 256)]"

text \<open>\<open>flags\<close> is the buffer index of the connect flags.\<close>
definition connect_will ::
  "mqtt_connect_info \<Rightarrow> nat \<Rightarrow> mqtt_connection \<Rightarrow> (mqtt_connection \<Rightarrow> fault + mqtt_connection) \<Rightarrow> fault + mqtt_connection" where
  "connect_will info flags c k =
     (case will_topic info of
        Some t \<Rightarrow>
          (if t \<noteq> [] then
             append_or_fail c t (strlen t) (\<lambda>c1.
             append_or_fail c1 (case will_message info of None \<Rightarrow> [] | Some m \<Rightarrow> m) (will_length info) (\<lambda>c2.
               (let c3 = or_byte flags 0x04 c2;
                    c4 = (if will_retain info \<noteq> 0 then or_byte flags 0x20 c3 else c3)
                in k (or_byte flags (of_int (push_bit 3 (will_qos info AND 3))) c4))))
           else k c)
      | None \<Rightarrow> k c)"

definition connect_username ::
  "mqtt_connect_info \<Rightarrow> nat \<Rightarrow> mqtt_connection \<Rightarrow> (mqtt_connection \<Rightarrow> fault + mqtt_connection) \<Rightarrow> fault + mqtt_connection" where
  "connect_username info flags c k =
     (case username info of
        Some u \<Rightarrow> (if u \<noteq> [] then append_or_fail c u (strlen u) (\<lambda>c1. k (or_byte flags 0x80 c1)) else k c)
      | None \<Rightarrow> k c)"

definition connect_password ::
  "mqtt_connect_info \<Rightarrow> nat \<Rightarrow> mqtt_connection \<Rightarrow> (mqtt_connection \<Rightarrow> fault + mqtt_connection) \<Rightarrow> fault + mqtt_connection" where
  "connect_password info flags c k =
     (case password info of
        Some p \<Rightarrow>
          (if p \<noteq> [] then
             (let rest = (\<lambda>c1. append_or_fail c1 p (strlen p) (\<lambda>c2. k (or_byte flags 0x40 c2)))
              in if \<not> nonempty (username info)
                 then append_or_fail c [] 0 (\<lambda>c1. rest (or_byte flags 0x80 c1))
                 else rest c)
           else k c)
      | None \<Rightarrow> k c)"

definition mqtt_msg_connect :: "mqtt_connection \<Rightarrow> mqtt_connect_info \<Rightarrow> fault + mqtt_connection" where
  "mqtt_msg_connect c info =
     (let c0 = set_message_header_size c;
          header_len = (if protocol_ver info = MQTT_PROTOCOL_V_3_1 then 12 else 10);
          flags = 5 + (if protocol_ver info = MQTT_PROTOCOL_V_3_1 then 9 else 7)
      in if wrap32 (out_length c0 + header_len) > cbuffer_length c0 then Inr (fail_message c0)
         else case buf_put (out_length c0) (variable_header info) (set_length (wrap32 (out_length c0 + header_len)) c0) of
           Inl f \<Rightarrow> Inl f
         | Inr c1 \<Rightarrow>
             (let c2 = (if clean_session info \<noteq> 0 then or_byte flags 0x02 c1 else c1);
                  i = (case client_id info of Some i \<Rightarrow> i | None \<Rightarrow> [])
              in append_or_fail c2 i (strlen i) (\<lambda>c3.
                 connect_will info flags c3 (\<lambda>c4.
                 connect_username info flags c4 (\<lambda>c5.
                 connect_password info flags c5 (\<lambda>c6.
                 fini_message c6 MQTT_MSG_TYPE_CONNECT 0 0 0))))))"

text \<open>The payload copied behind the headers, whole or as much of it as fits.\<close>
definition publish_payload :: "mqtt_connection \<Rightarrow> bytes \<Rightarrow> int \<Rightarrow> fault + mqtt_connection" where
  "publish_payload c d data_length =
     (if wrap32 (out_length c + sz data_length) > cbuffer_length c then
        case buf_memcpy (out_length c) d (sz (int (cbuffer_length c) - int (out_length c))) c of
          Inl f \<Rightarrow> Inl f
        | Inr c1 \<Rightarrow> Inr (c1\<lparr>outbound := (outbound c1)\<lparr>m_frag_offset := out_length c, m_length := cbuffer_length c,
                                     m_frag_total := wrap32 (sz data_length + out_length c)\<rparr>\<rparr>)
      else
        case buf_memcpy (out_length c) d (sz data_length) c of
          Inl f \<Rightarrow> Inl f
        | Inr c1 \<Rightarrow> Inr (c1\<lparr>outbound := (outbound c1)\<lparr>m_length := wrap32 (out_length c + sz data_length), m_frag_total := 0\<rparr>\<rparr>))"

definition mqtt_msg_publish ::
  "mqtt_connection \<Rightarrow> bytes option \<Rightarrow> bytes option \<Rightarrow> int \<Rightarrow> int \<Rightarrow> int \<Rightarrow> nat \<Rightarrow> fault + mqtt_connection \<times> nat" where
  "mqtt_msg_publish c topic data data_length qos retain mid0 =
     (let c0 = set_message_header_size c in
      case topic of None \<Rightarrow> Inr (fail_message c0, mid0) | Some t \<Rightarrow>
      if t = [] then Inr (fail_message c0, mid0)
      else case append_string c0 t (strlen t) of
        Inl f \<Rightarrow> Inl f
      | Inr (r, c1) \<Rightarrow>
          (if r < 0 then Inr (fail_message c1, mid0)
           else if data = None \<and> data_length > 0 then Inr (fail_message c1, mid0)
           else case (if qos > 0 then append_message_id c1 0 else Inr (0, c1)) of
             Inl f \<Rightarrow> Inl f
           | Inr (mid, c2) \<Rightarrow>
               (if qos > 0 \<and> mid = 0 then Inr (fail_message c2, mid)
                else case (case data of None \<Rightarrow> Inr c2 | Some d \<Rightarrow> publish_payload c2 d data_length) of
                  Inl f \<Rightarrow> Inl f
                | Inr c3 \<Rightarrow>
                    (case fini_message c3 MQTT_MSG_TYPE_PUBLISH 0 qos retain of
                       Inl f \<Rightarrow> Inl f | Inr c4 \<Rightarrow> Inr (c4, mid)))))"

text \<open>The packets that carry only a message id.\<close>
definition mqtt_msg_ack :: "int \<Rightarrow> int \<Rightarrow> mqtt_connection \<Rightarrow> nat \<Rightarrow> fault + mqtt_connection" where
  "mqtt_msg_ack ty qos c mid =
     (case append_message_id (set_message_header_size c) mid of
        Inl f \<Rightarrow> Inl f
      | Inr (i, c1) \<Rightarrow> if i = 0 then Inr (fail_message c1) else fini_message c1 ty 0 qos 0)"

definition mqtt_msg_puback :: "mqtt_connection \<Rightarrow> nat \<Rightarrow> fault + mqtt_connection" where
  "mqtt_msg_puback c mid = mqtt_msg_ack MQTT_MSG_TYPE_PUBACK 0 c mid"
definition mqtt_msg_pubrec :: "mqtt_connection \<Rightarrow> nat \<Rightarrow> fault + mqtt_connection" where
  "mqtt_msg_pubrec c mid = mqtt_msg_ack MQTT_MSG_TYPE_PUBREC 0 c mid"
definition mqtt_msg_pubrel :: "mqtt_connection \<Rightarrow> nat \<Rightarrow> fault + mqtt_connection" where
  "mqtt_msg_pubrel c mid = mqtt_msg_ack MQTT_MSG_TYPE_PUBREL 1 c mid"
definition mqtt_msg_pubcomp :: "mqtt_connection \<Rightarrow> nat \<Rightarrow> fault + mqtt_connection" where
  "mqtt_msg_pubcomp c mid = mqtt_msg_ack MQTT_MSG_TYPE_PUBCOMP 0 c mid"

text \<open>The loop over \<open>topic_list\<close>: \<open>n\<close> entries are left.\<close>
fun subscribe_topics ::
  "(bytes \<times> int) list \<Rightarrow> nat \<Rightarrow> mqtt_connection \<Rightarrow> (mqtt_connection \<Rightarrow> fault + mqtt_connection) \<Rightarrow> fault + mqtt_connection" where
  "subscribe_topics ts 0 c k = k c"
| "subscribe_topics [] (Suc n) c k = Inl Overrun"
| "subscribe_topics ((t, q) # ts) (Suc n) c k =
     (if t = [] then Inr (fail_message c)
      else append_or_fail c t (strlen t) (\<lambda>c1.
        if wrap32 (out_length c1 + 1) > cbuffer_length c1 then Inr (fail_message c1)
        else case buf_put (out_length c1) [of_int q] c1 of
          Inl f \<Rightarrow> Inl f
        | Inr c2 \<Rightarrow> subscribe_topics ts n (set_length (wrap32 (out_length c1 + 1)) c2) k))"

definition mqtt_msg_subscribe :: "mqtt_connection \<Rightarrow> (bytes \<times> int) list \<Rightarrow> int \<Rightarrow> fault + mqtt_connection \<times> nat" where
  "mqtt_msg_subscribe c topics n_topics =
     (case append_message_id (set_message_header_size c) 0 of
        Inl f \<Rightarrow> Inl f
      | Inr (mid, c1) \<Rightarrow>
          (if mid = 0 then Inr (fail_message c1, mid)
           else case subscribe_topics topics (nat n_topics) c1 (\<lambda>c2. fini_message c2 MQTT_MSG_TYPE_SUBSCRIBE 0 1 0) of
             Inl f \<Rightarrow> Inl f
           | Inr c3 \<Rightarrow> Inr (c3, mid)))"

definition mqtt_msg_unsubscribe :: "mqtt_connection \<Rightarrow> bytes option \<Rightarrow> nat \<Rightarrow> fault + mqtt_connection \<times> nat" where
  "mqtt_msg_unsubscribe c topic mid0 =
     (let c0 = set_message_header_size c in
      case topic of None \<Rightarrow> Inr (fail_message c0, mid0) | Some t \<Rightarrow>
      if t = [] then Inr (fail_message c0, mid0)
      else case append_message_id c0 0 of
        Inl f \<Rightarrow> Inl f
      | Inr (mid, c1) \<Rightarrow>
          (if mid = 0 then Inr (fail_message c1, mid)
           else case append_or_fail c1 t (strlen t) (\<lambda>c2. fini_message c2 MQTT_MSG_TYPE_UNSUBSCRIBE 0 1 0) of
             Inl f \<Rightarrow> Inl f
           | Inr c3 \<Rightarrow> Inr (c3, mid)))"

definition mqtt_msg_pingreq :: "mqtt_connection \<Rightarrow> fault + mqtt_connection" where
  "mqtt_msg_pingreq c = fini_message (set_message_header_size c) MQTT_MSG_TYPE_PINGREQ 0 0 0"
definition mqtt_msg_pingresp :: "mqtt_connection \<Rightarrow> fault + mqtt_connection" where
  "mqtt_msg_pingresp c = fini_message (set_message_header_size c) MQTT_MSG_TYPE_PINGRESP 0 0 0"
definition mqtt_msg_disconnect :: "mqtt_connection \<Rightarrow> fault + mqtt_connection" where
  "mqtt_msg_disconnect c = fini_message (set_message_header_size c) MQTT_MSG_TYPE_DISCONNECT 0 0 0"

text \<open>\<open>calloc_ok\<close> says whether the allocation succeeds; \<open>True\<close> is \<open>ESP_OK\<close>.\<close>
definition mqtt_msg_buffer_init :: "bool \<Rightarrow> mqtt_connection \<Rightarrow> int \<Rightarrow> bool \<times> mqtt_connection" where
  "mqtt_msg_buffer_init calloc_ok c buffer_size =
     (let c0 = c\<lparr>outbound := \<lparr>m_data = 0, m_length = 0, m_frag_total = 0, m_frag_offset = 0\<rparr>\<rparr>
      in if \<not> calloc_ok then (False, c0\<lparr>cbuffer := []\<rparr>)
         else (True, c0\<lparr>cbuffer := replicate (sz buffer_size) 0, cbuffer_length := sz buffer_size\<rparr>))"

text \<open>The bytes handed to the transport: \<open>outbound_message.length\<close> bytes from \<open>outbound_message.data\<close>.\<close>
definition packet :: "mqtt_connection \<Rightarrow> bytes" where
  "packet c = take (m_length (outbound c)) (drop (m_data (outbound c)) (cbuffer c))"

end
