(* ===== verification/Mqtt_Outbox.thy ===== *)
theory Mqtt_Outbox
  imports Prelude
begin

text \<open>
  The outbox of the MQTT client (\<^verbatim>\<open>espressif__mqtt/lib/mqtt_outbox.c\<close>): the tail queue of messages
  that wait for transmission or acknowledgement. An item carries its own address (\<open>self\<close>), since
  handles are compared as pointers. What the allocator returns is an argument of the operations that
  allocate: \<open>None\<close> for an allocation that fails.
\<close>

section \<open>Data\<close>

datatype pending_state = QUEUED | TRANSMITTED | ACKNOWLEDGED | CONFIRMED

datatype esp_err = ESP_OK | ESP_FAIL | ESP_ERR_NO_MEM | ESP_ERR_INVALID_ARG | ESP_ERR_TIMEOUT | ESP_ERR_NOT_SUPPORTED

record outbox_message =
  om_data :: bytes
  om_len :: int
  om_msg_id :: int
  om_msg_qos :: int
  om_msg_type :: int
  om_remaining_data :: "bytes option"
  om_remaining_len :: int

record outbox_item =
  self :: addr
  buffer :: bytes
  len :: int
  msg_id :: int
  msg_type :: int
  msg_qos :: int
  tick :: int
  pending :: pending_state

record outbox =
  size_of :: u64
  items :: "outbox_item list"

section \<open>Operations\<close>

definition outbox_init :: "bool \<Rightarrow> bool \<Rightarrow> outbox option" where
  "outbox_init outbox_ok list_ok =
     (if \<not> outbox_ok then None else if \<not> list_ok then None else Some \<lparr>size_of = 0, items = []\<rparr>)"

text \<open>
  \<open>h\<close> is the address \<open>calloc\<close> returns for the item, \<open>raw\<close> the content of the block
  \<open>heap_caps_malloc\<close> returns for its buffer.
\<close>
definition outbox_enqueue ::
  "addr option \<Rightarrow> bytes option \<Rightarrow> outbox \<Rightarrow> outbox_message \<Rightarrow> int \<Rightarrow> outbox_item option \<times> outbox" where
  "outbox_enqueue h raw ob msg t =
     (case h of None \<Rightarrow> (None, ob) | Some a \<Rightarrow>
      case raw of None \<Rightarrow> (None, ob) | Some blk \<Rightarrow>
        (let n = nat (om_len msg);
             b1 = take n (om_data msg) @ drop n blk;
             b2 = (case om_remaining_data msg of
                     None \<Rightarrow> b1
                   | Some r \<Rightarrow> take n b1 @ take (nat (om_remaining_len msg)) r);
             it = \<lparr>self = a, buffer = b2, len = om_len msg + om_remaining_len msg,
                   msg_id = om_msg_id msg, msg_type = om_msg_type msg, msg_qos = om_msg_qos msg,
                   tick = t, pending = QUEUED\<rparr>
         in (Some it, ob\<lparr>items := items ob @ [it], size_of := size_of ob + of_int (len it)\<rparr>)))"

definition outbox_get :: "outbox \<Rightarrow> int \<Rightarrow> outbox_item option" where
  "outbox_get ob i = find (\<lambda>it. msg_id it = i) (items ob)"

text \<open>The tick of the item found is stored through the caller's pointer; here it is part of the item.\<close>
definition outbox_dequeue :: "outbox \<Rightarrow> pending_state \<Rightarrow> outbox_item option" where
  "outbox_dequeue ob p = find (\<lambda>it. pending it = p) (items ob)"

text \<open>\<open>STAILQ_REMOVE\<close>: unlink the item at this address.\<close>
definition stailq_remove :: "addr \<Rightarrow> outbox_item list \<Rightarrow> outbox_item list" where
  "stailq_remove a xs = takeWhile (\<lambda>it. self it \<noteq> a) xs @ tl (dropWhile (\<lambda>it. self it \<noteq> a) xs)"

definition outbox_unlink :: "outbox \<Rightarrow> outbox_item \<Rightarrow> outbox" where
  "outbox_unlink ob it = ob\<lparr>items := stailq_remove (self it) (items ob), size_of := size_of ob - of_int (len it)\<rparr>"

definition outbox_delete_item :: "outbox \<Rightarrow> addr \<Rightarrow> esp_err \<times> outbox" where
  "outbox_delete_item ob h =
     (case find (\<lambda>it. self it = h) (items ob) of
        Some it \<Rightarrow> (ESP_OK, outbox_unlink ob it)
      | None \<Rightarrow> (ESP_FAIL, ob))"

text \<open>\<open>len\<close> as \<open>size_t\<close>, \<open>msg_id\<close> as \<open>uint16_t\<close>.\<close>
definition outbox_item_get_data :: "outbox_item option \<Rightarrow> (bytes \<times> u32 \<times> u16 \<times> int \<times> int) option" where
  "outbox_item_get_data h =
     (case h of
        Some it \<Rightarrow> Some (buffer it, of_int (len it), of_int (msg_id it), msg_type it, msg_qos it)
      | None \<Rightarrow> None)"

definition outbox_delete :: "outbox \<Rightarrow> int \<Rightarrow> int \<Rightarrow> esp_err \<times> outbox" where
  "outbox_delete ob i ty =
     (case find (\<lambda>it. msg_id it = i \<and> msg_type it mod 256 = ty) (items ob) of
        Some it \<Rightarrow> (ESP_OK, outbox_unlink ob it)
      | None \<Rightarrow> (ESP_FAIL, ob))"

text \<open>An assignment through the handle that \<open>outbox_get\<close> returned.\<close>
definition update_item :: "addr \<Rightarrow> (outbox_item \<Rightarrow> outbox_item) \<Rightarrow> outbox \<Rightarrow> outbox" where
  "update_item a f ob = ob\<lparr>items := map (\<lambda>it. if self it = a then f it else it) (items ob)\<rparr>"

definition outbox_set_pending :: "outbox \<Rightarrow> int \<Rightarrow> pending_state \<Rightarrow> esp_err \<times> outbox" where
  "outbox_set_pending ob i p =
     (case outbox_get ob i of
        Some it \<Rightarrow> (ESP_OK, update_item (self it) (\<lambda>x. x\<lparr>pending := p\<rparr>) ob)
      | None \<Rightarrow> (ESP_FAIL, ob))"

definition outbox_item_get_pending :: "outbox_item option \<Rightarrow> pending_state" where
  "outbox_item_get_pending h = (case h of Some it \<Rightarrow> pending it | None \<Rightarrow> QUEUED)"

definition outbox_set_tick :: "outbox \<Rightarrow> int \<Rightarrow> int \<Rightarrow> esp_err \<times> outbox" where
  "outbox_set_tick ob i t =
     (case outbox_get ob i of
        Some it \<Rightarrow> (ESP_OK, update_item (self it) (\<lambda>x. x\<lparr>tick := t\<rparr>) ob)
      | None \<Rightarrow> (ESP_FAIL, ob))"

definition expired :: "int \<Rightarrow> int \<Rightarrow> outbox_item \<Rightarrow> bool" where
  "expired now timeout it \<longleftrightarrow> now - tick it > timeout"

definition outbox_delete_single_expired :: "outbox \<Rightarrow> int \<Rightarrow> int \<Rightarrow> int \<times> outbox" where
  "outbox_delete_single_expired ob now timeout =
     (case find (expired now timeout) (items ob) of
        Some it \<Rightarrow> (msg_id it, outbox_unlink ob it)
      | None \<Rightarrow> (-1, ob))"

text \<open>The \<open>STAILQ_FOREACH_SAFE\<close> walk: \<open>xs\<close> are the items the walk has still to visit.\<close>
primrec delete_expired_walk :: "outbox_item list \<Rightarrow> int \<Rightarrow> int \<Rightarrow> int \<Rightarrow> outbox \<Rightarrow> int \<times> outbox" where
  "delete_expired_walk [] now timeout n ob = (n, ob)"
| "delete_expired_walk (it # xs) now timeout n ob =
     (if expired now timeout it
      then delete_expired_walk xs now timeout (n + 1) (outbox_unlink ob it)
      else delete_expired_walk xs now timeout n ob)"

definition outbox_delete_expired :: "outbox \<Rightarrow> int \<Rightarrow> int \<Rightarrow> int \<times> outbox" where
  "outbox_delete_expired ob now timeout = delete_expired_walk (items ob) now timeout 0 ob"

definition outbox_get_size :: "outbox \<Rightarrow> u64" where
  "outbox_get_size ob = size_of ob"

primrec delete_all_walk :: "outbox_item list \<Rightarrow> outbox \<Rightarrow> outbox" where
  "delete_all_walk [] ob = ob"
| "delete_all_walk (it # xs) ob = delete_all_walk xs (outbox_unlink ob it)"

definition outbox_delete_all_items :: "outbox \<Rightarrow> outbox" where
  "outbox_delete_all_items ob = delete_all_walk (items ob) ob"

text \<open>The box as \<open>outbox_destroy\<close> leaves it just before its list head and itself are freed.\<close>
definition outbox_destroy :: "outbox \<Rightarrow> outbox" where
  "outbox_destroy ob = outbox_delete_all_items ob"

section \<open>Sequences of operations\<close>

datatype outbox_op =
    Enqueue "addr option" "bytes option" outbox_message int
  | Delete int int
  | DeleteItem addr
  | SetPending int pending_state
  | SetTick int int
  | DeleteSingleExpired int int
  | DeleteExpired int int
  | DeleteAll

fun apply_op :: "outbox_op \<Rightarrow> outbox \<Rightarrow> outbox" where
  "apply_op (Enqueue h raw msg t) ob = snd (outbox_enqueue h raw ob msg t)"
| "apply_op (Delete i ty) ob = snd (outbox_delete ob i ty)"
| "apply_op (DeleteItem h) ob = snd (outbox_delete_item ob h)"
| "apply_op (SetPending i p) ob = snd (outbox_set_pending ob i p)"
| "apply_op (SetTick i t) ob = snd (outbox_set_tick ob i t)"
| "apply_op (DeleteSingleExpired now timeout) ob = snd (outbox_delete_single_expired ob now timeout)"
| "apply_op (DeleteExpired now timeout) ob = snd (outbox_delete_expired ob now timeout)"
| "apply_op DeleteAll ob = outbox_delete_all_items ob"

text \<open>The allocator never returns the address of a live item.\<close>
fun fresh_op :: "outbox_op \<Rightarrow> outbox \<Rightarrow> bool" where
  "fresh_op (Enqueue (Some a) raw msg t) ob = (a \<notin> self ` set (items ob))"
| "fresh_op op ob = True"

primrec fresh_ops :: "outbox_op list \<Rightarrow> outbox \<Rightarrow> bool" where
  "fresh_ops [] ob = True"
| "fresh_ops (op # ops) ob = (fresh_op op ob \<and> fresh_ops ops (apply_op op ob))"

definition outbox_wf :: "outbox \<Rightarrow> bool" where
  "outbox_wf ob \<longleftrightarrow> distinct (map self (items ob)) \<and> size_of ob = of_int (sum_list (map len (items ob)))"

section \<open>Unlinking\<close>

lemma find_split:
  "find P xs = Some x \<Longrightarrow> \<exists>ys zs. xs = ys @ x # zs \<and> P x \<and> (\<forall>y \<in> set ys. \<not> P y)"
proof (induction xs)
  case (Cons y ys)
  show ?case
  proof (cases "P y")
    case False
    with Cons obtain us vs where "ys = us @ x # vs" "P x" "\<forall>u \<in> set us. \<not> P u" by auto
    with False show ?thesis by (intro exI [of _ "y # us"] exI [of _ vs]) auto
  qed (use Cons.prems in force)
qed simp

lemma stailq_remove_split:
  assumes "distinct (map self (ys @ it # zs))"
  shows "stailq_remove (self it) (ys @ it # zs) = ys @ zs"
proof -
  have "self it \<notin> self ` set ys" using assms by auto
  then have "\<forall>y \<in> set ys. self y \<noteq> self it" by (metis image_eqI)
  then show ?thesis by (simp add: stailq_remove_def takeWhile_append2 dropWhile_append2)
qed

lemma outbox_unlink_split:
  assumes "items ob = ys @ it # zs" and "outbox_wf ob"
  shows "items (outbox_unlink ob it) = ys @ zs" and "outbox_wf (outbox_unlink ob it)"
proof -
  show i: "items (outbox_unlink ob it) = ys @ zs"
    using assms stailq_remove_split [of ys it zs] by (simp add: outbox_unlink_def outbox_wf_def)
  show "outbox_wf (outbox_unlink ob it)"
    using assms i by (auto simp: outbox_wf_def outbox_unlink_def)
qed

lemma outbox_unlink_found:
  assumes "find P (items ob) = Some it" and "outbox_wf ob"
  shows "outbox_wf (outbox_unlink ob it)"
  using find_split [OF assms(1)] outbox_unlink_split(2) [OF _ assms(2)] by blast

lemma delete_expired_walk_spec:
  assumes "outbox_wf ob" and "items ob = keep @ xs" and "\<forall>it \<in> set keep. \<not> expired now timeout it"
  shows "\<exists>ob'. delete_expired_walk xs now timeout n ob = (n + int (length (filter (expired now timeout) xs)), ob')
     \<and> items ob' = keep @ filter (\<lambda>it. \<not> expired now timeout it) xs \<and> outbox_wf ob'"
  using assms
proof (induction xs arbitrary: ob keep n)
  case (Cons x xs)
  show ?case
  proof (cases "expired now timeout x")
    case True
    have "items (outbox_unlink ob x) = keep @ xs" and "outbox_wf (outbox_unlink ob x)"
      using outbox_unlink_split [OF Cons.prems(2,1)] by auto
    from Cons.IH [OF this(2,1) Cons.prems(3), of "n + 1"] True show ?thesis
      by (auto simp: algebra_simps)
  next
    case False
    from Cons.IH [of ob "keep @ [x]" n] Cons.prems False show ?thesis by auto
  qed
qed simp

lemma delete_all_walk_spec:
  assumes "outbox_wf ob" and "items ob = xs"
  shows "items (delete_all_walk xs ob) = [] \<and> outbox_wf (delete_all_walk xs ob)"
  using assms
proof (induction xs arbitrary: ob)
  case (Cons x xs)
  then show ?case using outbox_unlink_split [of ob "[]" x xs] by simp
qed simp

section \<open>The invariant\<close>

lemma wf_enqueue:
  assumes "outbox_wf ob" and "\<And>a. h = Some a \<Longrightarrow> a \<notin> self ` set (items ob)"
  shows "outbox_wf (snd (outbox_enqueue h raw ob msg t))"
  using assms by (auto simp: outbox_enqueue_def outbox_wf_def Let_def split: option.splits)

lemma wf_update_item:
  assumes "outbox_wf ob" and "\<And>x. self (f x) = self x" and "\<And>x. len (f x) = len x"
  shows "outbox_wf (update_item a f ob)"
proof -
  have "map self (items (update_item a f ob)) = map self (items ob)"
    and "map len (items (update_item a f ob)) = map len (items ob)"
    using assms(2,3) by (simp_all add: update_item_def)
  moreover have "size_of (update_item a f ob) = size_of ob" by (simp add: update_item_def)
  ultimately show ?thesis using assms(1) by (simp add: outbox_wf_def)
qed

lemma wf_apply_op: "outbox_wf ob \<Longrightarrow> fresh_op op ob \<Longrightarrow> outbox_wf (apply_op op ob)"
proof (cases op)
  case (Enqueue h raw msg t)
  assume "outbox_wf ob" and "fresh_op op ob"
  with Enqueue show ?thesis by (cases h) (auto intro!: wf_enqueue)
next
  case (DeleteExpired now timeout)
  assume "outbox_wf ob"
  from delete_expired_walk_spec [OF this, of "[]" "items ob" now timeout 0] DeleteExpired
  show ?thesis by (auto simp: outbox_delete_expired_def)
qed (auto simp: outbox_delete_def outbox_delete_item_def outbox_set_pending_def outbox_set_tick_def
      outbox_delete_single_expired_def outbox_delete_all_items_def delete_all_walk_spec
      intro: outbox_unlink_found wf_update_item split: option.splits)

lemma wf_apply_ops: "outbox_wf ob \<Longrightarrow> fresh_ops ops ob \<Longrightarrow> outbox_wf (fold apply_op ops ob)"
  by (induction ops arbitrary: ob) (auto intro: wf_apply_op)

section \<open>The interface the client relies on\<close>

text \<open>
  To the client the outbox is a sequence of entries (message id, message type, wire bytes): \<open>put\<close>
  appends one, \<open>mark\<close> changes none, \<open>drop_msg\<close> removes the first one with a given id and type.
\<close>

primrec remove_first :: "('a \<Rightarrow> bool) \<Rightarrow> 'a list \<Rightarrow> 'a list" where
  "remove_first P [] = []"
| "remove_first P (x # xs) = (if P x then xs else x # remove_first P xs)"

lemma remove_first_append:
  "\<forall>y \<in> set ys. \<not> P y \<Longrightarrow> remove_first P (ys @ zs) = ys @ remove_first P zs"
  by (induction ys) auto

lemma remove_first_none: "\<forall>y \<in> set ys. \<not> P y \<Longrightarrow> remove_first P ys = ys"
  using remove_first_append [of ys P "[]"] by simp

type_synonym entry = "int \<times> int \<times> bytes"

definition outbox_view :: "outbox \<Rightarrow> entry list" where
  "outbox_view ob = map (\<lambda>it. (msg_id it, msg_type it mod 256, buffer it)) (items ob)"

definition matches :: "int \<Rightarrow> int \<Rightarrow> entry \<Rightarrow> bool" where
  "matches i ty e \<longleftrightarrow> fst e = i \<and> fst (snd e) = ty"

locale message_store =
  fixes inv :: "'o \<Rightarrow> bool"
    and view :: "'o \<Rightarrow> entry list"
    and mark :: "'o \<Rightarrow> int \<Rightarrow> pending_state \<Rightarrow> esp_err \<times> 'o"
    and drop_msg :: "'o \<Rightarrow> int \<Rightarrow> int \<Rightarrow> esp_err \<times> 'o"
  assumes inv_mark: "inv ob \<Longrightarrow> inv (snd (mark ob i p))"
    and inv_drop: "inv ob \<Longrightarrow> inv (snd (drop_msg ob i ty))"
    and view_mark: "inv ob \<Longrightarrow> view (snd (mark ob i p)) = view ob"
    and ok_mark: "inv ob \<Longrightarrow> fst (mark ob i p) = ESP_OK \<longleftrightarrow> i \<in> fst ` set (view ob)"
    and view_drop: "inv ob \<Longrightarrow> view (snd (drop_msg ob i ty)) = remove_first (matches i ty) (view ob)"
    and ok_drop: "inv ob \<Longrightarrow> fst (drop_msg ob i ty) = ESP_OK \<longleftrightarrow> (\<exists>e \<in> set (view ob). matches i ty e)"
begin

text \<open>A message that was appended, transmitted and acknowledged leaves the store as it was before.\<close>
lemma ack_cycle:
  assumes "inv ob'" and "view ob' = view ob @ [(i, ty, b)]"
    and "\<forall>e \<in> set (view ob). \<not> matches i ty e"
  shows "fst (drop_msg (snd (mark ob' i p)) i ty) = ESP_OK"
    and "view (snd (drop_msg (snd (mark ob' i p)) i ty)) = view ob"
proof -
  have v: "view (snd (mark ob' i p)) = view ob @ [(i, ty, b)]"
    using view_mark [OF assms(1)] assms(2) by simp
  show "fst (drop_msg (snd (mark ob' i p)) i ty) = ESP_OK"
    using ok_drop [OF inv_mark [OF assms(1)]] v by (simp add: matches_def)
  show "view (snd (drop_msg (snd (mark ob' i p)) i ty)) = view ob"
    using view_drop [OF inv_mark [OF assms(1)]] v assms(3)
    by (simp add: remove_first_append matches_def)
qed

lemma drop_twice:
  assumes "inv ob" and "fst (drop_msg ob i ty) \<noteq> ESP_OK"
  shows "view (snd (drop_msg ob i ty)) = view ob"
  using assms view_drop [OF assms(1)] ok_drop [OF assms(1)] by (simp add: remove_first_none)

end

lemma outbox_delete_view:
  assumes "outbox_wf ob"
  shows "outbox_view (snd (outbox_delete ob i ty)) = remove_first (matches i ty) (outbox_view ob)"
proof (cases "find (\<lambda>it. msg_id it = i \<and> msg_type it mod 256 = ty) (items ob)")
  case None
  then have "\<forall>e \<in> set (outbox_view ob). \<not> matches i ty e"
    by (auto simp: find_None_iff outbox_view_def matches_def)
  with None show ?thesis by (simp add: outbox_delete_def remove_first_none)
next
  case (Some it)
  obtain ys zs where sp: "items ob = ys @ it # zs" "msg_id it = i \<and> msg_type it mod 256 = ty"
    "\<forall>y \<in> set ys. \<not> (msg_id y = i \<and> msg_type y mod 256 = ty)"
    using find_split [OF Some] by blast
  have "snd (outbox_delete ob i ty) = outbox_unlink ob it" using Some by (simp add: outbox_delete_def)
  then show ?thesis
    using sp outbox_unlink_split(1) [OF sp(1) assms]
    by (simp add: outbox_view_def remove_first_append matches_def)
qed

lemma outbox_delete_ok:
  "fst (outbox_delete ob i ty) = ESP_OK \<longleftrightarrow> (\<exists>e \<in> set (outbox_view ob). matches i ty e)"
  by (auto simp: outbox_delete_def outbox_view_def matches_def find_None_iff dest!: find_split split: option.splits)

lemma outbox_set_pending_view: "outbox_view (snd (outbox_set_pending ob i p)) = outbox_view ob"
  by (auto simp: outbox_set_pending_def outbox_view_def update_item_def split: option.splits)

lemma outbox_set_pending_ok:
  "fst (outbox_set_pending ob i p) = ESP_OK \<longleftrightarrow> i \<in> fst ` set (outbox_view ob)"
  by (auto simp: outbox_set_pending_def outbox_get_def outbox_view_def find_None_iff image_image
      dest!: find_split split: option.splits)

interpretation ob: message_store outbox_wf outbox_view outbox_set_pending outbox_delete
proof unfold_locales
  fix b :: outbox and i p ty
  assume wf: "outbox_wf b"
  show "outbox_wf (snd (outbox_set_pending b i p))"
    using wf_apply_op [OF wf, of "SetPending i p"] by simp
  show "outbox_wf (snd (outbox_delete b i ty))"
    using wf_apply_op [OF wf, of "Delete i ty"] by simp
qed (simp_all add: outbox_set_pending_view outbox_set_pending_ok outbox_delete_view outbox_delete_ok)

lemma outbox_enqueue_item:
  assumes "length (om_data msg) = nat (om_len msg)" and "0 \<le> om_len msg" and "0 \<le> om_remaining_len msg"
    and "om_remaining_data msg = Some r" and "length r = nat (om_remaining_len msg)"
  shows "\<exists>it. outbox_enqueue (Some a) (Some blk) ob msg t =
      (Some it, ob\<lparr>items := items ob @ [it], size_of := size_of ob + of_int (om_len msg + om_remaining_len msg)\<rparr>)
    \<and> self it = a \<and> buffer it = om_data msg @ r \<and> int (length (buffer it)) = len it
    \<and> msg_id it = om_msg_id msg \<and> msg_type it = om_msg_type msg \<and> pending it = QUEUED \<and> tick it = t"
  using assms by (simp add: outbox_enqueue_def Let_def)

section \<open>Properties\<close>

text \<open>
  C16. The outbox accounts for its memory exactly: after any sequence of operations on a new outbox,
  with an allocator that never returns the address of a live item, no two items share an address and
  \<open>outbox_get_size\<close> is the sum of the lengths of the items in the list, modulo \<open>2^64\<close>.
\<close>
theorem outbox_accounting:
  assumes "outbox_init True True = Some ob0" and "fresh_ops ops ob0"
  shows "distinct (map self (items (fold apply_op ops ob0))) \<and>
    outbox_get_size (fold apply_op ops ob0) = of_int (sum_list (map len (items (fold apply_op ops ob0))))"
proof -
  have "outbox_wf ob0" using assms(1) by (auto simp: outbox_init_def outbox_wf_def)
  from wf_apply_ops [OF this assms(2)] show ?thesis by (simp add: outbox_wf_def outbox_get_size_def)
qed

definition demo_msg :: "int \<Rightarrow> outbox_message" where
  "demo_msg i = \<lparr>om_data = [1, 2], om_len = 2, om_msg_id = i, om_msg_qos = 1, om_msg_type = 3,
     om_remaining_data = Some [9], om_remaining_len = 1\<rparr>"

definition demo_ops :: "outbox_op list" where
  "demo_ops = [Enqueue (Some 100) (Some [0, 0, 0]) (demo_msg 1) 10, Enqueue (Some 200) (Some [0, 0, 0]) (demo_msg 2) 50,
     SetPending 1 TRANSMITTED, DeleteExpired 60 20]"

theorem outbox_accounting_witness:
  "outbox_get_size (fold apply_op demo_ops \<lparr>size_of = 0, items = []\<rparr>) = 3
   \<and> map msg_id (items (fold apply_op demo_ops \<lparr>size_of = 0, items = []\<rparr>)) = [2]"
proof -
  have "outbox_init True True = Some \<lparr>size_of = 0, items = []\<rparr>" by (simp add: outbox_init_def)
  moreover have "fresh_ops demo_ops \<lparr>size_of = 0, items = []\<rparr>"
    by (simp add: demo_ops_def outbox_enqueue_def demo_msg_def Let_def)
  ultimately have "outbox_get_size (fold apply_op demo_ops \<lparr>size_of = 0, items = []\<rparr>)
      = of_int (sum_list (map len (items (fold apply_op demo_ops \<lparr>size_of = 0, items = []\<rparr>))))"
    by (rule outbox_accounting [THEN conjunct2])
  moreover have "items (fold apply_op demo_ops \<lparr>size_of = 0, items = []\<rparr>) =
     [\<lparr>self = 200, buffer = [1, 2, 9], len = 3, msg_id = 2, msg_type = 3, msg_qos = 1, tick = 50, pending = QUEUED\<rparr>]"
    by (simp add: demo_ops_def outbox_enqueue_def demo_msg_def Let_def outbox_set_pending_def outbox_get_def
        update_item_def outbox_delete_expired_def expired_def outbox_unlink_def stailq_remove_def)
  ultimately show ?thesis by simp
qed

definition demo_item :: "addr \<Rightarrow> int \<Rightarrow> outbox_item" where
  "demo_item a t = \<lparr>self = a, buffer = [1, 2, 9], len = 3, msg_id = int a, msg_type = 3, msg_qos = 1, tick = t, pending = QUEUED\<rparr>"

text \<open>
  \<open>outbox_delete_expired\<close> is exact: it removes all and only the items older than the timeout,
  keeps the order of the others, and returns how many it removed.
\<close>
lemma outbox_delete_expired_exact:
  assumes "outbox_wf ob"
  shows "\<exists>ob'. outbox_delete_expired ob now timeout = (int (length (filter (expired now timeout) (items ob))), ob')
    \<and> items ob' = filter (\<lambda>it. \<not> expired now timeout it) (items ob) \<and> outbox_wf ob'"
  using delete_expired_walk_spec [OF assms, of "[]" "items ob" now timeout 0]
  by (simp add: outbox_delete_expired_def)

lemma outbox_delete_expired_exact_witness:
  "\<exists>ob'. outbox_delete_expired \<lparr>size_of = 6, items = [demo_item 100 10, demo_item 200 50]\<rparr> 60 20 = (1, ob')
     \<and> items ob' = [demo_item 200 50] \<and> outbox_wf ob'"
  using outbox_delete_expired_exact [of "\<lparr>size_of = 6, items = [demo_item 100 10, demo_item 200 50]\<rparr>" 60 20]
  by (simp add: outbox_wf_def demo_item_def expired_def)

text \<open>
  The life of an acknowledged message: enqueue it under an id and type no queued message has, mark it
  transmitted, and delete it when its acknowledgement arrives. The deletion succeeds and the outbox holds
  the same messages in the same order as before, and in between it held the message's bytes, header and
  remaining payload joined.
\<close>
lemma outbox_ack_cycle:
  assumes "outbox_wf ob" and "a \<notin> self ` set (items ob)"
    and "\<forall>e \<in> set (outbox_view ob). \<not> matches (om_msg_id msg) (om_msg_type msg mod 256) e"
    and "length (om_data msg) = nat (om_len msg)" and "0 \<le> om_len msg" and "0 \<le> om_remaining_len msg"
    and "om_remaining_data msg = Some r" and "length r = nat (om_remaining_len msg)"
    and "ob1 = snd (outbox_enqueue (Some a) (Some blk) ob msg t)"
    and "ob2 = snd (outbox_set_pending ob1 (om_msg_id msg) TRANSMITTED)"
  shows "outbox_view ob1 = outbox_view ob @ [(om_msg_id msg, om_msg_type msg mod 256, om_data msg @ r)]
    \<and> fst (outbox_delete ob2 (om_msg_id msg) (om_msg_type msg mod 256)) = ESP_OK
    \<and> outbox_view (snd (outbox_delete ob2 (om_msg_id msg) (om_msg_type msg mod 256))) = outbox_view ob"
proof -
  have wf1: "outbox_wf ob1" using assms(2) unfolding assms(9) by (intro wf_enqueue [OF assms(1)]) auto
  have v1: "outbox_view ob1 = outbox_view ob @ [(om_msg_id msg, om_msg_type msg mod 256, om_data msg @ r)]"
    using outbox_enqueue_item [OF assms(4-8), of a blk ob t] assms(9) by (auto simp: outbox_view_def)
  from v1 ob.ack_cycle [OF wf1 v1 assms(3)] assms(10) show ?thesis by simp
qed

lemma outbox_ack_cycle_witness:
  "\<exists>ob1 ob2. ob1 = snd (outbox_enqueue (Some 100) (Some [0, 0, 0]) \<lparr>size_of = 0, items = []\<rparr> (demo_msg 7) 1)
    \<and> ob2 = snd (outbox_set_pending ob1 7 TRANSMITTED)
    \<and> outbox_view ob1 = [(7, 3, [1, 2, 9])]
    \<and> fst (outbox_delete ob2 7 3) = ESP_OK \<and> outbox_view (snd (outbox_delete ob2 7 3)) = []"
proof -
  have "outbox_view (snd (outbox_enqueue (Some 100) (Some [0, 0, 0]) \<lparr>size_of = 0, items = []\<rparr> (demo_msg 7) 1))
      = outbox_view \<lparr>size_of = 0, items = []\<rparr> @ [(om_msg_id (demo_msg 7), om_msg_type (demo_msg 7) mod 256, om_data (demo_msg 7) @ [9])]
    \<and> fst (outbox_delete (snd (outbox_set_pending (snd (outbox_enqueue (Some 100) (Some [0, 0, 0]) \<lparr>size_of = 0, items = []\<rparr> (demo_msg 7) 1))
        (om_msg_id (demo_msg 7)) TRANSMITTED)) (om_msg_id (demo_msg 7)) (om_msg_type (demo_msg 7) mod 256)) = ESP_OK
    \<and> outbox_view (snd (outbox_delete (snd (outbox_set_pending (snd (outbox_enqueue (Some 100) (Some [0, 0, 0]) \<lparr>size_of = 0, items = []\<rparr> (demo_msg 7) 1))
        (om_msg_id (demo_msg 7)) TRANSMITTED)) (om_msg_id (demo_msg 7)) (om_msg_type (demo_msg 7) mod 256))) = outbox_view \<lparr>size_of = 0, items = []\<rparr>"
    by (rule outbox_ack_cycle [OF _ _ _ _ _ _ _ _ refl refl])
      (simp_all add: outbox_wf_def outbox_view_def demo_msg_def)
  then show ?thesis by (simp add: demo_msg_def outbox_view_def)
qed

end
