(* ===== verification/Mqtt_Config.thy ===== *)
theory Mqtt_Config
  imports Mqtt_Msg Mqtt_Outbox
begin

text \<open>
  The configuration of the MQTT client (\<^verbatim>\<open>espressif__mqtt\<close>: \<open>mqtt_config_storage_t\<close> of \<open>mqtt_client_priv.h\<close>,
  \<open>esp_mqtt_client_config_t\<close> of \<open>mqtt_client.h\<close>) and the part of \<open>mqtt_client.c\<close> that turns it into settings of the
  TLS transport.
\<close>

section \<open>Data\<close>

record keep_alive =
  keep_alive_enable :: bool
  keep_alive_idle :: int
  keep_alive_interval :: int
  keep_alive_count :: int

text \<open>
  The stored configuration. Pointers that the client copies are their content; pointers it only passes on are addresses,
  or the memory block they point to where the client looks into it. \<open>own_transport\<close> is the default port of a
  transport the user supplied.
\<close>
record mqtt_config =
  event_loop_handle :: bool
  task_stack :: int
  task_prio :: int
  uri :: "bytes option"
  host :: "bytes option"
  path :: "bytes option"
  scheme :: "bytes option"
  own_transport :: "int option"
  port :: int
  auto_reconnect :: bool
  network_timeout_ms :: int
  refresh_connection_after_ms :: int
  reconnect_timeout_ms :: int
  alpn_protos :: "bytes list option"
  num_alpn_protos :: nat
  clientkey_password :: "bytes option"
  clientkey_password_len :: int
  use_global_ca_store :: bool
  crt_bundle_attach :: "addr option"
  ciphersuites_list :: "addr option"
  cacert_buf :: "bytes option"
  cacert_bytes :: nat
  clientcert_buf :: "bytes option"
  clientcert_bytes :: nat
  clientkey_buf :: "bytes option"
  clientkey_bytes :: nat
  psk_hint_key :: "addr option"
  skip_cert_common_name_check :: bool
  common_name :: "bytes option"
  use_secure_element :: bool
  ds_data :: "addr option"
  use_ecdsa_peripheral :: bool
  ecdsa_key_efuse_blk :: nat
  message_retransmit_timeout :: int
  outbox_limit :: u64
  if_name :: "bytes option"
  tcp_keep_alive_cfg :: keep_alive

definition no_keep_alive :: keep_alive where
  "no_keep_alive = \<lparr>keep_alive_enable = False, keep_alive_idle = 0, keep_alive_interval = 0, keep_alive_count = 0\<rparr>"

text \<open>The zeroed struct.\<close>
definition empty_config :: mqtt_config where
  "empty_config =
     \<lparr>event_loop_handle = False, task_stack = 0, task_prio = 0, uri = None, host = None, path = None, scheme = None, own_transport = None, port = 0,
      auto_reconnect = False, network_timeout_ms = 0, refresh_connection_after_ms = 0, reconnect_timeout_ms = 0,
      alpn_protos = None, num_alpn_protos = 0, clientkey_password = None, clientkey_password_len = 0, use_global_ca_store = False,
      crt_bundle_attach = None, ciphersuites_list = None, cacert_buf = None, cacert_bytes = 0, clientcert_buf = None,
      clientcert_bytes = 0, clientkey_buf = None, clientkey_bytes = 0, psk_hint_key = None,
      skip_cert_common_name_check = False, common_name = None, use_secure_element = False, ds_data = None,
      use_ecdsa_peripheral = False, ecdsa_key_efuse_blk = 0, message_retransmit_timeout = 0, outbox_limit = 0,
      if_name = None, tcp_keep_alive_cfg = no_keep_alive\<rparr>"

text \<open>What the user passes, with the names of the innermost fields.\<close>
datatype esp_mqtt_transport =
    MQTT_TRANSPORT_UNKNOWN | MQTT_TRANSPORT_OVER_TCP | MQTT_TRANSPORT_OVER_SSL | MQTT_TRANSPORT_OVER_WS | MQTT_TRANSPORT_OVER_WSS

record esp_mqtt_client_config =
  u_uri :: "bytes option"
  u_hostname :: "bytes option"
  u_transport :: esp_mqtt_transport
  u_path :: "bytes option"
  u_port :: u32
  u_use_global_ca_store :: bool
  u_crt_bundle_attach :: "addr option"
  u_certificate :: "bytes option"
  u_certificate_len :: nat
  u_psk_hint_key :: "addr option"
  u_skip_cert_common_name_check :: bool
  u_alpn_protos :: "bytes list option"
  u_common_name :: "bytes option"
  u_ciphersuites_list :: "addr option"
  u_username :: "bytes option"
  u_client_id :: "bytes option"
  u_set_null_client_id :: bool
  u_password :: "bytes option"
  u_auth_certificate :: "bytes option"
  u_auth_certificate_len :: nat
  u_key :: "bytes option"
  u_key_len :: nat
  u_key_password :: "bytes option"
  u_key_password_len :: int
  u_use_secure_element :: bool
  u_ds_data :: "addr option"
  u_use_ecdsa_peripheral :: bool
  u_ecdsa_key_efuse_blk :: nat
  u_will_topic :: "bytes option"
  u_will_msg :: "bytes option"
  u_will_msg_len :: int
  u_will_qos :: int
  u_will_retain :: int
  u_disable_clean_session :: bool
  u_keepalive :: int
  u_disable_keepalive :: bool
  u_protocol_ver :: protocol_ver
  u_message_retransmit_timeout :: int
  u_reconnect_timeout_ms :: int
  u_timeout_ms :: int
  u_refresh_connection_after_ms :: int
  u_disable_auto_reconnect :: bool
  u_tcp_keep_alive_cfg :: keep_alive
  u_own_transport :: "int option"
  u_if_name :: "bytes option"
  u_priority :: int
  u_stack_size :: int
  u_size :: int
  u_out_size :: int
  u_limit :: u64

text \<open>\<open>esp_mqtt_client_config_t cfg = {}\<close>\<close>
definition empty_user_config :: esp_mqtt_client_config where
  "empty_user_config =
     \<lparr>u_uri = None, u_hostname = None, u_transport = MQTT_TRANSPORT_UNKNOWN, u_path = None, u_port = 0, u_use_global_ca_store = False,
      u_crt_bundle_attach = None, u_certificate = None, u_certificate_len = 0, u_psk_hint_key = None, u_skip_cert_common_name_check = False,
      u_alpn_protos = None, u_common_name = None, u_ciphersuites_list = None, u_username = None, u_client_id = None, u_set_null_client_id = False,
      u_password = None, u_auth_certificate = None, u_auth_certificate_len = 0, u_key = None, u_key_len = 0, u_key_password = None,
      u_key_password_len = 0, u_use_secure_element = False, u_ds_data = None, u_use_ecdsa_peripheral = False, u_ecdsa_key_efuse_blk = 0,
      u_will_topic = None, u_will_msg = None, u_will_msg_len = 0, u_will_qos = 0, u_will_retain = 0, u_disable_clean_session = False,
      u_keepalive = 0, u_disable_keepalive = False, u_protocol_ver = MQTT_PROTOCOL_UNDEFINED, u_message_retransmit_timeout = 0,
      u_reconnect_timeout_ms = 0, u_timeout_ms = 0, u_refresh_connection_after_ms = 0, u_disable_auto_reconnect = False,
      u_tcp_keep_alive_cfg = no_keep_alive, u_own_transport = None, u_if_name = None, u_priority = 0, u_stack_size = 0, u_size = 0,
      u_out_size = 0, u_limit = 0\<rparr>"

section \<open>C strings\<close>

definition lit :: "string \<Rightarrow> bytes" where
  "lit s = map (of_nat \<circ> of_char) s"

text \<open>\<open>strncasecmp\<close> with the size of a literal, its terminator included: equality up to case.\<close>
definition to_lower :: "byte \<Rightarrow> byte" where
  "to_lower c = (if 65 \<le> c \<and> c \<le> 90 then c + 32 else c)"

definition is_scheme :: "bytes \<Rightarrow> string \<Rightarrow> bool" where
  "is_scheme b s \<longleftrightarrow> map to_lower b = lit s"

text \<open>\<open>strlen\<close> of a memory block, which must have a terminator.\<close>
definition data_strlen :: "bytes \<Rightarrow> fault + int" where
  "data_strlen b = (if 0 \<in> set b then Inr (int (length (takeWhile (\<lambda>c. c \<noteq> 0) b))) else Inl Overrun)"

text \<open>\<open>strcmp\<close> of a memory block with a literal stops at the first difference.\<close>
definition data_equals :: "bytes \<Rightarrow> string \<Rightarrow> fault + bool" where
  "data_equals b s =
     (let l = lit s @ [0] in
      if length b < length l \<and> b = take (length b) l then Inl Overrun else Inr (take (length l) b = l))"

section \<open>Settings of the TLS transport\<close>

datatype ssl_api = MQTT_SSL_DATA_API_CA_CERT | MQTT_SSL_DATA_API_CLIENT_CERT | MQTT_SSL_DATA_API_CLIENT_KEY

text \<open>The calls of \<open>esp_transport_ssl_set_\<dots>\<close>; the flag of \<open>Cert_Key\<close> says that the data is a text and not DER.\<close>
datatype transport_setting =
    Global_Ca_Store | Crt_Bundle addr | Ciphersuites addr | Psk_Hint addr | Alpn "bytes list" | Skip_Common_Name
  | Common_Name bytes | Secure_Element | Ds_Data addr | Ecdsa_Peripheral nat | Cert_Key ssl_api bool "bytes option" int
  | Key_Password bytes int | Keep_Alive keep_alive

text \<open>Which of the optional features of esp-tls the build has.\<close>
record tls_build =
  certificate_bundle :: bool
  psk_verification :: bool
  ssl_alpn :: bool
  secure_element :: bool
  ds_peripheral :: bool
  ecdsa_sign :: bool

definition esp_mqtt_set_cert_key_data :: "ssl_api \<Rightarrow> bytes option \<Rightarrow> nat \<Rightarrow> fault + esp_err \<times> transport_setting list" where
  "esp_mqtt_set_cert_key_data what d n =
     (case d of
        None \<Rightarrow> Inr (ESP_OK, [])
      | Some b \<Rightarrow>
          (case if n = 0 then data_strlen b else Inr (s32 (int n)) of
             Inl f \<Rightarrow> Inl f
           | Inr k \<Rightarrow>
               (case data_equals b ''NULL'' of
                  Inl f \<Rightarrow> Inl f
                | Inr True \<Rightarrow> Inr (ESP_OK, [Cert_Key what (n = 0) None 0])
                | Inr False \<Rightarrow> Inr (ESP_OK, [Cert_Key what (n = 0) (Some b) k]))))"

text \<open>One step after the other, up to the first that fails; the settings made before it stay.\<close>
primrec settings_run :: "(fault + bool \<times> transport_setting list) list \<Rightarrow> fault + bool \<times> transport_setting list" where
  "settings_run [] = Inr (True, [])"
| "settings_run (x # xs) =
     (case x of
        Inl f \<Rightarrow> Inl f
      | Inr (False, l) \<Rightarrow> Inr (False, l)
      | Inr (True, l) \<Rightarrow>
          (case settings_run xs of Inl f \<Rightarrow> Inl f | Inr (r, l') \<Rightarrow> Inr (r, l @ l')))"

definition cert_key_step :: "ssl_api \<Rightarrow> bytes option \<Rightarrow> nat \<Rightarrow> fault + bool \<times> transport_setting list" where
  "cert_key_step what d n =
     (case esp_mqtt_set_cert_key_data what d n of Inl f \<Rightarrow> Inl f | Inr (r, l) \<Rightarrow> Inr (r = ESP_OK, l))"

text \<open>A setting that is made when it is configured, and an error when the build does not have it.\<close>
definition optional_step :: "'a option \<Rightarrow> bool \<Rightarrow> ('a \<Rightarrow> transport_setting) \<Rightarrow> fault + bool \<times> transport_setting list" where
  "optional_step x supported f =
     (case x of None \<Rightarrow> Inr (True, []) | Some a \<Rightarrow> if supported then Inr (True, [f a]) else Inr (False, []))"

definition flag :: "bool \<Rightarrow> 'a \<Rightarrow> 'a option" where
  "flag b x = (if b then Some x else None)"

definition esp_mqtt_set_ssl_transport_properties :: "tls_build \<Rightarrow> mqtt_config \<Rightarrow> fault + esp_err \<times> transport_setting list" where
  "esp_mqtt_set_ssl_transport_properties B cfg =
     (case settings_run
        [if use_global_ca_store cfg then Inr (True, [Global_Ca_Store])
         else if crt_bundle_attach cfg \<noteq> None then optional_step (crt_bundle_attach cfg) (certificate_bundle B) Crt_Bundle
         else cert_key_step MQTT_SSL_DATA_API_CA_CERT (cacert_buf cfg) (cacert_bytes cfg),
         optional_step (ciphersuites_list cfg) True Ciphersuites,
         optional_step (psk_hint_key cfg) (psk_verification B) Psk_Hint,
         optional_step (alpn_protos cfg) (ssl_alpn B) Alpn,
         optional_step (flag (skip_cert_common_name_check cfg) ()) True (\<lambda>_. Skip_Common_Name),
         optional_step (common_name cfg) True Common_Name,
         optional_step (flag (use_secure_element cfg) ()) (secure_element B) (\<lambda>_. Secure_Element),
         optional_step (ds_data cfg) (ds_peripheral B) Ds_Data,
         optional_step (flag (use_ecdsa_peripheral cfg) (ecdsa_key_efuse_blk cfg)) (ecdsa_sign B) Ecdsa_Peripheral,
         cert_key_step MQTT_SSL_DATA_API_CLIENT_CERT (clientcert_buf cfg) (clientcert_bytes cfg),
         cert_key_step MQTT_SSL_DATA_API_CLIENT_KEY (clientkey_buf cfg) (clientkey_bytes cfg),
         (case clientkey_password cfg of
            Some p \<Rightarrow> Inr (True, if clientkey_password_len cfg \<noteq> 0 then [Key_Password p (clientkey_password_len cfg)] else [])
          | None \<Rightarrow> Inr (True, []))] of
        Inl f \<Rightarrow> Inl f
      | Inr (r, l) \<Rightarrow> Inr (if r then ESP_OK else ESP_FAIL, l))"

text \<open>What the task sets on the transport before it connects; the result of the TLS part is not looked at.\<close>
definition transport_settings :: "tls_build \<Rightarrow> mqtt_config \<Rightarrow> fault + transport_setting list" where
  "transport_settings B cfg =
     (case esp_mqtt_set_ssl_transport_properties B cfg of
        Inl f \<Rightarrow> Inl f
      | Inr (_, l) \<Rightarrow> Inr (l @ (if keep_alive_enable (tcp_keep_alive_cfg cfg) then [Keep_Alive (tcp_keep_alive_cfg cfg)] else [])))"

section \<open>Conflicts\<close>

definition esp_mqtt_check_cfg_conflict :: "mqtt_config \<Rightarrow> esp_mqtt_client_config \<Rightarrow> esp_err" where
  "esp_mqtt_check_cfg_conflict cfg user =
     (let ssl_cfg_enabled = use_global_ca_store cfg \<or> cacert_buf cfg \<noteq> None \<or> clientcert_buf cfg \<noteq> None \<or> psk_hint_key cfg \<noteq> None
            \<or> alpn_protos cfg \<noteq> None;
          is_ssl_scheme = (case scheme cfg of None \<Rightarrow> False | Some s \<Rightarrow> is_scheme s ''mqtts'' \<or> is_scheme s ''wss'')
      in if \<not> is_ssl_scheme \<and> ssl_cfg_enabled then ESP_ERR_INVALID_ARG
         else if uri cfg \<noteq> None \<and> u_transport user \<noteq> MQTT_TRANSPORT_UNKNOWN then ESP_ERR_INVALID_ARG
         else ESP_OK)"

end
