(* ===== verification/Mqtt_Client.thy ===== *)
theory Mqtt_Client
  imports Mqtt_Config
begin

unbundle bit_operations_syntax

text \<open>
  The MQTT client (\<^verbatim>\<open>espressif__mqtt/mqtt_client.c\<close>) in its default configuration: protocol 3.1.1, no
  MQTT 5, one queued event. The client struct is the record \<open>client\<close>. What ESP-IDF provides (the transport, the event loop,
  the timer, the allocator) is the record \<open>platform\<close>, an argument of the operations, which act on an abstract
  world of type \<open>'w\<close>, the last field of \<open>client\<close>. A step outside an array, a read through a dangling pointer
  and a loop without end are the faults of \<open>Mqtt_Msg\<close>.
\<close>

section \<open>State\<close>

datatype mqtt_client_state = MQTT_STATE_INIT | MQTT_STATE_DISCONNECTED | MQTT_STATE_CONNECTED | MQTT_STATE_WAIT_RECONNECT

datatype esp_mqtt_event_id =
    MQTT_EVENT_ERROR | MQTT_EVENT_CONNECTED | MQTT_EVENT_DISCONNECTED | MQTT_EVENT_SUBSCRIBED | MQTT_EVENT_UNSUBSCRIBED
  | MQTT_EVENT_PUBLISHED | MQTT_EVENT_DATA | MQTT_EVENT_BEFORE_CONNECT | MQTT_EVENT_DELETED | MQTT_USER_EVENT

datatype esp_mqtt_error_type =
    MQTT_ERROR_TYPE_NONE | MQTT_ERROR_TYPE_TCP_TRANSPORT | MQTT_ERROR_TYPE_CONNECTION_REFUSED | MQTT_ERROR_TYPE_SUBSCRIBE_FAILED

text \<open>Of the error handle the two fields that the client itself decides; the others are what esp-tls reports.\<close>
record mqtt_event =
  event_id :: esp_mqtt_event_id
  ev_data :: "bytes option"
  data_len :: int
  total_data_len :: int
  current_data_offset :: int
  ev_topic :: "bytes option"
  topic_len :: int
  ev_msg_id :: int
  session_present :: int
  error_type :: esp_mqtt_error_type
  connect_return_code :: int
  ev_retain :: bool
  ev_qos :: int
  ev_dup :: bool

text \<open>
  \<open>out_item\<close> says where \<open>outbound_message.data\<close> points: into the connection's buffer, at the offset
  \<open>m_data\<close>, or to the buffer of the outbox item at an address. The last two fields are the local variable
  of the task and the world.
\<close>
record 'w client =
  configured :: bool
  buffers_freed :: bool
  config :: mqtt_config
  transport_list :: "(bytes \<times> int) list option"
  in_buffer :: bytes
  in_buffer_length :: int
  message_length :: nat
  in_buffer_read_len :: nat
  connection :: mqtt_connection
  information :: mqtt_connect_info
  out_item :: "addr option"
  pending_msg_id :: nat
  pending_msg_type :: int
  pending_publish_qos :: int
  state :: mqtt_client_state
  refresh_connection_tick :: u64
  keepalive_tick :: u64
  reconnect_tick :: u64
  wait_timeout_ms :: int
  event :: mqtt_event
  run :: bool
  wait_for_ping_resp :: bool
  outbox_of :: outbox
  stopped_bit :: bool
  reconnect_bit :: bool
  disconnect_bit :: bool
  last_retransmit :: u64
  world :: 'w

text \<open>
  The platform. \<open>transport_read n timeout\<close> gives the result code and the bytes stored at the pointer;
  \<open>transport_write bs timeout\<close> the number of bytes taken; \<open>allocate n\<close> the address of a zeroed struct and the
  content of a block of \<open>n\<close> bytes, each \<open>None\<close> when there is no memory.
\<close>
record 'w platform =
  transport_read :: "int \<Rightarrow> int \<Rightarrow> 'w \<Rightarrow> int \<times> bytes \<times> 'w"
  transport_write :: "bytes \<Rightarrow> int \<Rightarrow> 'w \<Rightarrow> int \<times> 'w"
  transport_connect :: "int \<Rightarrow> 'w \<Rightarrow> int \<times> 'w"
  transport_close :: "'w \<Rightarrow> 'w"
  transport_poll_read :: "int \<Rightarrow> 'w \<Rightarrow> int \<times> 'w"
  list_get_transport :: "(bytes \<times> int) list \<Rightarrow> bytes \<Rightarrow> int option"
  err_timeout :: int
  esp_timer_get_time :: "'w \<Rightarrow> int \<times> 'w"
  event_post :: "mqtt_event \<Rightarrow> 'w \<Rightarrow> 'w"
  event_loop_run :: "'w \<Rightarrow> 'w"
  allocate :: "nat \<Rightarrow> 'w \<Rightarrow> (addr option \<times> bytes option) \<times> 'w"
  mem_ok :: "'w \<Rightarrow> bool \<times> 'w"
  build_of :: tls_build
  read_mac :: bytes
  transport_setup :: "transport_setting list \<Rightarrow> 'w \<Rightarrow> 'w"

text \<open>Sequencing of steps that may fault.\<close>
definition bnd :: "fault + 'a \<times> 's \<Rightarrow> ('a \<Rightarrow> 's \<Rightarrow> fault + 'b \<times> 's) \<Rightarrow> fault + 'b \<times> 's" where
  "bnd r k = (case r of Inl f \<Rightarrow> Inl f | Inr (a, s) \<Rightarrow> k a s)"

section \<open>Time\<close>

definition platform_tick_get_ms :: "'w platform \<Rightarrow> 'w \<Rightarrow> u64 \<times> 'w" where
  "platform_tick_get_ms P w = (case esp_timer_get_time P w of (t, w) \<Rightarrow> (of_int (t sdiv 1000), w))"

definition get_tick :: "'w platform \<Rightarrow> 'w client \<Rightarrow> u64 \<times> 'w client" where
  "get_tick P s = (case platform_tick_get_ms P (world s) of (t, w) \<Rightarrow> (t, s\<lparr>world := w\<rparr>))"

definition has_timed_out :: "'w platform \<Rightarrow> u64 \<Rightarrow> u64 \<Rightarrow> 'w client \<Rightarrow> bool \<times> 'w client" where
  "has_timed_out P last_tick timeout s =
     (case get_tick P s of (t, s) \<Rightarrow> (sint (last_tick + timeout - t) \<le> 0, s))"

section \<open>Events\<close>

definition esp_mqtt_dispatch_event :: "'w platform \<Rightarrow> 'w client \<Rightarrow> 'w client" where
  "esp_mqtt_dispatch_event P s = s\<lparr>world := event_loop_run P (event_post P (event s) (world s))\<rparr>"

definition esp_mqtt_dispatch_event_with_msgid :: "'w platform \<Rightarrow> 'w client \<Rightarrow> fault + unit \<times> 'w client" where
  "esp_mqtt_dispatch_event_with_msgid P s =
     lft (mqtt_get_id (in_buffer s) (sz (in_buffer_length s)))
       (\<lambda>i. Inr ((), esp_mqtt_dispatch_event P (s\<lparr>event := (event s)\<lparr>ev_msg_id := int i\<rparr>\<rparr>)))"

definition set_event :: "esp_mqtt_event_id \<Rightarrow> 'w client \<Rightarrow> 'w client" where
  "set_event e s = s\<lparr>event := (event s)\<lparr>event_id := e\<rparr>\<rparr>"

definition esp_mqtt_client_dispatch_transport_error :: "'w platform \<Rightarrow> 'w client \<Rightarrow> fault + unit \<times> 'w client" where
  "esp_mqtt_client_dispatch_transport_error P s =
     esp_mqtt_dispatch_event_with_msgid P
       (s\<lparr>event := (event s)\<lparr>event_id := MQTT_EVENT_ERROR, error_type := MQTT_ERROR_TYPE_TCP_TRANSPORT, connect_return_code := 0\<rparr>\<rparr>)"

definition esp_mqtt_abort_connection :: "'w platform \<Rightarrow> 'w client \<Rightarrow> fault + unit \<times> 'w client" where
  "esp_mqtt_abort_connection P s =
     (let s = s\<lparr>world := transport_close P (world s), wait_timeout_ms := reconnect_timeout_ms (config s)\<rparr>;
          (t, s) = get_tick P s
      in esp_mqtt_dispatch_event_with_msgid P
           (set_event MQTT_EVENT_DISCONNECTED (s\<lparr>reconnect_tick := t, state := MQTT_STATE_WAIT_RECONNECT, wait_for_ping_resp := False\<rparr>)))"

section \<open>Sending\<close>

text \<open>The bytes from \<open>outbound_message.data\<close> to the end of the array it points into.\<close>
definition outbound_data :: "'w client \<Rightarrow> fault + bytes" where
  "outbound_data s =
     (case out_item s of
        None \<Rightarrow> Inr (drop (m_data (outbound (connection s))) (cbuffer (connection s)))
      | Some a \<Rightarrow> (case find (\<lambda>it. self it = a) (items (outbox_of s)) of None \<Rightarrow> Inl Overrun | Some it \<Rightarrow> Inr (buffer it)))"

text \<open>The loop over what is left to write.\<close>
function write_loop :: "'w platform \<Rightarrow> bytes \<Rightarrow> 'w client \<Rightarrow> fault + esp_err \<times> 'w client" where
  "write_loop P bs s =
     (if bs = [] then Inr (ESP_OK, s)
      else case transport_write P bs (network_timeout_ms (config s)) (world s) of
        (wlen, w) \<Rightarrow>
          (let s = s\<lparr>world := w\<rparr>
           in if wlen < 0 then bnd (esp_mqtt_client_dispatch_transport_error P s) (\<lambda>_ s. Inr (ESP_FAIL, s))
              else if wlen = 0 then Inr (ESP_ERR_TIMEOUT, s)
              else write_loop P (drop (nat wlen) bs) s))"
  by pat_completeness auto
termination by (relation "measure (\<lambda>(P, bs, s). length bs)") auto

declare write_loop.simps [simp del]

definition esp_mqtt_write :: "'w platform \<Rightarrow> 'w client \<Rightarrow> fault + esp_err \<times> 'w client" where
  "esp_mqtt_write P s =
     (let n = s32 (int (m_length (outbound (connection s)))) in
      if n \<le> 0 then Inr (ESP_OK, s)
      else lft (outbound_data s) (\<lambda>d. if length d < nat n then Inl Overrun else write_loop P (take (nat n) d) s))"

text \<open>A call of one of the packet builders, which leave the packet in the connection's buffer.\<close>
definition build :: "(mqtt_connection \<Rightarrow> fault + mqtt_connection) \<Rightarrow> 'w client \<Rightarrow> fault + unit \<times> 'w client" where
  "build f s = lft (f (connection s)) (\<lambda>c. Inr ((), s\<lparr>connection := c, out_item := None\<rparr>))"

abbreviation outbound_length :: "'w client \<Rightarrow> nat" where
  "outbound_length s \<equiv> m_length (outbound (connection s))"

definition esp_mqtt_client_ping :: "'w platform \<Rightarrow> 'w client \<Rightarrow> fault + esp_err \<times> 'w client" where
  "esp_mqtt_client_ping P s =
     bnd (build mqtt_msg_pingreq s) (\<lambda>_ s.
       if outbound_length s = 0 then Inr (ESP_FAIL, s)
       else bnd (esp_mqtt_write P s) (\<lambda>r s. Inr (if r \<noteq> ESP_OK then ESP_FAIL else ESP_OK, s)))"

definition send_disconnect_msg :: "'w platform \<Rightarrow> 'w client \<Rightarrow> fault + esp_err \<times> 'w client" where
  "send_disconnect_msg P s =
     bnd (build mqtt_msg_disconnect s) (\<lambda>_ s.
       if outbound_length s = 0 then Inr (ESP_FAIL, s)
       else bnd (esp_mqtt_write P s) (\<lambda>_ s. Inr (ESP_OK, s)))"

definition process_keepalive :: "'w platform \<Rightarrow> 'w client \<Rightarrow> fault + esp_err \<times> 'w client" where
  "process_keepalive P s =
     (if keepalive (information s) > 0 then
        (let keepalive_ms = of_int (s32 (keepalive (information s) * 1000)) :: u64 in
         if wait_for_ping_resp s then
           (case has_timed_out P (keepalive_tick s) keepalive_ms s of
              (True, s) \<Rightarrow> bnd (esp_mqtt_abort_connection P s) (\<lambda>_ s. Inr (ESP_FAIL, s\<lparr>wait_for_ping_resp := False\<rparr>))
            | (False, s) \<Rightarrow> Inr (ESP_OK, s))
         else
           (case has_timed_out P (keepalive_tick s) (keepalive_ms div 2) s of
              (True, s) \<Rightarrow>
                bnd (esp_mqtt_client_ping P s) (\<lambda>r s.
                  if r = ESP_FAIL then bnd (esp_mqtt_abort_connection P s) (\<lambda>_ s. Inr (ESP_FAIL, s))
                  else Inr (ESP_OK, s\<lparr>wait_for_ping_resp := True\<rparr>))
            | (False, s) \<Rightarrow> Inr (ESP_OK, s)))
      else Inr (ESP_OK, s))"

section \<open>Receiving\<close>

text \<open>Result code -2 after an error event; 0 or -1 on a timeout.\<close>
definition esp_mqtt_handle_transport_read_error :: "'w platform \<Rightarrow> int \<Rightarrow> bool \<Rightarrow> 'w client \<Rightarrow> fault + int \<times> 'w client" where
  "esp_mqtt_handle_transport_read_error P err mid_message s =
     (if err = err_timeout P then Inr (if mid_message then - 1 else 0, s)
      else bnd (esp_mqtt_client_dispatch_transport_error P s) (\<lambda>_ s. Inr (- 2, s)))"

text \<open>\<open>esp_transport_read (t, in_buffer + off, n, timeout)\<close>: what arrives is stored in the buffer.\<close>
definition read_at :: "'w platform \<Rightarrow> nat \<Rightarrow> int \<Rightarrow> int \<Rightarrow> 'w client \<Rightarrow> fault + int \<times> 'w client" where
  "read_at P off n timeout s =
     (case transport_read P n timeout (world s) of
        (r, bs, w) \<Rightarrow>
          if r \<le> 0 then Inr (r, s\<lparr>world := w\<rparr>)
          else if off + length bs \<le> length (in_buffer s) then Inr (r, s\<lparr>in_buffer := overlay (in_buffer s) off bs, world := w\<rparr>)
          else Inl Overrun)"

text \<open>The label \<open>err\<close>.\<close>
definition receive_err :: "'w platform \<Rightarrow> 'w client \<Rightarrow> fault + int \<times> 'w client" where
  "receive_err P s = bnd (esp_mqtt_client_dispatch_transport_error P s) (\<lambda>_ s. Inr (- 2, s))"

text \<open>
  \<open>mqtt_message_receive\<close> in its four parts: the type byte, the remaining length, the start of a PUBLISH
  that does not fit the buffer, and the rest of the packet. \<open>k\<close> is the part that follows.
\<close>
definition receive_type ::
  "'w platform \<Rightarrow> int \<Rightarrow> ('w client \<Rightarrow> fault + int \<times> 'w client) \<Rightarrow> 'w client \<Rightarrow> fault + int \<times> 'w client" where
  "receive_type P timeout k s =
     (if in_buffer_read_len s = 0 then
        bnd (read_at P 0 1 timeout s) (\<lambda>r s.
          if r \<le> 0 then esp_mqtt_handle_transport_read_error P r False s
          else lft (mqtt_has_valid_msg_hdr (in_buffer s) (nat r)) (\<lambda>valid.
            if \<not> valid then receive_err P s else k (s\<lparr>in_buffer_read_len := 1\<rparr>)))
      else k s)"

definition more_length :: "'w client \<Rightarrow> bool" where
  "more_length s \<longleftrightarrow> in_buffer_read_len s < 6 \<and> in_buffer s ! (in_buffer_read_len s - 1) AND 0x80 \<noteq> 0"

text \<open>The \<open>do\<close> loop with \<open>n\<close> bytes up to the limit of six; at the limit it ends.\<close>
primrec receive_length_loop ::
  "nat \<Rightarrow> 'w platform \<Rightarrow> int \<Rightarrow> ('w client \<Rightarrow> fault + int \<times> 'w client) \<Rightarrow> 'w client \<Rightarrow> fault + int \<times> 'w client" where
  "receive_length_loop 0 P timeout k s = k s"
| "receive_length_loop (Suc n) P timeout k s =
     bnd (read_at P (in_buffer_read_len s) 1 timeout s) (\<lambda>r s.
       if r \<le> 0 then esp_mqtt_handle_transport_read_error P r True s
       else (let s = s\<lparr>in_buffer_read_len := in_buffer_read_len s + 1\<rparr>
             in if more_length s then receive_length_loop n P timeout k s else k s))"

definition receive_length ::
  "'w platform \<Rightarrow> int \<Rightarrow> ('w client \<Rightarrow> fault + int \<times> 'w client) \<Rightarrow> 'w client \<Rightarrow> fault + int \<times> 'w client" where
  "receive_length P timeout k s =
     (if in_buffer_read_len s = 1 \<or> more_length s then receive_length_loop (6 - in_buffer_read_len s) P timeout k s else k s)"

text \<open>\<open>total_len\<close> is an \<open>int\<close>, compared with and subtracted from as \<open>size_t\<close>.\<close>
definition receive_rest :: "'w platform \<Rightarrow> int \<Rightarrow> int \<Rightarrow> 'w client \<Rightarrow> fault + int \<times> 'w client" where
  "receive_rest P timeout total_len s =
     (if in_buffer_read_len s < sz total_len then
        bnd (read_at P (in_buffer_read_len s) (s32 (total_len - int (in_buffer_read_len s))) timeout s) (\<lambda>r s.
          if r \<le> 0 then esp_mqtt_handle_transport_read_error P r True s
          else (let s = s\<lparr>in_buffer_read_len := in_buffer_read_len s + nat r\<rparr>
                in if in_buffer_read_len s < sz total_len then Inr (0, s) else Inr (1, s)))
      else Inr (1, s))"

definition receive_topic :: "'w platform \<Rightarrow> int \<Rightarrow> nat \<Rightarrow> 'w client \<Rightarrow> fault + int \<times> 'w client" where
  "receive_topic P timeout fixed_header_len s =
     lft (rd16 (in_buffer s) fixed_header_len) (\<lambda>tlen.
     lft (mqtt_get_qos (in_buffer s)) (\<lambda>q.
       (let total_len = int fixed_header_len + int tlen + (if q > 0 then 2 else 0) in
        if in_buffer_length s < total_len then receive_err P s
        else receive_rest P timeout (in_buffer_length s) s)))"

definition receive_oversize :: "'w platform \<Rightarrow> int \<Rightarrow> nat \<Rightarrow> 'w client \<Rightarrow> fault + int \<times> 'w client" where
  "receive_oversize P timeout fixed_header_len s =
     (if in_buffer_read_len s < fixed_header_len + 2 then
        bnd (read_at P (in_buffer_read_len s) (s32 (int (in_buffer_read_len s) - int fixed_header_len + 2)) timeout s) (\<lambda>r s.
          if r \<le> 0 then esp_mqtt_handle_transport_read_error P r True s
          else (let s = s\<lparr>in_buffer_read_len := in_buffer_read_len s + nat r\<rparr>
                in if in_buffer_read_len s < fixed_header_len + 2 then Inr (0, s)
                   else receive_topic P timeout fixed_header_len s))
      else receive_topic P timeout fixed_header_len s)"

definition receive_body :: "'w platform \<Rightarrow> int \<Rightarrow> 'w client \<Rightarrow> fault + int \<times> 'w client" where
  "receive_body P timeout s =
     lft (mqtt_get_total_length (in_buffer s) (in_buffer_read_len s)) (\<lambda>(total, fixed_header_len).
       (let s = s\<lparr>message_length := unat total\<rparr> in
        if in_buffer_length s < sint total then
          lft (mqtt_get_type (in_buffer s)) (\<lambda>ty.
            if ty = MQTT_MSG_TYPE_PUBLISH then receive_oversize P timeout fixed_header_len s else receive_err P s)
        else receive_rest P timeout (sint total) s))"

definition mqtt_message_receive :: "'w platform \<Rightarrow> int \<Rightarrow> 'w client \<Rightarrow> fault + int \<times> 'w client" where
  "mqtt_message_receive P timeout s =
     receive_type P timeout (receive_length P timeout (receive_body P timeout)) (s\<lparr>message_length := 0\<rparr>)"

section \<open>Delivering\<close>

text \<open>The event of one piece of a PUBLISH: \<open>n\<close> bytes at \<open>off\<close> of the input buffer.\<close>
definition data_event :: "'w platform \<Rightarrow> nat \<Rightarrow> nat \<Rightarrow> nat \<Rightarrow> bytes option \<Rightarrow> nat \<Rightarrow> 'w client \<Rightarrow> 'w client" where
  "data_event P off n data_offset t tlen s =
     esp_mqtt_dispatch_event P
       (s\<lparr>event := (event s)\<lparr>event_id := MQTT_EVENT_DATA, ev_data := (if n > 0 then Some (take n (drop off (in_buffer s))) else None),
          data_len := s32 (int n), current_data_offset := s32 (int data_offset), ev_topic := t, topic_len := int tlen\<rparr>\<rparr>)"

text \<open>
  The loop for the pieces after the first, while \<open>read_len < tot\<close>; \<open>offset\<close> counts the data delivered so
  far. Without \<open>MQTT_TOPIC_PRESENT_ALL_DATA_EVENTS\<close> these events have no topic.
\<close>
function publish_pieces :: "'w platform \<Rightarrow> nat \<Rightarrow> nat \<Rightarrow> nat \<Rightarrow> 'w client \<Rightarrow> fault + esp_err \<times> 'w client" where
  "publish_pieces P tot read_len offset s =
     (if read_len < tot then
        (case read_at P 0 (s32 (int (if tot - read_len > sz (in_buffer_length s) then sz (in_buffer_length s) else tot - read_len)))
                (network_timeout_ms (config s)) s of
           Inl f \<Rightarrow> Inl f
         | Inr (r, s) \<Rightarrow>
             if r \<le> 0 then
               bnd (esp_mqtt_handle_transport_read_error P r False s) (\<lambda>e s. Inr (if e = 0 then ESP_OK else ESP_FAIL, s))
             else publish_pieces P tot (read_len + nat r) (offset + nat r) (data_event P 0 (nat r) offset None 0 s))
      else Inr (ESP_OK, s))"
  by pat_completeness auto
termination by (relation "measure (\<lambda>(P, tot, read_len, offset, s). tot - read_len)") auto

declare publish_pieces.simps [simp del]

definition deliver_publish :: "'w platform \<Rightarrow> 'w client \<Rightarrow> fault + esp_err \<times> 'w client" where
  "deliver_publish P s =
     (let buf = in_buffer s; n = in_buffer_read_len s; tot = message_length s in
      lft (mqtt_get_publish_topic buf n) (\<lambda>topic.
      case topic of
        None \<Rightarrow> Inr (ESP_FAIL, s)
      | Some (toff, tlen) \<Rightarrow>
          lft (mqtt_get_publish_data buf n) (\<lambda>d.
            (let (doff, dlen) = (case d of None \<Rightarrow> (0, 0) | Some x \<Rightarrow> x) in
             lft (mqtt_get_retain buf) (\<lambda>rt.
             lft (mqtt_get_id buf n) (\<lambda>i.
             lft (mqtt_get_qos buf) (\<lambda>q.
             lft (mqtt_get_dup buf) (\<lambda>du.
               (let s = s\<lparr>event := (event s)\<lparr>ev_retain := rt \<noteq> 0, ev_msg_id := int i, ev_qos := q, ev_dup := du \<noteq> 0,
                            total_data_len := s32 (int dlen + int tot - int n)\<rparr>\<rparr>
                in publish_pieces P tot n dlen
                     (data_event P doff dlen 0 (Some (take tlen (drop toff buf))) tlen s)))))))))) "

definition deliver_suback :: "'w platform \<Rightarrow> 'w client \<Rightarrow> fault + esp_err \<times> 'w client" where
  "deliver_suback P s =
     (case mqtt_get_suback_data (in_buffer_read_len s) of
        None \<Rightarrow> Inr (ESP_FAIL, s)
      | Some (off, n) \<Rightarrow>
          (let codes = take n (drop off (in_buffer s));
               failed = (\<exists>c \<in> set codes. c \<ge> 0x80)
           in if length codes < n then Inl Overrun
              else bnd (esp_mqtt_dispatch_event_with_msgid P
                     (s\<lparr>event := (event s)\<lparr>error_type := (if failed then MQTT_ERROR_TYPE_SUBSCRIBE_FAILED else MQTT_ERROR_TYPE_NONE),
                        connect_return_code := 0, data_len := int n, total_data_len := int n, event_id := MQTT_EVENT_SUBSCRIBED,
                        ev_data := Some codes, current_data_offset := 0\<rparr>\<rparr>))
                   (\<lambda>_ s. Inr (ESP_OK, s))))"

definition remove_initiator_message :: "int \<Rightarrow> nat \<Rightarrow> 'w client \<Rightarrow> bool \<times> 'w client" where
  "remove_initiator_message ty i s =
     (case outbox_delete (outbox_of s) (int i) ty of (r, ob) \<Rightarrow> (r = ESP_OK, s\<lparr>outbox_of := ob\<rparr>))"

text \<open>The packet that starts at \<open>outbound_message.data\<close> goes to the outbox, with the rest of its payload.\<close>
definition mqtt_enqueue :: "'w platform \<Rightarrow> bytes option \<Rightarrow> int \<Rightarrow> 'w client \<Rightarrow> fault + bool \<times> 'w client" where
  "mqtt_enqueue P remaining_data remaining_len s =
     lft (outbound_data s) (\<lambda>d.
       if length d < outbound_length s then Inl Overrun
       else
         (let msg = \<lparr>om_data = take (outbound_length s) d, om_len = s32 (int (outbound_length s)), om_msg_id = int (pending_msg_id s),
                     om_msg_qos = pending_publish_qos s, om_msg_type = pending_msg_type s,
                     om_remaining_data = remaining_data, om_remaining_len = remaining_len\<rparr>;
              (t, s) = get_tick P s;
              ((h, raw), w) = allocate P (sz (om_len msg + remaining_len)) (world s);
              (it, ob) = outbox_enqueue h raw (outbox_of s) msg (sint t)
          in Inr (it \<noteq> None, s\<lparr>outbox_of := ob, world := w\<rparr>)))"

definition set_pending :: "nat \<Rightarrow> pending_state \<Rightarrow> 'w client \<Rightarrow> 'w client" where
  "set_pending i p s = s\<lparr>outbox_of := snd (outbox_set_pending (outbox_of s) (int i) p)\<rparr>"

text \<open>The answer to a PUBLISH, PUBREC or PUBREL; \<open>strict\<close> when a failed write is an error.\<close>
definition respond :: "'w platform \<Rightarrow> bool \<Rightarrow> (mqtt_connection \<Rightarrow> fault + mqtt_connection) \<Rightarrow> ('w client \<Rightarrow> 'w client) \<Rightarrow> 'w client
    \<Rightarrow> fault + esp_err \<times> 'w client" where
  "respond P strict f upd s =
     bnd (build f s) (\<lambda>_ s.
       if outbound_length s = 0 then Inr (ESP_FAIL, s)
       else bnd (esp_mqtt_write P (upd s)) (\<lambda>r s. Inr (if strict \<and> r \<noteq> ESP_OK then ESP_FAIL else ESP_OK, s)))"

text \<open>The acknowledgement of a packet in the outbox: when it is there it goes, and its event is posted.\<close>
definition acknowledged :: "'w platform \<Rightarrow> int \<Rightarrow> nat \<Rightarrow> ('w client \<Rightarrow> fault + esp_err \<times> 'w client) \<Rightarrow> 'w client
    \<Rightarrow> fault + esp_err \<times> 'w client" where
  "acknowledged P ty i k s =
     (case remove_initiator_message ty i s of
        (True, s) \<Rightarrow> k s
      | (False, s) \<Rightarrow> Inr (ESP_OK, s))"

definition post_event :: "'w platform \<Rightarrow> esp_mqtt_event_id \<Rightarrow> 'w client \<Rightarrow> fault + esp_err \<times> 'w client" where
  "post_event P e s = bnd (esp_mqtt_dispatch_event_with_msgid P (set_event e s)) (\<lambda>_ s. Inr (ESP_OK, s))"

text \<open>The \<open>switch\<close> over the message type.\<close>
definition handle_message :: "'w platform \<Rightarrow> int \<Rightarrow> int \<Rightarrow> nat \<Rightarrow> 'w client \<Rightarrow> fault + esp_err \<times> 'w client" where
  "handle_message P ty q i s =
     (if ty = MQTT_MSG_TYPE_SUBACK then acknowledged P MQTT_MSG_TYPE_SUBSCRIBE i (deliver_suback P) s
      else if ty = MQTT_MSG_TYPE_UNSUBACK then
        acknowledged P MQTT_MSG_TYPE_UNSUBSCRIBE i (post_event P MQTT_EVENT_UNSUBSCRIBED) s
      else if ty = MQTT_MSG_TYPE_PUBLISH then
        bnd (deliver_publish P s) (\<lambda>r s.
          if r \<noteq> ESP_OK then Inr (ESP_FAIL, s)
          else if q = 1 then respond P True (\<lambda>c. mqtt_msg_puback c i) (\<lambda>s. s) s
          else if q = 2 then respond P True (\<lambda>c. mqtt_msg_pubrec c i) (\<lambda>s. s) s
          else Inr (ESP_OK, s))
      else if ty = MQTT_MSG_TYPE_PUBACK \<or> ty = MQTT_MSG_TYPE_PUBCOMP then
        acknowledged P MQTT_MSG_TYPE_PUBLISH i (post_event P MQTT_EVENT_PUBLISHED) s
      else if ty = MQTT_MSG_TYPE_PUBREC then
        respond P False (\<lambda>c. mqtt_msg_pubrel c i) (set_pending i ACKNOWLEDGED) s
      else if ty = MQTT_MSG_TYPE_PUBREL then respond P False (\<lambda>c. mqtt_msg_pubcomp c i) (\<lambda>s. s) s
      else if ty = MQTT_MSG_TYPE_PINGRESP then
        (case get_tick P (s\<lparr>wait_for_ping_resp := False\<rparr>) of (t, s) \<Rightarrow> Inr (ESP_OK, s\<lparr>keepalive_tick := t\<rparr>))
      else Inr (ESP_OK, s))"

definition mqtt_process_receive :: "'w platform \<Rightarrow> 'w client \<Rightarrow> fault + esp_err \<times> 'w client" where
  "mqtt_process_receive P s =
     (let previous = in_buffer_read_len s in
      bnd (mqtt_message_receive P 0 s) (\<lambda>recv s.
        if recv = 0 then Inr (ESP_OK, s)
        else if recv = - 1 then Inr (if previous = in_buffer_read_len s then ESP_FAIL else ESP_OK, s)
        else if recv < 0 then Inr (ESP_FAIL, s)
        else
          lft (mqtt_get_type (in_buffer s)) (\<lambda>ty.
          lft (mqtt_get_qos (in_buffer s)) (\<lambda>q.
          lft (mqtt_get_id (in_buffer s) (message_length s)) (\<lambda>i.
            bnd (handle_message P ty q i s) (\<lambda>r s.
              if r \<noteq> ESP_OK then Inr (r, s) else Inr (ESP_OK, s\<lparr>in_buffer_read_len := 0\<rparr>)))))))"

section \<open>Connecting and resending\<close>

text \<open>
  The wait for the CONNACK: \<open>mqtt_message_receive\<close> is called again while it returns 0 and the time is not
  up. \<open>None\<close> when \<open>n\<close> calls are not enough.
\<close>
primrec connack_loop :: "nat \<Rightarrow> 'w platform \<Rightarrow> u64 \<Rightarrow> 'w client \<Rightarrow> (fault + int \<times> 'w client) option" where
  "connack_loop 0 P started s = None"
| "connack_loop (Suc n) P started s =
     (case mqtt_message_receive P (network_timeout_ms (config s)) s of
        Inl f \<Rightarrow> Some (Inl f)
      | Inr (r, s) \<Rightarrow>
          if r = 0 then
            (case get_tick P s of (t, s) \<Rightarrow>
               if t - started < of_int (network_timeout_ms (config s)) then connack_loop n P started s else Some (Inr (r, s)))
          else Some (Inr (r, s)))"

text \<open>A refused connection: the event with the broker's return code.\<close>
definition connection_refused :: "'w platform \<Rightarrow> int \<Rightarrow> 'w client \<Rightarrow> fault + esp_err \<times> 'w client" where
  "connection_refused P code s =
     bnd (esp_mqtt_dispatch_event_with_msgid P
       (s\<lparr>event := (event s)\<lparr>event_id := MQTT_EVENT_ERROR, error_type := MQTT_ERROR_TYPE_CONNECTION_REFUSED, connect_return_code := code\<rparr>\<rparr>))
       (\<lambda>_ s. Inr (ESP_FAIL, s))"

text \<open>What follows the wait.\<close>
definition connack_received :: "'w platform \<Rightarrow> int \<Rightarrow> 'w client \<Rightarrow> fault + esp_err \<times> 'w client" where
  "connack_received P read_len s =
     (if read_len \<le> 0 then Inr (ESP_FAIL, s)
      else lft (mqtt_get_type (in_buffer s)) (\<lambda>ty.
        if ty \<noteq> MQTT_MSG_TYPE_CONNACK then Inr (ESP_FAIL, s)
        else (let s = s\<lparr>in_buffer_read_len := 0\<rparr> in
              lft (mqtt_get_connect_return_code (in_buffer s)) (\<lambda>code.
                if code = 0 then Inr (ESP_OK, s) else connection_refused P code s))))"

definition esp_mqtt_connect :: "nat \<Rightarrow> 'w platform \<Rightarrow> 'w client \<Rightarrow> (fault + esp_err \<times> 'w client) option" where
  "esp_mqtt_connect n P s =
     (case build (\<lambda>c. mqtt_msg_connect c (information s)) (s\<lparr>wait_for_ping_resp := False\<rparr>) of
        Inl f \<Rightarrow> Some (Inl f)
      | Inr (_, s) \<Rightarrow>
          if outbound_length s = 0 then Some (Inr (ESP_FAIL, s))
          else
            (case lft (outbound_data s) (\<lambda>d. lft (mqtt_get_type d) (\<lambda>ty. lft (mqtt_get_id d (outbound_length s)) (\<lambda>i. Inr (ty, i)))) of
               Inl f \<Rightarrow> Some (Inl f)
             | Inr (ty, i) \<Rightarrow>
                 (case esp_mqtt_write P (s\<lparr>pending_msg_type := ty, pending_msg_id := i\<rparr>) of
                    Inl f \<Rightarrow> Some (Inl f)
                  | Inr (r, s) \<Rightarrow>
                      if r \<noteq> ESP_OK then Some (Inr (ESP_FAIL, s))
                      else
                        (case get_tick P (s\<lparr>in_buffer_read_len := 0, message_length := 0\<rparr>) of
                           (started, s) \<Rightarrow>
                             map_option (\<lambda>x. bnd x (connack_received P)) (connack_loop n P started s)))))"

text \<open>\<open>outbound_message.data = outbox_item_get_data (item, \<dots>)\<close>: from now on it points into the item.\<close>
definition take_item :: "outbox_item \<Rightarrow> 'w client \<Rightarrow> 'w client" where
  "take_item it s =
     s\<lparr>connection := (connection s)\<lparr>outbound := (outbound (connection s))\<lparr>m_length := sz (len it)\<rparr>\<rparr>, out_item := Some (self it),
       pending_msg_id := nat (msg_id it mod 65536), pending_msg_type := msg_type it, pending_publish_qos := msg_qos it\<rparr>"

definition set_item_dup :: "outbox_item \<Rightarrow> 'w client \<Rightarrow> fault + unit \<times> 'w client" where
  "set_item_dup it s =
     lft (mqtt_set_dup (buffer it)) (\<lambda>b. Inr ((), s\<lparr>outbox_of := update_item (self it) (\<lambda>x. x\<lparr>buffer := b\<rparr>) (outbox_of s)\<rparr>))"

text \<open>The write of a resend, which aborts the connection when it fails.\<close>
definition resend_write :: "'w platform \<Rightarrow> 'w client \<Rightarrow> fault + esp_err \<times> 'w client" where
  "resend_write P s =
     bnd (esp_mqtt_write P s) (\<lambda>r s.
       if r \<noteq> ESP_OK then bnd (esp_mqtt_abort_connection P s) (\<lambda>_ s. Inr (ESP_FAIL, s)) else Inr (ESP_OK, s))"

definition mqtt_resend_queued :: "'w platform \<Rightarrow> outbox_item \<Rightarrow> 'w client \<Rightarrow> fault + esp_err \<times> 'w client" where
  "mqtt_resend_queued P it s =
     (let s = take_item it s in
      bnd (if pending_msg_type s = MQTT_MSG_TYPE_PUBLISH \<and> pending_publish_qos s > 0 \<and> outbox_item_get_pending (Some it) = TRANSMITTED
           then set_item_dup it s else Inr ((), s))
        (\<lambda>_ s. resend_write P s))"

definition mqtt_resend_pubrel :: "'w platform \<Rightarrow> outbox_item \<Rightarrow> 'w client \<Rightarrow> fault + esp_err \<times> 'w client" where
  "mqtt_resend_pubrel P it s =
     (let s = take_item it s in
      bnd (build (\<lambda>c. mqtt_msg_pubrel c (pending_msg_id s)) s) (\<lambda>_ s.
        if outbound_length s = 0 then Inr (ESP_FAIL, s) else resend_write P s))"

definition mqtt_delete_expired_messages :: "'w platform \<Rightarrow> 'w client \<Rightarrow> 'w client" where
  "mqtt_delete_expired_messages P s =
     (case get_tick P s of (t, s) \<Rightarrow> s\<lparr>outbox_of := snd (outbox_delete_expired (outbox_of s) (sint t) 30000)\<rparr>)"

section \<open>The task\<close>

text \<open>
  The transports of a scheme with their default ports, in the order in which they are added; each one is
  an allocation. The build has TLS and websockets.
\<close>
definition transports_of :: "bytes \<Rightarrow> (bytes \<times> int) list option" where
  "transports_of sch =
     (if is_scheme sch ''mqtt'' then Some [(lit ''mqtt'', 1883)]
      else if is_scheme sch ''ws'' then Some [(lit ''mqtt'', 1883), (lit ''ws'', 80)]
      else if is_scheme sch ''mqtts'' then Some [(lit ''mqtts'', 8883)]
      else if is_scheme sch ''wss'' then Some [(lit ''mqtts'', 8883), (lit ''wss'', 443)]
      else None)"

primrec add_transports :: "'w platform \<Rightarrow> (bytes \<times> int) list \<Rightarrow> (bytes \<times> int) list \<Rightarrow> 'w client \<Rightarrow> esp_err \<times> 'w client" where
  "add_transports P [] ts s = (ESP_OK, s\<lparr>transport_list := Some ts\<rparr>)"
| "add_transports P (x # xs) ts s =
     (case mem_ok P (world s) of
        (False, w) \<Rightarrow> (ESP_ERR_NO_MEM, s\<lparr>world := w, transport_list := Some ts\<rparr>)
      | (True, w) \<Rightarrow> add_transports P xs (ts @ [x]) (s\<lparr>world := w\<rparr>))"

definition esp_mqtt_client_create_transport :: "'w platform \<Rightarrow> 'w client \<Rightarrow> esp_err \<times> 'w client" where
  "esp_mqtt_client_create_transport P s =
     (let s = s\<lparr>transport_list := None\<rparr> in
      case scheme (config s) of
        None \<Rightarrow> (ESP_FAIL, s)
      | Some sch \<Rightarrow>
          (case mem_ok P (world s) of
             (False, w) \<Rightarrow> (ESP_ERR_NO_MEM, s\<lparr>world := w\<rparr>)
           | (True, w) \<Rightarrow>
               (let s = s\<lparr>world := w, transport_list := Some []\<rparr> in
                case transports_of sch of None \<Rightarrow> (ESP_FAIL, s) | Some ts \<Rightarrow> add_transports P ts [] s)))"

text \<open>The transport for a new connection; \<open>Some p\<close> is one with default port \<open>p\<close>. Without one the task stops.\<close>
definition choose_transport :: "'w platform \<Rightarrow> 'w client \<Rightarrow> int option \<times> 'w client" where
  "choose_transport P s =
     (case own_transport (config s) of
        Some p \<Rightarrow> (Some p, s)
      | None \<Rightarrow>
        (case esp_mqtt_client_create_transport P s of (r, s) \<Rightarrow>
          if r \<noteq> ESP_OK then (None, s\<lparr>run := False\<rparr>)
          else (case (transport_list s, scheme (config s)) of
             (Some ts, Some sch) \<Rightarrow>
               (case list_get_transport P ts sch of None \<Rightarrow> (None, s\<lparr>run := False\<rparr>) | Some p \<Rightarrow> (Some p, s))
           | _ \<Rightarrow> (None, s\<lparr>run := False\<rparr>))))"

definition on_connected :: "'w platform \<Rightarrow> 'w client \<Rightarrow> fault + unit \<times> 'w client" where
  "on_connected P s =
     lft (mqtt_get_connect_session_present (in_buffer s)) (\<lambda>p.
       bnd (esp_mqtt_dispatch_event_with_msgid P
              (s\<lparr>event := (event s)\<lparr>event_id := MQTT_EVENT_CONNECTED, session_present := p\<rparr>, state := MQTT_STATE_CONNECTED\<rparr>))
         (\<lambda>_ s. (let (t1, s) = get_tick P s; s = s\<lparr>refresh_connection_tick := t1\<rparr>; (t2, s) = get_tick P s
                 in Inr ((), s\<lparr>keepalive_tick := t2\<rparr>))))"

text \<open>The case \<open>MQTT_STATE_INIT\<close>.\<close>
definition state_init :: "nat \<Rightarrow> 'w platform \<Rightarrow> 'w client \<Rightarrow> (fault + unit \<times> 'w client) option" where
  "state_init n P s =
     (case choose_transport P (s\<lparr>reconnect_bit := False, disconnect_bit := False\<rparr>) of
        (None, s) \<Rightarrow> Some (Inr ((), s))
      | (Some p, s) \<Rightarrow>
          (let s = (if port (config s) = 0 then s\<lparr>config := (config s)\<lparr>port := p\<rparr>\<rparr> else s) in
           case lft (transport_settings (build_of P) (config s)) (\<lambda>l.
                  esp_mqtt_dispatch_event_with_msgid P (set_event MQTT_EVENT_BEFORE_CONNECT (s\<lparr>world := transport_setup P l (world s)\<rparr>))) of
             Inl f \<Rightarrow> Some (Inl f)
           | Inr (_, s) \<Rightarrow>
               (case transport_connect P (port (config s)) (world s) of
                  (r, w) \<Rightarrow>
                    if r < 0 then
                      Some (bnd (esp_mqtt_client_dispatch_transport_error P (s\<lparr>world := w\<rparr>)) (\<lambda>_ s. esp_mqtt_abort_connection P s))
                    else
                      map_option (\<lambda>x. bnd x (\<lambda>e s. if e \<noteq> ESP_OK then esp_mqtt_abort_connection P s else on_connected P s))
                        (esp_mqtt_connect n P (s\<lparr>world := w\<rparr>)))))"

text \<open>The first message not yet sent goes out.\<close>
definition resend_first :: "'w platform \<Rightarrow> outbox_item \<Rightarrow> 'w client \<Rightarrow> fault + unit \<times> 'w client" where
  "resend_first P it s =
     bnd (mqtt_resend_queued P it s) (\<lambda>r s.
       if r = ESP_OK then
         (let s = (if pending_msg_type s = MQTT_MSG_TYPE_PUBLISH \<and> pending_publish_qos s = 0
                   then s\<lparr>outbox_of := snd (outbox_delete_item (outbox_of s) (self it))\<rparr> else s)
          in Inr ((), if pending_publish_qos s > 0 then set_pending (pending_msg_id s) TRANSMITTED s else s))
       else Inr ((), s))"

text \<open>A message of state \<open>p\<close> that was sent too long ago is sent again by \<open>f\<close>.\<close>
definition resend_old :: "pending_state \<Rightarrow> (outbox_item \<Rightarrow> 'w client \<Rightarrow> fault + esp_err \<times> 'w client) \<Rightarrow> 'w client \<Rightarrow> fault + unit \<times> 'w client" where
  "resend_old p f s =
     (case outbox_dequeue (outbox_of s) p of
        None \<Rightarrow> Inr ((), s)
      | Some it \<Rightarrow>
          if last_retransmit s - of_int (tick it) > of_int (message_retransmit_timeout (config s))
          then bnd (f it s) (\<lambda>_ s. Inr ((), s)) else Inr ((), s))"

definition retransmit :: "'w platform \<Rightarrow> 'w client \<Rightarrow> fault + unit \<times> 'w client" where
  "retransmit P s =
     (let s = (if last_retransmit s = 0 then (case get_tick P s of (t, s) \<Rightarrow> s\<lparr>last_retransmit := t\<rparr>) else s) in
      case outbox_dequeue (outbox_of s) QUEUED of
        Some it \<Rightarrow> resend_first P it s
      | None \<Rightarrow>
          (case has_timed_out P (last_retransmit s) (of_int (message_retransmit_timeout (config s))) s of
             (False, s) \<Rightarrow> Inr ((), s)
           | (True, s) \<Rightarrow>
               (let (t, s) = get_tick P s in
                bnd (resend_old TRANSMITTED (mqtt_resend_queued P) (s\<lparr>last_retransmit := t\<rparr>))
                  (\<lambda>_ s. resend_old ACKNOWLEDGED (mqtt_resend_pubrel P) s))))"

definition refresh_connection :: "'w platform \<Rightarrow> 'w client \<Rightarrow> fault + unit \<times> 'w client" where
  "refresh_connection P s =
     (if refresh_connection_after_ms (config s) \<noteq> 0 then
        (case has_timed_out P (refresh_connection_tick s) (of_int (refresh_connection_after_ms (config s))) s of
           (False, s) \<Rightarrow> Inr ((), s)
         | (True, s) \<Rightarrow> bnd (esp_mqtt_abort_connection P s) (\<lambda>_ s. Inr ((), s\<lparr>state := MQTT_STATE_INIT\<rparr>)))
      else Inr ((), s))"

text \<open>The case \<open>MQTT_STATE_CONNECTED\<close>, from the resending on and as a whole.\<close>
definition connected_work :: "'w platform \<Rightarrow> 'w client \<Rightarrow> fault + unit \<times> 'w client" where
  "connected_work P s =
     bnd (retransmit P s) (\<lambda>_ s.
     bnd (process_keepalive P s) (\<lambda>k s. if k \<noteq> ESP_OK then Inr ((), s) else refresh_connection P s))"

definition state_connected :: "'w platform \<Rightarrow> 'w client \<Rightarrow> fault + unit \<times> 'w client" where
  "state_connected P s =
     (if disconnect_bit s then
        bnd (send_disconnect_msg P (s\<lparr>disconnect_bit := False\<rparr>)) (\<lambda>_ s. esp_mqtt_abort_connection P s)
      else
        bnd (mqtt_process_receive P s) (\<lambda>r s. if r = ESP_FAIL then esp_mqtt_abort_connection P s else connected_work P s))"

definition state_wait_reconnect :: "'w platform \<Rightarrow> 'w client \<Rightarrow> 'w client" where
  "state_wait_reconnect P s =
     (if \<not> auto_reconnect (config s) \<and> reconnect_bit s then
        s\<lparr>reconnect_bit := False, state := MQTT_STATE_INIT, wait_timeout_ms := 10000\<rparr>
      else if auto_reconnect (config s) then
        (case get_tick P s of (t, s) \<Rightarrow>
           if t - reconnect_tick s > of_int (wait_timeout_ms s)
           then (case get_tick P (s\<lparr>state := MQTT_STATE_INIT\<rparr>) of (t, s) \<Rightarrow> s\<lparr>reconnect_tick := t\<rparr>)
           else s)
      else s)"

text \<open>The part of one round of the loop that runs under the API lock.\<close>
definition task_round :: "nat \<Rightarrow> 'w platform \<Rightarrow> 'w client \<Rightarrow> (fault + unit \<times> 'w client) option" where
  "task_round n P s =
     (let s = mqtt_delete_expired_messages P (s\<lparr>world := event_loop_run P (world s)\<rparr>) in
      case state s of
        MQTT_STATE_DISCONNECTED \<Rightarrow> Some (Inr ((), s))
      | MQTT_STATE_INIT \<Rightarrow> state_init n P s
      | MQTT_STATE_CONNECTED \<Rightarrow> Some (state_connected P s)
      | MQTT_STATE_WAIT_RECONNECT \<Rightarrow> Some (Inr ((), state_wait_reconnect P s)))"

text \<open>The poll after it, without the lock, and the ends of the task.\<close>
definition task_poll :: "'w platform \<Rightarrow> 'w client \<Rightarrow> fault + unit \<times> 'w client" where
  "task_poll P s =
     (if state s = MQTT_STATE_CONNECTED then
        (case transport_poll_read P 1000 (world s) of
           (r, w) \<Rightarrow> if r < 0 then esp_mqtt_abort_connection P (s\<lparr>world := w\<rparr>) else Inr ((), s\<lparr>world := w\<rparr>))
      else Inr ((), s))"

definition task_begin :: "'w client \<Rightarrow> 'w client" where
  "task_begin s = s\<lparr>last_retransmit := 0, run := True, state := MQTT_STATE_INIT, stopped_bit := False\<rparr>"

definition task_end :: "'w platform \<Rightarrow> 'w client \<Rightarrow> 'w client" where
  "task_end P s =
     s\<lparr>world := transport_close P (world s), outbox_of := outbox_delete_all_items (outbox_of s), state := MQTT_STATE_DISCONNECTED, stopped_bit := True\<rparr>"

section \<open>Operations of the application\<close>

text \<open>\<open>task_ok\<close> says whether the task can be created; it then runs from \<open>task_begin\<close>.\<close>
definition esp_mqtt_client_start :: "bool \<Rightarrow> 'w client \<Rightarrow> esp_err" where
  "esp_mqtt_client_start task_ok s =
     (if state s \<noteq> MQTT_STATE_INIT \<and> state s \<noteq> MQTT_STATE_DISCONNECTED then ESP_FAIL
      else if \<not> task_ok then ESP_FAIL else ESP_OK)"

definition esp_mqtt_client_disconnect :: "'w client \<Rightarrow> 'w client" where
  "esp_mqtt_client_disconnect s = s\<lparr>disconnect_bit := True\<rparr>"

definition esp_mqtt_client_reconnect :: "'w client \<Rightarrow> esp_err \<times> 'w client" where
  "esp_mqtt_client_reconnect s =
     (if state s \<noteq> MQTT_STATE_WAIT_RECONNECT then (ESP_FAIL, s) else (ESP_OK, s\<lparr>wait_timeout_ms := 0, reconnect_bit := True\<rparr>))"

text \<open>
  Up to the wait for the end of the task; \<open>own_task\<close> when the caller is the MQTT task itself. With \<open>ESP_OK\<close>
  the caller then blocks until \<open>stopped_bit\<close>.
\<close>
definition esp_mqtt_client_stop :: "'w platform \<Rightarrow> bool \<Rightarrow> 'w client \<Rightarrow> fault + esp_err \<times> 'w client" where
  "esp_mqtt_client_stop P own_task s =
     (if run s then
        (if own_task then Inr (ESP_FAIL, s)
         else bnd (if state s = MQTT_STATE_CONNECTED then send_disconnect_msg P s else Inr (ESP_OK, s)) (\<lambda>_ s.
           Inr (ESP_OK, s\<lparr>run := False, state := MQTT_STATE_DISCONNECTED\<rparr>)))
      else Inr (ESP_FAIL, s))"

text \<open>A packet that expects an acknowledgement: into the outbox, marked as sent, and to the transport.\<close>
definition enqueue_and_send :: "'w platform \<Rightarrow> 'w client \<Rightarrow> fault + int \<times> 'w client" where
  "enqueue_and_send P s =
     (if outbound_length s = 0 then Inr (- 1, s)
      else lft (outbound_data s) (\<lambda>d. lft (mqtt_get_type d) (\<lambda>ty.
        bnd (mqtt_enqueue P None 0 (s\<lparr>pending_msg_type := ty\<rparr>)) (\<lambda>stored s.
          if \<not> stored then Inr (- 1, s)
          else bnd (esp_mqtt_write P (set_pending (pending_msg_id s) TRANSMITTED s)) (\<lambda>r s.
            Inr (if r \<noteq> ESP_OK then - 1 else int (pending_msg_id s), s))))))"

definition esp_mqtt_client_subscribe_multiple :: "'w platform \<Rightarrow> (bytes \<times> int) list \<Rightarrow> int \<Rightarrow> 'w client \<Rightarrow> fault + int \<times> 'w client" where
  "esp_mqtt_client_subscribe_multiple P topics n s =
     (if outbox_limit (config s) > 0 \<and> outbox_get_size (outbox_of s) > outbox_limit (config s) then Inr (- 2, s)
      else if state s \<noteq> MQTT_STATE_CONNECTED then Inr (- 1, s)
      else lft (mqtt_msg_subscribe (connection s) topics n) (\<lambda>(c, mid).
        enqueue_and_send P (s\<lparr>connection := c, out_item := None, pending_msg_id := mid\<rparr>)))"

definition esp_mqtt_client_subscribe_single :: "'w platform \<Rightarrow> bytes \<Rightarrow> int \<Rightarrow> 'w client \<Rightarrow> fault + int \<times> 'w client" where
  "esp_mqtt_client_subscribe_single P t q s = esp_mqtt_client_subscribe_multiple P [(t, q)] 1 s"

definition esp_mqtt_client_unsubscribe :: "'w platform \<Rightarrow> bytes option \<Rightarrow> 'w client \<Rightarrow> fault + int \<times> 'w client" where
  "esp_mqtt_client_unsubscribe P t s =
     (if state s \<noteq> MQTT_STATE_CONNECTED then Inr (- 1, s)
      else lft (mqtt_msg_unsubscribe (connection s) t (pending_msg_id s)) (\<lambda>(c, mid).
        enqueue_and_send P (s\<lparr>connection := c, out_item := None, pending_msg_id := mid\<rparr>)))"

definition make_publish :: "bytes option \<Rightarrow> bytes option \<Rightarrow> int \<Rightarrow> int \<Rightarrow> int \<Rightarrow> 'w client \<Rightarrow> fault + int \<times> 'w client" where
  "make_publish t d n q rt s =
     lft (mqtt_msg_publish (connection s) t d n q rt 0) (\<lambda>(c, mid).
       (let s = s\<lparr>connection := c, out_item := None\<rparr> in Inr (if outbound_length s = 0 then - 1 else int mid, s)))"

text \<open>The number of payload bytes in the packet that was built.\<close>
definition data_sent :: "'w client \<Rightarrow> int" where
  "data_sent s = s32 (int (outbound_length s) - int (m_frag_offset (outbound (connection s))))"

definition set_frag :: "nat \<Rightarrow> nat \<Rightarrow> 'w client \<Rightarrow> 'w client" where
  "set_frag offset total_len s =
     s\<lparr>connection := (connection s)\<lparr>outbound := (outbound (connection s))\<lparr>m_frag_offset := offset, m_frag_total := total_len\<rparr>\<rparr>\<rparr>"

definition clear_frag_total :: "'w client \<Rightarrow> 'w client" where
  "clear_frag_total s = set_frag (m_frag_offset (outbound (connection s))) 0 s"

text \<open>The user's data from index \<open>i\<close> on; a negative index or one past the end is outside the array.\<close>
definition data_from :: "bytes option \<Rightarrow> int \<Rightarrow> int \<Rightarrow> fault + bytes" where
  "data_from d i n =
     (case d of None \<Rightarrow> Inl Overrun
      | Some b \<Rightarrow> if 0 \<le> i \<and> 0 \<le> n \<and> nat i + nat n \<le> length b then Inr (take (nat n) (drop (nat i) b)) else Inl Overrun)"

definition mqtt_client_enqueue_publish ::
  "'w platform \<Rightarrow> bytes option \<Rightarrow> bytes option \<Rightarrow> int \<Rightarrow> int \<Rightarrow> int \<Rightarrow> bool \<Rightarrow> 'w client \<Rightarrow> fault + int \<times> 'w client" where
  "mqtt_client_enqueue_publish P t d n q rt store s =
     bnd (make_publish t d n q rt s) (\<lambda>mid s.
       if mid < 0 then Inr (- 1, s)
       else if q > 0 \<or> store then
         lft (outbound_data s) (\<lambda>o'. lft (mqtt_get_type o') (\<lambda>ty.
           (let s = s\<lparr>pending_msg_type := ty, pending_msg_id := nat mid, pending_publish_qos := q\<rparr> in
            if m_frag_total (outbound (connection s)) = 0 then
              bnd (mqtt_enqueue P None 0 s) (\<lambda>stored s. Inr (if \<not> stored then - 1 else mid, s))
            else
              lft (data_from d (data_sent s) (n - data_sent s)) (\<lambda>rest.
                bnd (mqtt_enqueue P (Some rest) (n - data_sent s) s) (\<lambda>stored s.
                  if \<not> stored then Inr (- 1, s) else Inr (mid, clear_frag_total s))))))
       else Inr (mid, s))"

definition publish_len :: "bytes option \<Rightarrow> int \<Rightarrow> fault + int" where
  "publish_len d n = (case d of Some b \<Rightarrow> if n \<le> 0 then data_strlen b else Inr n | None \<Rightarrow> Inr n)"

text \<open>
  The \<open>while (sending)\<close> loop after a packet or fragment was written: \<open>rest\<close> payload bytes are left,
  from index \<open>i\<close> of the data on. With an empty buffer it would not end.
\<close>
function send_fragments :: "'w platform \<Rightarrow> bytes option \<Rightarrow> int \<Rightarrow> int \<Rightarrow> 'w client \<Rightarrow> fault + bool \<times> 'w client" where
  "send_fragments P d rest i s =
     (if rest > 0 then
        (let write_len = (if rest > int (cbuffer_length (connection s)) then int (cbuffer_length (connection s)) else rest) in
         if write_len \<le> 0 then Inl Hang
         else case lft (data_from d i write_len) (\<lambda>b. buf_memcpy 0 b (nat write_len) (connection s)) of
           Inl f \<Rightarrow> Inl f
         | Inr c \<Rightarrow>
             (case esp_mqtt_write P (s\<lparr>connection := c\<lparr>outbound := (outbound c)\<lparr>m_data := 0, m_length := nat write_len\<rparr>\<rparr>, out_item := None\<rparr>) of
                Inl f \<Rightarrow> Inl f
              | Inr (r, s) \<Rightarrow>
                  if r \<noteq> ESP_OK then bnd (esp_mqtt_abort_connection P s) (\<lambda>_ s. Inr (False, s))
                  else send_fragments P d (rest - write_len) (i + write_len) (set_frag 0 0 s)))
      else Inr (True, s))"
  by pat_completeness auto
termination by (relation "measure (\<lambda>(P, d, rest, i, s). nat rest)") auto

declare send_fragments.simps [simp del]

definition send_publish :: "'w platform \<Rightarrow> bytes option \<Rightarrow> int \<Rightarrow> 'w client \<Rightarrow> fault + bool \<times> 'w client" where
  "send_publish P d n s =
     bnd (esp_mqtt_write P s) (\<lambda>r s.
       if r \<noteq> ESP_OK then bnd (esp_mqtt_abort_connection P s) (\<lambda>_ s. Inr (False, s))
       else send_fragments P d (n - data_sent s) (data_sent s) (set_frag 0 0 s))"

definition mark_transmitted :: "'w platform \<Rightarrow> nat \<Rightarrow> 'w client \<Rightarrow> 'w client" where
  "mark_transmitted P mid s =
     (case get_tick P s of (t, s) \<Rightarrow> set_pending mid TRANSMITTED (s\<lparr>outbox_of := snd (outbox_set_tick (outbox_of s) (int mid) (sint t))\<rparr>))"

definition esp_mqtt_client_publish ::
  "'w platform \<Rightarrow> bytes option \<Rightarrow> bytes option \<Rightarrow> int \<Rightarrow> int \<Rightarrow> int \<Rightarrow> 'w client \<Rightarrow> fault + int \<times> 'w client" where
  "esp_mqtt_client_publish P t d n0 q rt s =
     lft (publish_len d n0) (\<lambda>n.
       if outbox_limit (config s) > 0 \<and> q > 0 \<and> of_int n + outbox_get_size (outbox_of s) > outbox_limit (config s) then Inr (- 2, s)
       else
         bnd (mqtt_client_enqueue_publish P t d n q rt False s) (\<lambda>mid s.
           if mid < 0 then Inr (- 1, s)
           else if state s \<noteq> MQTT_STATE_CONNECTED then Inr (if q > 0 then mid else - 1, clear_frag_total s)
           else
             bnd (send_publish P d n s) (\<lambda>sent s.
               if \<not> sent then Inr (- 1, clear_frag_total s)
               else Inr (mid, if q > 0 then mark_transmitted P (nat mid) s else s))))"

definition esp_mqtt_client_enqueue ::
  "'w platform \<Rightarrow> bytes option \<Rightarrow> bytes option \<Rightarrow> int \<Rightarrow> int \<Rightarrow> int \<Rightarrow> bool \<Rightarrow> 'w client \<Rightarrow> fault + int \<times> 'w client" where
  "esp_mqtt_client_enqueue P t d n0 q rt store s =
     lft (publish_len d n0) (\<lambda>n.
       if outbox_limit (config s) > 0 \<and> of_int n + outbox_get_size (outbox_of s) > outbox_limit (config s) then Inr (- 2, s)
       else bnd (mqtt_client_enqueue_publish P t d n q rt store s) (\<lambda>r s. Inr (if r = 0 \<and> \<not> store then - 1 else r, s)))"

definition esp_mqtt_client_get_outbox_size :: "'w client \<Rightarrow> int" where
  "esp_mqtt_client_get_outbox_size s = s32 (uint (outbox_get_size (outbox_of s)))"

end
