(* ===== verification/Mqtt_Client_Correct.thy ===== *)
theory Mqtt_Client_Correct
  imports Mqtt_Client
begin

unbundle bit_operations_syntax

text \<open>
  What the operations of the MQTT client leave alone: the connection state and the outbox change only in
  the places meant for it. The lemmas hold for every platform on which the events are the only thing that
  an observer of the connection sees.
\<close>

section \<open>Results of steps that may fault\<close>

named_theorems ok_intros

definition ok :: "fault + 'a \<times> 's \<Rightarrow> ('a \<Rightarrow> 's \<Rightarrow> bool) \<Rightarrow> bool" where
  "ok r Q \<longleftrightarrow> (\<forall>a s. r = Inr (a, s) \<longrightarrow> Q a s)"

lemma ok_Inr [simp]: "ok (Inr (a, s)) Q \<longleftrightarrow> Q a s"
  and ok_Inl [simp]: "ok (Inl f) Q"
  by (simp_all add: ok_def)

lemma ok_bnd: "ok r (\<lambda>a s. ok (k a s) Q) \<Longrightarrow> ok (bnd r k) Q"
  by (auto simp: ok_def bnd_def split: sum.splits)

lemma ok_lft: "(\<And>a. r = Inr a \<Longrightarrow> ok (k a) Q) \<Longrightarrow> ok (lft r k) Q"
  by (auto simp: lft_def split: sum.splits)

lemma ok_mono: "ok r P \<Longrightarrow> (\<And>a s. P a s \<Longrightarrow> Q a s) \<Longrightarrow> ok r Q"
  by (auto simp: ok_def)

lemma ok_if: "(c \<Longrightarrow> ok a Q) \<Longrightarrow> (\<not> c \<Longrightarrow> ok b Q) \<Longrightarrow> ok (if c then a else b) Q"
  by simp

text \<open>Sequencing for a reflexive and transitive relation on states.\<close>
definition moves :: "('s \<Rightarrow> 's \<Rightarrow> bool) \<Rightarrow> 's \<Rightarrow> fault + 'a \<times> 's \<Rightarrow> bool" where
  "moves R s r \<longleftrightarrow> ok r (\<lambda>_. R s)"

lemma moves_Inr [simp]: "moves R s (Inr (a, s')) \<longleftrightarrow> R s s'"
  and moves_Inl [simp]: "moves R s (Inl f)"
  by (simp_all add: moves_def)

lemma moves_bnd:
  assumes "moves R s r" and "\<And>a t. R s t \<Longrightarrow> moves R s (k a t)"
  shows "moves R s (bnd r k)"
  using assms by (auto simp: moves_def ok_def bnd_def split: sum.splits)

lemma moves_lft: "(\<And>a. moves R s (k a)) \<Longrightarrow> moves R s (lft r k)"
  by (auto simp: moves_def lft_def split: sum.splits)

section \<open>What an observer of the connection sees\<close>

text \<open>
  \<open>obs\<close> is kept by an observer: set by the event CONNECTED, reset by DISCONNECTED, and nothing else that the
  client does changes it.
\<close>
locale observed =
  fixes P :: "'w platform" and obs :: "'w \<Rightarrow> bool"
  assumes obs_read: "transport_read P n t w = (r, bs, w') \<Longrightarrow> obs w' = obs w"
    and obs_write: "transport_write P b t w = (x, w') \<Longrightarrow> obs w' = obs w"
    and obs_connect: "transport_connect P p w = (x, w') \<Longrightarrow> obs w' = obs w"
    and obs_close: "obs (transport_close P w) = obs w"
    and obs_poll: "transport_poll_read P t w = (x, w') \<Longrightarrow> obs w' = obs w"
    and obs_time: "esp_timer_get_time P w = (u, w') \<Longrightarrow> obs w' = obs w"
    and obs_alloc: "allocate P k w = (v, w') \<Longrightarrow> obs w' = obs w"
    and obs_mem: "mem_ok P w = (y, w') \<Longrightarrow> obs w' = obs w"
    and obs_setup: "obs (transport_setup P l w) = obs w"
    and obs_loop: "obs (event_loop_run P w) = obs w"
    and obs_post: "obs (event_post P e w) =
      (if event_id e = MQTT_EVENT_CONNECTED then True else if event_id e = MQTT_EVENT_DISCONNECTED then False else obs w)"
begin

text \<open>Nothing of interest happens; or at most the connection is aborted.\<close>
definition quiet :: "'w client \<Rightarrow> 'w client \<Rightarrow> bool" where
  "quiet s s' \<longleftrightarrow> state s' = state s \<and> obs (world s') = obs (world s) \<and> outbox_of s' = outbox_of s \<and> config s' = config s \<and> run s' = run s"

definition lost :: "'w client \<Rightarrow> 'w client \<Rightarrow> bool" where
  "lost s s' \<longleftrightarrow> outbox_of s' = outbox_of s \<and> config s' = config s \<and> run s' = run s
     \<and> (state s' = state s \<and> obs (world s') = obs (world s) \<or> state s' = MQTT_STATE_WAIT_RECONNECT \<and> \<not> obs (world s'))"

lemma quiet_refl [simp]: "quiet s s"
  and quiet_trans: "quiet s t \<Longrightarrow> quiet t u \<Longrightarrow> quiet s u"
  and lost_refl [simp]: "lost s s"
  and lost_trans: "lost s t \<Longrightarrow> lost t u \<Longrightarrow> lost s u"
  and quiet_lost: "quiet s t \<Longrightarrow> lost s t"
  by (auto simp: quiet_def lost_def)

lemma quiet_tick: "get_tick P s = (t, s') \<Longrightarrow> quiet s s'"
  by (auto simp: get_tick_def platform_tick_get_ms_def quiet_def split: prod.splits dest: obs_time)

lemma quiet_timed_out: "has_timed_out P a b s = (t, s') \<Longrightarrow> quiet s s'"
  by (auto simp: has_timed_out_def split: prod.splits dest: quiet_tick)

lemma quiet_dispatch:
  "event_id (event s) \<noteq> MQTT_EVENT_CONNECTED \<Longrightarrow> event_id (event s) \<noteq> MQTT_EVENT_DISCONNECTED \<Longrightarrow> quiet s (esp_mqtt_dispatch_event P s)"
  by (simp add: esp_mqtt_dispatch_event_def quiet_def obs_loop obs_post)

lemma quiet_event:
  "event_id (event s) \<noteq> MQTT_EVENT_CONNECTED \<Longrightarrow> event_id (event s) \<noteq> MQTT_EVENT_DISCONNECTED
   \<Longrightarrow> moves quiet s (esp_mqtt_dispatch_event_with_msgid P s)"
  unfolding esp_mqtt_dispatch_event_with_msgid_def
  by (rule moves_lft) (simp add: esp_mqtt_dispatch_event_def quiet_def obs_loop obs_post)

lemma quiet_transport_error: "moves quiet s (esp_mqtt_client_dispatch_transport_error P s)"
  unfolding esp_mqtt_client_dispatch_transport_error_def esp_mqtt_dispatch_event_with_msgid_def
  by (rule moves_lft) (simp add: esp_mqtt_dispatch_event_def quiet_def obs_loop obs_post)

lemma abort_lost:
  "ok (esp_mqtt_abort_connection P s) (\<lambda>_ s'. lost s s' \<and> state s' = MQTT_STATE_WAIT_RECONNECT \<and> \<not> obs (world s'))"
  unfolding esp_mqtt_abort_connection_def esp_mqtt_dispatch_event_with_msgid_def Let_def
  by (auto intro!: ok_lft simp: esp_mqtt_dispatch_event_def set_event_def lost_def obs_loop obs_post split: prod.splits dest!: quiet_tick simp: quiet_def)

lemma abort_moves: "moves lost s (esp_mqtt_abort_connection P s)"
  using abort_lost [of s] by (auto simp: moves_def ok_def)

lemma quiet_moves: "quiet s t \<Longrightarrow> moves quiet t r \<Longrightarrow> moves quiet s r"
  by (auto simp: moves_def ok_def intro: quiet_trans)

lemma lost_moves: "lost s t \<Longrightarrow> moves lost t r \<Longrightarrow> moves lost s r"
  by (auto simp: moves_def ok_def intro: lost_trans)

lemma moves_quiet_lost: "moves quiet s r \<Longrightarrow> moves lost s r"
  by (auto simp: moves_def ok_def intro: quiet_lost)

text \<open>Changes to fields that nobody watches.\<close>
lemma quiet_fields [simp]:
  "quiet s (t\<lparr>in_buffer := a\<rparr>) = quiet s t" "quiet s (t\<lparr>in_buffer_read_len := b\<rparr>) = quiet s t" "quiet s (t\<lparr>message_length := b\<rparr>) = quiet s t"
  "quiet s (t\<lparr>connection := c\<rparr>) = quiet s t" "quiet s (t\<lparr>out_item := d\<rparr>) = quiet s t" "quiet s (t\<lparr>event := e\<rparr>) = quiet s t"
  "quiet s (t\<lparr>pending_msg_id := b\<rparr>) = quiet s t" "quiet s (t\<lparr>pending_msg_type := f\<rparr>) = quiet s t" "quiet s (t\<lparr>pending_publish_qos := f\<rparr>) = quiet s t"
  "quiet s (t\<lparr>wait_for_ping_resp := g\<rparr>) = quiet s t" "quiet s (t\<lparr>keepalive_tick := h\<rparr>) = quiet s t" "quiet s (t\<lparr>last_retransmit := h\<rparr>) = quiet s t"
  "quiet s (t\<lparr>disconnect_bit := g\<rparr>) = quiet s t" "quiet s (t\<lparr>reconnect_bit := g\<rparr>) = quiet s t" "quiet s (t\<lparr>refresh_connection_tick := h\<rparr>) = quiet s t"
  "quiet s (t\<lparr>transport_list := l\<rparr>) = quiet s t" "quiet s (t\<lparr>wait_timeout_ms := f\<rparr>) = quiet s t" "quiet s (t\<lparr>reconnect_tick := h\<rparr>) = quiet s t"
  by (simp_all add: quiet_def)

lemma lost_fields [simp]:
  "lost s (t\<lparr>in_buffer_read_len := b\<rparr>) = lost s t" "lost s (t\<lparr>wait_for_ping_resp := g\<rparr>) = lost s t" "lost s (t\<lparr>last_retransmit := h\<rparr>) = lost s t"
  "lost s (t\<lparr>connection := c\<rparr>) = lost s t" "lost s (t\<lparr>out_item := d\<rparr>) = lost s t"
  by (simp_all add: lost_def)

lemma quiet_write_loop: "moves quiet s (write_loop P bs s)"
proof (induction "length bs" arbitrary: bs s rule: less_induct)
  case less
  obtain wlen w where w: "transport_write P bs (network_timeout_ms (config s)) (world s) = (wlen, w)" by (rule prod.exhaust)
  have q: "quiet s (s\<lparr>world := w\<rparr>)" using obs_write [OF w] by (simp add: quiet_def)
  have "moves quiet (s\<lparr>world := w\<rparr>) (write_loop P (drop (nat wlen) bs) (s\<lparr>world := w\<rparr>))" if "bs \<noteq> []" "0 < wlen"
    using that by (intro less) auto
  moreover have "moves quiet (s\<lparr>world := w\<rparr>) (bnd (esp_mqtt_client_dispatch_transport_error P (s\<lparr>world := w\<rparr>)) (\<lambda>_ s. Inr (ESP_FAIL, s)))"
    by (rule moves_bnd [OF quiet_transport_error]) simp
  ultimately show ?case
    using q quiet_moves [OF q] by (subst write_loop.simps) (auto simp: w Let_def)
qed

lemma quiet_write: "moves quiet s (esp_mqtt_write P s)"
  unfolding esp_mqtt_write_def Let_def by (auto intro!: moves_lft quiet_write_loop)

lemma quiet_build: "moves quiet s (build f s)"
  unfolding build_def by (rule moves_lft) simp

lemma quiet_ping: "moves quiet s (esp_mqtt_client_ping P s)"
  unfolding esp_mqtt_client_ping_def
  by (intro moves_bnd [OF quiet_build]) (auto intro!: moves_bnd [OF quiet_moves [OF _ quiet_write]])

lemma quiet_disconnect: "moves quiet s (send_disconnect_msg P s)"
  unfolding send_disconnect_msg_def
  by (intro moves_bnd [OF quiet_build]) (auto intro!: moves_bnd [OF quiet_moves [OF _ quiet_write]])

lemma keepalive_lost: "moves lost s (process_keepalive P s)"
proof -
  have abort: "moves lost t (bnd (esp_mqtt_abort_connection P t) (\<lambda>_ s. Inr (ESP_FAIL, s\<lparr>wait_for_ping_resp := False\<rparr>)))"
    "moves lost t (bnd (esp_mqtt_abort_connection P t) (\<lambda>_ s. Inr (ESP_FAIL, s)))" for t
    by (auto intro!: moves_bnd [OF abort_moves])
  have ping: "moves lost t (bnd (esp_mqtt_client_ping P t) (\<lambda>r s.
      if r = ESP_FAIL then bnd (esp_mqtt_abort_connection P s) (\<lambda>_ s. Inr (ESP_FAIL, s)) else Inr (ESP_OK, s\<lparr>wait_for_ping_resp := True\<rparr>)))" for t
    by (rule moves_bnd [OF moves_quiet_lost [OF quiet_ping]]) (auto intro!: lost_moves [OF _ abort(2)])
  have "lost s t" if "has_timed_out P a b s = (c, t)" for a b c t using quiet_timed_out [OF that] by (rule quiet_lost)
  then show ?thesis
    unfolding process_keepalive_def Let_def
    by (auto split: prod.splits bool.splits intro!: lost_moves [OF _ abort(1)] lost_moves [OF _ ping])
qed

lemma quiet_read_error: "moves quiet s (esp_mqtt_handle_transport_read_error P e b s)"
  unfolding esp_mqtt_handle_transport_read_error_def by (auto intro!: moves_bnd [OF quiet_transport_error])

lemma quiet_receive_err: "moves quiet s (receive_err P s)"
  unfolding receive_err_def by (auto intro!: moves_bnd [OF quiet_transport_error])

lemma quiet_read_at: "moves quiet s (read_at P off n t s)"
  unfolding read_at_def by (auto split: prod.splits dest: obs_read simp: quiet_def)

lemmas quiet_after = quiet_moves [OF _ quiet_read_error] quiet_moves [OF _ quiet_receive_err] quiet_moves [OF _ quiet_write]

lemma quiet_receive_type:
  assumes "\<And>t. moves quiet t (k t)"
  shows "moves quiet s (receive_type P timeout k s)"
  unfolding receive_type_def
  by (auto intro!: moves_bnd [OF quiet_read_at] moves_lft quiet_after quiet_moves [OF _ assms])

lemma quiet_length_loop:
  assumes "\<And>t. moves quiet t (k t)"
  shows "moves quiet s (receive_length_loop n P timeout k s)"
proof (induction n arbitrary: s)
  case (Suc n)
  show ?case
    by (auto simp: Let_def intro!: moves_bnd [OF quiet_read_at] quiet_after quiet_moves [OF _ assms] quiet_moves [OF _ Suc.IH])
qed (simp add: assms)

lemma quiet_receive_rest: "moves quiet s (receive_rest P timeout n s)"
  unfolding receive_rest_def by (auto simp: Let_def intro!: moves_bnd [OF quiet_read_at] quiet_after)

lemma quiet_receive_topic: "moves quiet s (receive_topic P timeout n s)"
  unfolding receive_topic_def by (auto simp: Let_def intro!: moves_lft quiet_receive_rest quiet_receive_err)

lemma quiet_receive_oversize: "moves quiet s (receive_oversize P timeout n s)"
  unfolding receive_oversize_def
  by (auto simp: Let_def intro!: moves_bnd [OF quiet_read_at] quiet_after quiet_moves [OF _ quiet_receive_topic] quiet_receive_topic)

lemma quiet_receive_body: "moves quiet s (receive_body P timeout s)"
  unfolding receive_body_def
  by (auto simp: Let_def split: prod.splits intro!: moves_lft
      quiet_moves [OF _ quiet_receive_rest] quiet_moves [OF _ quiet_receive_err] quiet_moves [OF _ quiet_receive_oversize])

lemma quiet_receive: "moves quiet s (mqtt_message_receive P timeout s)"
proof -
  have "moves quiet t (receive_length P timeout (receive_body P timeout) t)" for t
    unfolding receive_length_def by (auto intro: quiet_length_loop quiet_receive_body)
  from quiet_receive_type [of "receive_length P timeout (receive_body P timeout)" "s\<lparr>message_length := 0\<rparr>", OF this]
  show ?thesis unfolding mqtt_message_receive_def by (rule quiet_moves [rotated]) simp
qed

lemma quiet_data_event: "quiet s t \<Longrightarrow> quiet s (data_event P off n o' tp tl' t)"
  by (auto simp: data_event_def esp_mqtt_dispatch_event_def quiet_def obs_loop obs_post)

lemma quiet_pieces: "moves quiet s (publish_pieces P tot n o' s)"
proof (induction "tot - n" arbitrary: n o' s rule: less_induct)
  case less
  let ?r = "read_at P 0 (s32 (int (if tot - n > sz (in_buffer_length s) then sz (in_buffer_length s) else tot - n)))
      (network_timeout_ms (config s)) s"
  have "moves quiet s (case ?r of Inl f \<Rightarrow> Inl f | Inr (r, s) \<Rightarrow>
      if r \<le> 0 then bnd (esp_mqtt_handle_transport_read_error P r False s) (\<lambda>e s. Inr (if e = 0 then ESP_OK else ESP_FAIL, s))
      else publish_pieces P tot (n + nat r) (o' + nat r) (data_event P 0 (nat r) o' None 0 s))" if "n < tot"
  proof (cases ?r)
    case (Inr x)
    obtain r t where x: "x = (r, t)" by (rule prod.exhaust)
    have q: "quiet s t" using quiet_read_at [of s 0] Inr x by (metis moves_Inr)
    have "moves quiet t (bnd (esp_mqtt_handle_transport_read_error P r False t) (\<lambda>e s. Inr (if e = 0 then ESP_OK else ESP_FAIL, s)))"
      by (rule moves_bnd [OF quiet_read_error]) simp
    moreover have "moves quiet (data_event P 0 (nat r) o' None 0 t) (publish_pieces P tot (n + nat r) (o' + nat r) (data_event P 0 (nat r) o' None 0 t))"
      if "0 < r" using that \<open>n < tot\<close> by (intro less) auto
    ultimately show ?thesis
      using quiet_moves [OF q] quiet_moves [OF quiet_data_event [OF q, of 0 "nat r" o' None 0]] by (auto simp: Inr x)
  qed simp
  then show ?case by (subst publish_pieces.simps) simp
qed

lemma quiet_deliver_publish: "moves quiet s (deliver_publish P s)"
  unfolding deliver_publish_def Let_def
  by (auto intro!: moves_lft quiet_moves [OF _ quiet_pieces] quiet_data_event split: option.splits prod.splits)

lemma quiet_deliver_suback: "moves quiet s (deliver_suback P s)"
  unfolding deliver_suback_def Let_def
  by (auto intro!: moves_bnd moves_lft split: option.splits prod.splits
      simp: esp_mqtt_dispatch_event_with_msgid_def esp_mqtt_dispatch_event_def quiet_def obs_loop obs_post)

lemma quiet_post_event:
  "e \<noteq> MQTT_EVENT_CONNECTED \<Longrightarrow> e \<noteq> MQTT_EVENT_DISCONNECTED \<Longrightarrow> moves quiet s (post_event P e s)"
  unfolding post_event_def esp_mqtt_dispatch_event_with_msgid_def
  by (auto intro!: moves_bnd moves_lft simp: set_event_def esp_mqtt_dispatch_event_def quiet_def obs_loop obs_post)

text \<open>As \<open>lost\<close>, but the outbox may change.\<close>
definition tied :: "'w client \<Rightarrow> 'w client \<Rightarrow> bool" where
  "tied s s' \<longleftrightarrow> config s' = config s \<and> run s' = run s
     \<and> (state s' = state s \<and> obs (world s') = obs (world s) \<or> state s' = MQTT_STATE_WAIT_RECONNECT \<and> \<not> obs (world s'))"

lemma tied_refl [simp]: "tied s s"
  and tied_trans: "tied s t \<Longrightarrow> tied t u \<Longrightarrow> tied s u"
  and lost_tied: "lost s t \<Longrightarrow> tied s t"
  and quiet_tied: "quiet s t \<Longrightarrow> tied s t"
  by (auto simp: tied_def lost_def quiet_def)

lemma tied_moves: "tied s t \<Longrightarrow> moves tied t r \<Longrightarrow> moves tied s r"
  by (auto simp: moves_def ok_def intro: tied_trans)

lemma moves_lost_tied: "moves lost s r \<Longrightarrow> moves tied s r"
  and moves_quiet_tied: "moves quiet s r \<Longrightarrow> moves tied s r"
  by (auto simp: moves_def ok_def intro: lost_tied quiet_tied)

lemma tied_fields [simp]:
  "tied s (t\<lparr>outbox_of := ob\<rparr>) = tied s t" "tied s (t\<lparr>in_buffer_read_len := b\<rparr>) = tied s t" "tied s (t\<lparr>connection := c\<rparr>) = tied s t"
  "tied s (t\<lparr>out_item := d\<rparr>) = tied s t" "tied s (t\<lparr>pending_msg_id := b\<rparr>) = tied s t" "tied s (t\<lparr>pending_msg_type := f\<rparr>) = tied s t"
  "tied s (t\<lparr>pending_publish_qos := f\<rparr>) = tied s t" "tied s (t\<lparr>last_retransmit := h\<rparr>) = tied s t" "tied s (t\<lparr>disconnect_bit := g\<rparr>) = tied s t"
  "tied s (t\<lparr>wait_for_ping_resp := g\<rparr>) = tied s t" "tied s (t\<lparr>keepalive_tick := h\<rparr>) = tied s t"
  by (simp_all add: tied_def)

lemma tied_set_pending [simp]: "tied s (set_pending i p t) = tied s t"
  and tied_take_item [simp]: "tied s (take_item it t) = tied s t"
  and tied_set_frag [simp]: "tied s (set_frag a b t) = tied s t" "tied s (clear_frag_total t) = tied s t"
  by (simp_all add: set_pending_def take_item_def set_frag_def clear_frag_total_def)

lemmas tied_after = tied_moves [OF _ moves_quiet_tied [OF quiet_write]] tied_moves [OF _ moves_lost_tied [OF abort_moves]]
  tied_moves [OF _ moves_quiet_tied [OF quiet_build]]

lemma tied_respond: "(\<And>t. tied s t \<Longrightarrow> tied s (u t)) \<Longrightarrow> moves tied s (respond P b f u s)"
  unfolding respond_def by (auto intro!: moves_bnd [OF moves_quiet_tied [OF quiet_build]] moves_bnd [OF tied_after(1)])

lemma tied_acknowledged:
  assumes "\<And>t. moves tied t (k t)"
  shows "moves tied s (acknowledged P ty i k s)"
  unfolding acknowledged_def remove_initiator_message_def
  by (auto split: prod.splits bool.splits intro!: tied_moves [OF _ assms])

lemma tied_handle: "moves tied s (handle_message P ty q i s)"
proof -
  have tick: "tied s t" if "get_tick P (s\<lparr>wait_for_ping_resp := False\<rparr>) = (a, t)" for a t
    using quiet_tied [OF quiet_tick [OF that]] by (simp add: tied_def)
  show ?thesis
    unfolding handle_message_def
    by (auto intro!: tied_acknowledged tied_respond moves_bnd [OF moves_quiet_tied [OF quiet_deliver_publish]]
        tied_moves [OF _ tied_respond]
        intro: moves_quiet_tied quiet_deliver_suback quiet_post_event tick split: prod.splits)
qed

lemma tied_process_receive: "moves tied s (mqtt_process_receive P s)"
  unfolding mqtt_process_receive_def Let_def
  by (auto intro!: moves_bnd [OF moves_quiet_tied [OF quiet_receive]] moves_lft moves_bnd [OF tied_moves [OF _ tied_handle]])

section \<open>The task and the operations of the application\<close>

lemma quiet_connack_loop: "connack_loop n P st s = Some r \<Longrightarrow> moves quiet s r"
proof (induction n arbitrary: s r)
  case (Suc n)
  show ?case
  proof (cases "mqtt_message_receive P (network_timeout_ms (config s)) s")
    case (Inr x)
    obtain a t where x: "x = (a, t)" by (rule prod.exhaust)
    obtain u t' where u: "get_tick P t = (u, t')" by (rule prod.exhaust)
    have q: "quiet s t" using quiet_receive [of s "network_timeout_ms (config s)"] Inr x by simp
    have "moves quiet s y" if "connack_loop n P st t' = Some y" for y
      by (rule quiet_moves [OF quiet_trans [OF q quiet_tick [OF u]] Suc.IH [OF that]])
    then show ?thesis using Suc.prems q quiet_trans [OF q quiet_tick [OF u]] by (auto simp: Inr x u split: if_splits)
  qed (use Suc.prems quiet_receive in auto)
qed simp

lemma quiet_connack_received: "moves quiet s (connack_received P n s)"
  unfolding connack_received_def connection_refused_def Let_def
  by (auto intro!: moves_lft moves_bnd simp: esp_mqtt_dispatch_event_with_msgid_def esp_mqtt_dispatch_event_def quiet_def obs_loop obs_post)

lemma quiet_connect: "esp_mqtt_connect n P s = Some r \<Longrightarrow> moves quiet s r"
proof -
  assume r: "esp_mqtt_connect n P s = Some r"
  show ?thesis
  proof (cases "build (\<lambda>c. mqtt_msg_connect c (information s)) (s\<lparr>wait_for_ping_resp := False\<rparr>)")
    case (Inr x)
    then obtain u t where t: "x = (u, t)" by (cases x) auto
    have q: "quiet s t" using quiet_build [of "s\<lparr>wait_for_ping_resp := False\<rparr>" "\<lambda>c. mqtt_msg_connect c (information s)"] Inr t
      by (simp add: quiet_def)
    have w: "quiet s t'" if "esp_mqtt_write P (t\<lparr>pending_msg_type := ty, pending_msg_id := i\<rparr>) = Inr (e, t')" for ty i e t'
      using quiet_moves [OF _ quiet_write [of "t\<lparr>pending_msg_type := ty, pending_msg_id := i\<rparr>"], of s] q that by simp
    have l: "moves quiet s (bnd y (connack_received P))"
      if "quiet s t'" "get_tick P (t'\<lparr>in_buffer_read_len := 0, message_length := 0\<rparr>) = (a, t2)" "connack_loop n P a t2 = Some y" for t' a t2 y
    proof -
      have "quiet s t2" using quiet_tick [OF that(2)] that(1) by (simp add: quiet_def)
      then show ?thesis
        by (intro moves_bnd quiet_moves [OF _ quiet_connack_loop [OF that(3)]] quiet_moves [OF _ quiet_connack_received])
    qed
    show ?thesis
      using r q by (auto simp: esp_mqtt_connect_def Inr t split: if_splits sum.splits prod.splits dest: w intro: l intro!: quiet_after)
  qed (use r in \<open>auto simp: esp_mqtt_connect_def\<close>)
qed

lemma tied_resend_write: "moves tied s (resend_write P s)"
  unfolding resend_write_def by (auto intro!: moves_bnd [OF moves_quiet_tied [OF quiet_write]] moves_bnd [OF tied_after(2)])

lemma tied_resend_queued: "moves tied s (mqtt_resend_queued P it s)"
  unfolding mqtt_resend_queued_def set_item_dup_def Let_def
  by (auto intro!: moves_bnd moves_lft tied_moves [OF _ tied_resend_write])

lemma tied_resend_pubrel: "moves tied s (mqtt_resend_pubrel P it s)"
  unfolding mqtt_resend_pubrel_def Let_def
  by (auto intro!: moves_bnd [OF tied_after(3)] tied_moves [OF _ tied_resend_write])

lemma tied_resend_first: "moves tied s (resend_first P it s)"
  unfolding resend_first_def Let_def by (auto intro!: moves_bnd [OF tied_resend_queued])

lemma tied_resend_old:
  assumes "\<And>it t. moves tied t (f it t)"
  shows "moves tied s (resend_old p f s)"
  unfolding resend_old_def by (auto split: option.splits intro!: moves_bnd [OF assms])

lemma tied_retransmit: "moves tied s (retransmit P s)"
proof -
  define s1 where "s1 = (if last_retransmit s = 0 then (case get_tick P s of (t, s) \<Rightarrow> s\<lparr>last_retransmit := t\<rparr>) else s)"
  have s1: "tied s s1" using quiet_tied [OF quiet_tick [of s]] by (auto simp: s1_def split: prod.splits)
  have rest: "moves tied s1 (bnd (resend_old TRANSMITTED (mqtt_resend_queued P) (b\<lparr>last_retransmit := t\<rparr>))
        (\<lambda>_ s. resend_old ACKNOWLEDGED (mqtt_resend_pubrel P) s))"
    if "has_timed_out P (last_retransmit s1) u s1 = (True, a)" "get_tick P a = (t, b)" for a b t u
  proof -
    have "tied s1 (b\<lparr>last_retransmit := t\<rparr>)"
      using quiet_tied [OF quiet_trans [OF quiet_timed_out [OF that(1)] quiet_tick [OF that(2)]]] by simp
    then show ?thesis
      by (intro moves_bnd tied_moves [OF _ tied_resend_old] tied_resend_queued tied_resend_pubrel)
  qed
  have "moves tied s1 (case outbox_dequeue (outbox_of s1) QUEUED of
        Some it \<Rightarrow> resend_first P it s1
      | None \<Rightarrow>
          (case has_timed_out P (last_retransmit s1) (of_int (message_retransmit_timeout (config s1))) s1 of
             (False, s) \<Rightarrow> Inr ((), s)
           | (True, s) \<Rightarrow>
               (let (t, s) = get_tick P s in
                bnd (resend_old TRANSMITTED (mqtt_resend_queued P) (s\<lparr>last_retransmit := t\<rparr>))
                  (\<lambda>_ s. resend_old ACKNOWLEDGED (mqtt_resend_pubrel P) s))))"
    using quiet_tied [OF quiet_timed_out] rest tied_resend_first
    by (auto split: option.splits prod.splits bool.splits simp: Let_def)
  from tied_moves [OF s1 this] show ?thesis unfolding retransmit_def Let_def s1_def .
qed

text \<open>The observer knows whether the client is connected.\<close>
definition link :: "'w client \<Rightarrow> bool" where
  "link s \<longleftrightarrow> (state s = MQTT_STATE_CONNECTED \<longrightarrow> obs (world s)) \<and> (obs (world s) \<longrightarrow> run s \<longrightarrow> state s = MQTT_STATE_CONNECTED)"

lemma link_tied: "link s \<Longrightarrow> tied s s' \<Longrightarrow> link s'"
  by (auto simp: link_def tied_def)

lemma link_moves: "link s \<Longrightarrow> moves tied s r \<Longrightarrow> ok r (\<lambda>_. link)"
  by (auto simp: moves_def ok_def intro: link_tied)

lemma link_abort: "ok (esp_mqtt_abort_connection P s) (\<lambda>_. link)"
  by (rule ok_mono [OF abort_lost]) (auto simp: link_def)

lemma refresh_link:
  assumes "link s"
  shows "ok (refresh_connection P s) (\<lambda>_. link)"
proof -
  have "ok (bnd (esp_mqtt_abort_connection P t) (\<lambda>_ s. Inr ((), s\<lparr>state := MQTT_STATE_INIT\<rparr>))) (\<lambda>_. link)" for t
    by (rule ok_bnd, rule ok_mono [OF abort_lost]) (auto simp: link_def)
  then show ?thesis unfolding refresh_connection_def
    using assms link_tied [OF assms quiet_tied [OF quiet_timed_out]] by (auto split: prod.splits bool.splits)
qed

lemma work_link: "link s \<Longrightarrow> ok (connected_work P s) (\<lambda>_. link)"
  unfolding connected_work_def
  by (rule ok_bnd, rule ok_mono [OF link_moves [OF _ tied_retransmit]], assumption, rule ok_bnd,
      rule ok_mono [OF link_moves [OF _ moves_lost_tied [OF keepalive_lost]]], assumption) (auto intro: refresh_link)

lemma connected_link:
  assumes "link s"
  shows "ok (state_connected P s) (\<lambda>_. link)"
proof -
  have "ok (bnd (send_disconnect_msg P (s\<lparr>disconnect_bit := False\<rparr>)) (\<lambda>_ s. esp_mqtt_abort_connection P s)) (\<lambda>_. link)"
    by (rule ok_bnd) (auto simp: ok_def intro: link_abort [unfolded ok_def, rule_format])
  moreover have "ok (bnd (mqtt_process_receive P s) (\<lambda>r s. if r = ESP_FAIL then esp_mqtt_abort_connection P s else connected_work P s)) (\<lambda>_. link)"
    by (rule ok_bnd, rule ok_mono [OF link_moves [OF assms tied_process_receive]]) (use link_abort work_link in auto)
  ultimately show ?thesis unfolding state_connected_def by simp
qed

lemma quiet_add_transports: "add_transports P xs ts s = (r, s') \<Longrightarrow> quiet s s'"
proof (induction xs arbitrary: ts s)
  case (Cons x xs)
  obtain b w where m: "mem_ok P (world s) = (b, w)" by (rule prod.exhaust)
  have "quiet s (s\<lparr>world := w\<rparr>)" using obs_mem [OF m] by (simp add: quiet_def)
  then show ?case using Cons.prems Cons.IH [of "ts @ [x]" "s\<lparr>world := w\<rparr>"] quiet_trans by (cases b) (auto simp: m)
qed auto

lemma quiet_create_transport: "esp_mqtt_client_create_transport P s = (r, s') \<Longrightarrow> quiet s s'"
proof -
  assume a: "esp_mqtt_client_create_transport P s = (r, s')"
  obtain b w where m: "mem_ok P (world s) = (b, w)" by (rule prod.exhaust)
  have q: "quiet s (s\<lparr>world := w, transport_list := l\<rparr>)" for l using obs_mem [OF m] by (simp add: quiet_def)
  have "quiet s t" if "add_transports P ts [] (s\<lparr>world := w, transport_list := Some []\<rparr>) = (e, t)" for ts e t
    using quiet_trans [OF _ quiet_add_transports [OF that], of s] obs_mem [OF m] by (simp add: quiet_def)
  then show ?thesis
    using a q [of None] q [of "Some []"] by (auto simp: esp_mqtt_client_create_transport_def m Let_def quiet_def split: option.splits bool.splits)
qed

lemma choose_link:
  assumes "link s" and "choose_transport P s = (x, s')"
  shows "link s'" and "state s' = state s" and "obs (world s') = obs (world s)"
proof -
  have "link s' \<and> state s' = state s \<and> obs (world s') = obs (world s)"
    using assms by (auto simp: choose_transport_def split: option.splits prod.splits if_splits dest!: quiet_create_transport simp: quiet_def link_def)
  then show "link s'" "state s' = state s" "obs (world s') = obs (world s)" by auto
qed

lemma on_connected_link: "ok (on_connected P s) (\<lambda>_. link)"
  unfolding on_connected_def esp_mqtt_dispatch_event_with_msgid_def Let_def
  by (auto intro!: ok_lft ok_bnd split: prod.splits dest!: quiet_tick simp: esp_mqtt_dispatch_event_def link_def quiet_def obs_loop obs_post)

lemma init_link:
  assumes "link s" and "state s = MQTT_STATE_INIT" and "state_init n P s = Some r"
  shows "ok r (\<lambda>_. link)"
proof -
  obtain x t where x: "choose_transport P (s\<lparr>reconnect_bit := False, disconnect_bit := False\<rparr>) = (x, t)" by (rule prod.exhaust)
  have "link (s\<lparr>reconnect_bit := False, disconnect_bit := False\<rparr>)" using assms(1) by (simp add: link_def)
  note c = choose_link [OF this x]
  show ?thesis
  proof (cases x)
    case None
    then show ?thesis using assms(3) c by (auto simp: state_init_def x)
  next
    case (Some p)
    define u where "u = (if port (config t) = 0 then t\<lparr>config := (config t)\<lparr>port := p\<rparr>\<rparr> else t)"
    show ?thesis
    proof (cases "lft (transport_settings (build_of P) (config u)) (\<lambda>l.
        esp_mqtt_dispatch_event_with_msgid P (set_event MQTT_EVENT_BEFORE_CONNECT (u\<lparr>world := transport_setup P l (world u)\<rparr>)))")
      case (Inl f)
      then have "r = Inl f" using assms(3) by (simp add: state_init_def x Some u_def [symmetric])
      then show ?thesis by simp
    next
      case (Inr y)
      obtain v where y: "y = ((), v)" by (cases y) auto
      obtain e w where w: "transport_connect P (port (config v)) (world v) = (e, w)" by (rule prod.exhaust)
      have "ok (bnd (esp_mqtt_client_dispatch_transport_error P (v\<lparr>world := w\<rparr>)) (\<lambda>_ s. esp_mqtt_abort_connection P s)) (\<lambda>_. link)"
        by (rule ok_bnd) (auto simp: ok_def intro: link_abort [unfolded ok_def, rule_format])
      moreover have "ok (bnd z (\<lambda>e s. if e \<noteq> ESP_OK then esp_mqtt_abort_connection P s else on_connected P s)) (\<lambda>_. link)" for z
        by (rule ok_bnd) (use link_abort on_connected_link in \<open>auto simp: ok_def\<close>)
      ultimately show ?thesis
        using assms(3) by (auto simp: state_init_def x Some u_def [symmetric] Inr y w Let_def split: if_splits)
    qed
  qed
qed

lemma expired_link: "link s \<Longrightarrow> link (mqtt_delete_expired_messages P (s\<lparr>world := event_loop_run P (world s)\<rparr>))"
  by (auto simp: mqtt_delete_expired_messages_def link_def quiet_def obs_loop split: prod.splits dest!: quiet_tick)

lemma wait_link: "link s \<Longrightarrow> state s = MQTT_STATE_WAIT_RECONNECT \<Longrightarrow> link (state_wait_reconnect P s)"
  by (auto simp: state_wait_reconnect_def link_def quiet_def split: prod.splits dest!: quiet_tick)

lemma round_link:
  assumes "link s" and "task_round n P s = Some r"
  shows "ok r (\<lambda>_. link)"
proof -
  define t where "t = mqtt_delete_expired_messages P (s\<lparr>world := event_loop_run P (world s)\<rparr>)"
  have t: "link t" using expired_link [OF assms(1)] by (simp add: t_def)
  show ?thesis
    using assms(2) t init_link [OF t _, of n r] connected_link [OF t] wait_link [OF t]
    by (cases "state t") (auto simp: task_round_def t_def [symmetric])
qed

lemma poll_link: "link s \<Longrightarrow> ok (task_poll P s) (\<lambda>_. link)"
  unfolding task_poll_def using link_abort by (auto split: prod.splits dest: obs_poll simp: link_def)

lemma end_link: "link (task_end P s)" if "\<not> run s"
  using that by (simp add: task_end_def link_def obs_close)

lemma begin_link: "\<not> obs (world s) \<Longrightarrow> link (task_begin s)"
  by (simp add: task_begin_def link_def)

lemma tied_enqueue: "moves tied s (mqtt_enqueue P d n s)"
  unfolding mqtt_enqueue_def Let_def
  by (auto intro!: moves_lft split: prod.splits dest!: quiet_tick obs_alloc simp: tied_def quiet_def)

lemma tied_fragments: "moves tied s (send_fragments P d rest i s)"
proof (induction "nat rest" arbitrary: rest i s rule: less_induct)
  case less
  define n where "n = (if rest > int (cbuffer_length (connection s)) then int (cbuffer_length (connection s)) else rest)"
  have abort: "moves tied s (bnd (esp_mqtt_abort_connection P t) (\<lambda>_ s. Inr (False, s)))" if "tied s t" for t
    using that by (intro moves_bnd [OF tied_after(2)]) auto
  show ?case
  proof (cases "rest > 0 \<and> n > 0")
    case True
    let ?c = "lft (data_from d i n) (\<lambda>b. buf_memcpy 0 b (nat n) (connection s))"
    show ?thesis
    proof (cases ?c)
      case (Inl f)
      then show ?thesis using True by (subst send_fragments.simps) (simp add: Let_def n_def [symmetric])
    next
      case (Inr c)
      define t where "t = s\<lparr>connection := c\<lparr>outbound := (outbound c)\<lparr>m_data := 0, m_length := nat n\<rparr>\<rparr>, out_item := None\<rparr>"
      have t: "tied s t" by (simp add: t_def)
      have w: "tied s v" if "esp_mqtt_write P t = Inr (r, v)" for r v
        using tied_after(1) [OF t] that by simp
      have rec: "moves tied s (send_fragments P d (rest - n) (i + n) (set_frag 0 0 v))" if "tied s v" for v
        using less [of "rest - n" "set_frag 0 0 v" "i + n"] True that by (intro tied_moves [of s "set_frag 0 0 v"]) (auto simp: n_def split: if_splits)
      show ?thesis
        using True Inr by (subst send_fragments.simps)
          (auto simp: Let_def n_def [symmetric] t_def [symmetric] split: sum.splits prod.splits dest!: w intro!: abort rec)
    qed
  qed (subst send_fragments.simps, auto simp: Let_def n_def [symmetric])
qed

lemma tied_send_publish: "moves tied s (send_publish P d n s)"
  unfolding send_publish_def
  by (auto intro!: moves_bnd [OF moves_quiet_tied [OF quiet_write]] moves_bnd [OF tied_after(2)] tied_moves [OF _ tied_fragments])

lemma tied_make_publish: "moves tied s (make_publish t d n q rt s)"
  unfolding make_publish_def Let_def by (auto intro!: moves_lft split: prod.splits)

lemma tied_enqueue_publish: "moves tied s (mqtt_client_enqueue_publish P t d n q rt b s)"
  unfolding mqtt_client_enqueue_publish_def Let_def
  by (auto intro!: moves_bnd [OF tied_make_publish] moves_lft moves_bnd [OF tied_moves [OF _ tied_enqueue]])

lemma tied_mark: "tied s (mark_transmitted P i s)"
  by (auto simp: mark_transmitted_def split: prod.splits dest!: quiet_tick intro: quiet_tied)

lemma tied_publish: "moves tied s (esp_mqtt_client_publish P t d n q rt s)"
  unfolding esp_mqtt_client_publish_def
  by (auto intro!: moves_lft moves_bnd [OF tied_enqueue_publish] moves_bnd [OF tied_moves [OF _ tied_send_publish]] tied_trans [OF _ tied_mark])

lemma tied_client_enqueue: "moves tied s (esp_mqtt_client_enqueue P t d n q rt b s)"
  unfolding esp_mqtt_client_enqueue_def by (auto intro!: moves_lft moves_bnd [OF tied_enqueue_publish])

lemma tied_enqueue_and_send: "moves tied s (enqueue_and_send P s)"
  unfolding enqueue_and_send_def
  by (auto intro!: moves_lft moves_bnd [OF tied_moves [OF _ tied_enqueue]] moves_bnd [OF tied_after(1)])

lemma tied_subscribe: "moves tied s (esp_mqtt_client_subscribe_multiple P ts n s)"
  unfolding esp_mqtt_client_subscribe_multiple_def
  by (auto intro!: moves_lft tied_moves [OF _ tied_enqueue_and_send] split: prod.splits)

lemma tied_unsubscribe: "moves tied s (esp_mqtt_client_unsubscribe P t s)"
  unfolding esp_mqtt_client_unsubscribe_def
  by (auto intro!: moves_lft tied_moves [OF _ tied_enqueue_and_send] split: prod.splits)

lemma stop_link: "link s \<Longrightarrow> ok (esp_mqtt_client_stop P b s) (\<lambda>_. link)"
  unfolding esp_mqtt_client_stop_def
  by (auto simp: link_def ok_def bnd_def split: sum.splits)

end

end
