(* ===== verification/Mqtt_Msg_Correct.thy ===== *)
theory Mqtt_Msg_Correct
  imports Mqtt_Msg
begin

unbundle bit_operations_syntax

text \<open>
  Correctness of the packet builder and the packet readers. \<open>built c b\<close> says that the connection's
  buffer holds the packet body \<open>b\<close> behind the five bytes reserved for the fixed header; each appending
  operation extends \<open>b\<close>, and \<open>fini_message\<close> turns it into a packet.
\<close>

section \<open>The state while a packet is being built\<close>

definition conn_wf :: "mqtt_connection \<Rightarrow> bool" where
  "conn_wf c \<longleftrightarrow> cbuffer_length c = length (cbuffer c) \<and> 5 \<le> cbuffer_length c \<and> cbuffer_length c \<le> 268435456"

definition built :: "mqtt_connection \<Rightarrow> bytes \<Rightarrow> bool" where
  "built c b \<longleftrightarrow> conn_wf c \<and> out_length c = 5 + length b \<and> out_length c \<le> cbuffer_length c
     \<and> take (length b) (drop 5 (cbuffer c)) = b"

text \<open>What the appending operations leave alone.\<close>
definition same_ctl :: "mqtt_connection \<Rightarrow> mqtt_connection \<Rightarrow> bool" where
  "same_ctl c c' \<longleftrightarrow> cbuffer_length c' = cbuffer_length c
     \<and> m_frag_total (outbound c') = m_frag_total (outbound c)
     \<and> m_frag_offset (outbound c') = m_frag_offset (outbound c)"

definition be16 :: "nat \<Rightarrow> bytes" where
  "be16 n = [of_nat (n div 256), of_nat (n mod 256)]"

definition mqtt_string :: "bytes \<Rightarrow> bytes" where
  "mqtt_string s = be16 (length s) @ s"

lemma length_be16 [simp]: "length (be16 n) = 2"
  by (simp add: be16_def)

lemma be16_of_int: "[of_int (int n div 256), of_int (int n mod 256)] = be16 n"
  unfolding be16_def by (metis of_int_of_nat_eq of_nat_numeral zdiv_int zmod_int)

lemma length_mqtt_string [simp]: "length (mqtt_string s) = length s + 2"
  by (simp add: mqtt_string_def)

lemma same_ctl_refl [simp]: "same_ctl c c"
  by (simp add: same_ctl_def)

lemma same_ctl_trans: "same_ctl c c' \<Longrightarrow> same_ctl c' c'' \<Longrightarrow> same_ctl c c''"
  by (simp add: same_ctl_def)

lemma sz_of_nat: "n < 4294967296 \<Longrightarrow> sz (int n) = n"
  by (simp add: sz_def)

lemma strlen_eq: "length s < 2147483648 \<Longrightarrow> strlen s = int (length s)"
  by (simp add: strlen_def s32_def)

lemma length_overlay: "i + length ys \<le> length xs \<Longrightarrow> length (overlay xs i ys) = length xs"
  by (simp add: overlay_def)

lemma overlay_extend:
  assumes "j + n + length ys \<le> length xs"
  shows "take (n + length ys) (drop j (overlay xs (j + n) ys)) = take n (drop j xs) @ ys"
proof -
  have "drop j (overlay xs (j + n) ys) = take n (drop j xs) @ ys @ drop (j + n + length ys) xs"
    using assms by (simp add: overlay_def drop_take)
  with assms show ?thesis by simp
qed

lemma built_buf_put:
  assumes "built c b" and "out_length c + length bs \<le> cbuffer_length c"
  shows "\<exists>c'. buf_put (out_length c) bs c = Inr c' \<and> out_length c' = out_length c
    \<and> built (set_length (out_length c + length bs) c') (b @ bs) \<and> same_ctl c c' \<and> cbuffer c' = overlay (cbuffer c) (out_length c) bs"
proof -
  let ?c = "c\<lparr>cbuffer := overlay (cbuffer c) (out_length c) bs\<rparr>"
  have "buf_put (out_length c) bs c = Inr ?c"
    using assms by (simp add: buf_put_def built_def conn_wf_def)
  moreover have "built (set_length (out_length c + length bs) ?c) (b @ bs)"
    using assms overlay_extend [of 5 "length b" bs "cbuffer c"]
    by (simp add: built_def conn_wf_def set_length_def out_length_def length_overlay)
  ultimately show ?thesis by (intro exI [of _ ?c]) (simp add: same_ctl_def out_length_def)
qed

lemma built_header_size: "conn_wf c \<Longrightarrow> built (set_message_header_size c) [] \<and> same_ctl c (set_message_header_size c)"
  by (simp add: built_def conn_wf_def same_ctl_def set_message_header_size_def set_length_def out_length_def)

lemma set_length_twice [simp]: "set_length n (set_length k c) = set_length n c"
  by (simp add: set_length_def)

lemma out_length_set_length [simp]: "out_length (set_length n c) = n"
  by (simp add: set_length_def out_length_def)

lemma set_length_sel [simp]:
  "cbuffer (set_length n c) = cbuffer c" "cbuffer_length (set_length n c) = cbuffer_length c"
  "entropy (set_length n c) = entropy c" "id_incremental (set_length n c) = id_incremental c"
  "last_message_id (set_length n c) = last_message_id c"
  "m_frag_total (outbound (set_length n c)) = m_frag_total (outbound c)"
  "m_frag_offset (outbound (set_length n c)) = m_frag_offset (outbound c)"
  by (simp_all add: set_length_def)

lemma buf_put_set_length:
  "buf_put i bs (set_length n c) = map_sum id (set_length n) (buf_put i bs c)"
  by (simp add: buf_put_def set_length_def)

lemma append_string_full:
  assumes "built c b" and "length s < 2147483648" and "5 + length b + length s + 2 > cbuffer_length c"
  shows "append_string c s (strlen s) = Inr (- 1, c)"
  using assms by (simp add: append_string_def strlen_eq sz_of_nat built_def conn_wf_def)

lemma append_string_fits:
  assumes "built c b" and "5 + length b + length s + 2 \<le> cbuffer_length c"
  shows "\<exists>c'. append_string c s (strlen s) = Inr (int (length s) + 2, c') \<and> built c' (b @ mqtt_string s) \<and> same_ctl c c'"
proof -
  have lim: "cbuffer_length c \<le> 268435456" "out_length c = 5 + length b"
    using assms(1) by (auto simp: built_def conn_wf_def)
  have small: "length s < 2147483648" using assms(2) lim by simp
  obtain c1 where c1: "buf_put (out_length c) (be16 (length s)) c = Inr c1" "out_length c1 = out_length c"
    "built (set_length (out_length c + 2) c1) (b @ be16 (length s))" "same_ctl c c1"
    using built_buf_put [OF assms(1), of "be16 (length s)"] assms(2) lim by auto
  obtain c2 where c2: "buf_put (out_length c + 2) s (set_length (out_length c + 2) c1) = Inr c2"
    "built (set_length (out_length c + 2 + length s) c2) ((b @ be16 (length s)) @ s)" "same_ctl (set_length (out_length c + 2) c1) c2"
    using built_buf_put [OF c1(3), of s] assms(2) lim c1(4) by (auto simp: same_ctl_def)
  obtain c3 where c3: "buf_put (out_length c + 2) s c1 = Inr c3" "c2 = set_length (out_length c + 2) c3"
    using c2(1) by (cases "buf_put (out_length c + 2) s c1") (auto simp: buf_put_set_length)
  have "out_length c + sz (int (length s)) + 2 \<le> cbuffer_length c" "sz (int (length s)) = length s"
    using assms(2) lim small by (simp_all add: sz_of_nat)
  then have "append_string c s (strlen s) = Inr (int (length s) + 2, set_length (out_length c + 2 + length s) c3)"
    using lim small c1(1) c3(1) assms(2) by (simp add: append_string_def strlen_eq buf_memcpy_def be16_of_int)
  with c2 c3 c1(4) show ?thesis by (simp add: mqtt_string_def same_ctl_def)
qed

lemma next_message_id_spec:
  assumes "next_message_id c = Some (i, c')"
  shows "0 < i \<and> i < 65536 \<and> cbuffer c' = cbuffer c \<and> outbound c' = outbound c \<and> cbuffer_length c' = cbuffer_length c"
proof -
  have draw: "draw_random rs = Some (i, rs') \<Longrightarrow> 0 < i \<and> i < 65536" for rs i rs'
    by (induction rs rule: draw_random.induct) (auto split: if_splits intro: order.strict_trans [OF mod_less_divisor])
  show ?thesis
    using assms by (auto simp: next_message_id_def Let_def dest: draw split: if_splits)
qed

lemma append_message_id_spec:
  assumes "built c b" and "(if mid = 0 then next_message_id c else Some (mid, c)) = Some (i, c0)"
    and "5 + length b + 2 \<le> cbuffer_length c"
  shows "\<exists>c'. append_message_id c mid = Inr (i, c') \<and> built c' (b @ be16 i) \<and> same_ctl c c'"
proof -
  have c0: "cbuffer c0 = cbuffer c" "outbound c0 = outbound c" "cbuffer_length c0 = cbuffer_length c"
    using assms(2) next_message_id_spec [of c i c0] by (auto split: if_splits)
  then have b0: "built c0 b" "out_length c0 = out_length c" "same_ctl c c0"
    using assms(1) by (auto simp: built_def conn_wf_def out_length_def same_ctl_def)
  have len: "out_length c = 5 + length b" "cbuffer_length c \<le> 268435456"
    using assms(1) by (auto simp: built_def conn_wf_def)
  obtain c1 where "buf_put (out_length c0) (be16 i) c0 = Inr c1"
    "built (set_length (out_length c0 + 2) c1) (b @ be16 i)" "same_ctl c0 c1"
    using built_buf_put [OF b0(1), of "be16 i"] assms(3) c0 b0 len by auto
  then show ?thesis
    using assms(2,3) c0 b0 len by (simp add: append_message_id_def be16_def same_ctl_def)
qed

section \<open>The fixed header\<close>

lemma encoded_lens_nat:
  "encoded_lens (int n) =
     (if n < 128 then [of_nat n] else (of_nat (n mod 128) OR 0x80) # encoded_lens (int (n div 128)))"
proof -
  have "int n sdiv 128 = int (n div 128)" "int n smod 128 = int (n mod 128)"
    by (simp_all add: signed_divide_int_def signed_modulo_int_def sgn_if zdiv_int zmod_int minus_div_mult_eq_mod)
  then show ?thesis
    by (subst encoded_lens.simps) (auto simp: div_greater_zero_iff)
qed

lemma length_encoded_lens: "n < 128 ^ Suc k \<Longrightarrow> length (encoded_lens (int n)) \<le> Suc k"
proof (induction k arbitrary: n)
  case 0
  then show ?case by (simp add: encoded_lens_nat [of n])
next
  case (Suc k)
  have "n div 128 < 128 ^ Suc k" using Suc.prems by (simp add: less_mult_imp_div_less mult.commute)
  with Suc.IH show ?case by (simp add: encoded_lens_nat [of n])
qed

lemma encoded_lens_ne [simp]: "encoded_lens n \<noteq> []"
  by (subst encoded_lens.simps) simp

lemma length_encoded_lens4: "n < 268435456 \<Longrightarrow> length (encoded_lens (int n)) \<le> 4"
  using length_encoded_lens [of n 3] by simp

lemma fini_message_overlay:
  assumes "conn_wf c" and "length lens \<le> 4"
    and "lens = encoded_lens (if m_frag_total (outbound c) \<noteq> 0 then s32 (int (m_frag_total (outbound c)) - 5) else int n)"
    and "out_length c = 5 + n" and "5 + n \<le> cbuffer_length c"
  shows "\<exists>c'. fini_message c ty dup qos retain = Inr c' \<and> conn_wf c'
    \<and> packet c' = type_byte ty dup qos retain # lens @ take n (drop 5 (cbuffer c))
    \<and> m_frag_total (outbound c') = m_frag_total (outbound c)
    \<and> m_frag_offset (outbound c') = sz (int (m_frag_offset (outbound c)) - int (4 - length lens))
    \<and> m_length (outbound c') = 1 + length lens + n"
proof -
  let ?k = "4 - length lens"
  let ?bs = "type_byte ty dup qos retain # lens"
  let ?o = "(outbound c)\<lparr>m_length := 1 + length lens + n, m_data := ?k,
      m_frag_offset := sz (int (m_frag_offset (outbound c)) - int ?k)\<rparr>"
  have lim: "cbuffer_length c = length (cbuffer c)" "cbuffer_length c \<le> 268435456" "5 \<le> cbuffer_length c"
    using assms(1) by (auto simp: conn_wf_def)
  have m: "s32 (int (m_length (outbound c)) - 5) = int n"
    using assms(4,5) lim by (simp add: out_length_def s32_def)
  have l: "sz (int n + int (length lens) + 1) = 1 + length lens + n"
    using assms(2,5) lim by (simp add: sz_def nat_add_distrib)
  have f: "fini_message c ty dup qos retain = buf_put ?k ?bs (c\<lparr>outbound := ?o\<rparr>)"
    unfolding fini_message_def Let_def m assms(3) [symmetric] l using assms(2) by simp
  have eq: "?k + length ?bs = 5" using assms(2) by simp
  then have p: "buf_put ?k ?bs (c\<lparr>outbound := ?o\<rparr>) = Inr (c\<lparr>outbound := ?o, cbuffer := overlay (cbuffer c) ?k ?bs\<rparr>)"
    using lim by (simp add: buf_put_def)
  have "drop ?k (overlay (cbuffer c) ?k ?bs) = ?bs @ drop 5 (cbuffer c)"
    using eq lim by (simp add: overlay_def)
  then have "packet (c\<lparr>outbound := ?o, cbuffer := overlay (cbuffer c) ?k ?bs\<rparr>) = ?bs @ take n (drop 5 (cbuffer c))"
    by (simp add: packet_def)
  moreover have "length (overlay (cbuffer c) ?k ?bs) = length (cbuffer c)"
    using eq lim by (intro length_overlay) linarith
  ultimately show ?thesis
    using lim unfolding f p by (auto simp: conn_wf_def)
qed

lemma fini_message_spec:
  assumes "built c b" and "m_frag_total (outbound c) = 0"
  shows "\<exists>c'. fini_message c ty dup qos retain = Inr c' \<and> conn_wf c'
    \<and> packet c' = type_byte ty dup qos retain # encoded_lens (int (length b)) @ b
    \<and> m_frag_total (outbound c') = 0 \<and> m_length (outbound c') = length (packet c')"
proof -
  have lim: "conn_wf c" "out_length c = 5 + length b" "5 + length b \<le> cbuffer_length c"
    "take (length b) (drop 5 (cbuffer c)) = b" "length b < 268435456"
    using assms(1) by (auto simp: built_def conn_wf_def)
  from fini_message_overlay [OF lim(1) length_encoded_lens4 [OF lim(5)] _ lim(2,3)] assms(2) lim(4)
  show ?thesis by fastforce
qed

section \<open>Reading the remaining length back\<close>

text \<open>The first byte of an encoded length, as the readers see it.\<close>
lemma encoded_lens_cases:
  obtains x where "n < 128" "encoded_lens (int n) = [x]" "unat x = n" "x AND 0x80 = 0"
  | x where "128 \<le> n" "encoded_lens (int n) = x # encoded_lens (int (n div 128))" "unat (x AND 0x7f) = n mod 128" "x AND 0x80 \<noteq> 0"
proof (cases "n < 128")
  case True
  then show ?thesis
    by (intro that(1) [of "of_nat n"]) (simp_all add: encoded_lens_nat [of n] group_simps)
next
  case False
  let ?x = "of_nat (n mod 128) OR 0x80 :: byte"
  have "unat (of_nat (n mod 128) :: byte) = n mod 128" by (simp add: unat_of_nat_byte)
  then have u: "unat ?x = n mod 128 + 128" using unat_or_80 [of "of_nat (n mod 128)"] by simp
  have "128 \<le> n" and "encoded_lens (int n) = ?x # encoded_lens (int (n div 128))"
    using False by (simp_all add: encoded_lens_nat [of n])
  moreover have "unat (?x AND 0x7f) = n mod 128" unfolding unat_and_7f u by simp
  moreover have "?x AND 0x80 \<noteq> 0" unfolding and_80_iff u by simp
  ultimately show ?thesis by (rule that(2))
qed

lemma push_bit_group: "push_bit (7 * k) (ucast (x :: byte) :: u32) = of_nat (unat x * 128 ^ k)"
proof -
  have "(ucast x :: u32) = of_nat (unat x)" by simp
  then have "push_bit (7 * k) (ucast x :: u32) = of_nat (unat x) * 2 ^ (7 * k)"
    by (simp only: push_bit_eq_mult)
  then show ?thesis by (simp add: power_mult)
qed

lemma rd_at: "b = pre @ x # rest \<Longrightarrow> length pre = i \<Longrightarrow> rd b i = Inr x"
  by (auto simp: rd_def)

lemma total_scan_encoded:
  assumes "b = pre @ encoded_lens (int n) @ rest" and "length pre = i" and "1 \<le> i" and "i \<le> 4"
    and "n < 128 ^ (5 - i)" and "i + length (encoded_lens (int n)) \<le> N"
  shows "total_scan b N i tot = Inr (tot + of_nat (n * 128 ^ (i - 1)), i + length (encoded_lens (int n)))"
  using assms
proof (induction n arbitrary: pre i tot rule: less_induct)
  case (less n)
  show ?case
  proof (cases n rule: encoded_lens_cases)
    case (1 x)
    with less.prems have "rd b i = Inr x" by (intro rd_at) auto
    moreover have "unat (x AND 0x7f) = n" using 1 by (simp add: unat_and_7f)
    ultimately show ?thesis
      using 1 less.prems by (subst total_scan.simps) (simp add: push_bit_group)
  next
    case (2 x)
    from 2(1) less.prems(4,5) have i: "i \<le> 3" by (cases "i = 4") auto
    have r: "rd b i = Inr x" using 2 less.prems by (intro rd_at) auto
    from i have "5 - i = Suc (5 - Suc i)" by simp
    with less.prems(5) have "n < 128 * 128 ^ (5 - Suc i)" by simp
    then have d: "n div 128 < 128 ^ (5 - Suc i)"
      by (simp add: less_mult_imp_div_less mult.commute)
    have "n div 128 < n" using 2(1) by simp
    from less.IH [OF this, of "pre @ [x]" "Suc i" "tot + of_nat ((n mod 128) * 128 ^ (i - 1))"] less.prems 2 i d
    have "total_scan b N (Suc i) (tot + of_nat ((n mod 128) * 128 ^ (i - 1))) =
      Inr (tot + of_nat ((n mod 128) * 128 ^ (i - 1)) + of_nat (n div 128 * 128 ^ i), i + length (encoded_lens (int n)))"
      by simp
    moreover have "(n mod 128) * 128 ^ (i - 1) + (n div 128) * 128 ^ i = n * 128 ^ (i - 1)"
    proof -
      have p: "128 ^ i = 128 * (128 :: nat) ^ (i - 1)" using less.prems(3) by (cases i) auto
      have d: "a * p + b * (128 * p) = (a + 128 * b) * p" for a b p :: nat by (simp add: algebra_simps)
      show ?thesis unfolding p d by (simp only: mod_mult_div_eq)
    qed
    ultimately show ?thesis
      using 2 r i less.prems
      by (subst total_scan.simps) (simp add: push_bit_group add.assoc flip: of_nat_add of_nat_mult of_nat_power)
  qed
qed

lemma header_scan_encoded:
  assumes "b = pre @ encoded_lens (int n) @ rest" and "length pre = i"
    and "i + length (encoded_lens (int n)) \<le> N"
  shows "header_scan b N i = Inr (i + length (encoded_lens (int n)))"
  using assms
proof (induction n arbitrary: pre i rule: less_induct)
  case (less n)
  show ?case
  proof (cases n rule: encoded_lens_cases)
    case (1 x)
    with less.prems have "rd b i = Inr x" by (intro rd_at) auto
    with 1 less.prems show ?thesis by (subst header_scan.simps) simp
  next
    case (2 x)
    have r: "rd b i = Inr x" using 2 less.prems by (intro rd_at) auto
    have "n div 128 < n" using 2(1) by simp
    from less.IH [OF this, of "pre @ [x]" "Suc i"] 2 less.prems r show ?thesis
      by (subst header_scan.simps) simp
  qed
qed

section \<open>Reading packets back\<close>

lemma type_byte_fields:
  assumes "ty \<in> {0..15}" and "qos \<in> {0..3}" and "retain \<in> {0, 1}"
  shows "type_of (type_byte ty 0 qos retain) = ty" and "qos_of (type_byte ty 0 qos retain) = qos"
    and "retain_of (type_byte ty 0 qos retain) = retain" and "dup_of (type_byte ty 0 qos retain) = 0"
proof -
  have "{0..15} = set [0..15 :: int]" and "{0..3} = set [0..3 :: int]" by auto
  then have ty: "ty \<in> set [0, 1, 2, 3, 4, 5, 6, 7, 8, 9, 10, 11, 12, 13, 14, 15]" and q: "qos \<in> set [0, 1, 2, 3]"
    using assms(1,2) by (simp_all add: upto_rec1 numeral_eq_Suc)
  from ty q assms(3)
  show "type_of (type_byte ty 0 qos retain) = ty" and "qos_of (type_byte ty 0 qos retain) = qos"
    and "retain_of (type_byte ty 0 qos retain) = retain" and "dup_of (type_byte ty 0 qos retain) = 0"
    by (auto simp: type_byte_def type_of_def qos_of_def retain_of_def dup_of_def)
qed

lemma rd16_be16:
  assumes "b = pre @ be16 n @ rest" and "length pre = i" and "n < 65536"
  shows "rd16 b i = Inr n"
proof -
  have "rd b i = Inr (of_nat (n div 256))" and "rd b (i + 1) = Inr (of_nat (n mod 256))"
    using assms(1,2) rd_at [of b "pre @ [of_nat (n div 256)]" "of_nat (n mod 256)" rest "i + 1"]
      rd_at [of b pre "of_nat (n div 256)" "of_nat (n mod 256) # rest" i] by (simp_all add: be16_def)
  moreover have "n div 256 < 256" using assms(3) by (simp add: less_mult_imp_div_less)
  ultimately show ?thesis by (simp add: rd16_def unat_of_nat_byte)
qed

text \<open>The layout of a PUBLISH packet; \<open>i\<close> is the message id, absent with QoS 0.\<close>
definition publish_body :: "int \<Rightarrow> bytes \<Rightarrow> nat \<Rightarrow> bytes \<Rightarrow> bytes" where
  "publish_body qos topic i payload = mqtt_string topic @ (if qos > 0 then be16 i else []) @ payload"

definition publish_packet :: "int \<Rightarrow> int \<Rightarrow> bytes \<Rightarrow> nat \<Rightarrow> bytes \<Rightarrow> bytes" where
  "publish_packet qos retain topic i payload =
     type_byte 3 0 qos retain # encoded_lens (int (length (publish_body qos topic i payload))) @ publish_body qos topic i payload"

definition hdr_len :: "int \<Rightarrow> bytes \<Rightarrow> nat \<Rightarrow> bytes \<Rightarrow> nat" where
  "hdr_len qos topic i payload = 1 + length (encoded_lens (int (length (publish_body qos topic i payload))))"

lemma length_publish_packet:
  "length (publish_packet qos retain topic i payload) =
     hdr_len qos topic i payload + length topic + 2 + (if qos > 0 then 2 else 0) + length payload"
  by (simp add: publish_packet_def hdr_len_def publish_body_def)

lemma publish_header_scan:
  "header_scan (publish_packet qos retain topic i payload) (length (publish_packet qos retain topic i payload)) 1
     = Inr (hdr_len qos topic i payload)"
  unfolding hdr_len_def
  by (rule header_scan_encoded [where pre = "[type_byte 3 0 qos retain]"]) (simp_all add: publish_packet_def)

lemma publish_total_scan:
  assumes "length (publish_body qos topic i payload) < 268435456"
  shows "total_scan (publish_packet qos retain topic i payload) (length (publish_packet qos retain topic i payload)) 1 0
     = Inr (of_nat (length (publish_body qos topic i payload)), hdr_len qos topic i payload)"
proof -
  have "total_scan (publish_packet qos retain topic i payload) (length (publish_packet qos retain topic i payload)) 1 0
     = Inr (0 + of_nat (length (publish_body qos topic i payload) * 128 ^ (1 - 1)), 1 + length (encoded_lens (int (length (publish_body qos topic i payload)))))"
    by (rule total_scan_encoded [where pre = "[type_byte 3 0 qos retain]"])
      (use assms in \<open>simp_all add: publish_packet_def\<close>)
  then show ?thesis by (simp add: hdr_len_def)
qed

lemma publish_topic_len:
  assumes "length topic < 65536"
  shows "rd16 (publish_packet qos retain topic i payload) (hdr_len qos topic i payload) = Inr (length topic)"
  by (rule rd16_be16 [where pre = "type_byte 3 0 qos retain # encoded_lens (int (length (publish_body qos topic i payload)))"
        and rest = "topic @ (if qos > 0 then be16 i else []) @ payload"])
    (use assms in \<open>simp_all add: publish_packet_def hdr_len_def publish_body_def mqtt_string_def\<close>)

lemma publish_msg_id:
  assumes "i < 65536" and "qos > 0"
  shows "rd16 (publish_packet qos retain topic i payload) (hdr_len qos topic i payload + 2 + length topic) = Inr i"
  by (rule rd16_be16 [where pre = "type_byte 3 0 qos retain # encoded_lens (int (length (publish_body qos topic i payload))) @ mqtt_string topic"
        and rest = payload])
    (use assms in \<open>simp_all add: publish_packet_def hdr_len_def publish_body_def\<close>)

lemma publish_get_qos:
  assumes "qos \<in> {0..3}" and "retain \<in> {0, 1}"
  shows "mqtt_get_qos (publish_packet qos retain topic i payload) = Inr qos"
    and "mqtt_get_type (publish_packet qos retain topic i payload) = Inr 3"
  using type_byte_fields [of 3 qos retain] assms
  by (simp_all add: mqtt_get_qos_def mqtt_get_type_def rd_def publish_packet_def)

lemma publish_get_topic:
  assumes "length topic < 65536" and "topic \<noteq> []"
  shows "\<exists>k. mqtt_get_publish_topic (publish_packet qos retain topic i payload) (length (publish_packet qos retain topic i payload))
      = Inr (Some (k, length topic)) \<and> take (length topic) (drop k (publish_packet qos retain topic i payload)) = topic"
proof -
  let ?p = "publish_packet qos retain topic i payload"
  let ?h = "hdr_len qos topic i payload"
  have "?h + 2 < length ?p" and "?h + 2 + length topic \<le> length ?p"
    using assms(2) by (simp_all add: length_publish_packet)
  then have "mqtt_get_publish_topic ?p (length ?p) = Inr (Some (?h + 2, length topic))"
    using publish_topic_len [OF assms(1), of qos retain i payload] publish_header_scan [of qos retain topic i payload]
    by (simp add: mqtt_get_publish_topic_def)
  moreover have "take (length topic) (drop (?h + 2) ?p) = topic"
    by (simp add: publish_packet_def hdr_len_def publish_body_def mqtt_string_def be16_def)
  ultimately show ?thesis by blast
qed

lemma publish_get_data:
  assumes "length topic < 65536" and "payload \<noteq> []" and "topic \<noteq> []" and "qos \<in> {0..3}" and "retain \<in> {0, 1}"
    and "length (publish_body qos topic i payload) < 268435456"
  shows "\<exists>k. mqtt_get_publish_data (publish_packet qos retain topic i payload) (length (publish_packet qos retain topic i payload))
      = Inr (Some (k, length payload)) \<and> take (length payload) (drop k (publish_packet qos retain topic i payload)) = payload"
proof -
  let ?p = "publish_packet qos retain topic i payload"
  let ?b = "publish_body qos topic i payload"
  let ?h = "hdr_len qos topic i payload"
  let ?k = "?h + 2 + length topic + (if qos > 0 then 2 else 0)"
  have h: "?h \<le> 5" using length_encoded_lens4 [OF assms(6)] by (simp add: hdr_len_def)
  have len: "length ?b + ?h = length ?p" "?h + 2 < length ?p" "?h + 2 + length topic < length ?p"
    "?k < length ?p" "length ?p = ?k + length payload"
    using assms(2) by (simp_all add: length_publish_packet publish_body_def)
  have "(of_nat (length ?b) + of_nat ?h :: u32) = of_nat (length ?p)"
    by (simp only: len(1) flip: of_nat_add)
  moreover have "length ?p < 2147483648" using len(1) h assms(6) by linarith
  ultimately have t: "sint (of_nat (length ?b) + of_nat ?h :: u32) = int (length ?p)"
    by (simp add: signed_of_nat signed_take_bit_int_eq_self)
  have "mqtt_get_publish_data ?p (length ?p) = Inr (Some (?k, length payload))"
    using len t publish_topic_len [OF assms(1), of qos retain i payload] publish_get_qos(1) [OF assms(4,5), of topic i payload]
      publish_total_scan [OF assms(6), of retain]
    by (auto simp add: mqtt_get_publish_data_def Let_def)
  moreover have "take (length payload) (drop ?k ?p) = payload"
    by (simp add: publish_packet_def hdr_len_def publish_body_def)
  ultimately show ?thesis by blast
qed

lemma publish_get_id:
  assumes "length topic < 65536" and "topic \<noteq> []" and "qos \<in> {1..3}" and "retain \<in> {0, 1}" and "i < 65536"
  shows "mqtt_get_id (publish_packet qos retain topic i payload) (length (publish_packet qos retain topic i payload)) = Inr i"
proof -
  let ?p = "publish_packet qos retain topic i payload"
  let ?h = "hdr_len qos topic i payload"
  have "\<not> length ?p < 1" "?h + 2 < length ?p" "?h + 2 + length topic + 2 \<le> length ?p"
    using assms(2,3) by (simp_all add: length_publish_packet)
  then show ?thesis
    using assms(3,4) publish_topic_len [OF assms(1), of qos retain i payload] publish_msg_id [OF assms(5), of qos retain topic payload]
      publish_get_qos [of qos retain topic i payload] publish_header_scan [of qos retain topic i payload]
    by (simp add: mqtt_get_id_def)
qed

section \<open>Whole packets\<close>

text \<open>
  \<open>yields h c body r\<close>: a builder that is to send \<open>body\<close> under the first byte \<open>h\<close> ended with \<open>r\<close>. Either
  the packet fitted and is the fixed header followed by the body, or it did not and no packet is left.
\<close>
definition yields :: "byte \<Rightarrow> nat \<Rightarrow> bytes \<Rightarrow> fault + mqtt_connection \<Rightarrow> bool" where
  "yields h cap body r \<longleftrightarrow>
     (\<exists>c'. r = Inr c' \<and> conn_wf c' \<and> m_frag_total (outbound c') = 0
        \<and> packet c' = (if 5 + length body \<le> cap then h # encoded_lens (int (length body)) @ body else []))"

lemma yields_fail:
  assumes "built c b" and "m_frag_total (outbound c) = 0" and "cap < 5 + length body"
  shows "yields h cap body (Inr (fail_message c))"
  using assms by (simp add: yields_def fail_message_def conn_wf_def built_def packet_def)

lemma yields_fini:
  assumes "built c body" and "m_frag_total (outbound c) = 0" and "cbuffer_length c = cap"
  shows "yields (type_byte ty dup qos retain) cap body (fini_message c ty dup qos retain)"
proof -
  have "5 + length body \<le> cap" using assms by (auto simp: built_def)
  with fini_message_spec [OF assms(1,2), of ty dup qos retain] show ?thesis by (auto simp: yields_def)
qed

lemma yields_append:
  assumes "built c b" and "m_frag_total (outbound c) = 0" and "cbuffer_length c = cap" and "length s < 2147483648"
    and "length (b @ mqtt_string s) \<le> length body"
    and k: "\<And>c'. built c' (b @ mqtt_string s) \<Longrightarrow> m_frag_total (outbound c') = 0 \<Longrightarrow> cbuffer_length c' = cap
      \<Longrightarrow> yields h cap body (k c')"
  shows "yields h cap body (append_or_fail c s (strlen s) k)"
proof (cases "5 + length b + length s + 2 \<le> cap")
  case True
  then obtain c' where "append_string c s (strlen s) = Inr (int (length s) + 2, c')" "built c' (b @ mqtt_string s)" "same_ctl c c'"
    using append_string_fits [OF assms(1), of s] assms(3) by auto
  with k [of c'] assms(2,3) show ?thesis by (simp add: append_or_fail_def same_ctl_def)
next
  case False
  then have "append_string c s (strlen s) = Inr (- 1, c)"
    using append_string_full [OF assms(1,4)] assms(3) by simp
  moreover have "cap < 5 + length body" using False assms(5) by simp
  ultimately show ?thesis using yields_fail [OF assms(1,2)] by (simp add: append_or_fail_def)
qed

lemma built_or_byte:
  assumes "built c b" and "j < length b"
  shows "built (or_byte (5 + j) v c) (b[j := b ! j OR v])" "cbuffer_length (or_byte (5 + j) v c) = cbuffer_length c"
    "m_frag_total (outbound (or_byte (5 + j) v c)) = m_frag_total (outbound c)"
proof -
  have "(cbuffer c) ! (5 + j) = b ! j"
    using assms by (auto simp: built_def conn_wf_def dest!: arg_cong [where f = "\<lambda>x. x ! j"])
  then show "built (or_byte (5 + j) v c) (b[j := b ! j OR v])"
    using assms by (simp add: built_def conn_wf_def or_byte_def out_length_def drop_update_swap take_update_swap)
qed (simp_all add: or_byte_def)

subsection \<open>CONNECT\<close>

definition connect_flags :: "mqtt_connect_info \<Rightarrow> byte" where
  "connect_flags info =
     (if clean_session info \<noteq> 0 then 0x02 else 0)
     OR (if nonempty (will_topic info)
         then 0x04 OR (if will_retain info \<noteq> 0 then 0x20 else 0) OR of_int (push_bit 3 (will_qos info AND 3)) else 0)
     OR (if nonempty (username info) \<or> nonempty (password info) then 0x80 else 0)
     OR (if nonempty (password info) then 0x40 else 0)"

abbreviation opt_bytes :: "bytes option \<Rightarrow> bytes" where
  "opt_bytes s \<equiv> (case s of None \<Rightarrow> [] | Some t \<Rightarrow> t)"

definition connect_payload :: "mqtt_connect_info \<Rightarrow> bytes" where
  "connect_payload info =
     mqtt_string (opt_bytes (client_id info))
     @ (if nonempty (will_topic info)
        then mqtt_string (opt_bytes (will_topic info)) @ mqtt_string (opt_bytes (will_message info)) else [])
     @ (if nonempty (username info) \<or> nonempty (password info) then mqtt_string (opt_bytes (username info)) else [])
     @ (if nonempty (password info) then mqtt_string (opt_bytes (password info)) else [])"

text \<open>
  The protocol name with its length and the level, byte by byte: MQIsdp and 3 in version 3.1, MQTT and 4 from 3.1.1 on; the keep-alive is sent
  as the low 16 bits of its value, high byte first.
\<close>
definition connect_body :: "mqtt_connect_info \<Rightarrow> bytes" where
  "connect_body info =
     (if protocol_ver info = MQTT_PROTOCOL_V_3_1 then [0x00, 0x06, 0x4D, 0x51, 0x49, 0x73, 0x64, 0x70, 0x03]
      else [0x00, 0x04, 0x4D, 0x51, 0x54, 0x54, 0x04])
     @ [connect_flags info] @ be16 (nat (keepalive info mod 65536)) @ connect_payload info"

definition flags_index :: "mqtt_connect_info \<Rightarrow> nat" where
  "flags_index info = (if protocol_ver info = MQTT_PROTOCOL_V_3_1 then 9 else 7)"

text \<open>That this is what the implementation's template becomes once its flags are set.\<close>
lemma of_int_byte_mod: "(of_int (a mod 256) :: byte) = of_int a"
  by (rule word_uint_eqI) (simp add: uint_word_of_int_eq take_bit_eq_mod)

lemma be16_keepalive: "be16 (nat (k mod 65536)) = [of_int (k div 256), of_int (k mod 256)]"
proof -
  have e: "k mod 65536 = 256 * (k div 256 mod 256) + k mod 256" using zmod_zmult2_eq [of 256 k 256] by simp
  have d: "k mod 65536 div 256 = k div 256 mod 256" "k mod 65536 mod 256 = k mod 256" unfolding e by simp_all
  have n: "int (nat (k mod 65536)) = k mod 65536" by simp
  show ?thesis using be16_of_int [of "nat (k mod 65536)"] unfolding n d by (simp only: of_int_byte_mod)
qed

lemma connect_body_template: "connect_body info = (variable_header info)[flags_index info := connect_flags info] @ connect_payload info"
  by (simp add: connect_body_def variable_header_def flags_index_def be16_keepalive)

text \<open>The C strings are shorter than \<open>INT_MAX\<close> and \<open>will_length\<close> is the length of the will message.\<close>
definition info_wf :: "mqtt_connect_info \<Rightarrow> bool" where
  "info_wf info \<longleftrightarrow>
     (\<forall>s \<in> {client_id info, username info, password info, will_topic info, will_message info}. length (opt_bytes s) < 2147483648)
     \<and> will_length info = int (length (opt_bytes (will_message info)))"

text \<open>\<open>stage h f b\<close>: the variable header \<open>h\<close> with its flags at \<open>j\<close> so far \<open>f\<close>, followed by the payload \<open>b\<close>.\<close>
definition stage :: "bytes \<Rightarrow> nat \<Rightarrow> byte \<Rightarrow> bytes \<Rightarrow> bytes" where
  "stage h j f b = h[j := f] @ b"

lemma length_stage [simp]: "length (stage h j f b) = length h + length b"
  by (simp add: stage_def)

lemma stage_append [simp]: "stage h j f b @ s = stage h j f (b @ s)"
  by (simp add: stage_def)

lemma built_stage_or:
  assumes "built c (stage h j f b)" and "j < length h"
  shows "built (or_byte (5 + j) v c) (stage h j (f OR v) b)"
  using built_or_byte(1) [OF assms(1), of j v] assms(2) by (simp add: stage_def nth_append list_update_append)

definition ready :: "nat \<Rightarrow> mqtt_connection \<Rightarrow> bytes \<Rightarrow> bool" where
  "ready cap c b \<longleftrightarrow> built c b \<and> m_frag_total (outbound c) = 0 \<and> cbuffer_length c = cap"

lemma ready_append:
  assumes "ready cap c b" and "length s < 2147483648" and "length b + length s + 2 \<le> length body"
    and "\<And>c'. ready cap c' (b @ mqtt_string s) \<Longrightarrow> yields x cap body (k c')"
  shows "yields x cap body (append_or_fail c s (strlen s) k)"
  using yields_append [of c b cap s body x k] assms by (simp add: ready_def)

lemma ready_stage_or:
  assumes "ready cap c (stage h j f b)" and "j < length h"
  shows "ready cap (or_byte (5 + j) v c) (stage h j (f OR v) b)"
  using built_stage_or [of c h j f b v] assms by (simp add: ready_def or_byte_def)

lemma connect_will_yields:
  assumes "ready cap c (stage h j f b)" and "j < length h" and "info_wf info"
    and "w = (if nonempty (will_topic info)
              then mqtt_string (opt_bytes (will_topic info)) @ mqtt_string (opt_bytes (will_message info)) else [])"
    and "g = (if nonempty (will_topic info)
         then 0x04 OR (if will_retain info \<noteq> 0 then 0x20 else 0) OR of_int (push_bit 3 (will_qos info AND 3)) else 0)"
    and "length h + length (b @ w) \<le> length body"
    and "\<And>c'. ready cap c' (stage h j (f OR g) (b @ w)) \<Longrightarrow> yields x cap body (k c')"
  shows "yields x cap body (connect_will info (5 + j) c k)"
proof (cases "nonempty (will_topic info)")
  case False
  with assms show ?thesis by (auto simp: connect_will_def nonempty_def split: option.splits)
next
  case True
  then obtain t where t: "will_topic info = Some t" "t \<noteq> []" by (auto simp: nonempty_def split: option.splits)
  let ?m = "opt_bytes (will_message info)"
  have len: "length t < 2147483648" "length ?m < 2147483648" "will_length info = strlen ?m"
    using assms(3) t by (auto simp: info_wf_def strlen_eq)
  have w: "w = mqtt_string t @ mqtt_string ?m" using assms(4) True t by simp
  let ?r = "\<lambda>c2. let c3 = or_byte (5 + j) 0x04 c2; c4 = (if will_retain info \<noteq> 0 then or_byte (5 + j) 0x20 c3 else c3)
              in k (or_byte (5 + j) (of_int (push_bit 3 (will_qos info AND 3))) c4)"
  have last: "yields x cap body (?r c2)" if "ready cap c2 (stage h j f (b @ w))" for c2
  proof -
    let ?c3 = "or_byte (5 + j) 0x04 c2"
    let ?c4 = "if will_retain info \<noteq> 0 then or_byte (5 + j) 0x20 ?c3 else ?c3"
    have "ready cap ?c3 (stage h j (f OR 0x04) (b @ w))" by (rule ready_stage_or [OF that assms(2)])
    then have "ready cap ?c4 (stage h j ((f OR 0x04) OR (if will_retain info \<noteq> 0 then 0x20 else 0)) (b @ w))"
      using ready_stage_or [of cap ?c3 h j "f OR 0x04" "b @ w" "0x20"] assms(2) by (cases "will_retain info = 0") simp_all
    from ready_stage_or [OF this assms(2)] show ?thesis
      unfolding Let_def using assms(5) True by (intro assms(7)) (simp only: if_True or.assoc)
  qed
  have "yields x cap body (append_or_fail c t (strlen t) (\<lambda>c1. append_or_fail c1 ?m (strlen ?m) ?r))"
    using assms(1,6) len w last by (intro ready_append) (auto simp: ready_append)
  then show ?thesis using t len(3) by (simp add: connect_will_def)
qed

lemma connect_username_yields:
  assumes "ready cap c (stage h j f b)" and "j < length h" and "info_wf info"
    and "w = (if nonempty (username info) then mqtt_string (opt_bytes (username info)) else [])"
    and "g = (if nonempty (username info) then 0x80 else 0)"
    and "length h + length (b @ w) \<le> length body"
    and "\<And>c'. ready cap c' (stage h j (f OR g) (b @ w)) \<Longrightarrow> yields x cap body (k c')"
  shows "yields x cap body (connect_username info (5 + j) c k)"
proof (cases "nonempty (username info)")
  case False
  with assms show ?thesis by (auto simp: connect_username_def nonempty_def split: option.splits)
next
  case True
  then obtain t where t: "username info = Some t" "t \<noteq> []" by (auto simp: nonempty_def split: option.splits)
  have "yields x cap body (k (or_byte (5 + j) 0x80 c1))" if "ready cap c1 (stage h j f (b @ w))" for c1
    using ready_stage_or [OF that assms(2), of "0x80"] assms(5,7) True by simp
  then have "yields x cap body (append_or_fail c t (strlen t) (\<lambda>c1. k (or_byte (5 + j) 0x80 c1)))"
    using assms(1,3,4,6) True t by (intro ready_append) (auto simp: info_wf_def)
  then show ?thesis using t by (simp add: connect_username_def)
qed

text \<open>A password without a user name is sent behind an empty user name [MQTT-3.1.2-22].\<close>
lemma connect_password_yields:
  assumes "ready cap c (stage h j f b)" and "j < length h" and "info_wf info"
    and "w = (if nonempty (password info)
              then (if nonempty (username info) then [] else mqtt_string []) @ mqtt_string (opt_bytes (password info)) else [])"
    and "g = (if nonempty (password info) then (if nonempty (username info) then 0 else 0x80) OR 0x40 else 0)"
    and "length h + length (b @ w) \<le> length body"
    and "\<And>c'. ready cap c' (stage h j (f OR g) (b @ w)) \<Longrightarrow> yields x cap body (k c')"
  shows "yields x cap body (connect_password info (5 + j) c k)"
proof (cases "nonempty (password info)")
  case False
  with assms show ?thesis by (auto simp: connect_password_def nonempty_def split: option.splits)
next
  case True
  then obtain t where t: "password info = Some t" "t \<noteq> []" by (auto simp: nonempty_def split: option.splits)
  let ?u = "nonempty (username info)"
  let ?f = "f OR (if ?u then 0 else 0x80)" and ?b = "b @ (if ?u then [] else mqtt_string [])"
  let ?r = "\<lambda>c1. append_or_fail c1 t (strlen t) (\<lambda>c2. k (or_byte (5 + j) 0x40 c2))"
  have "yields x cap body (k (or_byte (5 + j) 0x40 c2))" if "ready cap c2 (stage h j ?f (b @ w))" for c2
    using ready_stage_or [OF that assms(2), of "0x40"] assms(5,7) True by (simp only: or.assoc if_True)
  then have r: "yields x cap body (?r c1)" if "ready cap c1 (stage h j ?f ?b)" for c1
    using that assms(3,4,6) True t by (intro ready_append) (auto simp: info_wf_def)
  show ?thesis
  proof (cases ?u)
    case u: True
    with r [of c] assms(1) t show ?thesis by (simp add: connect_password_def Let_def)
  next
    case u: False
    have "yields x cap body (?r (or_byte (5 + j) 0x80 c1))" if "ready cap c1 (stage h j f (b @ mqtt_string []))" for c1
      using ready_stage_or [OF that assms(2), of "0x80"] r u by simp
    then have "yields x cap body (append_or_fail c [] (strlen []) (\<lambda>c1. ?r (or_byte (5 + j) 0x80 c1)))"
      using assms(4,6) True t u by (intro ready_append [OF assms(1)]) auto
    then show ?thesis using t u by (simp add: connect_password_def Let_def strlen_def s32_def)
  qed
qed

lemma variable_header_facts:
  "length (variable_header info) = (if protocol_ver info = MQTT_PROTOCOL_V_3_1 then 12 else 10)"
  "flags_index info < length (variable_header info)"
  "stage (variable_header info) (flags_index info) 0 [] = variable_header info"
  by (simp_all add: variable_header_def flags_index_def stage_def)

text \<open>What each step of the builder adds to the flags and to the payload.\<close>
definition will_bits :: "mqtt_connect_info \<Rightarrow> byte" where
  "will_bits info = (if nonempty (will_topic info)
     then 0x04 OR (if will_retain info \<noteq> 0 then 0x20 else 0) OR of_int (push_bit 3 (will_qos info AND 3)) else 0)"
definition will_part :: "mqtt_connect_info \<Rightarrow> bytes" where
  "will_part info = (if nonempty (will_topic info)
     then mqtt_string (opt_bytes (will_topic info)) @ mqtt_string (opt_bytes (will_message info)) else [])"
definition user_bits :: "mqtt_connect_info \<Rightarrow> byte" where
  "user_bits info = (if nonempty (username info) then 0x80 else 0)"
definition user_part :: "mqtt_connect_info \<Rightarrow> bytes" where
  "user_part info = (if nonempty (username info) then mqtt_string (opt_bytes (username info)) else [])"
definition pass_bits :: "mqtt_connect_info \<Rightarrow> byte" where
  "pass_bits info = (if nonempty (password info) then (if nonempty (username info) then 0 else 0x80) OR 0x40 else 0)"
definition pass_part :: "mqtt_connect_info \<Rightarrow> bytes" where
  "pass_part info = (if nonempty (password info)
     then (if nonempty (username info) then [] else mqtt_string []) @ mqtt_string (opt_bytes (password info)) else [])"
definition clean_bits :: "mqtt_connect_info \<Rightarrow> byte" where
  "clean_bits info = (if clean_session info \<noteq> 0 then 0x02 else 0)"

lemma connect_flags_split: "connect_flags info = ((clean_bits info OR will_bits info) OR user_bits info) OR pass_bits info"
  unfolding connect_flags_def will_bits_def user_bits_def pass_bits_def clean_bits_def or.assoc
  by simp

lemma connect_payload_split:
  "connect_payload info = ((mqtt_string (opt_bytes (client_id info)) @ will_part info) @ user_part info) @ pass_part info"
  unfolding connect_payload_def will_part_def user_part_def pass_part_def by (auto simp: nonempty_def split: option.splits)

lemma connect_payload_yields:
  assumes "ready cap c (stage (variable_header info) (flags_index info) (clean_bits info) [])" and "info_wf info"
  shows "yields 0x10 cap (connect_body info)
    (append_or_fail c (opt_bytes (client_id info)) (strlen (opt_bytes (client_id info))) (\<lambda>c3.
       connect_will info (5 + flags_index info) c3 (\<lambda>c4. connect_username info (5 + flags_index info) c4 (\<lambda>c5.
         connect_password info (5 + flags_index info) c5 (\<lambda>c6. fini_message c6 1 0 0 0)))))" (is "yields _ _ ?body _")
proof -
  let ?st = "stage (variable_header info) (flags_index info)"
  note j = variable_header_facts(2) [of info]
  have body: "?body = ?st (connect_flags info) (connect_payload info)"
    by (simp add: connect_body_template stage_def)
  have len: "length ?body = length (variable_header info) + length (connect_payload info)"
    by (simp add: body)
  have id: "length (opt_bytes (client_id info)) < 2147483648" using assms(2) by (auto simp: info_wf_def)
  let ?b3 = "mqtt_string (opt_bytes (client_id info))"
  have y6: "yields 0x10 cap ?body (fini_message c6 1 0 0 0)"
    if "ready cap c6 (?st (((clean_bits info OR will_bits info) OR user_bits info) OR pass_bits info)
      (((?b3 @ will_part info) @ user_part info) @ pass_part info))" for c6
    using that yields_fini [of c6 ?body cap 1 0 0 0]
    unfolding connect_flags_split [symmetric] connect_payload_split [symmetric] body [symmetric]
    by (simp add: ready_def type_byte_def)
  have y5: "yields 0x10 cap ?body (connect_password info (5 + flags_index info) c5 (\<lambda>c6. fini_message c6 1 0 0 0))"
    if "ready cap c5 (?st ((clean_bits info OR will_bits info) OR user_bits info) ((?b3 @ will_part info) @ user_part info))" for c5
    by (rule connect_password_yields [OF that j assms(2) pass_part_def pass_bits_def _ y6])
      (simp_all add: len connect_payload_split)
  have y4: "yields 0x10 cap ?body (connect_username info (5 + flags_index info) c4 (\<lambda>c5.
         connect_password info (5 + flags_index info) c5 (\<lambda>c6. fini_message c6 1 0 0 0)))"
    if "ready cap c4 (?st (clean_bits info OR will_bits info) (?b3 @ will_part info))" for c4
    by (rule connect_username_yields [OF that j assms(2) user_part_def user_bits_def _ y5])
      (simp_all add: len connect_payload_split)
  have y3: "yields 0x10 cap ?body (connect_will info (5 + flags_index info) c3 (\<lambda>c4. connect_username info (5 + flags_index info) c4 (\<lambda>c5.
         connect_password info (5 + flags_index info) c5 (\<lambda>c6. fini_message c6 1 0 0 0))))"
    if "ready cap c3 (?st (clean_bits info) ?b3)" for c3
    by (rule connect_will_yields [OF that j assms(2) will_part_def will_bits_def _ y4])
      (simp_all add: len connect_payload_split)
  show ?thesis
    by (rule ready_append [OF assms(1) id]) (simp_all add: len connect_payload_split y3)
qed

lemma connect_flags_password: "connect_flags info AND 0x40 \<noteq> 0 \<longrightarrow> connect_flags info AND 0x80 \<noteq> 0"
proof -
  have m: "will_qos info AND 3 = will_qos info mod 4"
    using take_bit_eq_mask [of 2 "will_qos info"] by (simp add: mask_eq_exp_minus_1 take_bit_eq_mod)
  have "will_qos info mod 4 \<in> {0, 1, 2, 3}" using pos_mod_bound [of 4 "will_qos info"] pos_mod_sign [of 4 "will_qos info"] by auto
  then show ?thesis
    unfolding connect_flags_def m by (elim insertE emptyE) simp_all
qed

text \<open>
  C23. A CONNECT packet that fits the buffer is the fixed header, the length-prefixed protocol name and the level of the version, the
  flags of the fields that are present, the keep-alive and the length-prefixed fields in the order
  client id, will topic, will message, user name, password; the password flag comes with the user
  name flag. One that does not fit leaves no packet. In both cases no byte outside the buffer is touched.
\<close>
theorem mqtt_connect_packet:
  assumes "conn_wf c" and "m_frag_total (outbound c) = 0" and "info_wf info"
  shows "\<exists>c'. mqtt_msg_connect c info = Inr c' \<and> conn_wf c'
    \<and> packet c' = (if 5 + length (connect_body info) \<le> cbuffer_length c
         then 0x10 # encoded_lens (int (length (connect_body info))) @ connect_body info else [])
    \<and> (connect_flags info AND 0x40 \<noteq> 0 \<longrightarrow> connect_flags info AND 0x80 \<noteq> 0)"
proof -
  let ?c0 = "set_message_header_size c" and ?h = "variable_header info" and ?cap = "cbuffer_length c"
  have c0: "built ?c0 []" "m_frag_total (outbound ?c0) = 0" "cbuffer_length ?c0 = ?cap" "out_length ?c0 = 5"
    using built_header_size [OF assms(1)] assms(2) by (simp_all add: same_ctl_def set_message_header_size_def)
  have cap: "?cap \<le> 268435456" using assms(1) by (simp add: conn_wf_def)
  have "yields 0x10 ?cap (connect_body info) (mqtt_msg_connect c info)"
  proof (cases "5 + length ?h \<le> ?cap")
    case True
    obtain c1 where c1: "buf_put 5 ?h ?c0 = Inr c1" "built (set_length (5 + length ?h) c1) ?h" "same_ctl ?c0 c1"
      using built_buf_put [OF c0(1), of ?h] True c0 by auto
    let ?c1 = "set_length (5 + length ?h) c1"
    have r1: "ready ?cap ?c1 (stage ?h (flags_index info) 0 [])"
      using c1 c0 by (simp add: ready_def same_ctl_def variable_header_facts(3))
    have "ready ?cap (if clean_session info \<noteq> 0 then or_byte (5 + flags_index info) 0x02 ?c1 else ?c1)
        (stage ?h (flags_index info) (clean_bits info) [])"
      using r1 ready_stage_or [OF r1 variable_header_facts(2), of "0x02"] by (simp add: clean_bits_def)
    from connect_payload_yields [OF this assms(3)] True c1(1) c0 cap show ?thesis
      by (simp add: mqtt_msg_connect_def Let_def buf_put_set_length variable_header_facts(1) flags_index_def
          option.case_eq_if split: if_splits)
  next
    case False
    then show ?thesis
      using yields_fail [OF c0(1,2), of ?cap "connect_body info" "0x10"] c0 cap
      by (auto simp: mqtt_msg_connect_def Let_def connect_body_template variable_header_facts(1) split: if_splits)
  qed
  moreover note connect_flags_password [of info]
  ultimately show ?thesis by (auto simp: yields_def)
qed

subsection \<open>PUBLISH\<close>

text \<open>The source of message ids is not exhausted: a counter, or random numbers not all 0 modulo 65535.\<close>
definition ids_available :: "mqtt_connection \<Rightarrow> bool" where
  "ids_available c \<longleftrightarrow> id_incremental c \<or> (\<exists>r \<in> set (entropy c). r mod 65535 \<noteq> 0)"

lemma next_message_id_available:
  assumes "ids_available c"
  obtains i c' where "next_message_id c = Some (i, c')" "0 < i" "i < 65536"
proof -
  have "(\<exists>r \<in> set rs. r mod 65535 \<noteq> 0) \<Longrightarrow> draw_random rs \<noteq> None" for rs
    by (induction rs) auto
  with assms have "next_message_id c \<noteq> None"
    by (auto simp: next_message_id_def ids_available_def Let_def)
  with next_message_id_spec [of c] that show ?thesis by fastforce
qed

lemma buf_memcpy_ids: "buf_memcpy i xs n c = Inr c' \<Longrightarrow> ids_available c' = ids_available c"
  by (auto simp: buf_memcpy_def buf_put_def ids_available_def split: if_splits)

lemma append_string_ids: "append_string c s n = Inr (r, c') \<Longrightarrow> ids_available c' = ids_available c"
  by (auto simp: append_string_def buf_put_def buf_memcpy_def ids_available_def set_length_def split: if_splits sum.splits)

lemma publish_headers:
  assumes "conn_wf c" and "5 + (length topic + 2) + (if qos > 0 then 2 else 0) \<le> cbuffer_length c"
    and "qos > 0 \<Longrightarrow> ids_available c"
  obtains c1 i c2 where "append_string (set_message_header_size c) topic (strlen topic) = Inr (int (length topic) + 2, c1)"
    "(if qos > 0 then append_message_id c1 0 else Inr (0, c1)) = Inr (i, c2)"
    "built c2 (mqtt_string topic @ (if qos > 0 then be16 i else []))" "cbuffer_length c2 = cbuffer_length c"
    "(if qos > 0 then 0 < i else i = 0)" "i < 65536" "m_frag_offset (outbound c2) = m_frag_offset (outbound c)"
proof -
  have c0: "built (set_message_header_size c) []" "cbuffer_length (set_message_header_size c) = cbuffer_length c"
    "ids_available (set_message_header_size c) = ids_available c"
    "m_frag_offset (outbound (set_message_header_size c)) = m_frag_offset (outbound c)"
    using built_header_size [OF assms(1)] by (simp_all add: same_ctl_def set_message_header_size_def ids_available_def set_length_def)
  obtain c1 where c1: "append_string (set_message_header_size c) topic (strlen topic) = Inr (int (length topic) + 2, c1)"
    "built c1 (mqtt_string topic)" "cbuffer_length c1 = cbuffer_length c" "m_frag_offset (outbound c1) = m_frag_offset (outbound c)"
    using append_string_fits [OF c0(1), of topic] assms(2) c0(2,4) by (auto simp: same_ctl_def split: if_splits)
  show thesis
  proof (cases "qos > 0")
    case False
    with c1 show thesis by (intro that [of c1 0 c1]) simp_all
  next
    case True
    with assms(3) append_string_ids [OF c1(1)] c0(3) have "ids_available c1" by simp
    then obtain i d where i: "next_message_id c1 = Some (i, d)" "0 < i" "i < 65536" by (rule next_message_id_available)
    obtain c2 where "append_message_id c1 0 = Inr (i, c2)" "built c2 (mqtt_string topic @ be16 i)" "same_ctl c1 c2"
      using append_message_id_spec [OF c1(2), of 0 i d] i True assms(2) c1(3) by auto
    with c1 i True show thesis by (intro that [of c1 i c2]) (simp_all add: same_ctl_def)
  qed
qed

lemma mqtt_msg_publish_step:
  assumes "append_string (set_message_header_size c) topic (strlen topic) = Inr (int (length topic) + 2, c1)"
    and "(if qos > 0 then append_message_id c1 0 else Inr (0, c1)) = Inr (i, c2)" and "(if qos > 0 then 0 < i else i = 0)"
    and "topic \<noteq> []"
  shows "mqtt_msg_publish c (Some topic) (Some d) n qos retain mid0 =
    (case publish_payload c2 d n of Inl f \<Rightarrow> Inl f | Inr c3 \<Rightarrow>
      (case fini_message c3 3 0 qos retain of Inl f \<Rightarrow> Inl f | Inr c4 \<Rightarrow> Inr (c4, i)))"
  using assms by (auto simp: mqtt_msg_publish_def Let_def split: sum.splits if_splits)

lemma publish_payload_fits:
  assumes "built c b" and "5 + length b + length d \<le> cbuffer_length c"
  shows "\<exists>c'. publish_payload c d (int (length d)) = Inr c' \<and> built c' (b @ d) \<and> m_frag_total (outbound c') = 0
    \<and> cbuffer_length c' = cbuffer_length c \<and> m_frag_offset (outbound c') = m_frag_offset (outbound c)"
proof -
  have lim: "out_length c = 5 + length b" "cbuffer_length c \<le> 268435456" using assms(1) by (auto simp: built_def conn_wf_def)
  then have n: "wrap32 (out_length c + sz (int (length d))) = out_length c + length d" "sz (int (length d)) = length d"
    using assms(2) by (simp_all add: sz_of_nat)
  obtain c1 where c1: "buf_put (out_length c) d c = Inr c1" "built (set_length (out_length c + length d) c1) (b @ d)" "same_ctl c c1"
    using built_buf_put [OF assms(1), of d] assms(2) lim by auto
  let ?c = "c1\<lparr>outbound := (outbound c1)\<lparr>m_length := out_length c + length d, m_frag_total := 0\<rparr>\<rparr>"
  have "publish_payload c d (int (length d)) = Inr ?c"
    unfolding publish_payload_def n using lim assms(2) c1(1) by (simp add: buf_memcpy_def)
  moreover have "built ?c (b @ d)"
    using c1(2) by (simp add: built_def conn_wf_def out_length_def set_length_def)
  ultimately show ?thesis using c1(3) by (simp add: same_ctl_def)
qed

lemma encoded_lens_nonempty: "encoded_lens n \<noteq> []"
  by (subst encoded_lens.simps) simp

lemma fini_offset:
  assumes "fini_message c ty dup qos retain = Inr c'"
  shows "\<exists>k \<le> 3. m_frag_offset (outbound c') = sz (int (m_frag_offset (outbound c)) - int k)"
proof -
  define l where "l = length (encoded_lens (if m_frag_total (outbound c) \<noteq> 0 then s32 (int (m_frag_total (outbound c)) - 5) else s32 (int (m_length (outbound c)) - 5)))"
  have "m_frag_offset (outbound c') = sz (int (m_frag_offset (outbound c)) - int (4 - l))"
    using assms by (auto simp: fini_message_def Let_def buf_put_def l_def split: if_splits)
  moreover have "0 < l" unfolding l_def length_greater_0_conv by (rule encoded_lens_nonempty)
  ultimately show ?thesis by (intro exI [of _ "4 - l"]) auto
qed

lemma mqtt_msg_publish_fits:
  assumes "conn_wf c" and "topic \<noteq> []" and "qos > 0 \<Longrightarrow> ids_available c"
    and "5 + (length topic + 2) + (if qos > 0 then 2 else 0) + length payload \<le> cbuffer_length c"
  shows "\<exists>c' i. mqtt_msg_publish c (Some topic) (Some payload) (int (length payload)) qos retain mid0 = Inr (c', i)
    \<and> conn_wf c' \<and> packet c' = publish_packet qos retain topic i payload
    \<and> length (publish_body qos topic i payload) < 268435456 \<and> (if qos > 0 then 0 < i else i = 0) \<and> i < 65536
    \<and> m_frag_total (outbound c') = 0 \<and> m_length (outbound c') = length (packet c')
    \<and> (\<exists>k \<le> 3. m_frag_offset (outbound c') = sz (int (m_frag_offset (outbound c)) - int k))"
proof -
  from assms(4) have "5 + (length topic + 2) + (if qos > 0 then 2 else 0) \<le> cbuffer_length c" by simp
  from publish_headers [OF assms(1) this assms(3)] obtain c1 i c2 where
    c12: "append_string (set_message_header_size c) topic (strlen topic) = Inr (int (length topic) + 2, c1)"
    "(if qos > 0 then append_message_id c1 0 else Inr (0, c1)) = Inr (i, c2)" and
    c2: "built c2 (mqtt_string topic @ (if qos > 0 then be16 i else []))" "cbuffer_length c2 = cbuffer_length c" and
    i: "(if qos > 0 then 0 < i else i = 0)" "i < 65536" and o2: "m_frag_offset (outbound c2) = m_frag_offset (outbound c)" by metis
  have "5 + length (mqtt_string topic @ (if qos > 0 then be16 i else [])) + length payload \<le> cbuffer_length c2"
    using assms(4) c2(2) by (simp split: if_splits)
  then obtain c3 where c3: "publish_payload c2 payload (int (length payload)) = Inr c3"
    "built c3 (publish_body qos topic i payload)" "m_frag_total (outbound c3) = 0" "m_frag_offset (outbound c3) = m_frag_offset (outbound c)"
    using publish_payload_fits [OF c2(1)] o2 by (auto simp: publish_body_def)
  obtain c4 where c4: "fini_message c3 3 0 qos retain = Inr c4" "conn_wf c4" "packet c4 = publish_packet qos retain topic i payload"
    "m_frag_total (outbound c4) = 0" "m_length (outbound c4) = length (packet c4)"
    using fini_message_spec [OF c3(2,3), of 3 0 qos retain] by (auto simp: publish_packet_def)
  have "length (publish_body qos topic i payload) < 268435456"
    using c3(2) by (auto simp: built_def conn_wf_def)
  then show ?thesis
    using mqtt_msg_publish_step [OF c12 i(1) assms(2)] c3(1,4) i fini_offset [OF c4(1)] c4 by simp
qed

lemma publish_total_length:
  assumes "length (publish_body qos topic i payload) < 268435456"
  shows "mqtt_get_total_length (publish_packet qos retain topic i payload) (length (publish_packet qos retain topic i payload)) =
    Inr (of_nat (length (publish_packet qos retain topic i payload)), hdr_len qos topic i payload)"
proof -
  have "length (publish_packet qos retain topic i payload) = length (publish_body qos topic i payload) + hdr_len qos topic i payload"
    by (simp add: length_publish_packet publish_body_def)
  then show ?thesis
    using publish_total_scan [OF assms, of retain] by (simp add: mqtt_get_total_length_def)
qed

lemma publish_valid_hdr:
  assumes "qos \<in> {0..2}" and "retain \<in> {0, 1}"
  shows "mqtt_has_valid_msg_hdr (publish_packet qos retain topic i payload) (length (publish_packet qos retain topic i payload)) = Inr True"
    and "mqtt_get_retain (publish_packet qos retain topic i payload) = Inr retain"
    and "mqtt_get_dup (publish_packet qos retain topic i payload) = Inr 0"
  using type_byte_fields [of 3 qos retain] assms
  by (simp_all add: mqtt_has_valid_msg_hdr_def valid_hdr_byte_def mqtt_get_retain_def mqtt_get_dup_def rd_def publish_packet_def)

text \<open>
  C12. Round trip of PUBLISH: the packet that \<open>mqtt_msg_publish\<close> builds for a topic and a payload that
  fit the buffer is read back by the packet readers with the topic, the payload, the quality of
  service, the retain flag and the message id it was built from; its length field is the length of
  the packet and its header is valid. With QoS 1 or 2 the message id is not 0.
\<close>
theorem mqtt_publish_roundtrip:
  assumes "conn_wf c" and "topic \<noteq> []" and "length topic < 65536" and "payload \<noteq> []"
    and "qos \<in> {0..2}" and "retain \<in> {0, 1}" and "qos > 0 \<Longrightarrow> ids_available c"
    and "5 + (length topic + 2) + (if qos > 0 then 2 else 0) + length payload \<le> cbuffer_length c"
  shows "\<exists>c' i p. mqtt_msg_publish c (Some topic) (Some payload) (int (length payload)) qos retain mid0 = Inr (c', i)
    \<and> p = packet c' \<and> conn_wf c'
    \<and> mqtt_has_valid_msg_hdr p (length p) = Inr True
    \<and> mqtt_get_type p = Inr 3 \<and> mqtt_get_qos p = Inr qos \<and> mqtt_get_retain p = Inr retain \<and> mqtt_get_dup p = Inr 0
    \<and> (\<exists>h. mqtt_get_total_length p (length p) = Inr (of_nat (length p), h))
    \<and> (\<exists>k. mqtt_get_publish_topic p (length p) = Inr (Some (k, length topic)) \<and> take (length topic) (drop k p) = topic)
    \<and> (\<exists>k. mqtt_get_publish_data p (length p) = Inr (Some (k, length payload)) \<and> take (length payload) (drop k p) = payload)
    \<and> (qos > 0 \<longrightarrow> 0 < i \<and> mqtt_get_id p (length p) = Inr i)"
proof -
  from mqtt_msg_publish_fits [OF assms(1,2,7,8)] obtain c' i where
    b: "mqtt_msg_publish c (Some topic) (Some payload) (int (length payload)) qos retain mid0 = Inr (c', i)" "conn_wf c'"
    "packet c' = publish_packet qos retain topic i payload" and
    l: "length (publish_body qos topic i payload) < 268435456" and i: "if qos > 0 then 0 < i else i = 0" "i < 65536"
    by metis
  have q: "qos \<in> {0..3}" and q1: "qos > 0 \<Longrightarrow> qos \<in> {1..3}" using assms(5) by auto
  have id: "qos > 0 \<longrightarrow> 0 < i \<and> mqtt_get_id (packet c') (length (packet c')) = Inr i"
    using i publish_get_id [OF assms(3,2) q1 assms(6) i(2)] by (simp add: b(3) split: if_splits)
  show ?thesis
    by (rule exI [of _ c'], rule exI [of _ i], rule exI [of _ "packet c'"])
      (use b(1,2) id publish_valid_hdr [OF assms(5,6)] publish_get_qos [OF q assms(6)] publish_total_length [OF l]
         publish_get_topic [OF assms(3,2)] publish_get_data [OF assms(3,4,2) q assms(6) l] in \<open>simp add: b(3)\<close>)
qed

text \<open>A connection with a buffer of 64 bytes and incremental message ids.\<close>
definition conn64 :: mqtt_connection where
  "conn64 = \<lparr>outbound = \<lparr>m_data = 0, m_length = 0, m_frag_total = 0, m_frag_offset = 0\<rparr>, id_incremental = True,
     last_message_id = 6, entropy = [], cbuffer = replicate 64 0, cbuffer_length = 64\<rparr>"

lemma conn64_facts [simp]: "conn_wf conn64" "ids_available conn64" "cbuffer_length conn64 = 64" "m_frag_total (outbound conn64) = 0"
  by (simp_all add: conn64_def conn_wf_def ids_available_def)

theorem mqtt_publish_roundtrip_witness:
  "\<exists>c' i p. mqtt_msg_publish conn64 (Some [0x61]) (Some [0x31, 0x32]) 2 1 0 0 = Inr (c', i)
    \<and> p = packet c' \<and> 0 < i \<and> mqtt_get_id p (length p) = Inr i
    \<and> (\<exists>k. mqtt_get_publish_topic p (length p) = Inr (Some (k, 1)) \<and> take 1 (drop k p) = [0x61])"
  using mqtt_publish_roundtrip [of conn64 "[0x61]" "[0x31, 0x32]" 1 0 0] by auto

theorem mqtt_connect_packet_witness:
  "\<exists>c'. mqtt_msg_connect conn64 \<lparr>client_id = Some [0x65], username = None, password = Some [0x70], will_topic = None,
      will_message = None, keepalive = 300, will_length = 0, will_qos = 0, will_retain = 0, clean_session = 1,
      protocol_ver = MQTT_PROTOCOL_V_3_1_1\<rparr> = Inr c' \<and> conn_wf c'
    \<and> packet c' = [0x10, 18, 0, 4, 0x4D, 0x51, 0x54, 0x54, 4, 0xc2, 1, 44, 0, 1, 0x65, 0, 0, 0, 1, 0x70]"
  using mqtt_connect_packet [of conn64 "\<lparr>client_id = Some [0x65], username = None, password = Some [0x70], will_topic = None,
      will_message = None, keepalive = 300, will_length = 0, will_qos = 0, will_retain = 0, clean_session = 1,
      protocol_ver = MQTT_PROTOCOL_V_3_1_1\<rparr>"]
  by (auto simp: info_wf_def connect_body_def connect_payload_def connect_flags_def
      nonempty_def mqtt_string_def be16_def encoded_lens_nat [of 18, simplified])

subsection \<open>Fragmented PUBLISH\<close>

lemma publish_payload_fragment:
  assumes "built c b" and "cbuffer_length c < 5 + length b + length d" and "length d < 2147483648"
  shows "\<exists>c'. publish_payload c d (int (length d)) = Inr c' \<and> conn_wf c' \<and> cbuffer_length c' = cbuffer_length c
    \<and> out_length c' = cbuffer_length c \<and> m_frag_total (outbound c') = 5 + length b + length d
    \<and> m_frag_offset (outbound c') = 5 + length b
    \<and> take (cbuffer_length c - 5) (drop 5 (cbuffer c')) = b @ take (cbuffer_length c - (5 + length b)) d"
proof -
  let ?n = "cbuffer_length c - (5 + length b)"
  have lim: "out_length c = 5 + length b" "cbuffer_length c \<le> 268435456" "5 + length b \<le> cbuffer_length c"
    using assms(1) by (auto simp: built_def conn_wf_def)
  have n: "sz (int (length d)) = length d" "wrap32 (out_length c + length d) = 5 + length b + length d"
    "wrap32 (length d + out_length c) = 5 + length b + length d"
    using lim assms(3) by (simp_all add: sz_of_nat)
  have m: "sz (int (cbuffer_length c) - int (out_length c)) = ?n"
    using lim sz_of_nat [of ?n] by (simp add: of_nat_diff)
  have out: "out_length c + length (take ?n d) = cbuffer_length c" using lim assms(2) by simp
  obtain c1 where c1: "buf_put (out_length c) (take ?n d) c = Inr c1"
    "built (set_length (cbuffer_length c) c1) (b @ take ?n d)" "same_ctl c c1"
    using built_buf_put [OF assms(1), of "take ?n d"] unfolding out by auto
  have cp: "buf_memcpy (out_length c) d ?n c = Inr c1" using c1(1) assms(2) lim by (simp add: buf_memcpy_def)
  let ?c = "c1\<lparr>outbound := (outbound c1)\<lparr>m_frag_offset := out_length c, m_length := cbuffer_length c,
     m_frag_total := 5 + length b + length d\<rparr>\<rparr>"
  have "publish_payload c d (int (length d)) = Inr ?c"
    unfolding publish_payload_def n m cp using assms(2) by simp
  moreover have "take (cbuffer_length c - 5) (drop 5 (cbuffer c1)) = b @ take ?n d"
    using c1(2) out lim by (auto simp: built_def)
  ultimately show ?thesis
    using c1 lim by (auto simp: out_length_def conn_wf_def built_def same_ctl_def)
qed

lemma fini_fragment:
  assumes "conn_wf c" and "out_length c = cbuffer_length c" and "m_frag_total (outbound c) = 5 + tln" and "0 < tln"
    and "tln < 268435456"
  shows "\<exists>c'. fini_message c ty dup qos retain = Inr c' \<and> conn_wf c' \<and> m_frag_total (outbound c') = 5 + tln
    \<and> packet c' = type_byte ty dup qos retain # encoded_lens (int tln) @ take (cbuffer_length c - 5) (drop 5 (cbuffer c))
    \<and> m_length (outbound c') = 1 + length (encoded_lens (int tln)) + (cbuffer_length c - 5)
    \<and> m_frag_offset (outbound c') = sz (int (m_frag_offset (outbound c)) - int (4 - length (encoded_lens (int tln))))"
proof -
  have "encoded_lens (int tln) = encoded_lens (if m_frag_total (outbound c) \<noteq> 0
      then s32 (int (m_frag_total (outbound c)) - 5) else int (cbuffer_length c - 5))"
    using assms(3,5) by (simp add: s32_def)
  moreover have "out_length c = 5 + (cbuffer_length c - 5)" "5 + (cbuffer_length c - 5) \<le> cbuffer_length c"
    using assms(1,2) by (simp_all add: conn_wf_def)
  ultimately show ?thesis
    using fini_message_overlay [OF assms(1) length_encoded_lens4 [OF assms(5)], of "cbuffer_length c - 5" ty dup qos retain]
    unfolding assms(3) by blast
qed

text \<open>
  C22. A PUBLISH that does not fit the buffer is sent in fragments without loss: the first fragment
  followed by the payload from the offset that the client computes for the rest
  (\<^verbatim>\<open>length - fragmented_msg_data_offset\<close>, mqtt_client.c:2150) is the whole packet, whose length field
  counts all fragments, and the first fragment stays inside the buffer.
\<close>
theorem mqtt_publish_fragments:
  assumes "conn_wf c" and "topic \<noteq> []" and "qos > 0 \<Longrightarrow> ids_available c"
    and "5 + (length topic + 2) + (if qos > 0 then 2 else 0) \<le> cbuffer_length c"
    and "cbuffer_length c < 5 + (length topic + 2) + (if qos > 0 then 2 else 0) + length payload"
    and "length topic + 2 + (if qos > 0 then 2 else 0) + length payload < 268435456"
  shows "\<exists>c' i. mqtt_msg_publish c (Some topic) (Some payload) (int (length payload)) qos retain mid0 = Inr (c', i)
    \<and> conn_wf c' \<and> m_frag_total (outbound c') \<noteq> 0 \<and> m_frag_offset (outbound c') \<le> m_length (outbound c')
    \<and> packet c' @ drop (m_length (outbound c') - m_frag_offset (outbound c')) payload = publish_packet qos retain topic i payload"
proof -
  from publish_headers [OF assms(1,4,3)] obtain c1 i c2 where
    c12: "append_string (set_message_header_size c) topic (strlen topic) = Inr (int (length topic) + 2, c1)"
    "(if qos > 0 then append_message_id c1 0 else Inr (0, c1)) = Inr (i, c2)" and
    c2: "built c2 (mqtt_string topic @ (if qos > 0 then be16 i else []))" (is "built c2 ?b") "cbuffer_length c2 = cbuffer_length c" and
    i: "(if qos > 0 then 0 < i else i = 0)" "i < 65536" by metis
  let ?n = "cbuffer_length c - (5 + length ?b)"
  let ?l = "encoded_lens (int (length (publish_body qos topic i payload)))"
  have b: "length ?b = length topic + 2 + (if qos > 0 then 2 else 0)" "5 + length ?b \<le> cbuffer_length c" using assms(4) by (simp_all split: if_splits)
  have body: "publish_body qos topic i payload = ?b @ payload" by (simp add: publish_body_def)
  then have total: "length (publish_body qos topic i payload) < 268435456" "5 + length (publish_body qos topic i payload) = 5 + length ?b + length payload"
    "0 < length (publish_body qos topic i payload)"
    using assms(6) b by simp_all
  obtain c3 where c3: "publish_payload c2 payload (int (length payload)) = Inr c3" "conn_wf c3"
    "cbuffer_length c3 = cbuffer_length c" "out_length c3 = cbuffer_length c3"
    "m_frag_total (outbound c3) = 5 + length (publish_body qos topic i payload)"
    "m_frag_offset (outbound c3) = 5 + length ?b" "take (cbuffer_length c3 - 5) (drop 5 (cbuffer c3)) = ?b @ take ?n payload"
    using publish_payload_fragment [OF c2(1), of payload] assms(5,6) c2(2) b total by auto
  obtain c4 where c4: "fini_message c3 3 0 qos retain = Inr c4" "conn_wf c4" "m_frag_total (outbound c4) \<noteq> 0"
    "packet c4 = type_byte 3 0 qos retain # ?l @ ?b @ take ?n payload"
    "m_length (outbound c4) = 1 + length ?l + (cbuffer_length c - 5)"
    "m_frag_offset (outbound c4) = sz (int (5 + length ?b) - int (4 - length ?l))"
    using fini_fragment [OF c3(2,4,5) total(3,1), of 3 0 qos retain] c3(3,6,7) by auto
  have "length ?l \<le> 4" "cbuffer_length c \<le> 268435456"
    using length_encoded_lens4 [OF total(1)] assms(1) by (simp_all add: conn_wf_def)
  with sz_of_nat [of "1 + length ?b + length ?l"] b(2) have off: "m_frag_offset (outbound c4) = 1 + length ?b + length ?l"
    unfolding c4(6) by (simp add: of_nat_diff)
  then have n: "m_length (outbound c4) - m_frag_offset (outbound c4) = ?n" "m_frag_offset (outbound c4) \<le> m_length (outbound c4)"
    using c4(5) b(2) by simp_all
  have "packet c4 @ drop ?n payload = publish_packet qos retain topic i payload"
    unfolding c4(4) publish_packet_def body by simp
  with n c4(1-3) show ?thesis
    using mqtt_msg_publish_step [OF c12 i(1) assms(2)] c3(1) by simp
qed

theorem mqtt_publish_fragments_witness:
  "\<exists>c' i. mqtt_msg_publish conn64 (Some [0x61]) (Some (replicate 100 0x31)) 100 1 0 0 = Inr (c', i)
    \<and> m_frag_total (outbound c') \<noteq> 0
    \<and> packet c' @ drop (m_length (outbound c') - m_frag_offset (outbound c')) (replicate 100 0x31)
        = publish_packet 1 0 [0x61] i (replicate 100 0x31)"
  using mqtt_publish_fragments [of conn64 "[0x61]" 1 "replicate 100 0x31" 0 0] by auto

lemma encoded_lens_long: "128 ^ k \<le> n \<Longrightarrow> k < length (encoded_lens (int n))"
proof (induction k arbitrary: n)
  case (Suc k)
  then have "128 ^ k \<le> n div 128" "128 \<le> n" by (simp_all add: div_nat_eqI less_eq_div_iff_mult_less_eq mult.commute order.trans [of 128 "128 * 128 ^ k"])
  with Suc.IH show ?case by (simp add: encoded_lens_nat [of n])
qed simp

text \<open>
  C25. A PUBLISH whose remaining length needs more than four bytes (\<open>2^28\<close> and more, which the protocol
  forbids and nothing rejects before) makes \<open>fini_message\<close> store outside its local array
  \<^verbatim>\<open>encoded_lens[4]\<close>: the check of the header size comes only after the loop.
\<close>
theorem mqtt_publish_oversize_overruns:
  assumes "conn_wf c" and "topic \<noteq> []" and "qos > 0 \<Longrightarrow> ids_available c"
    and "5 + (length topic + 2) + (if qos > 0 then 2 else 0) \<le> cbuffer_length c"
    and "268435456 \<le> length payload" and "length payload < 1073741824"
  shows "mqtt_msg_publish c (Some topic) (Some payload) (int (length payload)) qos retain mid0 = Inl Overrun"
proof -
  from publish_headers [OF assms(1,4,3)] obtain c1 i c2 where
    c12: "append_string (set_message_header_size c) topic (strlen topic) = Inr (int (length topic) + 2, c1)"
    "(if qos > 0 then append_message_id c1 0 else Inr (0, c1)) = Inr (i, c2)" and
    c2: "built c2 (mqtt_string topic @ (if qos > 0 then be16 i else []))" (is "built c2 ?b") "cbuffer_length c2 = cbuffer_length c" and
    i: "(if qos > 0 then 0 < i else i = 0)" by metis
  have b: "5 + length ?b \<le> cbuffer_length c" "cbuffer_length c \<le> 268435456"
    using assms(1,4) by (simp_all add: conn_wf_def split: if_splits)
  obtain c3 where c3: "publish_payload c2 payload (int (length payload)) = Inr c3"
    "m_frag_total (outbound c3) = 5 + length ?b + length payload"
    using publish_payload_fragment [OF c2(1), of payload] assms(5,6) c2(2) b by auto
  have "s32 (int (m_frag_total (outbound c3)) - 5) = int (length ?b + length payload)"
    unfolding c3(2) using b assms(6) by (simp add: s32_def)
  moreover have "4 < length (encoded_lens (int (length ?b + length payload)))"
    using encoded_lens_long [of 4 "length ?b + length payload"] assms(5) by simp
  ultimately have "fini_message c3 3 0 qos retain = Inl Overrun"
    using c3(2) by (simp add: fini_message_def Let_def)
  then show ?thesis using mqtt_msg_publish_step [OF c12 i assms(2)] c3(1) by simp
qed

theorem mqtt_publish_oversize_overruns_witness:
  "mqtt_msg_publish conn64 (Some [0x61]) (Some (replicate 268435456 0)) 268435456 0 0 0 = Inl Overrun"
  using mqtt_publish_oversize_overruns [of conn64 "[0x61]" 0 "replicate 268435456 0" 0 0] by simp

subsection \<open>Acknowledgements, SUBSCRIBE and UNSUBSCRIBE\<close>

lemma mqtt_msg_ack_packet:
  assumes "conn_wf c" and "m_frag_total (outbound c) = 0" and "0 < i" and "7 \<le> cbuffer_length c"
  shows "\<exists>c'. mqtt_msg_ack ty qos c i = Inr c' \<and> conn_wf c' \<and> packet c' = type_byte ty 0 qos 0 # 2 # be16 i"
proof -
  have c0: "built (set_message_header_size c) []" "cbuffer_length (set_message_header_size c) = cbuffer_length c"
    "m_frag_total (outbound (set_message_header_size c)) = 0"
    using built_header_size [OF assms(1)] assms(2) by (simp_all add: same_ctl_def set_message_header_size_def)
  obtain c1 where c1: "append_message_id (set_message_header_size c) i = Inr (i, c1)" "built c1 (be16 i)" "m_frag_total (outbound c1) = 0"
    using append_message_id_spec [OF c0(1), of i i "set_message_header_size c"] assms(3,4) c0 by (auto simp: same_ctl_def)
  from fini_message_spec [OF c1(2,3), of ty 0 qos 0] show ?thesis
    using c1(1) assms(3) by (auto simp: mqtt_msg_ack_def encoded_lens_nat [of 2, simplified])
qed

text \<open>
  Round trip of the acknowledgements: PUBACK, PUBREC, PUBREL and PUBCOMP for a message id carry that
  id, the right type and the flag bits the protocol prescribes.
\<close>
lemma mqtt_ack_roundtrip:
  assumes "conn_wf c" and "m_frag_total (outbound c) = 0" and "0 < i" and "i < 65536" and "7 \<le> cbuffer_length c"
  shows "\<forall>(f, ty) \<in> {(mqtt_msg_puback, 4), (mqtt_msg_pubrec, 5), (mqtt_msg_pubrel, 6), (mqtt_msg_pubcomp, 7)}.
    \<exists>c'. f c i = Inr c' \<and> conn_wf c' \<and> mqtt_get_type (packet c') = Inr ty \<and> mqtt_get_id (packet c') (length (packet c')) = Inr i
      \<and> mqtt_has_valid_msg_hdr (packet c') (length (packet c')) = Inr True
      \<and> mqtt_get_total_length (packet c') (length (packet c')) = Inr (4, 2)"
proof -
  have *: "\<exists>c'. mqtt_msg_ack ty qos c i = Inr c' \<and> conn_wf c' \<and> mqtt_get_type (packet c') = Inr ty \<and> mqtt_get_id (packet c') (length (packet c')) = Inr i
      \<and> mqtt_has_valid_msg_hdr (packet c') (length (packet c')) = Inr True
      \<and> mqtt_get_total_length (packet c') (length (packet c')) = Inr (4, 2)"
    if ty: "(ty, qos) \<in> {(4, 0), (5, 0), (6, 1), (7, 0)}" for ty qos
  proof -
    let ?p = "type_byte ty 0 qos 0 # 2 # be16 i"
    have r: "rd16 ?p 2 = Inr i" by (rule rd16_be16 [where pre = "[type_byte ty 0 qos 0, 2]" and rest = "[]"]) (use assms(4) in simp_all)
    have v: "type_of (type_byte ty 0 qos 0) = ty" "valid_hdr_byte (type_byte ty 0 qos 0)"
      using ty by (auto simp: type_byte_def valid_hdr_byte_def type_of_def)
    have "mqtt_get_type ?p = Inr ty" "mqtt_has_valid_msg_hdr ?p (length ?p) = Inr True"
      using v by (simp_all add: mqtt_get_type_def mqtt_has_valid_msg_hdr_def rd_def)
    moreover from this have "mqtt_get_id ?p (length ?p) = Inr i"
      using ty r by (auto simp: mqtt_get_id_def rd_def)
    moreover have "mqtt_get_total_length ?p (length ?p) = Inr (4, 2)"
      by (simp add: mqtt_get_total_length_def total_scan.simps [of ?p] rd_def)
    ultimately show ?thesis
      using mqtt_msg_ack_packet [OF assms(1,2,3,5), of ty qos] by metis
  qed
  show ?thesis
    using * [of 4 0] * [of 5 0] * [of 6 1] * [of 7 0]
    by (simp add: mqtt_msg_puback_def mqtt_msg_pubrec_def mqtt_msg_pubrel_def mqtt_msg_pubcomp_def)
qed

lemma mqtt_ack_roundtrip_witness:
  "\<exists>c'. mqtt_msg_pubrel conn64 513 = Inr c' \<and> mqtt_get_id (packet c') (length (packet c')) = Inr 513"
  using mqtt_ack_roundtrip [of conn64 513] by auto

definition topic_filters :: "(bytes \<times> int) list \<Rightarrow> bytes" where
  "topic_filters ts = concat (map (\<lambda>(t, q). mqtt_string t @ [of_int q]) ts)"

lemma topic_filters_simps [simp]:
  "topic_filters [] = []" "topic_filters ((t, q) # ts) = mqtt_string t @ of_int q # topic_filters ts"
  by (simp_all add: topic_filters_def)

lemma subscribe_topics_yields:
  assumes "ready cap c b" and "\<forall>(t, q) \<in> set ts. t \<noteq> [] \<and> length t < 2147483648"
    and "length b + length (topic_filters ts) \<le> length body"
    and "\<And>c'. ready cap c' (b @ topic_filters ts) \<Longrightarrow> yields x cap body (k c')"
  shows "yields x cap body (subscribe_topics ts (length ts) c k)"
  using assms
proof (induction ts arbitrary: c b)
  case (Cons tq ts)
  obtain t q where tq: "tq = (t, q)" by fastforce
  have t: "t \<noteq> []" "length t < 2147483648" using Cons.prems(2) tq by auto
  have "yields x cap body
      (if wrap32 (out_length c1 + 1) > cbuffer_length c1 then Inr (fail_message c1)
       else case buf_put (out_length c1) [of_int q] c1 of
         Inl f \<Rightarrow> Inl f
       | Inr c2 \<Rightarrow> subscribe_topics ts (length ts) (set_length (wrap32 (out_length c1 + 1)) c2) k)"
    if c1: "ready cap c1 (b @ mqtt_string t)" for c1
  proof -
    let ?b = "(b @ mqtt_string t) @ [of_int q]"
    have r: "built c1 (b @ mqtt_string t)" "m_frag_total (outbound c1) = 0" "cbuffer_length c1 = cap"
      "wrap32 (out_length c1 + 1) = out_length c1 + 1" "out_length c1 = 5 + length (b @ mqtt_string t)"
      using c1 by (auto simp: ready_def built_def conn_wf_def)
    show ?thesis
    proof (cases "out_length c1 + 1 \<le> cap")
      case True
      then obtain c2 where c2: "buf_put (out_length c1) [of_int q] c1 = Inr c2" "ready cap (set_length (out_length c1 + 1) c2) ?b"
        using built_buf_put [OF r(1), of "[of_int q]"] r by (auto simp: ready_def same_ctl_def)
      have "yields x cap body (subscribe_topics ts (length ts) (set_length (out_length c1 + 1) c2) k)"
        by (rule Cons.IH [OF c2(2)]) (use Cons.prems tq in auto)
      with True r c2(1) show ?thesis by simp
    next
      case False
      with r Cons.prems(3) tq yields_fail [OF r(1,2), of cap body x] show ?thesis by simp
    qed
  qed
  with t Cons.prems(1,3) tq show ?case by (auto intro!: ready_append)
qed simp

lemma first_message_id:
  assumes "conn_wf c" and "m_frag_total (outbound c) = 0" and "ids_available c"
  obtains i c1 where "append_message_id (set_message_header_size c) 0 = Inr (i, c1)"
    "if 7 \<le> cbuffer_length c then 0 < i \<and> i < 65536 \<and> ready (cbuffer_length c) c1 (be16 i)
     else i = 0 \<and> built c1 [] \<and> m_frag_total (outbound c1) = 0"
proof -
  let ?c = "set_message_header_size c"
  have c0: "built ?c []" "cbuffer_length ?c = cbuffer_length c" "m_frag_total (outbound ?c) = 0" "ids_available ?c"
    using built_header_size [OF assms(1)] assms(2,3) by (simp_all add: same_ctl_def set_message_header_size_def ids_available_def)
  from c0(4) obtain i d where i: "next_message_id ?c = Some (i, d)" "0 < i" "i < 65536" by (rule next_message_id_available)
  show thesis
  proof (cases "7 \<le> cbuffer_length c")
    case True
    with append_message_id_spec [OF c0(1), of 0 i d] i c0 that show thesis by (auto simp: ready_def same_ctl_def)
  next
    case False
    have d: "built d []" "m_frag_total (outbound d) = 0" "out_length d = 5" "cbuffer_length d = cbuffer_length c"
      using next_message_id_spec [OF i(1)] c0 by (auto simp: built_def conn_wf_def out_length_def)
    with False i have "append_message_id ?c 0 = Inr (0, d)" by (simp add: append_message_id_def)
    with False d that show thesis by simp
  qed
qed

text \<open>What the two requests that start with a message id leave, from the rest of the builder.\<close>
lemma request_packet:
  assumes "conn_wf c" and "m_frag_total (outbound c) = 0" and "ids_available c"
    and r: "\<And>mid c1. append_message_id (set_message_header_size c) 0 = Inr (mid, c1) \<Longrightarrow>
      r = (if mid = 0 then Inr (fail_message c1, mid) else case k c1 of Inl f \<Rightarrow> Inl f | Inr c3 \<Rightarrow> Inr (c3, mid))"
    and k: "\<And>i c1. ready (cbuffer_length c) c1 (be16 i) \<Longrightarrow> yields h (cbuffer_length c) (be16 i @ rest) (k c1)"
  shows "\<exists>c' i. r = Inr (c', i) \<and> conn_wf c'
    \<and> packet c' = (if 7 + length rest \<le> cbuffer_length c then h # encoded_lens (int (2 + length rest)) @ be16 i @ rest else [])
    \<and> (7 \<le> cbuffer_length c \<longrightarrow> 0 < i \<and> i < 65536)"
proof -
  from first_message_id [OF assms(1-3)] obtain i c1 where c1: "append_message_id (set_message_header_size c) 0 = Inr (i, c1)"
    "if 7 \<le> cbuffer_length c then 0 < i \<and> i < 65536 \<and> ready (cbuffer_length c) c1 (be16 i)
     else i = 0 \<and> built c1 [] \<and> m_frag_total (outbound c1) = 0" .
  show ?thesis
  proof (cases "7 \<le> cbuffer_length c")
    case True
    with c1(2) have i: "0 < i" "i < 65536" "yields h (cbuffer_length c) (be16 i @ rest) (k c1)" by (auto intro: k)
    then obtain c' where "k c1 = Inr c'" "conn_wf c'"
      "packet c' = (if 7 + length rest \<le> cbuffer_length c then h # encoded_lens (int (2 + length rest)) @ be16 i @ rest else [])"
      by (auto simp: yields_def)
    with r [OF c1(1)] i(1,2) show ?thesis by (intro exI [of _ c'] exI [of _ i]) simp
  next
    case False
    then have "conn_wf (fail_message c1)" "packet (fail_message c1) = []"
      using c1(2) by (auto simp: fail_message_def built_def conn_wf_def packet_def)
    with False c1(2) r [OF c1(1)] show ?thesis by (intro exI [of _ "fail_message c1"] exI [of _ 0]) simp
  qed
qed

text \<open>
  A SUBSCRIBE request that fits the buffer is the fixed header, a fresh non-zero message id and the
  topic filters in order, each with its requested QoS; one that does not fit leaves no packet, and no
  byte outside the buffer is touched.
\<close>
lemma mqtt_subscribe_packet:
  assumes "conn_wf c" and "m_frag_total (outbound c) = 0" and "ids_available c"
    and "\<forall>(t, q) \<in> set ts. t \<noteq> [] \<and> length t < 2147483648"
  shows "\<exists>c' i. mqtt_msg_subscribe c ts (int (length ts)) = Inr (c', i) \<and> conn_wf c'
      \<and> packet c' = (if 7 + length (topic_filters ts) \<le> cbuffer_length c
          then 0x82 # encoded_lens (int (2 + length (topic_filters ts))) @ be16 i @ topic_filters ts else [])
      \<and> (7 \<le> cbuffer_length c \<longrightarrow> 0 < i \<and> i < 65536)"
proof (rule request_packet [OF assms(1-3), where k = "\<lambda>c1. subscribe_topics ts (length ts) c1 (\<lambda>c2. fini_message c2 8 0 1 0)"])
  show "yields 0x82 (cbuffer_length c) (be16 i @ topic_filters ts) (subscribe_topics ts (length ts) c1 (\<lambda>c2. fini_message c2 8 0 1 0))"
    if "ready (cbuffer_length c) c1 (be16 i)" for i c1
    using yields_fini [of _ "be16 i @ topic_filters ts" "cbuffer_length c" 8 0 1 0]
    by (intro subscribe_topics_yields [OF that assms(4)]) (auto simp: ready_def type_byte_def)
qed (simp add: mqtt_msg_subscribe_def)

lemma mqtt_subscribe_packet_witness:
  "\<exists>c' i. mqtt_msg_subscribe conn64 [([0x61], 1), ([0x62, 0x2f], 2)] 2 = Inr (c', i)
     \<and> packet c' = [0x82, 11] @ be16 i @ [0, 1, 0x61, 1, 0, 2, 0x62, 0x2f, 2] \<and> 0 < i"
  using mqtt_subscribe_packet [of conn64 "[([0x61], 1), ([0x62, 0x2f], 2)]"]
  by (auto simp: mqtt_string_def be16_def [of "Suc 0"] be16_def [of "Suc (Suc 0)"] encoded_lens_nat [of 11, simplified])

lemma mqtt_unsubscribe_packet:
  assumes "conn_wf c" and "m_frag_total (outbound c) = 0" and "ids_available c" and "topic \<noteq> []" and "length topic < 2147483648"
  shows "\<exists>c' i. mqtt_msg_unsubscribe c (Some topic) mid0 = Inr (c', i) \<and> conn_wf c'
      \<and> packet c' = (if 7 + length (mqtt_string topic) \<le> cbuffer_length c
          then 0xa2 # encoded_lens (int (2 + length (mqtt_string topic))) @ be16 i @ mqtt_string topic else [])
      \<and> (7 \<le> cbuffer_length c \<longrightarrow> 0 < i \<and> i < 65536)"
proof (rule request_packet [OF assms(1-3), where k = "\<lambda>c1. append_or_fail c1 topic (strlen topic) (\<lambda>c2. fini_message c2 10 0 1 0)"])
  show "yields 0xa2 (cbuffer_length c) (be16 i @ mqtt_string topic) (append_or_fail c1 topic (strlen topic) (\<lambda>c2. fini_message c2 10 0 1 0))"
    if "ready (cbuffer_length c) c1 (be16 i)" for i c1
    using yields_fini [of _ "be16 i @ mqtt_string topic" "cbuffer_length c" 10 0 1 0]
    by (intro ready_append [OF that assms(5)]) (auto simp: ready_def type_byte_def)
qed (use assms(4) in \<open>simp add: mqtt_msg_unsubscribe_def Let_def\<close>)

section \<open>Receiving a PUBLISH\<close>

lemma header_scan5_encoded:
  assumes "b = pre @ encoded_lens (int n) @ rest" and "length pre = i" and "i + length (encoded_lens (int n)) \<le> N"
    and "i + length (encoded_lens (int n)) \<le> 5"
  shows "header_scan5 b N i = Inr (Some (i + length (encoded_lens (int n))))"
  using assms
proof (induction n arbitrary: pre i rule: less_induct)
  case (less n)
  show ?case
  proof (cases n rule: encoded_lens_cases)
    case (1 x)
    with less.prems have "rd b i = Inr x" by (intro rd_at) auto
    with 1 less.prems show ?thesis by (subst header_scan5.simps) simp
  next
    case (2 x)
    have r: "rd b i = Inr x" using 2 less.prems by (intro rd_at) auto
    have "n div 128 < n" using 2(1) by simp
    from less.IH [OF this, of "pre @ [x]" "Suc i"] 2 less.prems r show ?thesis
      by (subst header_scan5.simps) simp
  qed
qed

text \<open>
  C24. While a PUBLISH packet with a topic of less than 65000 bytes is being received, and once the length fields of the packet and of the
  topic have arrived with at least one byte more, \<open>mqtt_header_complete\<close> on the \<open>n\<close> bytes read so far says
  exactly whether they contain the whole fixed and variable header.
\<close>
theorem mqtt_header_complete_exact:
  assumes "topic \<noteq> []" and "qos \<in> {0..3}" and "retain \<in> {0, 1}" and "length (publish_body qos topic i payload) < 268435456"
    and "length topic < 65000" and "hdr_len qos topic i payload + 2 < n" and "n \<le> length (publish_packet qos retain topic i payload)"
  shows "mqtt_header_complete (publish_packet qos retain topic i payload) n =
    Inr (hdr_len qos topic i payload + 2 + length topic + (if qos > 0 then 2 else 0) \<le> n)"
proof -
  let ?h = "hdr_len qos topic i payload"
  have h: "?h \<le> 5" using length_encoded_lens4 [OF assms(4)] by (simp add: hdr_len_def)
  have "header_scan5 (publish_packet qos retain topic i payload) n 1 = Inr (Some ?h)"
    unfolding hdr_len_def
    by (rule header_scan5_encoded [where pre = "[type_byte 3 0 qos retain]"]) (use assms(6) h in \<open>simp_all add: publish_packet_def hdr_len_def\<close>)
  moreover have "(?h + 2 + length topic) mod 65536 = ?h + 2 + length topic" "(?h + 2 + length topic + 2) mod 65536 = ?h + 2 + length topic + 2"
    using h assms(5) by simp_all
  ultimately show ?thesis
    using publish_topic_len [of topic qos retain i payload] publish_get_qos(1) [OF assms(2,3), of topic i payload] assms(5,6)
    by (simp add: mqtt_header_complete_def Let_def)
qed

theorem mqtt_header_complete_exact_witness:
  "mqtt_header_complete (publish_packet 1 0 [0x61, 0x62] 7 [0x31]) 7 = Inr False
   \<and> mqtt_header_complete (publish_packet 1 0 [0x61, 0x62] 7 [0x31]) 8 = Inr True"
  using mqtt_header_complete_exact [of "[0x61, 0x62]" 1 0 7 "[0x31]" 7] mqtt_header_complete_exact [of "[0x61, 0x62]" 1 0 7 "[0x31]" 8]
  by (simp add: length_publish_packet publish_body_def hdr_len_def mqtt_string_def encoded_lens_nat [of 7, simplified])

text \<open>The index of \<open>mqtt_header_complete\<close> is 16 bits wide: with a topic of 65535 bytes it wraps around.\<close>
lemma mqtt_header_complete_wraps:
  "mqtt_header_complete [0x30, 0xff, 0xff, 0x07, 0xff, 0xff, 0x61, 0x61] 8 = Inr True"
  "mqtt_get_publish_topic [0x30, 0xff, 0xff, 0x07, 0xff, 0xff, 0x61, 0x61] 8 = Inr None"
  by (simp_all add: mqtt_header_complete_def mqtt_get_publish_topic_def header_scan5.simps header_scan.simps rd_def rd16_def
      mqtt_get_qos_def qos_of_def)

end
