(* ===== verification/Mqtt_Publish.thy ===== *)
theory Mqtt_Publish
  imports Mqtt_Client_Correct Mqtt_Msg_Correct
begin

unbundle bit_operations_syntax

text \<open>
  Publishing with QoS 1: the packet is kept in the outbox before it goes to the transport, and what goes
  to the transport is the packet.
\<close>

section \<open>Operations that cannot fault\<close>

definition in_wf :: "'w client \<Rightarrow> bool" where
  "in_wf s \<longleftrightarrow> in_buffer_length s = int (length (in_buffer s)) \<and> length (in_buffer s) < 2147483648"

lemma header_scan_total: "n \<le> length b \<Longrightarrow> \<exists>j. header_scan b n i = Inr j"
proof (induction "n - i" arbitrary: i rule: less_induct)
  case less
  have "\<exists>j. header_scan b n (i + 1) = Inr j" if "i < n" using that less.prems by (intro less.hyps) auto
  then show ?case using less.prems by (subst header_scan.simps) (auto simp: rd_def)
qed

lemma rd16_total: "i + 2 \<le> length b \<Longrightarrow> \<exists>j. rd16 b i = Inr j"
  by (auto simp: rd16_def rd_def)

lemma get_id_total: "n \<le> length b \<Longrightarrow> \<exists>i. mqtt_get_id b n = Inr i"
proof -
  assume n: "n \<le> length b"
  obtain j where j: "header_scan b n 1 = Inr j" using header_scan_total [OF n] by blast
  have r: "\<exists>i. rd16 b k = Inr i" if "k + 2 \<le> n" for k using rd16_total [of k b] that n by simp
  have b: "rd b k = Inr (b ! k)" if "k < n" for k using that n by (simp add: rd_def)
  have q: "mqtt_get_qos b = Inr (qos_of (b ! 0))" "mqtt_get_type b = Inr (type_of (b ! 0))" if "0 < n"
    using b [OF that] by (simp_all add: mqtt_get_qos_def mqtt_get_type_def)
  show ?thesis
  proof (cases "n < 1")
    case False
    then have qt: "mqtt_get_qos b = Inr (qos_of (b ! 0))" "mqtt_get_type b = Inr (type_of (b ! 0))" using q by simp_all
    have ack: "\<exists>i. (case rd b (Suc 0) of Inl f \<Rightarrow> Inl f | Inr x \<Rightarrow> if x AND 0x80 = 0 then rd16 b 2 else Inr 0) = (Inr i :: fault + nat)" if "4 \<le> n"
      using r [of 2] b [of 1] that by simp
    show ?thesis
    proof (cases "j + 2 \<ge> n")
      case True
      then show ?thesis using False ack by (auto simp: mqtt_get_id_def j [unfolded One_nat_def] qt)
    next
      case nj: False
      then obtain m where "rd16 b j = Inr m" using r [of j] by auto
      then show ?thesis using False nj ack r [of "j + 2 + m"] by (auto simp: mqtt_get_id_def j [unfolded One_nat_def] qt)
    qed
  qed (simp add: mqtt_get_id_def)
qed

text \<open>Only the event and the world have changed.\<close>
definition same_core :: "'w client \<Rightarrow> 'w client \<Rightarrow> bool" where
  "same_core s s' \<longleftrightarrow> s' = s\<lparr>event := event s', world := world s'\<rparr>"

lemma same_core_refl [simp]: "same_core s s"
  by (simp add: same_core_def)

lemma same_core_upd [simp]: "same_core s (s\<lparr>event := e, world := w\<rparr>)" "same_core s (s\<lparr>world := w\<rparr>)" "same_core s (s\<lparr>event := e\<rparr>)"
  by (simp_all add: same_core_def)

lemma same_core_trans: "same_core s t \<Longrightarrow> same_core t u \<Longrightarrow> same_core s u"
  by (cases s, cases t, cases u) (simp add: same_core_def)


lemma same_core_sel:
  assumes "same_core s s'"
  shows "outbox_of s' = outbox_of s" "state s' = state s" "connection s' = connection s" "out_item s' = out_item s" "config s' = config s"
    "in_buffer s' = in_buffer s" "in_buffer_length s' = in_buffer_length s" "pending_msg_id s' = pending_msg_id s"
  by (subst assms [unfolded same_core_def], simp)+

lemma event_runs:
  assumes "in_wf s"
  shows "\<exists>s'. esp_mqtt_dispatch_event_with_msgid P s = Inr ((), s') \<and> same_core s s'"
proof -
  have "sz (in_buffer_length s) = length (in_buffer s)" using assms by (simp add: in_wf_def sz_of_nat)
  then obtain i where "mqtt_get_id (in_buffer s) (sz (in_buffer_length s)) = Inr i" using get_id_total [of "sz (in_buffer_length s)"] by auto
  then show ?thesis by (simp add: esp_mqtt_dispatch_event_with_msgid_def lft_def esp_mqtt_dispatch_event_def)
qed

lemma in_wf_core: "same_core s s' \<Longrightarrow> in_wf s' = in_wf s"
  by (simp add: in_wf_def same_core_sel)

lemma error_event_runs:
  assumes "in_wf s"
  shows "\<exists>s'. esp_mqtt_client_dispatch_transport_error P s = Inr ((), s') \<and> same_core s s'"
proof -
  let ?s = "s\<lparr>event := (event s)\<lparr>event_id := MQTT_EVENT_ERROR, error_type := MQTT_ERROR_TYPE_TCP_TRANSPORT, connect_return_code := 0\<rparr>\<rparr>"
  have "in_wf ?s" using assms by (simp add: in_wf_def)
  from event_runs [OF this, of P] show ?thesis
    unfolding esp_mqtt_client_dispatch_transport_error_def using same_core_trans [of s ?s] by auto
qed

lemma s32_cong: "x mod 4294967296 = y mod 4294967296 \<Longrightarrow> s32 x = s32 y"
  unfolding s32_def by (simp add: mod_add_cong)

lemma s32_mod: "s32 x mod 4294967296 = x mod 4294967296"
  unfolding s32_def by (simp add: mod_simps)

lemma s32_id: "- 2147483648 \<le> x \<Longrightarrow> x < 2147483648 \<Longrightarrow> s32 x = x"
  by (simp add: s32_def)

lemma s32_diff:
  assumes "n \<le> 268435456" and "s32 (int m) \<in> {- 1073741824..0}"
  shows "s32 (int n - int m) = int n - s32 (int m)"
proof -
  have "(int n - int m) mod 4294967296 = (int n - s32 (int m)) mod 4294967296" by (rule mod_diff_cong) (simp_all only: s32_mod)
  then have "s32 (int n - int m) = s32 (int n - s32 (int m))" by (rule s32_cong)
  also have "\<dots> = int n - s32 (int m)" using assms by (intro s32_id) simp_all
  finally show ?thesis .
qed

text \<open>The allocator has memory for whatever is asked.\<close>
definition allocates :: "'n platform \<Rightarrow> bool" where
  "allocates P \<longleftrightarrow> (\<forall>n w. \<exists>a raw w'. allocate P n w = ((Some a, Some raw), w') \<and> length raw = n)"

text \<open>What a publish of QoS 1 does to the outbox and to the wire, in one statement.\<close>
definition stored_and_sent :: "'w client \<Rightarrow> bytes \<Rightarrow> bytes \<Rightarrow> ('w \<Rightarrow> bytes) \<Rightarrow> fault + int \<times> 'w client \<Rightarrow> bool" where
  "stored_and_sent s topic payload sent r \<longleftrightarrow>
     (\<exists>v i s'. r = Inr (v, s') \<and> 0 < i \<and> i < 65536
       \<and> outbox_view (outbox_of s') = outbox_view (outbox_of s) @ [(int i, 3, publish_packet 1 0 topic i payload)]
       \<and> (if state s = MQTT_STATE_CONNECTED
          then v = int i \<and> sent (world s') = sent (world s) @ publish_packet 1 0 topic i payload \<or> v = - 1 \<and> state s' = MQTT_STATE_WAIT_RECONNECT
          else v = int i \<and> sent (world s') = sent (world s)))"

text \<open>
  The client can publish messages of \<open>n\<close> bytes of topic and payload: buffers as long as recorded, message ids to be had, room in the
  buffer, an outbox without limit, and no fragmented message left over.
\<close>
definition ready_to_publish :: "'w client \<Rightarrow> nat \<Rightarrow> bool" where
  "ready_to_publish s n \<longleftrightarrow> conn_wf (connection s) \<and> in_wf s \<and> ids_available (connection s)
     \<and> 9 + n \<le> cbuffer_length (connection s) \<and> outbox_limit (config s) = 0
     \<and> s32 (int (m_frag_offset (outbound (connection s)))) \<in> {- 1073741000..0}"

text \<open>What the transport has taken, in order.\<close>
locale wire =
  fixes P :: "'w platform" and sent :: "'w \<Rightarrow> bytes"
  assumes sent_write: "transport_write P b t w = (n, w') \<Longrightarrow> sent w' = sent w @ take (nat n) b"
    and sent_time: "esp_timer_get_time P w = (u, w') \<Longrightarrow> sent w' = sent w"
    and sent_alloc: "allocate P k w = (v, w') \<Longrightarrow> sent w' = sent w"
    and sent_post: "sent (event_post P e w) = sent w"
    and sent_loop: "sent (event_loop_run P w) = sent w"
    and sent_close: "sent (transport_close P w) = sent w"
begin

lemma write_loop_runs:
  assumes "in_wf s"
  shows "\<exists>r s'. write_loop P bs s = Inr (r, s') \<and> same_core s s' \<and> (r = ESP_OK \<longrightarrow> sent (world s') = sent (world s) @ bs)"
  using assms
proof (induction "length bs" arbitrary: bs s rule: less_induct)
  case less
  obtain n w where w: "transport_write P bs (network_timeout_ms (config s)) (world s) = (n, w)" by (rule prod.exhaust)
  let ?s = "s\<lparr>world := w\<rparr>"
  have wf: "in_wf ?s" using less.prems by (simp add: in_wf_def)
  obtain e where e: "esp_mqtt_client_dispatch_transport_error P ?s = Inr ((), e)" "same_core ?s e" using error_event_runs [OF wf] by blast
  have core: "same_core s ?s" by simp
  consider "bs = []" | "bs \<noteq> []" "n < 0" | "bs \<noteq> []" "n = 0" | "bs \<noteq> []" "0 < n" by linarith
  then show ?case
  proof cases
    case 4
    then obtain r s' where r: "write_loop P (drop (nat n) bs) ?s = Inr (r, s')" "same_core ?s s'"
      "r = ESP_OK \<longrightarrow> sent (world s') = sent (world ?s) @ drop (nat n) bs"
      using less.hyps [of "drop (nat n) bs" ?s] wf by auto
    moreover have "sent w = sent (world s) @ take (nat n) bs" using sent_write [OF w] by simp
    ultimately show ?thesis using 4 same_core_trans [OF core r(2)] by (subst write_loop.simps) (auto simp: w Let_def)
  qed (subst write_loop.simps, use w e same_core_trans [OF core e(2)] in \<open>auto simp: Let_def bnd_def\<close>)+
qed

lemma write_runs:
  assumes "in_wf s" and "outbound_data s = Inr d" and "outbound_length s \<le> length d" and "outbound_length s < 2147483648"
  shows "\<exists>r s'. esp_mqtt_write P s = Inr (r, s') \<and> same_core s s'
    \<and> (r = ESP_OK \<longrightarrow> sent (world s') = sent (world s) @ take (outbound_length s) d)"
proof -
  have n: "s32 (int (outbound_length s)) = int (outbound_length s)" using assms(4) by (simp add: s32_def)
  show ?thesis
    using write_loop_runs [OF assms(1), of "take (outbound_length s) d"] assms(2,3)
    by (cases "outbound_length s = 0") (auto simp: esp_mqtt_write_def n [simplified] s32_def [of 0] Let_def lft_def)
qed

lemma tick_runs: "get_tick P s = (t, s') \<Longrightarrow> s' = s\<lparr>world := world s'\<rparr> \<and> sent (world s') = sent (world s)"
  by (auto simp: get_tick_def platform_tick_get_ms_def split: prod.splits dest: sent_time)

lemma event_sent:
  assumes "esp_mqtt_dispatch_event_with_msgid P s = Inr ((), s')"
  shows "sent (world s') = sent (world s)"
  using assms by (auto simp: esp_mqtt_dispatch_event_with_msgid_def lft_def esp_mqtt_dispatch_event_def sent_loop sent_post split: sum.splits)

lemma abort_runs:
  assumes "in_wf s"
  shows "\<exists>s'. esp_mqtt_abort_connection P s = Inr ((), s') \<and> outbox_of s' = outbox_of s \<and> sent (world s') = sent (world s)
    \<and> state s' = MQTT_STATE_WAIT_RECONNECT"
proof -
  let ?s = "s\<lparr>world := transport_close P (world s), wait_timeout_ms := reconnect_timeout_ms (config s)\<rparr>"
  obtain t u where t: "get_tick P ?s = (t, u)" by (rule prod.exhaust)
  let ?u = "set_event MQTT_EVENT_DISCONNECTED (u\<lparr>reconnect_tick := t, state := MQTT_STATE_WAIT_RECONNECT, wait_for_ping_resp := False\<rparr>)"
  have u: "u = ?s\<lparr>world := world u\<rparr>" by (rule tick_runs [OF t, THEN conjunct1])
  have us: "sent (world u) = sent (world s)" using tick_runs [OF t, THEN conjunct2] by (simp add: sent_close)
  have "in_buffer u = in_buffer s" "in_buffer_length u = in_buffer_length s" "outbox_of u = outbox_of s" by (subst u, simp)+
  then have "in_wf ?u" using assms by (simp add: in_wf_def set_event_def)
  from event_runs [OF this, of P] obtain v where v: "esp_mqtt_dispatch_event_with_msgid P ?u = Inr ((), v)" "same_core ?u v" by blast
  have "outbox_of v = outbox_of u" "state v = MQTT_STATE_WAIT_RECONNECT"
    using same_core_sel(1,2) [OF v(2)] by (simp_all add: set_event_def)
  moreover note \<open>outbox_of u = outbox_of s\<close>
  moreover have "sent (world v) = sent (world s)" using event_sent [OF v(1)] us by (simp add: set_event_def)
  moreover have "esp_mqtt_abort_connection P s = Inr ((), v)"
    unfolding esp_mqtt_abort_connection_def using t v(1) by (simp add: Let_def)
  ultimately show ?thesis by (intro exI [of _ v]) simp
qed

text \<open>A packet in the connection's buffer goes to the outbox as it is.\<close>
lemma enqueue_runs:
  assumes "out_item s = None" and "outbound_length s = length (packet (connection s))" and "outbound_length s < 2147483648"
    and "\<And>n w. \<exists>a raw w'. allocate P n w = ((Some a, Some raw), w') \<and> length raw = n"
  shows "\<exists>s'. mqtt_enqueue P None 0 s = Inr (True, s') \<and> s' = s\<lparr>outbox_of := outbox_of s', world := world s'\<rparr>
    \<and> outbox_view (outbox_of s') = outbox_view (outbox_of s) @ [(int (pending_msg_id s), pending_msg_type s mod 256, packet (connection s))]
    \<and> sent (world s') = sent (world s)"
proof -
  let ?c = "connection s"
  have d: "outbound_data s = Inr (drop (m_data (outbound ?c)) (cbuffer ?c))" using assms(1) by (simp add: outbound_data_def)
  have tk: "take (outbound_length s) (drop (m_data (outbound ?c)) (cbuffer ?c)) = packet ?c" by (simp add: packet_def)
  have len: "\<not> length (drop (m_data (outbound ?c)) (cbuffer ?c)) < outbound_length s"
    using assms(2) by (simp add: packet_def)
  have n: "s32 (int (outbound_length s)) = int (outbound_length s)" "sz (int (outbound_length s)) = outbound_length s"
    using assms(3) by (simp_all add: s32_def sz_of_nat)
  obtain t u where t: "get_tick P s = (t, u)" by (rule prod.exhaust)
  have u: "u = s\<lparr>world := world u\<rparr>" by (rule tick_runs [OF t, THEN conjunct1])
  have us: "sent (world u) = sent (world s)" by (rule tick_runs [OF t, THEN conjunct2])
  have pl: "length (packet ?c) \<le> outbound_length s" by (simp add: packet_def)
  obtain a raw w where a: "allocate P (outbound_length s) (world u) = ((Some a, Some raw), w)" "length raw = outbound_length s"
    using assms(4) by blast
  have ob: "outbox_of u = outbox_of s" by (subst u) simp
  have "sent w = sent (world s)" using sent_alloc [OF a(1)] us by simp
  moreover have "u\<lparr>outbox_of := x, world := w\<rparr> = s\<lparr>outbox_of := x, world := w\<rparr>" for x by (subst u) simp
  ultimately show ?thesis
    unfolding mqtt_enqueue_def d lft_def Let_def n using len a pl
    by (simp add: t n ob tk outbox_enqueue_def outbox_view_def Let_def)
qed

lemma view_set_pending [simp]: "outbox_view (outbox_of (set_pending i p s)) = outbox_view (outbox_of s)"
  by (auto simp: set_pending_def outbox_set_pending_def update_item_def outbox_view_def split: option.splits)

lemma view_mark [simp]: "outbox_view (outbox_of (mark_transmitted P i s)) = outbox_view (outbox_of s)"
  "sent (world (mark_transmitted P i s)) = sent (world s)"
proof -
  obtain t u where t: "get_tick P s = (t, u)" by (rule prod.exhaust)
  have u: "u = s\<lparr>world := world u\<rparr>" by (rule tick_runs [OF t, THEN conjunct1])
  have us: "sent (world u) = sent (world s)" by (rule tick_runs [OF t, THEN conjunct2])
  have ob: "outbox_of u = outbox_of s" by (subst u) simp
  show "outbox_view (outbox_of (mark_transmitted P i s)) = outbox_view (outbox_of s)"
    unfolding mark_transmitted_def t prod.case view_set_pending
    by (auto simp: ob outbox_set_tick_def update_item_def outbox_view_def split: option.splits)
  show "sent (world (mark_transmitted P i s)) = sent (world s)"
    unfolding mark_transmitted_def t prod.case by (simp add: set_pending_def us)
qed

text \<open>The packet was built whole: nothing is left to send after the first write.\<close>
lemma no_fragments: "rest \<le> 0 \<Longrightarrow> send_fragments P d rest i s = Inr (True, s)"
  by (subst send_fragments.simps) simp

lemma send_whole:
  assumes "in_wf s" and "out_item s = None" and "outbound_length s = length (packet (connection s))" and "outbound_length s \<le> 268435456"
    and "n \<le> int (outbound_length s)" and "s32 (int (m_frag_offset (outbound (connection s)))) \<in> {- 1073741824..0}"
  shows "\<exists>b s'. send_publish P d n s = Inr (b, s') \<and> outbox_of s' = outbox_of s
    \<and> (b \<longrightarrow> sent (world s') = sent (world s) @ packet (connection s)) \<and> (\<not> b \<longrightarrow> state s' = MQTT_STATE_WAIT_RECONNECT)"
proof -
  let ?c = "connection s"
  have d: "outbound_data s = Inr (drop (m_data (outbound ?c)) (cbuffer ?c))" using assms(2) by (simp add: outbound_data_def)
  have l: "outbound_length s \<le> length (drop (m_data (outbound ?c)) (cbuffer ?c))" "outbound_length s < 2147483648"
    using assms(3,4) by (simp_all add: packet_def)
  have tk: "take (outbound_length s) (drop (m_data (outbound ?c)) (cbuffer ?c)) = packet ?c" by (simp add: packet_def)
  obtain r t where t: "esp_mqtt_write P s = Inr (r, t)" "same_core s t" "r = ESP_OK \<longrightarrow> sent (world t) = sent (world s) @ packet ?c"
    using write_runs [OF assms(1) d l] unfolding tk by blast
  note core = same_core_sel [OF t(2)]
  have "in_wf t" using in_wf_core [OF t(2)] assms(1) by simp
  from abort_runs [OF this] obtain u where u: "esp_mqtt_abort_connection P t = Inr ((), u)" "outbox_of u = outbox_of t" "state u = MQTT_STATE_WAIT_RECONNECT" by blast
  have "data_sent t = int (outbound_length s) - s32 (int (m_frag_offset (outbound ?c)))"
    unfolding data_sent_def core by (rule s32_diff [OF assms(4,6)])
  then have "n - data_sent t \<le> 0" using assms(5,6) by simp
  then have f: "send_fragments P d (n - data_sent t) (data_sent t) (set_frag 0 0 t) = Inr (True, set_frag 0 0 t)" by (rule no_fragments)
  show ?thesis
  proof (cases "r = ESP_OK")
    case True
    then have "send_publish P d n s = Inr (True, set_frag 0 0 t)" using t(1) f by (simp add: send_publish_def bnd_def)
    moreover have "outbox_of (set_frag 0 0 t) = outbox_of s" "world (set_frag 0 0 t) = world t" using core by (simp_all add: set_frag_def)
    ultimately show ?thesis using True t(3) by (intro exI [of _ True] exI [of _ "set_frag 0 0 t"]) simp
  next
    case False
    then have "send_publish P d n s = Inr (False, u)" using t(1) u(1) by (simp add: send_publish_def bnd_def)
    then show ?thesis using u(2,3) core by (intro exI [of _ False] exI [of _ u]) simp
  qed
qed

lemma publish_runs:
  assumes "conn_wf (connection s)" and "in_wf s" and "topic \<noteq> []" and "payload \<noteq> []" and "ids_available (connection s)"
    and "9 + length topic + length payload \<le> cbuffer_length (connection s)" and "outbox_limit (config s) = 0"
    and "s32 (int (m_frag_offset (outbound (connection s)))) \<in> {- 1073741000..0}"
    and "\<And>n w. \<exists>a raw w'. allocate P n w = ((Some a, Some raw), w') \<and> length raw = n"
  shows "\<exists>r i s'. esp_mqtt_client_publish P (Some topic) (Some payload) (int (length payload)) 1 0 s = Inr (r, s')
    \<and> 0 < i \<and> i < 65536 \<and> outbox_view (outbox_of s') = outbox_view (outbox_of s) @ [(int i, 3, publish_packet 1 0 topic i payload)]
    \<and> (if state s = MQTT_STATE_CONNECTED
       then r = int i \<and> sent (world s') = sent (world s) @ publish_packet 1 0 topic i payload \<or> r = - 1 \<and> state s' = MQTT_STATE_WAIT_RECONNECT
       else r = int i \<and> sent (world s') = sent (world s))"
proof -
  have "5 + (length topic + 2) + (if (1 :: int) > 0 then 2 else 0) + length payload \<le> cbuffer_length (connection s)" using assms(6) by simp
  from mqtt_msg_publish_fits [OF assms(1,3) assms(5) this, of 0 0] obtain c i k where
    c: "mqtt_msg_publish (connection s) (Some topic) (Some payload) (int (length payload)) 1 0 0 = Inr (c, i)" "conn_wf c"
    "packet c = publish_packet 1 0 topic i payload" "length (publish_body 1 topic i payload) < 268435456" "0 < i" "i < 65536"
    "m_frag_total (outbound c) = 0" "m_length (outbound c) = length (packet c)"
    "k \<le> 3" "m_frag_offset (outbound c) = sz (int (m_frag_offset (outbound (connection s))) - int k)"
    by auto
  let ?p = "publish_packet 1 0 topic i payload"
  have "length (packet c) \<le> length (cbuffer c)" by (simp add: packet_def)
  then have pl: "length ?p \<le> cbuffer_length c" "cbuffer_length c \<le> 268435456" "1 + length payload \<le> length ?p"
    unfolding c(3) using c(2) by (simp_all add: conn_wf_def length_publish_packet hdr_len_def publish_body_def)
  define s1 where "s1 = s\<lparr>connection := c, out_item := None, pending_msg_type := 3, pending_msg_id := i, pending_publish_qos := 1\<rparr>"
  have len: "outbound_length s1 = length (packet (connection s1))" "outbound_length s1 < 2147483648"
    using c(3,8) pl by (simp_all add: s1_def)
  obtain s2 where s2: "mqtt_enqueue P None 0 s1 = Inr (True, s2)" "s2 = s1\<lparr>outbox_of := outbox_of s2, world := world s2\<rparr>"
    "outbox_view (outbox_of s2) = outbox_view (outbox_of s) @ [(int i, 3, ?p)]" "sent (world s2) = sent (world s)"
    using enqueue_runs [OF _ len assms(9)] c(3) by (auto simp: s1_def)
  have f: "connection s2 = c" "out_item s2 = None" "state s2 = state s" "in_buffer s2 = in_buffer s" "in_buffer_length s2 = in_buffer_length s"
    by (subst s2(2), simp add: s1_def)+
  have ty: "mqtt_get_type (drop (m_data (outbound c)) (cbuffer c)) = Inr 3"
  proof -
    have "0 < length (packet c)" using c(3) by (simp add: publish_packet_def)
    then have "drop (m_data (outbound c)) (cbuffer c) ! 0 = packet c ! 0" "drop (m_data (outbound c)) (cbuffer c) \<noteq> []"
      by (auto simp: packet_def)
    then show ?thesis using publish_get_qos(2) [of 1 0 topic i payload] \<open>0 < length (packet c)\<close> c(3)
      by (simp add: mqtt_get_type_def rd_def)
  qed
  have "0 < length ?p" by (simp add: publish_packet_def)
  then have mk: "make_publish (Some topic) (Some payload) (int (length payload)) 1 0 s = Inr (int i, s\<lparr>connection := c, out_item := None\<rparr>)"
    using c(1,3,8) by (simp add: make_publish_def lft_def Let_def)
  then have enq: "mqtt_client_enqueue_publish P (Some topic) (Some payload) (int (length payload)) 1 0 False s = Inr (int i, s2)"
    using s2(1) ty c(7) by (simp add: mqtt_client_enqueue_publish_def bnd_def lft_def outbound_data_def Let_def s1_def)
  have off: "s32 (int (m_frag_offset (outbound c))) \<in> {- 1073741824..0}"
  proof -
    let ?o = "int (m_frag_offset (outbound (connection s)))"
    have "int (m_frag_offset (outbound c)) mod 4294967296 = (?o - int k) mod 4294967296" using c(10) by (simp add: sz_def)
    also have "\<dots> = (s32 ?o - int k) mod 4294967296" by (rule mod_diff_cong) (simp_all only: s32_mod)
    finally have "s32 (int (m_frag_offset (outbound c))) = s32 (s32 ?o - int k)" by (rule s32_cong)
    also have "\<dots> = s32 ?o - int k" using assms(8) c(9) by (intro s32_id) auto
    finally show ?thesis using assms(8) c(9) by simp
  qed
  have d: "publish_len (Some payload) (int (length payload)) = Inr (int (length payload))" using assms(4) by (simp add: publish_len_def)
  show ?thesis
  proof (cases "state s = MQTT_STATE_CONNECTED")
    case False
    have "outbox_of (clear_frag_total s2) = outbox_of s2" "world (clear_frag_total s2) = world s2" by (simp_all add: clear_frag_total_def set_frag_def)
    then show ?thesis
      using False d enq s2(3,4) f(3) c(5,6) assms(7)
      by (intro exI [of _ "int i"] exI [of _ i] exI [of _ "clear_frag_total s2"]) (simp add: esp_mqtt_client_publish_def lft_def bnd_def)
  next
    case True
    have "in_wf s2" using assms(2) f by (simp add: in_wf_def)
    moreover have "outbound_length s2 = length (packet (connection s2))" "outbound_length s2 \<le> 268435456"
      using f c(3,4,8) pl by (simp_all add: length_publish_packet hdr_len_def)
    ultimately obtain b t where t: "send_publish P (Some payload) (int (length payload)) s2 = Inr (b, t)" "outbox_of t = outbox_of s2"
      "b \<longrightarrow> sent (world t) = sent (world s2) @ ?p" "\<not> b \<longrightarrow> state t = MQTT_STATE_WAIT_RECONNECT"
      using send_whole [of s2 "int (length payload)" "Some payload"] off f c(3) pl by auto
    show ?thesis
    proof (cases b)
      case b: True
      then show ?thesis
        using True d enq s2(3,4) f(3) c(5,6) t assms(7)
        by (intro exI [of _ "int i"] exI [of _ i] exI [of _ "mark_transmitted P i t"]) (simp add: esp_mqtt_client_publish_def lft_def bnd_def)
    next
      case b: False
      have "outbox_of (clear_frag_total t) = outbox_of t" "state (clear_frag_total t) = state t" by (simp_all add: clear_frag_total_def set_frag_def)
      then show ?thesis
        using b True d enq s2(3,4) f(3) c(5,6) t assms(7)
        by (intro exI [of _ "- 1"] exI [of _ i] exI [of _ "clear_frag_total t"]) (simp add: esp_mqtt_client_publish_def lft_def bnd_def)
    qed
  qed
qed

lemma publish_stored:
  assumes "ready_to_publish s (length topic + length payload)" and "topic \<noteq> []" and "payload \<noteq> []" and "allocates P"
  shows "stored_and_sent s topic payload sent (esp_mqtt_client_publish P (Some topic) (Some payload) (int (length payload)) 1 0 s)"
  using publish_runs [of s topic payload] assms unfolding ready_to_publish_def stored_and_sent_def allocates_def by (simp add: add.assoc)

end

section \<open>The bytes on the wire as a history of the world\<close>

text \<open>Any platform, with a record of what its transport has taken.\<close>
definition recorded :: "'n platform \<Rightarrow> ('n \<times> bytes) platform" where
  "recorded P =
     \<lparr>transport_read = (\<lambda>n t (w, h). case transport_read P n t w of (r, bs, w) \<Rightarrow> (r, bs, (w, h))),
      transport_write = (\<lambda>b t (w, h). case transport_write P b t w of (r, w) \<Rightarrow> (r, (w, h @ take (nat r) b))),
      transport_connect = (\<lambda>p (w, h). case transport_connect P p w of (r, w) \<Rightarrow> (r, (w, h))),
      transport_close = (\<lambda>(w, h). (transport_close P w, h)),
      transport_poll_read = (\<lambda>t (w, h). case transport_poll_read P t w of (r, w) \<Rightarrow> (r, (w, h))),
      list_get_transport = list_get_transport P,
      err_timeout = err_timeout P,
      esp_timer_get_time = (\<lambda>(w, h). case esp_timer_get_time P w of (t, w) \<Rightarrow> (t, (w, h))),
      event_post = (\<lambda>e (w, h). (event_post P e w, h)),
      event_loop_run = (\<lambda>(w, h). (event_loop_run P w, h)),
      allocate = (\<lambda>n (w, h). case allocate P n w of (r, w) \<Rightarrow> (r, (w, h))),
      mem_ok = (\<lambda>(w, h). case mem_ok P w of (r, w) \<Rightarrow> (r, (w, h))),
      build_of = build_of P, read_mac = read_mac P, transport_setup = (\<lambda>l (w, h). (transport_setup P l w, h))\<rparr>"

interpretation history: wire "recorded P" snd
  for P :: "'n platform"
  by unfold_locales (auto simp: recorded_def split: prod.splits)

lemma allocates_recorded:
  fixes P :: "'a platform"
  assumes "allocates P"
  shows "allocates (recorded P)"
  unfolding allocates_def
proof (intro allI)
  fix n and w :: "'a \<times> bytes"
  obtain a raw w' where "allocate P n (fst w) = ((Some a, Some raw), w')" "length raw = n" using assms unfolding allocates_def by blast
  then show "\<exists>a raw w'. allocate (recorded P) n w = ((Some a, Some raw), w') \<and> length raw = n" by (cases w) (simp add: recorded_def)
qed

text \<open>
  C11. A publish with QoS 1 of a message that fits in the buffer puts exactly that PUBLISH packet, with a message
  id in range, at the end of the outbox, after everything that was there. When connected, the same
  packet goes to the transport byte for byte and the id is returned; the only other outcome is that the transport
  failed, the connection is dropped to the reconnect state and -1 is returned, with the packet
  kept for the retransmission. When not connected nothing is sent. No branch steps outside a buffer or loops.
\<close>
theorem publish_qos1_stored:
  assumes "ready_to_publish s (length topic + length payload)" and "topic \<noteq> []" and "payload \<noteq> []" and "allocates P"
  shows "stored_and_sent s topic payload snd
    (esp_mqtt_client_publish (recorded P) (Some topic) (Some payload) (int (length payload)) 1 0 s)"
  by (rule history.publish_stored [OF assms(1-3) allocates_recorded [OF assms(4)]])

text \<open>A platform on which every write succeeds, and a connected client on it.\<close>
definition quiet_platform :: "unit platform" where
  "quiet_platform =
     \<lparr>transport_read = (\<lambda>n t w. (0, [], w)), transport_write = (\<lambda>b t w. (int (length b), w)), transport_connect = (\<lambda>p w. (0, w)),
      transport_close = id, transport_poll_read = (\<lambda>t w. (0, w)), list_get_transport = (\<lambda>_ _. None), err_timeout = 0,
      esp_timer_get_time = (\<lambda>w. (0, w)), event_post = (\<lambda>_ w. w), event_loop_run = id,
      allocate = (\<lambda>n w. ((Some 1, Some (replicate n 0)), w)), mem_ok = (\<lambda>w. (True, w)),
      build_of = \<lparr>certificate_bundle = True, psk_verification = False, ssl_alpn = True, secure_element = False, ds_peripheral = False, ecdsa_sign = False\<rparr>, read_mac = [0, 0, 0, 0xAB, 0xCD, 0xEF],
      transport_setup = (\<lambda>_ w. w)\<rparr>"

definition idle_event :: mqtt_event where
  "idle_event = \<lparr>event_id = MQTT_EVENT_ERROR, ev_data = None, data_len = 0, total_data_len = 0, current_data_offset = 0, ev_topic = None,
     topic_len = 0, ev_msg_id = 0, session_present = 0, error_type = MQTT_ERROR_TYPE_NONE, connect_return_code = 0, ev_retain = False,
     ev_qos = 0, ev_dup = False\<rparr>"

text \<open>A client with the defaults of the component, in the given state, with buffers of \<open>n\<close> bytes.\<close>
definition sample_client :: "nat \<Rightarrow> mqtt_client_state \<Rightarrow> 'w \<Rightarrow> 'w client" where
  "sample_client n st w =
     \<lparr>configured = True, buffers_freed = False, config = empty_config\<lparr>port := 1883, auto_reconnect := True, network_timeout_ms := 10000, reconnect_timeout_ms := 10000,
        message_retransmit_timeout := 1000\<rparr>,
      transport_list = None, in_buffer = replicate n 0, in_buffer_length = int n, message_length = 0, in_buffer_read_len = 0,
      connection = \<lparr>outbound = \<lparr>m_data = 0, m_length = 0, m_frag_total = 0, m_frag_offset = 0\<rparr>, id_incremental = True, last_message_id = 0,
        entropy = [], cbuffer = replicate n 0, cbuffer_length = n\<rparr>,
      information = \<lparr>client_id = None, username = None, password = None, will_topic = None, will_message = None, keepalive = 120,
        will_length = 0, will_qos = 0, will_retain = 0, clean_session = 1, protocol_ver = MQTT_PROTOCOL_V_3_1_1\<rparr>,
      out_item = None, pending_msg_id = 0, pending_msg_type = 0, pending_publish_qos = 0, state = st,
      refresh_connection_tick = 0, keepalive_tick = 0, reconnect_tick = 0, wait_timeout_ms = 10000, event = idle_event, run = True,
      wait_for_ping_resp = False, outbox_of = \<lparr>size_of = 0, items = []\<rparr>, stopped_bit = False, reconnect_bit = False, disconnect_bit = False,
      last_retransmit = 0, world = w\<rparr>"

theorem publish_qos1_stored_witness:
  "stored_and_sent (sample_client 1024 MQTT_STATE_CONNECTED ((), [])) [0x61, 0x2F] [1, 2, 3] snd
     (esp_mqtt_client_publish (recorded quiet_platform) (Some [0x61, 0x2F]) (Some [1, 2, 3]) 3 1 0
       (sample_client 1024 MQTT_STATE_CONNECTED ((), [])))"
proof -
  have "allocates quiet_platform" by (simp add: allocates_def quiet_platform_def)
  moreover have "ready_to_publish (sample_client 1024 MQTT_STATE_CONNECTED ((), [])) (length [0x61, 0x2F :: byte] + length [1, 2, 3 :: byte])"
    by (simp add: ready_to_publish_def sample_client_def empty_config_def conn_wf_def in_wf_def ids_available_def s32_def)
  ultimately show ?thesis
    using publish_qos1_stored [of "sample_client 1024 MQTT_STATE_CONNECTED ((), [])" "[0x61, 0x2F]" "[1, 2, 3]" quiet_platform] by simp
qed

end
