(* ===== verification/Pb_Common.thy ===== *)
theory Pb_Common
  imports Prelude
begin

unbundle bit_operations_syntax

text \<open>
  The part of nanopb that encoder and decoder share (\<^verbatim>\<open>external/nanopb/pb.h\<close>, \<^verbatim>\<open>pb_common.c\<close>): message
  descriptors, the field iterator and the search for a tag. The target has 32-bit pointers and
  \<open>size_t\<close>, 16-bit \<open>pb_size_t\<close>, little-endian integers and 8-byte \<open>pb_callback_t\<close>. Message structs,
  extensions and input and output buffers live in one byte-addressed memory; descriptors are
  constants found through the table \<open>rom\<close>.
\<close>

section \<open>Field types (pb.h)\<close>

type_synonym pb_type = byte

abbreviation (input) PB_LTYPE_BOOL :: pb_type where "PB_LTYPE_BOOL \<equiv> 0x00"
abbreviation (input) PB_LTYPE_VARINT :: pb_type where "PB_LTYPE_VARINT \<equiv> 0x01"
abbreviation (input) PB_LTYPE_UVARINT :: pb_type where "PB_LTYPE_UVARINT \<equiv> 0x02"
abbreviation (input) PB_LTYPE_SVARINT :: pb_type where "PB_LTYPE_SVARINT \<equiv> 0x03"
abbreviation (input) PB_LTYPE_FIXED32 :: pb_type where "PB_LTYPE_FIXED32 \<equiv> 0x04"
abbreviation (input) PB_LTYPE_FIXED64 :: pb_type where "PB_LTYPE_FIXED64 \<equiv> 0x05"
abbreviation (input) PB_LTYPE_LAST_PACKABLE :: pb_type where "PB_LTYPE_LAST_PACKABLE \<equiv> 0x05"
abbreviation (input) PB_LTYPE_BYTES :: pb_type where "PB_LTYPE_BYTES \<equiv> 0x06"
abbreviation (input) PB_LTYPE_STRING :: pb_type where "PB_LTYPE_STRING \<equiv> 0x07"
abbreviation (input) PB_LTYPE_SUBMESSAGE :: pb_type where "PB_LTYPE_SUBMESSAGE \<equiv> 0x08"
abbreviation (input) PB_LTYPE_SUBMSG_W_CB :: pb_type where "PB_LTYPE_SUBMSG_W_CB \<equiv> 0x09"
abbreviation (input) PB_LTYPE_EXTENSION :: pb_type where "PB_LTYPE_EXTENSION \<equiv> 0x0A"
abbreviation (input) PB_LTYPE_FIXED_LENGTH_BYTES :: pb_type where "PB_LTYPE_FIXED_LENGTH_BYTES \<equiv> 0x0B"

abbreviation (input) PB_HTYPE_REQUIRED :: pb_type where "PB_HTYPE_REQUIRED \<equiv> 0x00"
abbreviation (input) PB_HTYPE_OPTIONAL :: pb_type where "PB_HTYPE_OPTIONAL \<equiv> 0x10"
abbreviation (input) PB_HTYPE_REPEATED :: pb_type where "PB_HTYPE_REPEATED \<equiv> 0x20"
abbreviation (input) PB_HTYPE_ONEOF :: pb_type where "PB_HTYPE_ONEOF \<equiv> 0x30"

abbreviation (input) PB_ATYPE_STATIC :: pb_type where "PB_ATYPE_STATIC \<equiv> 0x00"
abbreviation (input) PB_ATYPE_POINTER :: pb_type where "PB_ATYPE_POINTER \<equiv> 0x80"
abbreviation (input) PB_ATYPE_CALLBACK :: pb_type where "PB_ATYPE_CALLBACK \<equiv> 0x40"

definition PB_ATYPE :: "pb_type \<Rightarrow> pb_type" where "PB_ATYPE x = x AND 0xC0"
definition PB_HTYPE :: "pb_type \<Rightarrow> pb_type" where "PB_HTYPE x = x AND 0x30"
definition PB_LTYPE :: "pb_type \<Rightarrow> pb_type" where "PB_LTYPE x = x AND 0x0F"
definition PB_LTYPE_IS_SUBMSG :: "pb_type \<Rightarrow> bool" where
  "PB_LTYPE_IS_SUBMSG x \<longleftrightarrow> PB_LTYPE x = PB_LTYPE_SUBMESSAGE \<or> PB_LTYPE x = PB_LTYPE_SUBMSG_W_CB"

abbreviation (input) PB_SIZE_MAX :: nat where "PB_SIZE_MAX \<equiv> 65535"

abbreviation (input) PB_WT_VARINT :: nat where "PB_WT_VARINT \<equiv> 0"
abbreviation (input) PB_WT_64BIT :: nat where "PB_WT_64BIT \<equiv> 1"
abbreviation (input) PB_WT_STRING :: nat where "PB_WT_STRING \<equiv> 2"
abbreviation (input) PB_WT_32BIT :: nat where "PB_WT_32BIT \<equiv> 5"
abbreviation (input) PB_WT_PACKED :: nat where "PB_WT_PACKED \<equiv> 255"

section \<open>Descriptors and the iterator\<close>

text \<open>
  \<open>submsg_info\<close> holds pointers to descriptors (0 is \<open>NULL\<close>), \<open>default_value\<close> is an address,
  \<open>field_callback\<close> a function pointer: 0 is \<open>NULL\<close>, 1 is \<open>pb_default_field_callback\<close>, any other number
  a function of the user.
\<close>
record pb_msgdesc =
  field_info :: "u32 list"
  submsg_info :: "nat list"
  default_value :: addr
  field_callback :: nat
  field_count :: nat
  required_field_count :: nat
  largest_tag :: nat

type_synonym rom = "nat \<Rightarrow> pb_msgdesc"

text \<open>
  Where \<open>pSize\<close> points: into memory, to the iterator's own \<open>array_size\<close>, or to the local counter
  \<open>fixed_count_size\<close> of \<open>pb_decode_inner\<close>, which is kept in the iterator as \<open>fixed_count\<close>.
\<close>
datatype psize = PNull | PMem addr | PArraySize | PFixedCount

record pb_field_iter =
  descriptor :: pb_msgdesc
  message :: addr
  index :: nat
  field_info_index :: nat
  required_field_index :: nat
  submessage_index :: nat
  tag :: nat
  data_size :: nat
  array_size :: nat
  ftype :: pb_type
  pField :: addr
  pData :: addr
  pSize :: psize
  submsg_desc :: nat
  fixed_count :: nat

text \<open>An entry of a constant array; the generated arrays end in a 0.\<close>
definition entry :: "'a :: zero list \<Rightarrow> nat \<Rightarrow> 'a" where
  "entry xs i = (if i < length xs then xs ! i else 0)"

definition mem_ptr :: "mem \<Rightarrow> addr \<Rightarrow> addr" where
  "mem_ptr m a = le_nat (mem_read m a 4)"

text \<open>\<open>*(pb_size_t * )field->pSize\<close>, read and written.\<close>
definition read_psize :: "mem \<Rightarrow> pb_field_iter \<Rightarrow> nat" where
  "read_psize m it = (case pSize it of
      PNull \<Rightarrow> 0 | PMem a \<Rightarrow> le_nat (mem_read m a 2) | PArraySize \<Rightarrow> array_size it | PFixedCount \<Rightarrow> fixed_count it)"

definition write_psize :: "nat \<Rightarrow> mem \<Rightarrow> pb_field_iter \<Rightarrow> mem \<times> pb_field_iter" where
  "write_psize v m it = (case pSize it of
      PNull \<Rightarrow> (m, it) | PMem a \<Rightarrow> (mem_write m a (nat_le 2 v), it)
    | PArraySize \<Rightarrow> (m, it\<lparr>array_size := v\<rparr>) | PFixedCount \<Rightarrow> (m, it\<lparr>fixed_count := v\<rparr>))"

text \<open>\<open>*(bool * )field->pSize = v\<close>: one byte, the low one of a counter.\<close>
definition write_psize_bool :: "bool \<Rightarrow> mem \<Rightarrow> pb_field_iter \<Rightarrow> mem \<times> pb_field_iter" where
  "write_psize_bool v m it = (case pSize it of
      PNull \<Rightarrow> (m, it) | PMem a \<Rightarrow> (m(a := of_bool v), it)
    | PArraySize \<Rightarrow> (m, it\<lparr>array_size := array_size it div 256 * 256 + of_bool v\<rparr>)
    | PFixedCount \<Rightarrow> (m, it\<lparr>fixed_count := fixed_count it div 256 * 256 + of_bool v\<rparr>))"

text \<open>The fields of a descriptor word group: tag, data size, array size, size offset, data offset.\<close>
record field_words =
  w_tag :: nat
  w_data_size :: nat
  w_array_size :: nat
  w_size_offset :: int
  w_data_offset :: nat

definition unpack_words :: "u32 list \<Rightarrow> nat \<Rightarrow> field_words" where
  "unpack_words fi i =
     (let word0 = entry fi i; word1 = entry fi (i + 1); word2 = entry fi (i + 2); word3 = entry fi (i + 3); word4 = entry fi (i + 4)
      in if word0 AND 3 = 0 then
           \<lparr>w_tag = unat (drop_bit 2 word0 AND 0x3F),
            w_data_size = unat (drop_bit 28 word0 AND 0x0F),
            w_array_size = 1,
            w_size_offset = uint (drop_bit 24 word0 AND 0x0F),
            w_data_offset = unat (drop_bit 16 word0 AND 0xFF)\<rparr>
         else if word0 AND 3 = 1 then
           \<lparr>w_tag = unat ((drop_bit 2 word0 AND 0x3F) OR push_bit 6 (drop_bit 28 word1)),
            w_data_size = unat (drop_bit 16 word1 AND 0x0FFF),
            w_array_size = unat (drop_bit 16 word0 AND 0x0FFF),
            w_size_offset = uint (drop_bit 28 word0 AND 0x0F),
            w_data_offset = unat (word1 AND 0xFFFF)\<rparr>
         else if word0 AND 3 = 2 then
           \<lparr>w_tag = wrap16 (unat ((drop_bit 2 word0 AND 0x3F) OR push_bit 6 (drop_bit 8 word1))),
            w_data_size = wrap16 (unat word3),
            w_array_size = unat (drop_bit 16 word0),
            w_size_offset = sint (ucast (word1 AND 0xFF) :: byte),
            w_data_offset = unat word2\<rparr>
         else
           \<lparr>w_tag = wrap16 (unat ((drop_bit 2 word0 AND 0x3F) OR push_bit 6 (drop_bit 8 word1))),
            w_data_size = wrap16 (unat word3),
            w_array_size = wrap16 (unat word4),
            w_size_offset = sint (ucast (word1 AND 0xFF) :: byte),
            w_data_offset = unat word2\<rparr>)"

definition load_pointers :: "mem \<Rightarrow> nat \<Rightarrow> int \<Rightarrow> pb_field_iter \<Rightarrow> pb_field_iter" where
  "load_pointers m data_offset size_offset it =
     (if message it = NULL then it\<lparr>pField := NULL, pSize := PNull\<rparr>
      else
        (let f = message it + data_offset;
             s = (if size_offset \<noteq> 0 then PMem (nat (int f - size_offset))
                  else if PB_HTYPE (ftype it) = PB_HTYPE_REPEATED
                     \<and> (PB_ATYPE (ftype it) = PB_ATYPE_STATIC \<or> PB_ATYPE (ftype it) = PB_ATYPE_POINTER)
                  then PArraySize else PNull);
             d = (if PB_ATYPE (ftype it) = PB_ATYPE_POINTER \<and> f \<noteq> NULL then mem_ptr m f else f)
         in it\<lparr>pField := f, pSize := s, pData := d\<rparr>))"

definition load_descriptor_values :: "mem \<Rightarrow> pb_field_iter \<Rightarrow> bool \<times> pb_field_iter" where
  "load_descriptor_values m it =
     (if index it \<ge> field_count (descriptor it) then (False, it)
      else
        (let fi = field_info (descriptor it);
             word0 = entry fi (field_info_index it);
             w = unpack_words fi (field_info_index it);
             it1 = it\<lparr>ftype := ucast (drop_bit 8 word0 AND 0xFF), tag := w_tag w, data_size := w_data_size w, array_size := w_array_size w\<rparr>;
             it2 = load_pointers m (w_data_offset w) (w_size_offset w) it1
         in (True, it2\<lparr>submsg_desc := (if PB_LTYPE_IS_SUBMSG (ftype it2)
                then entry (submsg_info (descriptor it2)) (submessage_index it2) else 0)\<rparr>)))"

definition advance_iterator :: "pb_field_iter \<Rightarrow> pb_field_iter" where
  "advance_iterator it =
     (let i = wrap16 (index it + 1) in
      if i \<ge> field_count (descriptor it)
      then it\<lparr>index := 0, field_info_index := 0, submessage_index := 0, required_field_index := 0\<rparr>
      else
        (let prev_descriptor = entry (field_info (descriptor it)) (field_info_index it);
             prev_type = ucast (drop_bit 8 prev_descriptor AND 0xFF) :: pb_type;
             descriptor_len = 2 ^ unat (prev_descriptor AND 3)
         in it\<lparr>index := i,
               field_info_index := wrap16 (field_info_index it + descriptor_len),
               required_field_index := wrap16 (required_field_index it + of_bool (PB_HTYPE prev_type = PB_HTYPE_REQUIRED)),
               submessage_index := wrap16 (submessage_index it + of_bool (PB_LTYPE_IS_SUBMSG prev_type))\<rparr>))"

definition pb_field_iter_begin :: "mem \<Rightarrow> pb_msgdesc \<Rightarrow> addr \<Rightarrow> bool \<times> pb_field_iter" where
  "pb_field_iter_begin m desc msg =
     load_descriptor_values m
       \<lparr>descriptor = desc, message = msg, index = 0, field_info_index = 0, required_field_index = 0, submessage_index = 0,
        tag = 0, data_size = 0, array_size = 0, ftype = 0, pField = NULL, pData = NULL, pSize = PNull, submsg_desc = 0,
        fixed_count = 0\<rparr>"

text \<open>
  An extension is a struct in memory: \<open>type\<close> at offset 0, \<open>dest\<close> at 4, \<open>next\<close> at 8, \<open>found\<close> at 12; an
  extension type has \<open>decode\<close> at 0, \<open>encode\<close> at 4 and \<open>arg\<close>, a descriptor pointer, at 8.
\<close>
definition ext_type :: "mem \<Rightarrow> addr \<Rightarrow> addr" where "ext_type m e = mem_ptr m e"
definition ext_dest :: "mem \<Rightarrow> addr \<Rightarrow> addr" where "ext_dest m e = mem_ptr m (e + 4)"
definition ext_next :: "mem \<Rightarrow> addr \<Rightarrow> addr" where "ext_next m e = mem_ptr m (e + 8)"

definition pb_field_iter_begin_extension :: "rom \<Rightarrow> mem \<Rightarrow> addr \<Rightarrow> bool \<times> pb_field_iter" where
  "pb_field_iter_begin_extension rom m e =
     (let msg = rom (mem_ptr m (ext_type m e + 8));
          word0 = entry (field_info msg) 0;
          (st, it) = (if PB_ATYPE (ucast (drop_bit 8 word0)) = PB_ATYPE_POINTER
                      then pb_field_iter_begin m msg (e + 4)
                      else pb_field_iter_begin m msg (ext_dest m e))
      in (st, it\<lparr>pSize := PMem (e + 12)\<rparr>))"

definition pb_field_iter_next :: "mem \<Rightarrow> pb_field_iter \<Rightarrow> bool \<times> pb_field_iter" where
  "pb_field_iter_next m it =
     (let it' = snd (load_descriptor_values m (advance_iterator it)) in (index it' \<noteq> 0, it'))"

text \<open>
  The \<open>do\<close> loops of the two searches, for at most \<open>n\<close> rounds; the iterator comes back to \<open>start\<close> within
  \<open>field_count\<close> rounds (\<open>find_loop_enough\<close> in \<^verbatim>\<open>Pb_Iter\<close>), so the calls pass one more.
\<close>
primrec find_loop :: "nat \<Rightarrow> mem \<Rightarrow> nat \<Rightarrow> nat \<Rightarrow> pb_field_iter \<Rightarrow> bool \<times> pb_field_iter" where
  "find_loop 0 m start t it = (False, snd (load_descriptor_values m it))"
| "find_loop (Suc n) m start t it =
     (let it1 = advance_iterator it;
          fieldinfo = entry (field_info (descriptor it1)) (field_info_index it1);
          cand = (drop_bit 2 fieldinfo AND 0x3F = of_nat t AND 0x3F);
          it2 = (if cand then snd (load_descriptor_values m it1) else it1)
      in if cand \<and> tag it2 = t \<and> PB_LTYPE (ftype it2) \<noteq> PB_LTYPE_EXTENSION then (True, it2)
         else if index it2 \<noteq> start then find_loop n m start t it2
         else (False, snd (load_descriptor_values m it2)))"

definition pb_field_iter_find :: "mem \<Rightarrow> nat \<Rightarrow> pb_field_iter \<Rightarrow> bool \<times> pb_field_iter" where
  "pb_field_iter_find m t it =
     (if tag it = t then (True, it)
      else if t > largest_tag (descriptor it) then (False, it)
      else find_loop (field_count (descriptor it) + 1) m (index it) t
             (if t < tag it then it\<lparr>index := field_count (descriptor it)\<rparr> else it))"

primrec find_extension_loop :: "nat \<Rightarrow> mem \<Rightarrow> nat \<Rightarrow> pb_field_iter \<Rightarrow> bool \<times> pb_field_iter" where
  "find_extension_loop 0 m start it = (False, snd (load_descriptor_values m it))"
| "find_extension_loop (Suc n) m start it =
     (let it1 = advance_iterator it;
          fieldinfo = entry (field_info (descriptor it1)) (field_info_index it1)
      in if PB_LTYPE (ucast (drop_bit 8 fieldinfo AND 0xFF)) = PB_LTYPE_EXTENSION then load_descriptor_values m it1
         else if index it1 \<noteq> start then find_extension_loop n m start it1
         else (False, snd (load_descriptor_values m it1)))"

definition pb_field_iter_find_extension :: "mem \<Rightarrow> pb_field_iter \<Rightarrow> bool \<times> pb_field_iter" where
  "pb_field_iter_find_extension m it =
     (if PB_LTYPE (ftype it) = PB_LTYPE_EXTENSION then (True, it)
      else find_extension_loop (field_count (descriptor it) + 1) m (index it) it)"

section \<open>Field descriptors as the generator packs them\<close>

text \<open>The macros that pack a field description into 1, 2, 4 or 8 words.\<close>
definition PB_FIELDINFO_1 :: "u32 \<Rightarrow> u32 \<Rightarrow> u32 \<Rightarrow> u32 \<Rightarrow> u32 \<Rightarrow> u32 \<Rightarrow> u32 list" where
  "PB_FIELDINFO_1 t ty data_off data_sz size_off array_sz =
     [0 OR (push_bit 2 t AND 0xFF) OR push_bit 8 ty OR push_bit 16 (data_off AND 0xFF)
        OR push_bit 24 (size_off AND 0x0F) OR push_bit 28 (data_sz AND 0x0F)]"

definition PB_FIELDINFO_2 :: "u32 \<Rightarrow> u32 \<Rightarrow> u32 \<Rightarrow> u32 \<Rightarrow> u32 \<Rightarrow> u32 \<Rightarrow> u32 list" where
  "PB_FIELDINFO_2 t ty data_off data_sz size_off array_sz =
     [1 OR (push_bit 2 t AND 0xFF) OR push_bit 8 ty OR push_bit 16 (array_sz AND 0xFFF) OR push_bit 28 (size_off AND 0x0F),
      (data_off AND 0xFFFF) OR push_bit 16 (data_sz AND 0xFFF) OR push_bit 22 (t AND 0x3c0)]"

definition PB_FIELDINFO_4 :: "u32 \<Rightarrow> u32 \<Rightarrow> u32 \<Rightarrow> u32 \<Rightarrow> u32 \<Rightarrow> u32 \<Rightarrow> u32 list" where
  "PB_FIELDINFO_4 t ty data_off data_sz size_off array_sz =
     [2 OR (push_bit 2 t AND 0xFF) OR push_bit 8 ty OR push_bit 16 (array_sz AND 0xFFFF),
      (scast (ucast size_off :: byte) :: u32) OR (push_bit 2 t AND 0xFFFFFF00),
      data_off, data_sz]"

definition PB_FIELDINFO_8 :: "u32 \<Rightarrow> u32 \<Rightarrow> u32 \<Rightarrow> u32 \<Rightarrow> u32 \<Rightarrow> u32 \<Rightarrow> u32 list" where
  "PB_FIELDINFO_8 t ty data_off data_sz size_off array_sz =
     [3 OR (push_bit 2 t AND 0xFF) OR push_bit 8 ty,
      (scast (ucast size_off :: byte) :: u32) OR (push_bit 2 t AND 0xFFFFFF00),
      data_off, data_sz, array_sz, 0, 0, 0]"

text \<open>The static assertions that the generated code makes about the arguments.\<close>
definition PB_FITS :: "u32 \<Rightarrow> nat \<Rightarrow> bool" where
  "PB_FITS v n \<longleftrightarrow> unat v < 2 ^ n"

definition PB_FIELDINFO_ASSERT_1 :: "u32 \<Rightarrow> u32 \<Rightarrow> u32 \<Rightarrow> u32 \<Rightarrow> u32 \<Rightarrow> bool" where
  "PB_FIELDINFO_ASSERT_1 t data_off data_sz size_off array_sz \<longleftrightarrow>
     PB_FITS t 6 \<and> PB_FITS data_off 8 \<and> PB_FITS size_off 4 \<and> PB_FITS data_sz 4 \<and> PB_FITS array_sz 1"

definition PB_FIELDINFO_ASSERT_2 :: "u32 \<Rightarrow> u32 \<Rightarrow> u32 \<Rightarrow> u32 \<Rightarrow> u32 \<Rightarrow> bool" where
  "PB_FIELDINFO_ASSERT_2 t data_off data_sz size_off array_sz \<longleftrightarrow>
     PB_FITS t 10 \<and> PB_FITS data_off 16 \<and> PB_FITS size_off 4 \<and> PB_FITS data_sz 12 \<and> PB_FITS array_sz 12"

definition PB_FIELDINFO_ASSERT_4 :: "u32 \<Rightarrow> u32 \<Rightarrow> u32 \<Rightarrow> u32 \<Rightarrow> u32 \<Rightarrow> bool" where
  "PB_FIELDINFO_ASSERT_4 t data_off data_sz size_off array_sz \<longleftrightarrow>
     PB_FITS t 16 \<and> PB_FITS data_off 16 \<and> PB_FITS (scast (ucast size_off :: byte)) 8 \<and> PB_FITS data_sz 16 \<and> PB_FITS array_sz 16"

definition PB_FIELDINFO_ASSERT_8 :: "u32 \<Rightarrow> u32 \<Rightarrow> u32 \<Rightarrow> u32 \<Rightarrow> u32 \<Rightarrow> bool" where
  "PB_FIELDINFO_ASSERT_8 t data_off data_sz size_off array_sz \<longleftrightarrow>
     PB_FITS t 16 \<and> PB_FITS data_off 16 \<and> PB_FITS (scast (ucast size_off :: byte)) 8 \<and> PB_FITS data_sz 16 \<and> PB_FITS array_sz 16"

section \<open>Lemmas on descriptors\<close>

named_theorems field_simps_u32 \<open>bit fields of words as arithmetic on naturals\<close>

lemma unat_and_mask: "unat (x AND mask n :: u32) = unat x mod 2 ^ n"
  unfolding take_bit_eq_mask [symmetric] unsigned_take_bit_eq by (simp add: take_bit_eq_mod)

lemma unat_and_masks [field_simps_u32]:
  fixes x :: u32
  shows "unat (x AND 0xFF) = unat x mod 256" "unat (x AND 0x0F) = unat x mod 16" "unat (x AND 0x3F) = unat x mod 64"
    "unat (x AND 0xFFF) = unat x mod 4096" "unat (x AND 0xFFFF) = unat x mod 65536" "unat (x AND 3) = unat x mod 4"
  using unat_and_mask [of x 8] unat_and_mask [of x 4] unat_and_mask [of x 6] unat_and_mask [of x 12] unat_and_mask [of x 16]
    unat_and_mask [of x 2] by (simp_all add: mask_eq_exp_minus_1)

lemma unat_drop_bit_u32 [field_simps_u32]: "unat (drop_bit n x :: u32) = unat x div 2 ^ n"
  using unsigned_less [of x, where ?'a = nat] unfolding unsigned_drop_bit_eq by (simp add: drop_bit_eq_div take_bit_eq_mod)

lemma unat_push_bit_u32 [field_simps_u32]: "unat x * 2 ^ n < 4294967296 \<Longrightarrow> unat (push_bit n x :: u32) = unat x * 2 ^ n"
  unfolding unsigned_push_bit_eq by (simp add: push_bit_eq_mult take_bit_eq_mod)

text \<open>Alternatives that occupy different bits add up.\<close>
lemma unat_or_add:
  fixes a b :: "'a :: len word"
  assumes "unat a < 2 ^ k" and "2 ^ k dvd unat b"
  shows "unat (a OR b) = unat a + unat b"
proof -
  obtain c where c: "unat b = push_bit k c" using assms(2) by (auto simp: push_bit_eq_mult mult.commute elim: dvdE)
  have a: "take_bit k (unat a) = unat a" using assms(1) by (simp add: take_bit_nat_eq_self)
  have "take_bit k (unat a) AND push_bit k c = 0"
    by (rule bit_eqI) (simp add: bit_simps)
  then have "unat a AND unat b = 0" unfolding a c .
  then show ?thesis by (simp add: unsigned_or_eq disjunctive_add_eq_or)
qed

lemma low_field: "N = v + c * k \<Longrightarrow> v < c \<Longrightarrow> N mod c = (v :: nat)"
  by simp

lemma unat_tag_bits: "unat (push_bit 2 t AND 0xFF :: u32) = unat t mod 64 * 4"
proof -
  have "unat (push_bit 2 t) = unat t * 4 mod 4294967296"
    unfolding unsigned_push_bit_eq by (simp add: push_bit_eq_mult take_bit_eq_mod)
  then have "unat (push_bit 2 t AND 0xFF) = unat t * 4 mod (64 * 4)"
    unfolding unat_and_masks(1) by (simp add: mod_mod_cancel)
  then show ?thesis by (simp only: mult_mod_left)
qed

lemma word0_fields:
  fixes t ty a :: u32
  assumes "unat f < 4" and "unat ty < 256" and "unat a < 65536"
  shows "unat (f OR (push_bit 2 t AND 0xFF) OR push_bit 8 ty OR push_bit 16 a) =
    unat f + 4 * (unat t mod 64 + 64 * (unat ty + 256 * unat a))"
proof -
  have p: "unat (push_bit 16 a) = unat a * 2 ^ 16" "unat (push_bit 8 ty) = unat ty * 2 ^ 8"
    by (rule unat_push_bit_u32, use assms in simp)+
  have o8: "unat (push_bit 8 ty OR push_bit 16 a) = unat ty * 2 ^ 8 + unat a * 2 ^ 16"
    using unat_or_add [of "push_bit 8 ty" 16 "push_bit 16 a"] p assms by simp
  have o2: "unat ((push_bit 2 t AND 0xFF) OR push_bit 8 ty OR push_bit 16 a) =
      unat t mod 64 * 4 + (unat ty * 2 ^ 8 + unat a * 2 ^ 16)"
    using unat_or_add [of "push_bit 2 t AND 0xFF" 8 "push_bit 8 ty OR push_bit 16 a"] unat_tag_bits [of t] o8
    by (simp add: dvd_add)
  show ?thesis
    using unat_or_add [of f 2 "(push_bit 2 t AND 0xFF) OR push_bit 8 ty OR push_bit 16 a"] assms(1) o2
    by (simp add: dvd_add)
qed

lemma or_push_fields:
  fixes a b :: u32
  assumes "unat a < 2 ^ k" and "unat b * 2 ^ k < 4294967296"
  shows "unat (a OR push_bit k b) = unat a + 2 ^ k * unat b"
  using unat_or_add [OF assms(1), of "push_bit k b"] assms(2) by (simp add: unat_push_bit_u32)

text \<open>What the iterator reads from the first word.\<close>
lemma word0_unpack:
  assumes "unat w = unat f + 4 * (unat t mod 64 + 64 * (unat ty + 256 * a))" and "unat f < 4" and "unat ty < 256"
  shows "w AND 3 = (f :: u32)" and "drop_bit 2 w AND 0x3F = t AND 0x3F" and "ucast (drop_bit 8 w AND 0xFF) = (ucast (ty :: u32) :: byte)"
    and "unat (drop_bit 16 w) = a"
proof -
  define X where "X = unat t mod 64 + 64 * (unat ty + 256 * a)"
  define Y where "Y = unat ty + 256 * a"
  have w: "unat w = unat f + 4 * X" "X = unat t mod 64 + 64 * Y" using assms(1) by (simp_all only: X_def Y_def)
  have "unat w mod 4 = unat f" using w(1) assms(2) by simp
  then have "unat (w AND 3) = unat f" by (simp add: unat_and_masks)
  then show "w AND 3 = f" by (simp only: word_unat_eq_iff)
  have "unat w div 2 ^ 2 = X" using w(1) assms(2) by simp
  moreover have "X mod 64 = unat t mod 64" using w(2) by simp
  ultimately have "unat (drop_bit 2 w AND 0x3F) = unat (t AND 0x3F)"
    unfolding unat_and_masks unat_drop_bit_u32 by simp
  then show "drop_bit 2 w AND 0x3F = t AND 0x3F" by (simp only: word_unat_eq_iff)
  have d8: "unat w div 2 ^ 8 = unat ty + 256 * a" 
    by (rule div_nat_eqI) (use assms in \<open>simp_all add: algebra_simps\<close>)
  then have "unat (drop_bit 8 w AND 0xFF) = unat ty"
    unfolding unat_and_masks unat_drop_bit_u32 using assms(3) by simp
  then have "drop_bit 8 w AND 0xFF = ty" by (simp only: word_unat_eq_iff)
  then show "ucast (drop_bit 8 w AND 0xFF) = (ucast ty :: byte)" by (rule arg_cong)
  have "unat w div 2 ^ 16 = a"
    by (rule div_nat_eqI) (use assms in \<open>simp_all add: algebra_simps\<close>)
  then show "unat (drop_bit 16 w) = a" unfolding unat_drop_bit_u32 .
qed

definition field_spec :: "u32 \<Rightarrow> u32 \<Rightarrow> u32 \<Rightarrow> u32 \<Rightarrow> u32 \<Rightarrow> field_words" where
  "field_spec t data_off data_sz size_off array_sz =
     \<lparr>w_tag = unat t, w_data_size = unat data_sz, w_array_size = unat array_sz, w_size_offset = uint size_off, w_data_offset = unat data_off\<rparr>"

lemma entry_at: "xs = pre @ y # ys \<Longrightarrow> length pre = i \<Longrightarrow> entry xs i = y"
  by (auto simp: entry_def)

lemma entry_group:
  assumes "length pre = i" and "j < length g"
  shows "entry (pre @ g @ rest) (i + j) = g ! j"
  using assms by (simp add: entry_def nth_append)

lemma fieldinfo_1_word:
  assumes "PB_FIELDINFO_ASSERT_1 t data_off data_sz size_off array_sz" and "unat ty < 256"
  shows "\<exists>w. PB_FIELDINFO_1 t ty data_off data_sz size_off array_sz = [w]
    \<and> unat w = unat (0 :: u32) + 4 * (unat t mod 64 + 64 * (unat ty + 256 * (unat data_off + 256 * (unat size_off + 16 * unat data_sz))))"
proof -
  let ?s = "size_off AND 0x0F" and ?z = "data_sz AND 0x0F" and ?d = "data_off AND 0xFF"
  have lim: "unat ?s = unat size_off" "unat ?z = unat data_sz" "unat ?d = unat data_off" "unat size_off < 16" "unat data_sz < 16" "unat data_off < 256"
    using assms(1) by (simp_all add: PB_FIELDINFO_ASSERT_1_def PB_FITS_def unat_and_masks)
  let ?a = "?d OR push_bit 8 (?s OR push_bit 4 ?z)"
  have "unat (?s OR push_bit 4 ?z) = unat size_off + 2 ^ 4 * unat data_sz"
    using or_push_fields [of ?s 4 ?z] lim by simp
  then have a: "unat ?a = unat data_off + 2 ^ 8 * (unat size_off + 2 ^ 4 * unat data_sz)"
    using or_push_fields [of ?d 8 "?s OR push_bit 4 ?z"] lim by simp
  have "push_bit 16 ?d OR push_bit 24 ?s OR push_bit 28 ?z = push_bit 16 ?a"
    by (simp add: push_bit_or)
  then have "PB_FIELDINFO_1 t ty data_off data_sz size_off array_sz = [0 OR (push_bit 2 t AND 0xFF) OR push_bit 8 ty OR push_bit 16 ?a]"
    by (simp only: PB_FIELDINFO_1_def)
  moreover have "unat ?a < 65536" using a lim by simp
  ultimately show ?thesis
    using word0_fields [of 0 ty ?a t] assms(2) a by simp
qed

lemma fieldinfo_2_words:
  assumes "PB_FIELDINFO_ASSERT_2 t data_off data_sz size_off array_sz" and "unat ty < 256"
  shows "\<exists>w v. PB_FIELDINFO_2 t ty data_off data_sz size_off array_sz = [w, v]
    \<and> unat w = unat (1 :: u32) + 4 * (unat t mod 64 + 64 * (unat ty + 256 * (unat array_sz + 4096 * unat size_off)))
    \<and> unat v = unat data_off + 65536 * (unat data_sz + 4096 * (unat t div 64))"
proof -
  let ?s = "size_off AND 0x0F" and ?z = "data_sz AND 0xFFF" and ?d = "data_off AND 0xFFFF" and ?n = "array_sz AND 0xFFF"
  have lim: "unat ?s = unat size_off" "unat ?z = unat data_sz" "unat ?d = unat data_off" "unat ?n = unat array_sz"
    "unat size_off < 16" "unat data_sz < 4096" "unat data_off < 65536" "unat array_sz < 4096" "unat t < 1024"
    using assms(1) by (simp_all add: PB_FIELDINFO_ASSERT_2_def PB_FITS_def unat_and_masks)
  let ?a = "?n OR push_bit 12 ?s"
  have a: "unat ?a = unat array_sz + 2 ^ 12 * unat size_off"
    using or_push_fields [of ?n 12 ?s] lim by simp
  have w: "push_bit 16 ?n OR push_bit 28 ?s = push_bit 16 ?a" by (simp add: push_bit_or)
  have "push_bit 22 (t AND 0x3c0) = push_bit 28 (drop_bit 6 t AND 0x0F)"
  proof -
    have c: "(0x3c0 :: u32) = push_bit 6 (mask 4)" "(0x0F :: u32) = mask 4" by (simp_all add: mask_eq_exp_minus_1)
    have "t AND push_bit 6 (mask 4) = push_bit 6 (drop_bit 6 t AND mask 4)"
      by (rule bit_word_eqI) (auto simp: bit_simps)
    then show ?thesis unfolding c by simp
  qed
  then have v: "?d OR push_bit 16 ?z OR push_bit 22 (t AND 0x3c0) = ?d OR push_bit 16 (?z OR push_bit 12 (drop_bit 6 t AND 0x0F))"
    by (simp add: push_bit_or)
  have t: "unat (drop_bit 6 t AND 0x0F) = unat t div 64" "unat t div 64 < 16"
    using lim(9) by (simp_all add: unat_and_masks unat_drop_bit_u32)
  have "unat (?z OR push_bit 12 (drop_bit 6 t AND 0x0F)) = unat data_sz + 2 ^ 12 * (unat t div 64)"
    using or_push_fields [of ?z 12 "drop_bit 6 t AND 0x0F"] lim t by simp
  then have "unat (?d OR push_bit 16 (?z OR push_bit 12 (drop_bit 6 t AND 0x0F))) = unat data_off + 65536 * (unat data_sz + 4096 * (unat t div 64))"
    using or_push_fields [of ?d 16 "?z OR push_bit 12 (drop_bit 6 t AND 0x0F)"] lim t by simp
  moreover have "unat ?a < 65536" using a lim by simp
  ultimately show ?thesis
    using word0_fields [of 1 ty ?a t] assms(2) a unfolding PB_FIELDINFO_2_def w v by simp
qed

lemma unat_tag_high: "unat (push_bit 2 t AND 0xFFFFFF00 :: u32) = 256 * (unat t div 64)" if "unat t < 65536"
proof -
  have c: "(0xFFFFFF00 :: u32) = push_bit 8 (mask 24)" by (simp add: mask_eq_exp_minus_1)
  have "push_bit 2 t AND push_bit 8 (mask 24) = push_bit 8 (drop_bit 6 t AND mask 24)"
    by (rule bit_word_eqI) (auto simp: bit_simps)
  moreover have "unat (drop_bit 6 t AND mask 24) = unat t div 64"
    using that by (simp add: unat_and_mask unat_drop_bit_u32)
  ultimately show ?thesis
    using unat_push_bit_u32 [of "drop_bit 6 t AND mask 24" 8] that unfolding c by simp
qed

lemma scast_small: "unat v < 128 \<Longrightarrow> (scast (ucast (v :: u32) :: byte) :: u32) = v"
proof -
  assume v: "unat v < 128"
  have "\<not> bit v n" if "7 \<le> n" for n
  proof -
    have "unat v < 2 ^ n" using v power_increasing [OF that, of "2 :: nat"] by simp
    then have "\<not> bit (unat v) n" by (simp add: bit_iff_odd)
    then show ?thesis by (simp add: bit_unsigned_iff)
  qed
  then show "(scast (ucast v :: byte) :: u32) = v"
    by (intro bit_word_eqI) (auto simp: bit_simps min_def not_less_eq_eq dest: le_antisym)
qed

lemma fieldinfo_word1:
  fixes t s :: u32
  assumes "unat t < 65536" and "unat s < 128"
  shows "unat ((scast (ucast s :: byte) :: u32) OR (push_bit 2 t AND 0xFFFFFF00)) = unat s + 256 * (unat t div 64)"
  using unat_or_add [of s 8 "push_bit 2 t AND 0xFFFFFF00"] unat_tag_high [OF assms(1)] assms(2) by (simp add: scast_small)

text \<open>The tag split over the first two words of the wide formats.\<close>
lemma tag_join:
  fixes w v t :: u32
  assumes "drop_bit 2 w AND 0x3F = t AND 0x3F" and "unat v = unat s + 256 * (unat t div 64)" and "unat s < 256" and "unat t < 65536"
  shows "wrap16 (unat ((drop_bit 2 w AND 0x3F) OR push_bit 6 (drop_bit 8 v))) = unat t"
proof -
  have "unat (drop_bit 8 v) = unat t div 64" using assms(2,3) by (simp add: unat_drop_bit_u32)
  moreover have "unat t div 64 * 64 < 4294967296" using assms(4) by simp
  ultimately have "unat ((t AND 0x3F) OR push_bit 6 (drop_bit 8 v)) = unat t mod 64 + 2 ^ 6 * (unat t div 64)"
    using or_push_fields [of "t AND 0x3F" 6 "drop_bit 8 v"] by (simp add: unat_and_masks)
  then show ?thesis unfolding assms(1) using assms(4) by simp
qed

lemma size_offset_byte:
  fixes v s :: u32
  assumes "unat v = unat s + 256 * h" and "unat s < 128"
  shows "sint (ucast (v AND 0xFF) :: byte) = uint s"
proof -
  have "unat (v AND 0xFF) = unat s" unfolding unat_and_masks assms(1) using assms(2) by simp
  then have v: "v AND 0xFF = s" by (simp only: word_unat_eq_iff)
  have n: "sint (of_nat n :: byte) = int n" if "n < 128" for n
    using that by (simp add: signed_of_nat signed_take_bit_int_eq_self)
  show ?thesis unfolding v using n [OF assms(2)] by simp
qed

lemma unpack_1:
  assumes "PB_FIELDINFO_ASSERT_1 t data_off data_sz size_off array_sz" and "unat ty < 256"
    and "fi = pre @ PB_FIELDINFO_1 t ty data_off data_sz size_off array_sz @ rest" and "length pre = i"
  shows "unpack_words fi i = field_spec t data_off data_sz size_off 1"
    and "ucast (drop_bit 8 (entry fi i) AND 0xFF) = (ucast ty :: byte)" and "unat (entry fi i AND 3) = 0"
proof -
  obtain w where w: "PB_FIELDINFO_1 t ty data_off data_sz size_off array_sz = [w]"
    "unat w = unat (0 :: u32) + 4 * (unat t mod 64 + 64 * (unat ty + 256 * (unat data_off + 256 * (unat size_off + 16 * unat data_sz))))"
    using fieldinfo_1_word [OF assms(1,2)] by blast
  have e: "entry fi i = w" using assms(3,4) w(1) by (intro entry_at) auto
  note u = word0_unpack [OF w(2) _ assms(2)]
  have lim: "unat t < 64" "unat data_off < 256" "unat size_off < 16" "unat data_sz < 16"
    using assms(1) by (simp_all add: PB_FIELDINFO_ASSERT_1_def PB_FITS_def)
  have d: "unat w div 65536 = unat data_off + 256 * (unat size_off + 16 * unat data_sz)"
    using u(4) by (simp add: unat_drop_bit_u32)
  have d24: "unat w div 16777216 = unat size_off + 16 * unat data_sz" and d28: "unat w div 268435456 = unat data_sz"
    using arg_cong [OF d, of "\<lambda>x. x div 256"] arg_cong [OF d, of "\<lambda>x. x div 4096"] lim by (simp_all add: div_mult2_eq [symmetric])
  have "unat (drop_bit 2 w AND 0x3F) = unat t" using u(2) lim(1) by (simp add: unat_and_masks)
  moreover have "unat (drop_bit 28 w AND 0x0F) = unat data_sz" using d28 lim by (simp add: unat_and_masks unat_drop_bit_u32)
  moreover have "uint (drop_bit 24 w AND 0x0F) = uint size_off"
  proof -
    have "unat (drop_bit 24 w AND 0x0F) = unat size_off" using d24 lim by (simp add: unat_and_masks unat_drop_bit_u32)
    then show ?thesis by (simp only: uint_nat)
  qed
  moreover have "unat (drop_bit 16 w AND 0xFF) = unat data_off" using low_field [OF d lim(2)] by (simp add: unat_and_masks unat_drop_bit_u32)
  ultimately show "unpack_words fi i = field_spec t data_off data_sz size_off 1"
    using u(1) by (simp add: unpack_words_def Let_def e field_spec_def)
  show "ucast (drop_bit 8 (entry fi i) AND 0xFF) = (ucast ty :: byte)" "unat (entry fi i AND 3) = 0"
    using u(1,3) by (simp_all add: e)
qed

lemma unpack_2:
  assumes "PB_FIELDINFO_ASSERT_2 t data_off data_sz size_off array_sz" and "unat ty < 256"
    and "fi = pre @ PB_FIELDINFO_2 t ty data_off data_sz size_off array_sz @ rest" and "length pre = i"
  shows "unpack_words fi i = field_spec t data_off data_sz size_off array_sz"
    and "ucast (drop_bit 8 (entry fi i) AND 0xFF) = (ucast ty :: byte)" and "unat (entry fi i AND 3) = 1"
proof -
  obtain w v where w: "PB_FIELDINFO_2 t ty data_off data_sz size_off array_sz = [w, v]"
    "unat w = unat (1 :: u32) + 4 * (unat t mod 64 + 64 * (unat ty + 256 * (unat array_sz + 4096 * unat size_off)))"
    and v: "unat v = unat data_off + 65536 * (unat data_sz + 4096 * (unat t div 64))"
    using fieldinfo_2_words [OF assms(1,2)] by blast
  have e: "entry fi i = w" "entry fi (i + 1) = v"
    using entry_group [OF assms(4), of 0 "[w, v]" rest] entry_group [OF assms(4), of 1 "[w, v]" rest] assms(3) w(1) by simp_all
  note u = word0_unpack [OF w(2) _ assms(2)]
  have lim: "unat t < 1024" "unat data_off < 65536" "unat size_off < 16" "unat data_sz < 4096" "unat array_sz < 4096"
    using assms(1) by (simp_all add: PB_FIELDINFO_ASSERT_2_def PB_FITS_def)
  have d: "unat w div 65536 = unat array_sz + 4096 * unat size_off" using u(4) by (simp add: unat_drop_bit_u32)
  have d28: "unat w div 268435456 = unat size_off"
    using arg_cong [OF d, of "\<lambda>x. x div 4096"] lim by (simp add: div_mult2_eq [symmetric])
  have v16: "unat v div 65536 = unat data_sz + 4096 * (unat t div 64)" using v lim by simp
  have v28: "unat (drop_bit 28 v) = unat t div 64"
    using arg_cong [OF v16, of "\<lambda>x. x div 4096"] lim by (simp add: unat_drop_bit_u32 div_mult2_eq [symmetric])
  have "unat t div 64 * 64 < 4294967296" using lim by simp
  then have "unat ((drop_bit 2 w AND 0x3F) OR push_bit 6 (drop_bit 28 v)) = unat t"
    using u(2) or_push_fields [of "t AND 0x3F" 6 "drop_bit 28 v"] v28 by (simp add: unat_and_masks)
  moreover have "unat (drop_bit 16 v AND 0x0FFF) = unat data_sz" using v16 lim by (simp add: unat_and_masks unat_drop_bit_u32)
  moreover have "unat (drop_bit 16 w AND 0x0FFF) = unat array_sz" using d lim by (simp add: unat_and_masks unat_drop_bit_u32)
  moreover have "uint (drop_bit 28 w AND 0x0F) = uint size_off"
  proof -
    have "unat (drop_bit 28 w AND 0x0F) = unat size_off" using d28 lim by (simp add: unat_and_masks unat_drop_bit_u32)
    then show ?thesis by (simp only: uint_nat)
  qed
  moreover have "unat (v AND 0xFFFF) = unat data_off" using low_field [OF v lim(2)] by (simp add: unat_and_masks)
  ultimately show "unpack_words fi i = field_spec t data_off data_sz size_off array_sz"
    using u(1) e(2) by (simp add: unpack_words_def Let_def e field_spec_def)
  show "ucast (drop_bit 8 (entry fi i) AND 0xFF) = (ucast ty :: byte)" "unat (entry fi i AND 3) = 1"
    using u(1,3) by (simp_all add: e)
qed

lemma unpack_wide:
  fixes t ty data_off data_sz size_off array_sz :: u32
  assumes "fi = pre @ [f OR (push_bit 2 t AND 0xFF) OR push_bit 8 ty OR push_bit 16 a,
      (scast (ucast size_off :: byte) :: u32) OR (push_bit 2 t AND 0xFFFFFF00), data_off, data_sz] @ rest" and "length pre = i"
    and "f = 2 \<or> f = 3" and "unat a < 65536"
    and "unat ty < 256" and "unat t < 65536" and "unat data_sz < 65536" and "unat size_off < 128"
  shows "unpack_words fi i = field_spec t data_off data_sz size_off (if f = 2 then a else of_nat (wrap16 (unat (entry fi (i + 4)))))"
    and "ucast (drop_bit 8 (entry fi i) AND 0xFF) = (ucast ty :: byte)" and "entry fi i AND 3 = f"
proof -
  let ?w = "f OR (push_bit 2 t AND 0xFF) OR push_bit 8 ty OR push_bit 16 a"
  let ?v = "(scast (ucast size_off :: byte) :: u32) OR (push_bit 2 t AND 0xFFFFFF00)"
  let ?g = "[?w, ?v, data_off, data_sz]"
  have e: "entry fi i = ?w" "entry fi (i + 1) = ?v" "entry fi (i + 2) = data_off" "entry fi (i + 3) = data_sz"
    using entry_group [OF assms(2), of 0 ?g rest] entry_group [OF assms(2), of 1 ?g rest]
      entry_group [OF assms(2), of 2 ?g rest] entry_group [OF assms(2), of 3 ?g rest] assms(1) by simp_all
  have f: "unat f < 4" using assms(3) by auto
  note u = word0_unpack [OF word0_fields [OF f assms(5,4), of t] f assms(5)]
  note v = fieldinfo_word1 [OF assms(6,8)]
  have tg: "wrap16 (unat ((drop_bit 2 ?w AND 0x3F) OR push_bit 6 (drop_bit 8 ?v))) = unat t"
    by (rule tag_join [OF u(2) v _ assms(6)]) (use assms(8) in simp)
  have so: "sint (ucast (?v AND 0xFF) :: byte) = uint size_off" by (rule size_offset_byte [OF v assms(8)])
  have f2: "(2 :: u32) \<noteq> 0" "(2 :: u32) \<noteq> 1" "(3 :: u32) \<noteq> 0" "(3 :: u32) \<noteq> 1" "(3 :: u32) \<noteq> 2" by simp_all
  show "unpack_words fi i = field_spec t data_off data_sz size_off (if f = 2 then a else of_nat (wrap16 (unat (entry fi (i + 4)))))"
    using assms(3)
  proof
    assume "f = 2"
    then show ?thesis
      unfolding unpack_words_def Let_def e u(1) tg so u(4) field_spec_def using f2 assms(7) by simp
  next
    assume "f = 3"
    then show ?thesis
      unfolding unpack_words_def Let_def e u(1) tg so u(4) field_spec_def using f2 assms(7) by (simp add: unat_of_nat)
  qed
  show "ucast (drop_bit 8 (entry fi i) AND 0xFF) = (ucast ty :: byte)" "entry fi i AND 3 = f"
    unfolding e by (fact u(3), fact u(1))
qed

lemma unpack_4:
  assumes "PB_FIELDINFO_ASSERT_4 t data_off data_sz size_off array_sz" and "unat ty < 256" and "unat size_off < 128"
    and "fi = pre @ PB_FIELDINFO_4 t ty data_off data_sz size_off array_sz @ rest" and "length pre = i"
  shows "unpack_words fi i = field_spec t data_off data_sz size_off array_sz"
    and "ucast (drop_bit 8 (entry fi i) AND 0xFF) = (ucast ty :: byte)" and "unat (entry fi i AND 3) = 2"
proof -
  have lim: "unat t < 65536" "unat data_sz < 65536" "unat array_sz < 65536"
    using assms(1) by (simp_all add: PB_FIELDINFO_ASSERT_4_def PB_FITS_def)
  then have "unat (array_sz AND 0xFFFF) = unat array_sz" by (simp add: unat_and_masks)
  then have a: "array_sz AND 0xFFFF = array_sz" by (simp only: word_unat_eq_iff)
  note u = unpack_wide [where f = 2 and a = array_sz, OF assms(4) [unfolded PB_FIELDINFO_4_def a] assms(5) _ lim(3) assms(2) lim(1,2) assms(3)]
  show "unpack_words fi i = field_spec t data_off data_sz size_off array_sz"
    and "ucast (drop_bit 8 (entry fi i) AND 0xFF) = (ucast ty :: byte)" and "unat (entry fi i AND 3) = 2"
    using u by simp_all
qed

lemma unpack_8:
  assumes "PB_FIELDINFO_ASSERT_8 t data_off data_sz size_off array_sz" and "unat ty < 256" and "unat size_off < 128"
    and "fi = pre @ PB_FIELDINFO_8 t ty data_off data_sz size_off array_sz @ rest" and "length pre = i"
  shows "unpack_words fi i = field_spec t data_off data_sz size_off array_sz"
    and "ucast (drop_bit 8 (entry fi i) AND 0xFF) = (ucast ty :: byte)" and "unat (entry fi i AND 3) = 3"
proof -
  have lim: "unat t < 65536" "unat data_sz < 65536" "unat array_sz < 65536"
    using assms(1) by (simp_all add: PB_FIELDINFO_ASSERT_8_def PB_FITS_def)
  have fi: "fi = pre @ [3 OR (push_bit 2 t AND 0xFF) OR push_bit 8 ty OR push_bit 16 0,
      (scast (ucast size_off :: byte) :: u32) OR (push_bit 2 t AND 0xFFFFFF00), data_off, data_sz] @ array_sz # [0, 0, 0] @ rest"
    using assms(4) by (simp add: PB_FIELDINFO_8_def)
  have "entry fi (i + 4) = array_sz"
    using entry_group [OF assms(5), of 4 "PB_FIELDINFO_8 t ty data_off data_sz size_off array_sz" rest] assms(4)
    by (simp add: PB_FIELDINFO_8_def)
  with unpack_wide [OF fi assms(5) _ _ assms(2) lim(1,2) assms(3)] lim(3)
  show "unpack_words fi i = field_spec t data_off data_sz size_off array_sz"
    and "ucast (drop_bit 8 (entry fi i) AND 0xFF) = (ucast ty :: byte)" and "unat (entry fi i AND 3) = 3"
    by simp_all
qed

text \<open>
  C26. Field descriptors survive packing: whichever of the four widths the generator chooses, the field iterator reads back the tag, the type,
  the sizes and the offsets, and the length code that leads it to the next field, provided that the static assertions of the width hold,
  that the array size is 1 in the format of one word, which does not store it, and that the size offset is below 128 in the formats of four and
  eight words, which keep no more of it although their assertions allow it.
\<close>
theorem fieldinfo_roundtrip:
  assumes "unat ty < 256" and "fi = pre @ g @ rest" and "length pre = i"
    and "g = PB_FIELDINFO_1 t ty data_off data_sz size_off array_sz \<and> PB_FIELDINFO_ASSERT_1 t data_off data_sz size_off array_sz \<and> array_sz = 1
       \<or> g = PB_FIELDINFO_2 t ty data_off data_sz size_off array_sz \<and> PB_FIELDINFO_ASSERT_2 t data_off data_sz size_off array_sz
       \<or> g = PB_FIELDINFO_4 t ty data_off data_sz size_off array_sz \<and> PB_FIELDINFO_ASSERT_4 t data_off data_sz size_off array_sz \<and> unat size_off < 128
       \<or> g = PB_FIELDINFO_8 t ty data_off data_sz size_off array_sz \<and> PB_FIELDINFO_ASSERT_8 t data_off data_sz size_off array_sz \<and> unat size_off < 128"
  shows "unpack_words fi i = \<lparr>w_tag = unat t, w_data_size = unat data_sz, w_array_size = unat array_sz,
           w_size_offset = uint size_off, w_data_offset = unat data_off\<rparr>
    \<and> ucast (drop_bit 8 (entry fi i) AND 0xFF) = (ucast ty :: byte)
    \<and> length g = 2 ^ unat (entry fi i AND 3)"
  using assms(4)
proof (elim disjE conjE)
  assume "g = PB_FIELDINFO_1 t ty data_off data_sz size_off array_sz" "PB_FIELDINFO_ASSERT_1 t data_off data_sz size_off array_sz" "array_sz = 1"
  with unpack_1 [OF _ assms(1) _ assms(3)] assms(2) show ?thesis by (simp add: field_spec_def PB_FIELDINFO_1_def)
next
  assume "g = PB_FIELDINFO_2 t ty data_off data_sz size_off array_sz" "PB_FIELDINFO_ASSERT_2 t data_off data_sz size_off array_sz"
  with unpack_2 [OF _ assms(1) _ assms(3)] assms(2) show ?thesis by (simp add: field_spec_def PB_FIELDINFO_2_def)
next
  assume "g = PB_FIELDINFO_4 t ty data_off data_sz size_off array_sz" "PB_FIELDINFO_ASSERT_4 t data_off data_sz size_off array_sz" "unat size_off < 128"
  with unpack_4 [OF _ assms(1) _ _ assms(3)] assms(2) show ?thesis by (simp add: field_spec_def PB_FIELDINFO_4_def)
next
  assume "g = PB_FIELDINFO_8 t ty data_off data_sz size_off array_sz" "PB_FIELDINFO_ASSERT_8 t data_off data_sz size_off array_sz" "unat size_off < 128"
  with unpack_8 [OF _ assms(1) _ _ assms(3)] assms(2) show ?thesis by (simp add: field_spec_def PB_FIELDINFO_8_def)
qed

theorem fieldinfo_roundtrip_witness:
  "unpack_words (0x12345678 # PB_FIELDINFO_2 300 0x20 40 8 4 100 @ [0]) 1 =
     \<lparr>w_tag = 300, w_data_size = 8, w_array_size = 100, w_size_offset = 4, w_data_offset = 40\<rparr>"
  using fieldinfo_roundtrip [of "0x20" _ "[0x12345678]" "PB_FIELDINFO_2 300 0x20 40 8 4 100" "[0]" 1 300 40 8 4 100]
  by (simp add: PB_FIELDINFO_ASSERT_2_def PB_FITS_def)

text \<open>
  The assertions of the wide formats narrow the size offset to eight bits before they check it: an
  offset of 256 passes and is stored as 0.
\<close>
lemma wide_size_offset_truncated:
  "PB_FIELDINFO_ASSERT_4 1 300 4 256 1" "w_size_offset (unpack_words (PB_FIELDINFO_4 1 0x10 300 4 256 1) 0) = 0"
  by (simp_all add: PB_FIELDINFO_ASSERT_4_def PB_FITS_def PB_FIELDINFO_4_def unpack_words_def entry_def Let_def)

end
