(* ===== verification/Pb_Iter.thy ===== *)
theory Pb_Iter
  imports Pb_Common
begin

unbundle bit_operations_syntax

text \<open>
  Correctness of nanopb's field iterator: it walks the fields of a descriptor in order, and the search
  for a tag finds the field with that tag from any position, in one round over the descriptor.
\<close>

section \<open>Positions\<close>

text \<open>Index of the first word of field \<open>k\<close>, and how many submessage and required fields come before it.\<close>
definition word_at :: "pb_msgdesc \<Rightarrow> nat \<Rightarrow> u32" where
  "word_at d i = entry (field_info d) i"

definition type_of_word :: "u32 \<Rightarrow> pb_type" where
  "type_of_word w = ucast (drop_bit 8 w AND 0xFF)"

primrec info_pos :: "pb_msgdesc \<Rightarrow> nat \<Rightarrow> nat" where
  "info_pos d 0 = 0"
| "info_pos d (Suc k) = wrap16 (info_pos d k + 2 ^ unat (word_at d (info_pos d k) AND 3))"

primrec req_pos :: "pb_msgdesc \<Rightarrow> nat \<Rightarrow> nat" where
  "req_pos d 0 = 0"
| "req_pos d (Suc k) = wrap16 (req_pos d k + of_bool (PB_HTYPE (type_of_word (word_at d (info_pos d k))) = PB_HTYPE_REQUIRED))"

primrec sub_pos :: "pb_msgdesc \<Rightarrow> nat \<Rightarrow> nat" where
  "sub_pos d 0 = 0"
| "sub_pos d (Suc k) = wrap16 (sub_pos d k + of_bool (PB_LTYPE_IS_SUBMSG (type_of_word (word_at d (info_pos d k)))))"

definition tag_at :: "pb_msgdesc \<Rightarrow> nat \<Rightarrow> nat" where
  "tag_at d k = w_tag (unpack_words (field_info d) (info_pos d k))"

definition type_at :: "pb_msgdesc \<Rightarrow> nat \<Rightarrow> pb_type" where
  "type_at d k = type_of_word (word_at d (info_pos d k))"

definition positioned :: "pb_msgdesc \<Rightarrow> nat \<Rightarrow> pb_field_iter \<Rightarrow> bool" where
  "positioned d k it \<longleftrightarrow> descriptor it = d \<and> index it = k \<and> k < field_count d \<and> field_info_index it = info_pos d k
     \<and> required_field_index it = req_pos d k \<and> submessage_index it = sub_pos d k"

text \<open>The values of field \<open>k\<close> are loaded.\<close>
definition loaded :: "mem \<Rightarrow> pb_msgdesc \<Rightarrow> nat \<Rightarrow> pb_field_iter \<Rightarrow> bool" where
  "loaded m d k it \<longleftrightarrow> positioned d k it \<and> load_descriptor_values m it = (True, it)"

definition desc_wf :: "pb_msgdesc \<Rightarrow> bool" where
  "desc_wf d \<longleftrightarrow> field_count d < 65535 \<and> (\<forall>k < field_count d. tag_at d k \<le> largest_tag d)
     \<and> (\<forall>i j. i < j \<longrightarrow> j < field_count d \<longrightarrow> tag_at d i \<le> tag_at d j)"

lemma load_pointers_sel [simp]:
  "descriptor (load_pointers m a b it) = descriptor it" "index (load_pointers m a b it) = index it"
  "field_info_index (load_pointers m a b it) = field_info_index it" "message (load_pointers m a b it) = message it"
  "required_field_index (load_pointers m a b it) = required_field_index it"
  "submessage_index (load_pointers m a b it) = submessage_index it" "tag (load_pointers m a b it) = tag it"
  "ftype (load_pointers m a b it) = ftype it" "data_size (load_pointers m a b it) = data_size it"
  "array_size (load_pointers m a b it) = array_size it" "fixed_count (load_pointers m a b it) = fixed_count it"
  "submsg_desc (load_pointers m a b it) = submsg_desc it"
  by (simp_all add: load_pointers_def Let_def)

lemma load_sel [simp]:
  "descriptor (snd (load_descriptor_values m it)) = descriptor it" "index (snd (load_descriptor_values m it)) = index it"
  "field_info_index (snd (load_descriptor_values m it)) = field_info_index it"
  "required_field_index (snd (load_descriptor_values m it)) = required_field_index it"
  "submessage_index (snd (load_descriptor_values m it)) = submessage_index it"
  "message (snd (load_descriptor_values m it)) = message it" "fixed_count (snd (load_descriptor_values m it)) = fixed_count it"
  by (simp_all add: load_descriptor_values_def Let_def)

lemma load_values:
  assumes "positioned d k it"
  shows "fst (load_descriptor_values m it)" "tag (snd (load_descriptor_values m it)) = tag_at d k"
    "ftype (snd (load_descriptor_values m it)) = type_at d k"
  using assms by (simp_all add: load_descriptor_values_def Let_def positioned_def tag_at_def type_at_def type_of_word_def word_at_def)

lemma load_pointers_vals:
  "pField (load_pointers m a b it) = (if message it = NULL then NULL else message it + a)"
  "pSize (load_pointers m a b it) =
     (if message it = NULL then PNull
      else if b \<noteq> 0 then PMem (nat (int (message it + a) - b))
      else if PB_HTYPE (ftype it) = PB_HTYPE_REPEATED \<and> (PB_ATYPE (ftype it) = PB_ATYPE_STATIC \<or> PB_ATYPE (ftype it) = PB_ATYPE_POINTER)
      then PArraySize else PNull)"
  "pData (load_pointers m a b it) =
     (if message it = NULL then pData it
      else if PB_ATYPE (ftype it) = PB_ATYPE_POINTER then mem_ptr m (message it + a) else message it + a)"
  by (simp_all add: load_pointers_def Let_def)

abbreviation words_of :: "pb_field_iter \<Rightarrow> field_words" where
  "words_of it \<equiv> unpack_words (field_info (descriptor it)) (field_info_index it)"
abbreviation type_of_iter :: "pb_field_iter \<Rightarrow> pb_type" where
  "type_of_iter it \<equiv> type_of_word (entry (field_info (descriptor it)) (field_info_index it))"

lemma load_vals:
  assumes "index it < field_count (descriptor it)"
  shows "fst (load_descriptor_values m it)"
    "tag (snd (load_descriptor_values m it)) = w_tag (words_of it)"
    "ftype (snd (load_descriptor_values m it)) = type_of_iter it"
    "data_size (snd (load_descriptor_values m it)) = w_data_size (words_of it)"
    "array_size (snd (load_descriptor_values m it)) = w_array_size (words_of it)"
    "submsg_desc (snd (load_descriptor_values m it)) =
       (if PB_LTYPE_IS_SUBMSG (type_of_iter it) then entry (submsg_info (descriptor it)) (submessage_index it) else 0)"
    "pField (snd (load_descriptor_values m it)) = (if message it = NULL then NULL else message it + w_data_offset (words_of it))"
    "pSize (snd (load_descriptor_values m it)) =
       (if message it = NULL then PNull
        else if w_size_offset (words_of it) \<noteq> 0 then PMem (nat (int (message it + w_data_offset (words_of it)) - w_size_offset (words_of it)))
        else if PB_HTYPE (type_of_iter it) = PB_HTYPE_REPEATED \<and> (PB_ATYPE (type_of_iter it) = PB_ATYPE_STATIC \<or> PB_ATYPE (type_of_iter it) = PB_ATYPE_POINTER)
        then PArraySize else PNull)"
    "pData (snd (load_descriptor_values m it)) =
       (if message it = NULL then pData it
        else if PB_ATYPE (type_of_iter it) = PB_ATYPE_POINTER then mem_ptr m (message it + w_data_offset (words_of it))
        else message it + w_data_offset (words_of it))"
  using assms by (simp_all add: load_descriptor_values_def Let_def load_pointers_vals type_of_word_def)

lemma load_idem: "load_descriptor_values m (snd (load_descriptor_values m it)) = load_descriptor_values m it"
proof (cases "index it < field_count (descriptor it)")
  case False
  then show ?thesis by (simp add: load_descriptor_values_def)
next
  case True
  let ?it = "snd (load_descriptor_values m it)"
  have t: "index ?it < field_count (descriptor ?it)" using True by simp
  show ?thesis
  proof (rule prod_eqI)
    show "fst (load_descriptor_values m ?it) = fst (load_descriptor_values m it)"
      using load_vals(1) [OF True] load_vals(1) [OF t] by simp
    show "snd (load_descriptor_values m ?it) = snd (load_descriptor_values m it)"
      by (rule pb_field_iter.equality) (simp_all add: load_vals(2-) [OF t] load_vals(2-) [OF True])
  qed
qed

lemma positioned_load: "positioned d k it \<Longrightarrow> loaded m d k (snd (load_descriptor_values m it))"
  using load_idem [of m it] load_values(1) [of d k it m] by (simp add: loaded_def positioned_def prod_eq_iff)

lemma advance_positioned:
  assumes "positioned d k it" and "desc_wf d"
  shows "positioned d ((k + 1) mod field_count d) (advance_iterator it)" "message (advance_iterator it) = message it"
proof -
  have k: "k < field_count d" "field_count d < 65535" using assms by (auto simp: positioned_def desc_wf_def)
  have "(k + 1) mod field_count d = (if k + 1 < field_count d then k + 1 else 0)"
    using k by (auto simp: mod_less not_less dest: le_antisym)
  with assms(1) k show "positioned d ((k + 1) mod field_count d) (advance_iterator it)"
    by (auto simp: positioned_def advance_iterator_def Let_def word_at_def type_of_word_def mod_less)
qed (simp add: advance_iterator_def Let_def)

lemma advance_restart:
  assumes "descriptor it = d" and "index it = field_count d" and "0 < field_count d" and "field_count d < 65535"
  shows "positioned d 0 (advance_iterator it)" "message (advance_iterator it) = message it"
  using assms by (simp_all add: positioned_def advance_iterator_def Let_def)

section \<open>Walking the fields\<close>

lemma begin_loaded:
  assumes "0 < field_count d"
  shows "fst (pb_field_iter_begin m d msg)" "loaded m d 0 (snd (pb_field_iter_begin m d msg))"
    "message (snd (pb_field_iter_begin m d msg)) = msg"
proof -
  let ?it = "\<lparr>descriptor = d, message = msg, index = 0, field_info_index = 0, required_field_index = 0, submessage_index = 0,
        tag = 0, data_size = 0, array_size = 0, ftype = 0, pField = NULL, pData = NULL, pSize = PNull, submsg_desc = 0,
        fixed_count = 0\<rparr>"
  have p: "positioned d 0 ?it" using assms by (simp add: positioned_def)
  show "fst (pb_field_iter_begin m d msg)" "loaded m d 0 (snd (pb_field_iter_begin m d msg))"
    "message (snd (pb_field_iter_begin m d msg)) = msg"
    using load_values(1) [OF p] positioned_load [OF p] by (simp_all add: pb_field_iter_begin_def)
qed

lemma begin_empty: "field_count d = 0 \<Longrightarrow> \<not> fst (pb_field_iter_begin m d msg)"
  by (simp add: pb_field_iter_begin_def load_descriptor_values_def)

lemma next_loaded:
  assumes "positioned d k it" and "desc_wf d"
  shows "fst (pb_field_iter_next m it) \<longleftrightarrow> k + 1 < field_count d"
    "loaded m d ((k + 1) mod field_count d) (snd (pb_field_iter_next m it))"
    "message (snd (pb_field_iter_next m it)) = message it"
proof -
  note a = advance_positioned [OF assms]
  have k: "k < field_count d" using assms(1) by (simp add: positioned_def)
  have "(k + 1) mod field_count d \<noteq> 0 \<longleftrightarrow> k + 1 < field_count d"
    using k by (cases "k + 1 = field_count d") auto
  with a positioned_load [OF a(1), of m]
  show "fst (pb_field_iter_next m it) \<longleftrightarrow> k + 1 < field_count d"
    "loaded m d ((k + 1) mod field_count d) (snd (pb_field_iter_next m it))"
    "message (snd (pb_field_iter_next m it)) = message it"
    by (simp_all add: pb_field_iter_next_def Let_def positioned_def)
qed

section \<open>Searching for a tag\<close>

lemma quick_check: "drop_bit 2 (entry fi i) AND 0x3F = of_nat (w_tag (unpack_words fi i)) AND (0x3F :: u32)"
proof -
  let ?l = "drop_bit 2 (entry fi i) AND (0x3F :: u32)"
  have low: "unat ?l < 64" by (simp add: unat_and_masks)
  have or: "unat (?l OR push_bit 6 x) mod 64 = unat ?l" for x :: u32
  proof -
    have "(?l OR push_bit 6 x) AND 0x3F = ?l"
    proof -
      have "(?l OR push_bit 6 x) AND mask 6 = ?l AND mask 6" by (rule bit_word_eqI) (auto simp: bit_simps)
      then show ?thesis by (simp add: mask_eq_exp_minus_1 and.assoc)
    qed
    then have "unat ((?l OR push_bit 6 x) AND 0x3F) = unat ?l" by simp
    then show ?thesis by (simp add: unat_and_masks(3))
  qed
  have "w_tag (unpack_words fi i) mod 64 = unat ?l"
    using or low by (simp add: unpack_words_def Let_def mod_mod_cancel)
  then have "unat (of_nat (w_tag (unpack_words fi i)) AND (0x3F :: u32)) = unat ?l"
    by (simp add: unat_and_masks(3) unat_of_nat mod_mod_cancel)
  then show ?thesis by (simp only: word_unat_eq_iff)
qed

text \<open>A field that the search accepts for tag \<open>t\<close>.\<close>
definition hit :: "pb_msgdesc \<Rightarrow> nat \<Rightarrow> nat \<Rightarrow> bool" where
  "hit d t k \<longleftrightarrow> tag_at d k = t \<and> PB_LTYPE (type_at d k) \<noteq> PB_LTYPE_EXTENSION"

text \<open>One round of the loop, entered at the position before \<open>k\<close>.\<close>
lemma find_loop_step:
  assumes "positioned d k (advance_iterator it)"
  shows "find_loop (Suc n) m start t it =
    (if hit d t k then (True, snd (load_descriptor_values m (advance_iterator it)))
     else let it' = (if drop_bit 2 (word_at d (info_pos d k)) AND 0x3F = of_nat t AND 0x3F
                     then snd (load_descriptor_values m (advance_iterator it)) else advance_iterator it)
          in if k \<noteq> start then find_loop n m start t it' else (False, snd (load_descriptor_values m it')))"
proof -
  let ?a = "advance_iterator it"
  have w: "entry (field_info (descriptor ?a)) (field_info_index ?a) = word_at d (info_pos d k)" "index ?a = k"
    using assms by (simp_all add: positioned_def word_at_def)
  have q: "tag_at d k = t \<Longrightarrow> drop_bit 2 (word_at d (info_pos d k)) AND 0x3F = of_nat t AND (0x3F :: u32)"
    using quick_check [of "field_info d" "info_pos d k"] by (simp add: word_at_def tag_at_def)
  show ?thesis
    using q load_values(2,3) [OF assms, of m] by (auto simp: hit_def Let_def w split: if_splits)
qed

declare find_loop.simps(2) [simp del]

lemma find_loop_spec:
  assumes "desc_wf d" and "start < field_count d"
    and "positioned d ((c + 1) mod field_count d) (advance_iterator it)"
    and "0 < s" and "(c + s) mod field_count d = start" and "\<forall>i. 0 < i \<longrightarrow> i < s \<longrightarrow> (c + i) mod field_count d \<noteq> start" and "s \<le> n"
  shows "(if \<exists>i. 0 < i \<and> i \<le> s \<and> hit d t ((c + i) mod field_count d)
     then fst (find_loop n m start t it) \<and> (\<exists>k. hit d t k \<and> loaded m d k (snd (find_loop n m start t it)))
     else \<not> fst (find_loop n m start t it) \<and> loaded m d start (snd (find_loop n m start t it)))
    \<and> (\<forall>n'. s \<le> n' \<longrightarrow> find_loop n' m start t it = find_loop n m start t it)
    \<and> message (snd (find_loop n m start t it)) = message it"
  using assms(3-)
proof (induction n arbitrary: c s it)
  case (Suc n)
  let ?N = "field_count d" and ?a = "advance_iterator it"
  let ?k = "(c + 1) mod ?N"
  let ?l = "snd (load_descriptor_values m ?a)"
  define b where "b = (if drop_bit 2 (word_at d (info_pos d ?k)) AND 0x3F = of_nat t AND 0x3F then ?l else ?a)"
  note step = find_loop_step [OF Suc.prems(1), of _ m start t]
  have msg: "message ?a = message it" by (simp add: advance_iterator_def Let_def)
  have b: "positioned d ?k b" "message b = message it"
    using Suc.prems(1) positioned_load [OF Suc.prems(1), of m] msg by (simp_all add: loaded_def b_def)
  have nsuc: "\<exists>p. n' = Suc p" if "s \<le> n'" for n' using that Suc.prems(2) by (cases n') auto
  show ?case
  proof (cases "hit d t ?k")
    case True
    then have "\<exists>i. 0 < i \<and> i \<le> s \<and> hit d t ((c + i) mod ?N)" using Suc.prems(2) by (intro exI [of _ 1]) auto
    moreover have "find_loop n' m start t it = (True, ?l)" if "s \<le> n'" for n'
      using nsuc [OF that] step True by auto
    ultimately show ?thesis
      using True Suc.prems(5) positioned_load [OF Suc.prems(1), of m] msg by auto
  next
    case no: False
    show ?thesis
    proof (cases "?k = start")
      case True
      then have "s = 1" using Suc.prems(2) spec [OF Suc.prems(4), of 1] by (cases "s = 1") auto
      moreover have "find_loop n' m start t it = (False, snd (load_descriptor_values m b))" if "s \<le> n'" for n'
        using nsuc [OF that] step no True by (auto simp: Let_def b_def)
      moreover have "\<not> (\<exists>i. 0 < i \<and> i \<le> (1 :: nat) \<and> hit d t ((c + i) mod ?N))"
        using no by (auto simp: le_Suc_eq)
      ultimately show ?thesis
        using positioned_load [OF b(1), of m] b(2) True Suc.prems(5) by auto
    next
      case False
      have s: "1 < s" using Suc.prems(2,3) False by (cases "s = 1") auto
      have shift: "(c + 1 + i) mod ?N = (c + Suc i) mod ?N" for i by simp
      have p: "positioned d ((c + 1 + 1) mod ?N) (advance_iterator b)"
        using advance_positioned(1) [OF b(1) assms(1)] by (simp add: mod_simps)
      have IH: "(if \<exists>i. 0 < i \<and> i \<le> s - 1 \<and> hit d t ((c + 1 + i) mod ?N)
           then fst (find_loop n m start t b) \<and> (\<exists>k. hit d t k \<and> loaded m d k (snd (find_loop n m start t b)))
           else \<not> fst (find_loop n m start t b) \<and> loaded m d start (snd (find_loop n m start t b)))
          \<and> (\<forall>n'. s - 1 \<le> n' \<longrightarrow> find_loop n' m start t b = find_loop n m start t b)
          \<and> message (snd (find_loop n m start t b)) = message b"
      proof (rule Suc.IH [OF p])
        show "\<forall>i. 0 < i \<longrightarrow> i < s - 1 \<longrightarrow> (c + 1 + i) mod ?N \<noteq> start"
        proof (intro allI impI)
          fix i assume "0 < i" "i < s - 1"
          then show "(c + 1 + i) mod ?N \<noteq> start" using spec [OF Suc.prems(4), of "Suc i"] by simp
        qed
      qed (use Suc.prems s in auto)
      have eq: "find_loop n' m start t it = find_loop n m start t b" if "s \<le> n'" for n'
      proof -
        from that have "\<exists>q. n' = Suc q" by (rule nsuc)
        then obtain q where q: "n' = Suc q" ..
        with that s IH have "find_loop q m start t b = find_loop n m start t b" by auto
        with q no False show ?thesis unfolding q step Let_def b_def [symmetric] by simp
      qed
      have ex: "(\<exists>i. 0 < i \<and> i \<le> s \<and> hit d t ((c + i) mod ?N)) \<longleftrightarrow> (\<exists>i. 0 < i \<and> i \<le> s - 1 \<and> hit d t ((c + 1 + i) mod ?N))"
      proof
        assume "\<exists>i. 0 < i \<and> i \<le> s \<and> hit d t ((c + i) mod ?N)"
        then obtain i where i: "0 < i" "i \<le> s" "hit d t ((c + i) mod ?N)" by blast
        with no have "i \<noteq> 1" by auto
        with i show "\<exists>i. 0 < i \<and> i \<le> s - 1 \<and> hit d t ((c + 1 + i) mod ?N)" by (intro exI [of _ "i - 1"]) auto
      next
        assume "\<exists>i. 0 < i \<and> i \<le> s - 1 \<and> hit d t ((c + 1 + i) mod ?N)"
        then obtain i where i: "0 < i" "i \<le> s - 1" "hit d t ((c + 1 + i) mod ?N)" by blast
        then show "\<exists>i. 0 < i \<and> i \<le> s \<and> hit d t ((c + i) mod ?N)" using s by (intro exI [of _ "Suc i"]) auto
      qed
      show ?thesis
        unfolding ex eq [OF Suc.prems(5)] using IH eq b(2) by simp
    qed
  qed
qed simp

text \<open>The bound on the rounds does not matter: the loop is back at its start after at most \<open>field_count\<close> of them.\<close>
lemma find_rounds:
  assumes "desc_wf d" and "start < field_count d" and "descriptor it = d"
    and "positioned d start it \<and> c = start \<or> index it = field_count d \<and> c + 1 = field_count d"
  obtains s where "0 < s" "s \<le> field_count d" "(c + s) mod field_count d = start"
    "\<forall>i. 0 < i \<longrightarrow> i < s \<longrightarrow> (c + i) mod field_count d \<noteq> start"
    "positioned d ((c + 1) mod field_count d) (advance_iterator it)"
    "\<forall>j < field_count d. (\<exists>i. 0 < i \<and> i \<le> s \<and> j = (c + i) mod field_count d) \<longleftrightarrow> c = start \<or> j \<le> start"
proof (cases "index it = field_count d")
  case True
  let ?N = "field_count d"
  have c: "c + 1 = ?N" using assms(2,4) True by (auto simp: positioned_def)
  have m: "(c + i) mod ?N = i - 1" if "0 < i" "i \<le> ?N" for i
  proof -
    have "c + i = ?N + (i - 1)" using c that by simp
    then show ?thesis using that by (simp only: mod_add_self1) simp
  qed
  have "\<forall>j < ?N. (\<exists>i. 0 < i \<and> i \<le> start + 1 \<and> j = (c + i) mod ?N) \<longleftrightarrow> c = start \<or> j \<le> start"
  proof (intro allI impI iffI)
    fix j assume "j < ?N" "\<exists>i. 0 < i \<and> i \<le> start + 1 \<and> j = (c + i) mod ?N"
    then show "c = start \<or> j \<le> start" using m assms(2) by auto
  next
    fix j assume j: "j < ?N" "c = start \<or> j \<le> start"
    then have "j \<le> start" using c by auto
    then show "\<exists>i. 0 < i \<and> i \<le> start + 1 \<and> j = (c + i) mod ?N" using m [of "Suc j"] j by (intro exI [of _ "Suc j"]) auto
  qed
  moreover have "positioned d ((c + 1) mod ?N) (advance_iterator it)"
    using advance_restart(1) [OF assms(3) True] assms(1,2) c by (simp add: desc_wf_def)
  ultimately show thesis
    using m [of "start + 1"] m assms(2) by (intro that [of "start + 1"]) auto
next
  case False
  let ?N = "field_count d"
  have c: "c = start" "positioned d start it" using assms(4) False by auto
  have ne: "(start + i) mod ?N \<noteq> start" if "0 < i" "i < ?N" for i
  proof
    assume "(start + i) mod ?N = start"
    moreover have "(start + i) mod ?N = (if start + i < ?N then start + i else start + i - ?N)"
      using assms(2) that by (simp add: mod_if)
    ultimately show False using assms(2) that by (simp split: if_splits)
  qed
  have "\<exists>i. 0 < i \<and> i \<le> ?N \<and> j = (start + i) mod ?N" if "j < ?N" for j
  proof (cases "start < j")
    case True
    then show ?thesis using that by (intro exI [of _ "j - start"]) auto
  next
    case False
    then have "start + (?N + j - start) = ?N + j" using assms(2) by simp
    then have "(start + (?N + j - start)) mod ?N = j" using that by simp
    with False assms(2) show ?thesis by (intro exI [of _ "?N + j - start"]) auto
  qed
  with c ne assms(2) advance_positioned(1) [OF c(2) assms(1)] show thesis
    by (intro that [of ?N]) auto
qed

lemma find_loop_enough:
  assumes "desc_wf d" and "start < field_count d" and "descriptor it = d" and "positioned d start it \<or> index it = field_count d"
    and "field_count d \<le> n"
  shows "find_loop n m start t it = find_loop (field_count d) m start t it"
proof -
  define c where "c = (if positioned d start it then start else field_count d - 1)"
  have "positioned d start it \<and> c = start \<or> index it = field_count d \<and> c + 1 = field_count d"
    using assms(2,4) by (auto simp: c_def)
  from find_rounds [OF assms(1-3) this] obtain s where
    s: "0 < s" "s \<le> field_count d" "(c + s) mod field_count d = start"
    "\<forall>i. 0 < i \<longrightarrow> i < s \<longrightarrow> (c + i) mod field_count d \<noteq> start"
    "positioned d ((c + 1) mod field_count d) (advance_iterator it)" by metis
  from find_loop_spec [OF assms(1,2) s(5,1,3,4,2), THEN conjunct2, THEN conjunct1, of m t] s(2) assms(5)
  show ?thesis by (meson order.trans)
qed

text \<open>The search from a field with another tag.\<close>
lemma iter_find_elsewhere:
  assumes "desc_wf d" and "positioned d k it" and "tag it = tag_at d k" and "tag_at d k \<noteq> t"
  shows "if \<exists>j < field_count d. tag_at d j = t \<and> PB_LTYPE (type_at d j) \<noteq> PB_LTYPE_EXTENSION
    then fst (pb_field_iter_find m t it)
      \<and> (\<exists>j. tag_at d j = t \<and> PB_LTYPE (type_at d j) \<noteq> PB_LTYPE_EXTENSION \<and> loaded m d j (snd (pb_field_iter_find m t it)))
    else \<not> fst (pb_field_iter_find m t it) \<and> positioned d k (snd (pb_field_iter_find m t it))"
proof (cases "t > largest_tag d")
  case True
  then have "\<not> (\<exists>j < field_count d. tag_at d j = t)" using assms(1) by (auto simp: desc_wf_def not_less)
  moreover have "pb_field_iter_find m t it = (False, it)"
    using True assms(2-4) by (simp add: pb_field_iter_find_def positioned_def)
  ultimately show ?thesis using assms(2) by auto
next
  case False
  let ?N = "field_count d"
  define it2 where "it2 = (if t < tag it then it\<lparr>index := ?N\<rparr> else it)"
  define c where "c = (if t < tag it then ?N - 1 else k)"
  have k: "k < ?N" "index it = k" "descriptor it = d" using assms(2) by (auto simp: positioned_def)
  have f: "pb_field_iter_find m t it = find_loop (?N + 1) m k t it2"
    using False assms(3,4) k by (auto simp: pb_field_iter_find_def it2_def)
  have pos: "positioned d k it2 \<and> c = k \<or> index it2 = ?N \<and> c + 1 = ?N" using assms(2) k by (auto simp: it2_def c_def)
  have desc: "descriptor it2 = d" using k by (simp add: it2_def)
  obtain s where
    s: "0 < s" "s \<le> ?N" "(c + s) mod ?N = k" "\<forall>i. 0 < i \<longrightarrow> i < s \<longrightarrow> (c + i) mod ?N \<noteq> k"
    "positioned d ((c + 1) mod ?N) (advance_iterator it2)"
    "\<forall>j < ?N. (\<exists>i. 0 < i \<and> i \<le> s \<and> j = (c + i) mod ?N) \<longleftrightarrow> c = k \<or> j \<le> k"
    by (rule find_rounds [OF assms(1) k(1) desc pos])
  have cov: "c = k \<or> j \<le> k" if j: "j < ?N" "tag_at d j = t" for j
  proof (cases "t < tag it")
    case True
    moreover have "k < j \<Longrightarrow> tag_at d k \<le> tag_at d j" using assms(1) j(1) by (simp add: desc_wf_def)
    ultimately have "\<not> k < j" using assms(3) j(2) by auto
    then show ?thesis by simp
  qed (simp add: c_def)
  have ex: "(\<exists>i. 0 < i \<and> i \<le> s \<and> hit d t ((c + i) mod ?N)) \<longleftrightarrow> (\<exists>j < ?N. hit d t j)"
  proof (intro iffI)
    assume "\<exists>i. 0 < i \<and> i \<le> s \<and> hit d t ((c + i) mod ?N)"
    then show "\<exists>j < ?N. hit d t j" using k(1) by (meson mod_less_divisor order.strict_trans1 zero_le)
  next
    assume "\<exists>j < ?N. hit d t j"
    then obtain j where "j < ?N" "hit d t j" by blast
    moreover from this have "\<exists>i. 0 < i \<and> i \<le> s \<and> j = (c + i) mod ?N"
      using s(6) cov by (auto simp: hit_def)
    ultimately show "\<exists>i. 0 < i \<and> i \<le> s \<and> hit d t ((c + i) mod ?N)" by blast
  qed
  have "s \<le> ?N + 1" using s(2) by simp
  from find_loop_spec [OF assms(1) k(1) s(5,1,3,4) this, THEN conjunct1, of t m] show ?thesis
    unfolding f ex unfolding hit_def by (auto simp: loaded_def split: if_splits)
qed

text \<open>
  C27. The search for a tag is complete and correct from every position, on a descriptor with its
  fields in tag order. An iterator that already stands at tag \<open>t\<close> stays as it is, with success, even at an extension
  range. From any other field it finds a field with tag \<open>t\<close> exactly when
  the descriptor has one that is not an extension range, then stands at it with its values loaded,
  and is otherwise back where it started.
\<close>
theorem iter_find_correct:
  assumes "desc_wf d" and "positioned d k it" and "tag it = tag_at d k"
  shows "if tag_at d k = t then pb_field_iter_find m t it = (True, it)
    else if \<exists>j < field_count d. tag_at d j = t \<and> PB_LTYPE (type_at d j) \<noteq> PB_LTYPE_EXTENSION
    then fst (pb_field_iter_find m t it)
      \<and> (\<exists>j. tag_at d j = t \<and> PB_LTYPE (type_at d j) \<noteq> PB_LTYPE_EXTENSION \<and> loaded m d j (snd (pb_field_iter_find m t it)))
    else \<not> fst (pb_field_iter_find m t it) \<and> positioned d k (snd (pb_field_iter_find m t it))"
proof (cases "tag_at d k = t")
  case True
  with assms(3) show ?thesis by (simp add: pb_field_iter_find_def)
next
  case False
  from iter_find_elsewhere [OF assms False, of m] False show ?thesis by (simp only: if_False)
qed

text \<open>A message with the fields 3 (fixed32), 5 (an extension range) and 300 (an array of fixed32).\<close>
definition demo_desc :: pb_msgdesc where
  "demo_desc = \<lparr>field_info = PB_FIELDINFO_1 3 0x14 4 4 0 1 @ PB_FIELDINFO_1 5 0x4A 8 4 0 1 @ PB_FIELDINFO_2 300 0x24 14 4 2 10 @ [0],
     submsg_info = [0], default_value = 0, field_callback = 0, field_count = 3, required_field_count = 0, largest_tag = 300\<rparr>"

lemma demo_info: "field_info demo_desc = [0x4004140C, 0x40084A14, 0x200A24B1, 0x4004000E, 0]"
  by (simp add: demo_desc_def PB_FIELDINFO_1_def PB_FIELDINFO_2_def)

lemma demo_pos: "info_pos demo_desc (Suc 0) = 1" "info_pos demo_desc (Suc (Suc 0)) = 2"
  by (simp_all add: word_at_def entry_def demo_info)

lemma demo_tags: "tag_at demo_desc 0 = 3" "tag_at demo_desc (Suc 0) = 5" "tag_at demo_desc (Suc (Suc 0)) = 300"
  "PB_LTYPE (type_at demo_desc 0) = 4" "PB_LTYPE (type_at demo_desc (Suc 0)) = 10" "PB_LTYPE (type_at demo_desc (Suc (Suc 0))) = 4"
  unfolding tag_at_def type_at_def demo_pos
  by (simp_all add: word_at_def entry_def demo_info unpack_words_def Let_def type_of_word_def PB_LTYPE_def)

lemma demo_wf: "desc_wf demo_desc"
proof -
  have n: "field_count demo_desc = Suc (Suc (Suc 0))" "largest_tag demo_desc = 300" by (simp_all add: demo_desc_def)
  show ?thesis unfolding desc_wf_def n by (auto simp: less_Suc_eq demo_tags)
qed

text \<open>
  From the first field: its own tag, the tag of the array, and the tag of the extension range, which is not found although it is
  in the descriptor.
\<close>
theorem iter_find_correct_witness:
  "\<exists>it. loaded (\<lambda>_. 0) demo_desc 0 it \<and> pb_field_iter_find (\<lambda>_. 0) 3 it = (True, it)
     \<and> fst (pb_field_iter_find (\<lambda>_. 0) 300 it) \<and> \<not> fst (pb_field_iter_find (\<lambda>_. 0) 5 it)"
proof -
  let ?m = "\<lambda>_. 0 :: byte"
  let ?it = "snd (pb_field_iter_begin ?m demo_desc 64)"
  have n: "field_count demo_desc = Suc (Suc (Suc 0))" by (simp add: demo_desc_def)
  have l: "loaded ?m demo_desc 0 ?it" by (rule begin_loaded) (simp add: n)
  then have p: "positioned demo_desc 0 ?it" and t: "tag ?it = tag_at demo_desc 0"
    using load_values(2) [of demo_desc 0 ?it ?m] by (simp_all add: loaded_def)
  have e: "\<exists>j < Suc (Suc (Suc 0)). tag_at demo_desc j = 300 \<and> PB_LTYPE (type_at demo_desc j) \<noteq> 0x0A"
    by (intro exI [of _ "Suc (Suc 0)"]) (simp add: demo_tags)
  have e': "\<not> (\<exists>j < Suc (Suc (Suc 0)). tag_at demo_desc j = 5 \<and> PB_LTYPE (type_at demo_desc j) \<noteq> 0x0A)"
  proof (intro notI, elim exE conjE)
    fix j assume j: "j < Suc (Suc (Suc 0))" "tag_at demo_desc j = 5" "PB_LTYPE (type_at demo_desc j) \<noteq> 0x0A"
    from j(1) have "j = 0 \<or> j = Suc 0 \<or> j = Suc (Suc 0)" by arith
    with j(2,3) show False by (auto simp: demo_tags)
  qed
  from iter_find_correct [OF demo_wf p t, of 3 ?m] iter_find_correct [OF demo_wf p t, of 300 ?m] iter_find_correct [OF demo_wf p t, of 5 ?m]
  have "pb_field_iter_find ?m 3 ?it = (True, ?it)" "fst (pb_field_iter_find ?m 300 ?it)" "\<not> fst (pb_field_iter_find ?m 5 ?it)"
    unfolding n if_P [OF e] if_not_P [OF e'] by (simp_all add: demo_tags)
  with l show ?thesis by blast
qed

end
