(* ===== verification/Pb_Encode.thy ===== *)
theory Pb_Encode
  imports Pb_Iter
begin

unbundle bit_operations_syntax

text \<open>
  The encoder of nanopb (\<^verbatim>\<open>external/nanopb/pb_encode.c\<close>). An operation takes and returns the pair of the
  memory and the output stream and says whether it succeeded. The functions the application registers
  (stream callbacks, field callbacks, extension encoders) are the parameters in \<open>enc_env\<close>. Submessages
  and linked extensions may be nested without bound in memory: \<open>pb_encode\<close> takes the depth it may still
  descend to and is \<open>None\<close> when that is exhausted. The encoder never writes its iterator's position, so
  the loop over the fields passes the iterator by value.
\<close>

section \<open>Streams\<close>

datatype ocallback = OcNull | OcBuf | OcUser nat

record pb_ostream =
  o_callback :: ocallback
  o_state :: addr
  max_size :: nat
  bytes_written :: nat
  o_errmsg :: "string option"

type_synonym est = "mem \<times> pb_ostream"

text \<open>
  \<open>rom\<close> finds descriptors; \<open>stream_write\<close> are the callbacks of user streams, \<open>field_encode\<close> the
  \<open>field_callback\<close> functions of descriptors, \<open>user_encode\<close> the \<open>funcs.encode\<close> of a \<open>pb_callback_t\<close> (with the
  address of its \<open>arg\<close>), \<open>ext_encode\<close> the encoders of extension types. \<open>stray_word\<close> is the function pointer
  found before a counter that is not part of a message.
\<close>
record enc_env =
  erom :: rom
  stream_write :: "nat \<Rightarrow> bytes \<Rightarrow> est \<Rightarrow> bool \<times> est"
  field_encode :: "nat \<Rightarrow> pb_field_iter \<Rightarrow> est \<Rightarrow> bool \<times> est"
  user_encode :: "nat \<Rightarrow> pb_field_iter \<Rightarrow> addr \<Rightarrow> est \<Rightarrow> bool \<times> est"
  ext_encode :: "nat \<Rightarrow> addr \<Rightarrow> est \<Rightarrow> bool \<times> est"
  stray_word :: nat

text \<open>\<open>PB_SET_ERROR\<close> keeps the first message; \<open>PB_RETURN_ERROR\<close> also returns false.\<close>
definition o_set_error :: "string \<Rightarrow> pb_ostream \<Rightarrow> pb_ostream" where
  "o_set_error msg s = s\<lparr>o_errmsg := (case o_errmsg s of None \<Rightarrow> Some msg | Some e \<Rightarrow> Some e)\<rparr>"

definition o_error :: "string \<Rightarrow> est \<Rightarrow> bool \<times> est" where
  "o_error msg st = (False, (fst st, o_set_error msg (snd st)))"

definition PB_GET_ERROR :: "pb_ostream \<Rightarrow> string" where
  "PB_GET_ERROR s = (case o_errmsg s of None \<Rightarrow> ''(none)'' | Some e \<Rightarrow> e)"

text \<open>\<open>if (!f) return false;\<close> followed by the rest, for operations that always return and for those that may not.\<close>
definition seq :: "bool \<times> 's \<Rightarrow> ('s \<Rightarrow> bool \<times> 's) \<Rightarrow> bool \<times> 's" where
  "seq r k = (if fst r then k (snd r) else r)"

definition seqo :: "(bool \<times> 's) option \<Rightarrow> ('s \<Rightarrow> (bool \<times> 's) option) \<Rightarrow> (bool \<times> 's) option" where
  "seqo r k = (case r of None \<Rightarrow> None | Some (b, s) \<Rightarrow> if b then k s else Some (False, s))"

definition buf_write :: "bytes \<Rightarrow> est \<Rightarrow> bool \<times> est" where
  "buf_write bs st = (True, (mem_write (fst st) (o_state (snd st)) bs, (snd st)\<lparr>o_state := o_state (snd st) + length bs\<rparr>))"

definition pb_ostream_from_buffer :: "addr \<Rightarrow> nat \<Rightarrow> pb_ostream" where
  "pb_ostream_from_buffer buf bufsize =
     \<lparr>o_callback = OcBuf, o_state = buf, max_size = bufsize, bytes_written = 0, o_errmsg = None\<rparr>"

definition PB_OSTREAM_SIZING :: pb_ostream where
  "PB_OSTREAM_SIZING = \<lparr>o_callback = OcNull, o_state = 0, max_size = 0, bytes_written = 0, o_errmsg = None\<rparr>"

definition call_stream :: "enc_env \<Rightarrow> bytes \<Rightarrow> est \<Rightarrow> bool \<times> est" where
  "call_stream E bs st = (case o_callback (snd st) of OcUser k \<Rightarrow> stream_write E k bs st | _ \<Rightarrow> buf_write bs st)"

text \<open>\<open>bs\<close> are the \<open>count\<close> bytes at \<open>buf\<close>; for a sizing stream only their number matters.\<close>
definition pb_write :: "enc_env \<Rightarrow> bytes \<Rightarrow> nat \<Rightarrow> est \<Rightarrow> bool \<times> est" where
  "pb_write E bs count st =
     (let add = (\<lambda>(m, s). (True, (m, s\<lparr>bytes_written := wrap32 (bytes_written s + count)\<rparr>)));
          total_bytes = wrap32 (bytes_written (snd st) + count)
      in if count > 0 \<and> o_callback (snd st) \<noteq> OcNull then
           (if total_bytes < bytes_written (snd st) \<or> total_bytes > max_size (snd st) then o_error ''stream full'' st
            else case call_stream E bs st of
              (False, st') \<Rightarrow> o_error ''io error'' st'
            | (True, st') \<Rightarrow> add st')
         else add st)"

section \<open>Integers\<close>

text \<open>The loop over the low word: at most four groups are finished here.\<close>
function varint_low :: "nat \<Rightarrow> byte \<Rightarrow> u32 \<Rightarrow> u32 \<Rightarrow> bytes \<Rightarrow> bytes \<times> byte" where
  "varint_low i b low high buffer =
     (if i < 4 \<and> (low \<noteq> 0 \<or> high \<noteq> 0)
      then varint_low (i + 1) (ucast (low AND 0x7F)) (drop_bit 7 low) high (buffer @ [b OR 0x80])
      else (buffer, b))"
  by pat_completeness auto
termination by (relation "measure (\<lambda>(i, b, low, high, buffer). 4 - i)") auto

declare varint_low.simps [simp del]

text \<open>The loop over the high word.\<close>
function varint_high :: "byte \<Rightarrow> u32 \<Rightarrow> bytes \<Rightarrow> bytes \<times> byte" where
  "varint_high b high buffer =
     (if high \<noteq> 0 then varint_high (ucast (high AND 0x7F)) (drop_bit 7 high) (buffer @ [b OR 0x80]) else (buffer, b))"
  by pat_completeness auto
termination
proof (relation "measure (\<lambda>(b, high, buffer). unat high)")
  fix b :: byte and high :: u32 and buffer :: bytes
  assume "high \<noteq> 0"
  then have "0 < unat high" by (simp add: unat_gt_0)
  then show "((ucast (high AND 0x7F), drop_bit 7 high, buffer @ [b OR 0x80]), b, high, buffer) \<in> measure (\<lambda>(b, high, buffer). unat high)"
    by (simp add: unat_drop_bit_u32)
qed simp

declare varint_high.simps [simp del]

definition varint_32_bytes :: "u32 \<Rightarrow> u32 \<Rightarrow> bytes" where
  "varint_32_bytes low high =
     (let (buffer, b) = varint_low 0 (ucast (low AND 0x7F)) (drop_bit 7 low) high [];
          (buffer, b) = (if high \<noteq> 0
             then varint_high (b OR ucast (push_bit 4 (high AND 0x07))) (drop_bit 3 high) buffer
             else (buffer, b))
      in buffer @ [b])"

definition pb_encode_varint_32 :: "enc_env \<Rightarrow> u32 \<Rightarrow> u32 \<Rightarrow> est \<Rightarrow> bool \<times> est" where
  "pb_encode_varint_32 E low high st =
     (let buffer = varint_32_bytes low high in pb_write E buffer (length buffer) st)"

definition pb_encode_varint :: "enc_env \<Rightarrow> u64 \<Rightarrow> est \<Rightarrow> bool \<times> est" where
  "pb_encode_varint E v st =
     (if v \<le> 0x7F then pb_write E [ucast v] 1 st
      else pb_encode_varint_32 E (ucast v) (ucast (drop_bit 32 v)) st)"

definition zigzag :: "u64 \<Rightarrow> u64" where
  "zigzag v = (if sint v < 0 then NOT (push_bit 1 (v AND drop_bit 1 (- 1))) else push_bit 1 v)"

definition pb_encode_svarint :: "enc_env \<Rightarrow> u64 \<Rightarrow> est \<Rightarrow> bool \<times> est" where
  "pb_encode_svarint E v st = pb_encode_varint E (zigzag v) st"

text \<open>\<open>a\<close> is the address of the value.\<close>
definition pb_encode_fixed32 :: "enc_env \<Rightarrow> addr \<Rightarrow> est \<Rightarrow> bool \<times> est" where
  "pb_encode_fixed32 E a st = pb_write E (mem_read (fst st) a 4) 4 st"

definition pb_encode_fixed64 :: "enc_env \<Rightarrow> addr \<Rightarrow> est \<Rightarrow> bool \<times> est" where
  "pb_encode_fixed64 E a st = pb_write E (mem_read (fst st) a 8) 8 st"

definition pb_encode_tag :: "enc_env \<Rightarrow> nat \<Rightarrow> nat \<Rightarrow> est \<Rightarrow> bool \<times> est" where
  "pb_encode_tag E wiretype field_number st =
     pb_encode_varint E (push_bit 3 (of_nat field_number) OR of_nat wiretype) st"

definition wire_type_of :: "pb_type \<Rightarrow> nat option" where
  "wire_type_of ty =
     (if PB_LTYPE ty \<in> {PB_LTYPE_BOOL, PB_LTYPE_VARINT, PB_LTYPE_UVARINT, PB_LTYPE_SVARINT} then Some PB_WT_VARINT
      else if PB_LTYPE ty = PB_LTYPE_FIXED32 then Some PB_WT_32BIT
      else if PB_LTYPE ty = PB_LTYPE_FIXED64 then Some PB_WT_64BIT
      else if PB_LTYPE ty \<in> {PB_LTYPE_BYTES, PB_LTYPE_STRING, PB_LTYPE_SUBMESSAGE, PB_LTYPE_SUBMSG_W_CB, PB_LTYPE_FIXED_LENGTH_BYTES}
      then Some PB_WT_STRING
      else None)"

definition pb_encode_tag_for_field :: "enc_env \<Rightarrow> pb_field_iter \<Rightarrow> est \<Rightarrow> bool \<times> est" where
  "pb_encode_tag_for_field E it st =
     (case wire_type_of (ftype it) of
        None \<Rightarrow> o_error ''invalid field type'' st
      | Some wiretype \<Rightarrow> pb_encode_tag E wiretype (tag it) st)"

definition pb_encode_string :: "enc_env \<Rightarrow> bytes \<Rightarrow> nat \<Rightarrow> est \<Rightarrow> bool \<times> est" where
  "pb_encode_string E buffer n st = seq (pb_encode_varint E (of_nat n) st) (pb_write E buffer n)"

section \<open>Field encoders\<close>

text \<open>\<open>sizeof (bool)\<close> is 1.\<close>
definition safe_read_bool :: "mem \<Rightarrow> addr \<Rightarrow> bool" where
  "safe_read_bool m a \<longleftrightarrow> m a \<noteq> 0"

definition psize_bool :: "mem \<Rightarrow> pb_field_iter \<Rightarrow> bool" where
  "psize_bool m it = (case pSize it of PMem a \<Rightarrow> safe_read_bool m a | _ \<Rightarrow> read_psize m it mod 256 \<noteq> 0)"

definition pb_enc_bool :: "enc_env \<Rightarrow> pb_field_iter \<Rightarrow> est \<Rightarrow> bool \<times> est" where
  "pb_enc_bool E it st = pb_encode_varint E (if safe_read_bool (fst st) (pData it) then 1 else 0) st"

text \<open>An integer of \<open>n\<close> bytes, zero-extended and sign-extended to 64 bits.\<close>
definition read_uint :: "mem \<Rightarrow> addr \<Rightarrow> nat \<Rightarrow> u64" where
  "read_uint m a n = of_nat (le_nat (mem_read m a n))"

definition read_sint :: "mem \<Rightarrow> addr \<Rightarrow> nat \<Rightarrow> u64" where
  "read_sint m a n = signed_take_bit (8 * n - 1) (read_uint m a n)"

definition pb_enc_varint :: "enc_env \<Rightarrow> pb_field_iter \<Rightarrow> est \<Rightarrow> bool \<times> est" where
  "pb_enc_varint E it st =
     (if data_size it \<notin> {1, 2, 4, 8} then o_error ''invalid data_size'' st
      else if PB_LTYPE (ftype it) = PB_LTYPE_UVARINT then pb_encode_varint E (read_uint (fst st) (pData it) (data_size it)) st
      else if PB_LTYPE (ftype it) = PB_LTYPE_SVARINT then pb_encode_svarint E (read_sint (fst st) (pData it) (data_size it)) st
      else pb_encode_varint E (read_sint (fst st) (pData it) (data_size it)) st)"

definition pb_enc_fixed :: "enc_env \<Rightarrow> pb_field_iter \<Rightarrow> est \<Rightarrow> bool \<times> est" where
  "pb_enc_fixed E it st =
     (if data_size it = 4 then pb_encode_fixed32 E (pData it) st
      else if data_size it = 8 then pb_encode_fixed64 E (pData it) st
      else o_error ''invalid data_size'' st)"

text \<open>A \<open>pb_bytes_array_t\<close> is a 16-bit size followed by the bytes.\<close>
definition pb_enc_bytes :: "enc_env \<Rightarrow> pb_field_iter \<Rightarrow> est \<Rightarrow> bool \<times> est" where
  "pb_enc_bytes E it st =
     (if pData it = NULL then pb_encode_string E [] 0 st
      else
        (let n = le_nat (mem_read (fst st) (pData it) 2)
         in if PB_ATYPE (ftype it) = PB_ATYPE_STATIC \<and> n > wrap32 (data_size it + 4294967296 - 2)
            then o_error ''bytes size exceeded'' st
            else pb_encode_string E (mem_read (fst st) (pData it + 2) n) n st))"

function strnlen :: "mem \<Rightarrow> addr \<Rightarrow> nat \<Rightarrow> nat \<Rightarrow> nat" where
  "strnlen m p n maxlen = (if n < maxlen \<and> m p \<noteq> 0 then strnlen m (p + 1) (n + 1) maxlen else n)"
  by pat_completeness auto
termination by (relation "measure (\<lambda>(m, p, n, maxlen). maxlen - n)") auto

declare strnlen.simps [simp del]

definition pb_enc_string :: "enc_env \<Rightarrow> pb_field_iter \<Rightarrow> est \<Rightarrow> bool \<times> est" where
  "pb_enc_string E it st =
     (if PB_ATYPE (ftype it) \<noteq> PB_ATYPE_POINTER \<and> data_size it = 0 then o_error ''zero-length string'' st
      else
        (let maxlen = (if PB_ATYPE (ftype it) = PB_ATYPE_POINTER then 4294967295 else data_size it - 1)
         in if pData it = NULL then pb_encode_string E [] 0 st
            else
              (let n = strnlen (fst st) (pData it) 0 maxlen
               in if fst st (pData it + n) \<noteq> 0 then o_error ''unterminated string'' st
                  else pb_encode_string E (mem_read (fst st) (pData it) n) n st)))"

definition pb_enc_fixed_length_bytes :: "enc_env \<Rightarrow> pb_field_iter \<Rightarrow> est \<Rightarrow> bool \<times> est" where
  "pb_enc_fixed_length_bytes E it st =
     pb_encode_string E (mem_read (fst st) (pData it) (data_size it)) (data_size it) st"

text \<open>The \<open>funcs\<close> pointer of the message callback stored right before \<open>pSize\<close>, and the address of its \<open>arg\<close>.\<close>
definition message_callback :: "nat \<Rightarrow> mem \<Rightarrow> pb_field_iter \<Rightarrow> nat \<times> addr" where
  "message_callback stray m it = (case pSize it of PMem a \<Rightarrow> (mem_ptr m (a - 8), a - 4) | _ \<Rightarrow> (stray, 0))"

type_synonym enc_rec = "pb_msgdesc \<Rightarrow> addr \<Rightarrow> est \<Rightarrow> (bool \<times> est) option"

definition pb_encode_submessage :: "enc_rec \<Rightarrow> enc_env \<Rightarrow> pb_msgdesc \<Rightarrow> addr \<Rightarrow> est \<Rightarrow> (bool \<times> est) option" where
  "pb_encode_submessage enc E d src st =
     (case enc d src (fst st, PB_OSTREAM_SIZING) of
        None \<Rightarrow> None
      | Some (False, (m, sub)) \<Rightarrow> Some (False, (m, (snd st)\<lparr>o_errmsg := o_errmsg sub\<rparr>))
      | Some (True, (m, sub)) \<Rightarrow>
          (let n = bytes_written sub in
           seqo (Some (pb_encode_varint E (of_nat n) (m, snd st))) (\<lambda>st1.
             if o_callback (snd st1) = OcNull then Some (pb_write E [] n st1)
             else if wrap32 (bytes_written (snd st1) + n) > max_size (snd st1) then Some (o_error ''stream full'' st1)
             else
               (case enc d src (fst st1, \<lparr>o_callback = o_callback (snd st1), o_state = o_state (snd st1), max_size = n,
                                          bytes_written = 0, o_errmsg = None\<rparr>) of
                  None \<Rightarrow> None
                | Some (status, (m2, sub2)) \<Rightarrow>
                    (let st2 = (m2, (snd st1)\<lparr>bytes_written := wrap32 (bytes_written (snd st1) + bytes_written sub2),
                                              o_state := o_state sub2, o_errmsg := o_errmsg sub2\<rparr>)
                     in if bytes_written sub2 \<noteq> n then Some (o_error ''submsg size changed'' st2)
                        else Some (status, st2))))))"

definition pb_enc_submessage :: "enc_rec \<Rightarrow> enc_env \<Rightarrow> pb_field_iter \<Rightarrow> est \<Rightarrow> (bool \<times> est) option" where
  "pb_enc_submessage enc E it st =
     (if submsg_desc it = 0 then Some (o_error ''invalid field descriptor'' st)
      else
        (let (cb, arg) = message_callback (stray_word E) (fst st) it in
         seqo (if PB_LTYPE (ftype it) = PB_LTYPE_SUBMSG_W_CB \<and> pSize it \<noteq> PNull \<and> cb \<noteq> 0
               then Some (user_encode E cb it arg st) else Some (True, st))
           (pb_encode_submessage enc E (erom E (submsg_desc it)) (pData it))))"

definition encode_basic_field :: "enc_rec \<Rightarrow> enc_env \<Rightarrow> pb_field_iter \<Rightarrow> est \<Rightarrow> (bool \<times> est) option" where
  "encode_basic_field enc E it st =
     (if pData it = NULL then Some (True, st)
      else seqo (Some (pb_encode_tag_for_field E it st)) (\<lambda>st.
        let t = PB_LTYPE (ftype it) in
        if t = PB_LTYPE_BOOL then Some (pb_enc_bool E it st)
        else if t = PB_LTYPE_VARINT \<or> t = PB_LTYPE_UVARINT \<or> t = PB_LTYPE_SVARINT then Some (pb_enc_varint E it st)
        else if t = PB_LTYPE_FIXED32 \<or> t = PB_LTYPE_FIXED64 then Some (pb_enc_fixed E it st)
        else if t = PB_LTYPE_BYTES then Some (pb_enc_bytes E it st)
        else if t = PB_LTYPE_STRING then Some (pb_enc_string E it st)
        else if t = PB_LTYPE_SUBMESSAGE \<or> t = PB_LTYPE_SUBMSG_W_CB then pb_enc_submessage enc E it st
        else if t = PB_LTYPE_FIXED_LENGTH_BYTES then Some (pb_enc_fixed_length_bytes E it st)
        else Some (o_error ''invalid field type'' st)))"

section \<open>Arrays\<close>

definition advance_data :: "pb_field_iter \<Rightarrow> pb_field_iter" where
  "advance_data it = it\<lparr>pData := pData it + data_size it\<rparr>"

text \<open>The \<open>for\<close> loops over the elements; \<open>f\<close> encodes one.\<close>
primrec array_loop :: "(pb_field_iter \<Rightarrow> est \<Rightarrow> (bool \<times> est) option) \<Rightarrow> nat \<Rightarrow> pb_field_iter \<Rightarrow> est \<Rightarrow> (bool \<times> est) option" where
  "array_loop f 0 it st = Some (True, st)"
| "array_loop f (Suc n) it st = seqo (f it st) (array_loop f n (advance_data it))"

text \<open>The size of a packed array: \<open>Inl\<close> the message of the sizing stream that failed.\<close>
definition packed_size :: "enc_env \<Rightarrow> nat \<Rightarrow> pb_field_iter \<Rightarrow> mem \<Rightarrow> string + nat" where
  "packed_size E count it m =
     (if PB_LTYPE (ftype it) = PB_LTYPE_FIXED32 then Inr (4 * count)
      else if PB_LTYPE (ftype it) = PB_LTYPE_FIXED64 then Inr (8 * count)
      else case array_loop (\<lambda>it st. Some (pb_enc_varint E it st)) count it (m, PB_OSTREAM_SIZING) of
        Some (True, (m', sizestream)) \<Rightarrow> Inr (bytes_written sizestream)
      | Some (False, (m', sizestream)) \<Rightarrow> Inl (PB_GET_ERROR sizestream)
      | None \<Rightarrow> Inr 0)"

definition packed_element :: "enc_env \<Rightarrow> pb_field_iter \<Rightarrow> est \<Rightarrow> (bool \<times> est) option" where
  "packed_element E it st =
     (if PB_LTYPE (ftype it) = PB_LTYPE_FIXED32 \<or> PB_LTYPE (ftype it) = PB_LTYPE_FIXED64
      then Some (pb_enc_fixed E it st) else Some (pb_enc_varint E it st))"

text \<open>The entries of an array of pointers to strings or bytes are dereferenced once more.\<close>
definition unpacked_element :: "enc_rec \<Rightarrow> enc_env \<Rightarrow> pb_field_iter \<Rightarrow> est \<Rightarrow> (bool \<times> est) option" where
  "unpacked_element enc E it st =
     (if PB_ATYPE (ftype it) = PB_ATYPE_POINTER \<and> (PB_LTYPE (ftype it) = PB_LTYPE_STRING \<or> PB_LTYPE (ftype it) = PB_LTYPE_BYTES)
      then
        (let it' = it\<lparr>pData := mem_ptr (fst st) (pData it)\<rparr>
         in if pData it' = NULL
            then seqo (Some (pb_encode_tag_for_field E it' st)) (\<lambda>st. Some (pb_encode_varint E 0 st))
            else encode_basic_field enc E it' st)
      else encode_basic_field enc E it st)"

definition encode_array :: "enc_rec \<Rightarrow> enc_env \<Rightarrow> pb_field_iter \<Rightarrow> est \<Rightarrow> (bool \<times> est) option" where
  "encode_array enc E it st =
     (let count = read_psize (fst st) it in
      if count = 0 then Some (True, st)
      else if PB_ATYPE (ftype it) \<noteq> PB_ATYPE_POINTER \<and> count > array_size it then Some (o_error ''array max size exceeded'' st)
      else if PB_LTYPE (ftype it) \<le> PB_LTYPE_LAST_PACKABLE then
        seqo (Some (pb_encode_tag E PB_WT_STRING (tag it) st)) (\<lambda>st.
          case packed_size E count it (fst st) of
            Inl msg \<Rightarrow> Some (o_error msg st)
          | Inr n \<Rightarrow>
              seqo (Some (pb_encode_varint E (of_nat n) st)) (\<lambda>st.
                if o_callback (snd st) = OcNull then Some (pb_write E [] n st)
                else array_loop (packed_element E) count it st))
      else array_loop (unpacked_element enc E) count it st)"

section \<open>Fields\<close>

text \<open>
  \<open>do \<dots> while (pb_field_iter_next)\<close> over the fields of a message, ended by the first failure; \<open>mm\<close> gives
  the memory in the state.
\<close>
function each_field :: "(pb_field_iter \<Rightarrow> 's \<Rightarrow> (bool \<times> 's) option) \<Rightarrow> ('s \<Rightarrow> mem) \<Rightarrow> pb_field_iter \<Rightarrow> 's \<Rightarrow> (bool \<times> 's) option" where
  "each_field f mm it st =
     seqo (f it st) (\<lambda>st'.
       if fst (pb_field_iter_next (mm st') it) then each_field f mm (snd (pb_field_iter_next (mm st') it)) st'
       else Some (True, st'))"
  by pat_completeness auto
termination
proof (relation "measure (\<lambda>(f, mm, it, st). if index it \<ge> 65536 then 65537 else 65536 - index it)")
  fix f :: "pb_field_iter \<Rightarrow> 's \<Rightarrow> (bool \<times> 's) option" and mm it st and st' :: 's
  assume "fst (pb_field_iter_next (mm st') it)"
  then have nz: "index (snd (pb_field_iter_next (mm st') it)) \<noteq> 0"
    and "index (snd (pb_field_iter_next (mm st') it)) = index (advance_iterator it)"
    by (simp_all add: pb_field_iter_next_def Let_def)
  then have i: "index (snd (pb_field_iter_next (mm st') it)) = wrap16 (index it + 1)"
    by (simp add: advance_iterator_def Let_def split: if_splits)
  have "index it < 65536 \<Longrightarrow> wrap16 (index it + 1) = index it + 1"
    using nz unfolding i by (cases "index it = 65535") simp_all
  moreover have "wrap16 (index it + 1) < 65536" by simp
  ultimately show "((f, mm, snd (pb_field_iter_next (mm st') it), st'), f, mm, it, st)
      \<in> measure (\<lambda>(f, mm, it, st). if index it \<ge> 65536 then 65537 else 65536 - index it)"
    using nz unfolding i in_measure prod.case i by (cases "index it < 65536") auto
qed simp

declare each_field.simps [simp del]

text \<open>
  \<open>pb_check_proto3_default_value\<close> for a field that is not a submessage, and with submessages to the depth
  given by the first argument.
\<close>
definition scalar_is_default :: "mem \<Rightarrow> pb_field_iter \<Rightarrow> bool" where
  "scalar_is_default m it =
     (let t = PB_LTYPE (ftype it) in
      if t \<le> PB_LTYPE_LAST_PACKABLE then \<forall>i \<in> set [0..<data_size it]. m (pData it + i) = 0
      else if t = PB_LTYPE_BYTES then le_nat (mem_read m (pData it) 2) = 0
      else if t = PB_LTYPE_STRING then m (pData it) = 0
      else if t = PB_LTYPE_FIXED_LENGTH_BYTES then data_size it = 0
      else False)"

primrec pb_check_proto3_default_value :: "nat \<Rightarrow> rom \<Rightarrow> mem \<Rightarrow> pb_field_iter \<Rightarrow> bool option" where
  "pb_check_proto3_default_value 0 R m it = None"
| "pb_check_proto3_default_value (Suc n) R m it =
     (let ty = ftype it in
      if PB_ATYPE ty = PB_ATYPE_STATIC then
        (if PB_HTYPE ty = PB_HTYPE_REQUIRED then Some False
         else if PB_HTYPE ty = PB_HTYPE_REPEATED \<or> PB_HTYPE ty = PB_HTYPE_ONEOF then Some (read_psize m it = 0)
         else if PB_HTYPE ty = PB_HTYPE_OPTIONAL \<and> pSize it \<noteq> PNull then Some (\<not> psize_bool m it)
         else if default_value (descriptor it) \<noteq> NULL then Some False
         else if PB_LTYPE_IS_SUBMSG ty then
           (case pb_field_iter_begin m (R (submsg_desc it)) (pData it) of
              (False, _) \<Rightarrow> Some True
            | (True, it') \<Rightarrow>
                map_option fst (each_field (\<lambda>it u. map_option (\<lambda>b. (b, u)) (pb_check_proto3_default_value n R m it)) (\<lambda>_. m) it' ()))
         else Some (scalar_is_default m it))
      else if PB_ATYPE ty = PB_ATYPE_POINTER then Some (pData it = NULL)
      else if PB_ATYPE ty = PB_ATYPE_CALLBACK then
        (if PB_LTYPE ty = PB_LTYPE_EXTENSION then Some (mem_ptr m (pData it) = NULL)
         else if field_callback (descriptor it) = 1 then Some (mem_ptr m (pData it) = 0)
         else Some (field_callback (descriptor it) = 0))
      else Some False)"

text \<open>\<open>pb_default_field_callback (NULL, stream, field)\<close>.\<close>
definition default_field_encode :: "enc_env \<Rightarrow> pb_field_iter \<Rightarrow> est \<Rightarrow> bool \<times> est" where
  "default_field_encode E it st =
     (if data_size it = 8 \<and> pData it \<noteq> NULL \<and> mem_ptr (fst st) (pData it) \<noteq> 0
      then user_encode E (mem_ptr (fst st) (pData it)) it (pData it + 4) st
      else (True, st))"

definition encode_callback_field :: "enc_env \<Rightarrow> pb_field_iter \<Rightarrow> est \<Rightarrow> bool \<times> est" where
  "encode_callback_field E it st =
     (let cb = field_callback (descriptor it);
          r = (if cb = 0 then (True, st) else if cb = 1 then default_field_encode E it st else field_encode E cb it st)
      in if fst r then r else o_error ''callback error'' (snd r))"

text \<open>Whether the field is present; the depth \<open>n\<close> is that of the check for default values.\<close>
definition field_present :: "nat \<Rightarrow> enc_env \<Rightarrow> pb_field_iter \<Rightarrow> mem \<Rightarrow> bool option" where
  "field_present n E it m =
     (if PB_HTYPE (ftype it) = PB_HTYPE_ONEOF then Some (read_psize m it = tag it)
      else if PB_HTYPE (ftype it) = PB_HTYPE_OPTIONAL then
        (if pSize it \<noteq> PNull then Some (psize_bool m it)
         else if PB_ATYPE (ftype it) = PB_ATYPE_STATIC then map_option Not (pb_check_proto3_default_value n (erom E) m it)
         else Some True)
      else Some True)"

definition encode_field :: "enc_rec \<Rightarrow> nat \<Rightarrow> enc_env \<Rightarrow> pb_field_iter \<Rightarrow> est \<Rightarrow> (bool \<times> est) option" where
  "encode_field enc n E it st =
     (case field_present n E it (fst st) of
        None \<Rightarrow> None
      | Some False \<Rightarrow> Some (True, st)
      | Some True \<Rightarrow>
          (if pData it = NULL then
             (if PB_HTYPE (ftype it) = PB_HTYPE_REQUIRED then Some (o_error ''missing required field'' st) else Some (True, st))
           else if PB_ATYPE (ftype it) = PB_ATYPE_CALLBACK then Some (encode_callback_field E it st)
           else if PB_HTYPE (ftype it) = PB_HTYPE_REPEATED then encode_array enc E it st
           else encode_basic_field enc E it st))"

definition default_extension_encoder :: "enc_rec \<Rightarrow> nat \<Rightarrow> enc_env \<Rightarrow> addr \<Rightarrow> est \<Rightarrow> (bool \<times> est) option" where
  "default_extension_encoder enc n E ext st =
     (case pb_field_iter_begin_extension (erom E) (fst st) ext of
        (False, _) \<Rightarrow> Some (o_error ''invalid extension'' st)
      | (True, it) \<Rightarrow> encode_field enc n E it st)"

text \<open>The walk along the list of extensions, \<open>k\<close> of them at most.\<close>
primrec extension_walk :: "nat \<Rightarrow> enc_rec \<Rightarrow> nat \<Rightarrow> enc_env \<Rightarrow> addr \<Rightarrow> est \<Rightarrow> (bool \<times> est) option" where
  "extension_walk 0 enc n E ext st = (if ext = NULL then Some (True, st) else None)"
| "extension_walk (Suc k) enc n E ext st =
     (if ext = NULL then Some (True, st)
      else seqo (if mem_ptr (fst st) (ext_type (fst st) ext + 4) \<noteq> 0
                 then Some (ext_encode E (mem_ptr (fst st) (ext_type (fst st) ext + 4)) ext st)
                 else default_extension_encoder enc n E ext st)
        (\<lambda>st'. extension_walk k enc n E (ext_next (fst st') ext) st'))"

definition encode_extension_field :: "enc_rec \<Rightarrow> nat \<Rightarrow> enc_env \<Rightarrow> pb_field_iter \<Rightarrow> est \<Rightarrow> (bool \<times> est) option" where
  "encode_extension_field enc n E it st = extension_walk n enc n E (mem_ptr (fst st) (pData it)) st"

section \<open>Messages\<close>

definition encode_message_field :: "enc_rec \<Rightarrow> nat \<Rightarrow> enc_env \<Rightarrow> pb_field_iter \<Rightarrow> est \<Rightarrow> (bool \<times> est) option" where
  "encode_message_field enc n E it st =
     (if PB_LTYPE (ftype it) = PB_LTYPE_EXTENSION then encode_extension_field enc n E it st else encode_field enc n E it st)"

primrec pb_encode :: "nat \<Rightarrow> enc_env \<Rightarrow> pb_msgdesc \<Rightarrow> addr \<Rightarrow> est \<Rightarrow> (bool \<times> est) option" where
  "pb_encode 0 E d src st = None"
| "pb_encode (Suc n) E d src st =
     (case pb_field_iter_begin (fst st) d src of
        (False, _) \<Rightarrow> Some (True, st)
      | (True, it) \<Rightarrow> each_field (encode_message_field (pb_encode n E) n E) fst it st)"

abbreviation (input) PB_ENCODE_DELIMITED :: u32 where "PB_ENCODE_DELIMITED \<equiv> 0x02"
abbreviation (input) PB_ENCODE_NULLTERMINATED :: u32 where "PB_ENCODE_NULLTERMINATED \<equiv> 0x04"

definition pb_encode_ex :: "nat \<Rightarrow> enc_env \<Rightarrow> pb_msgdesc \<Rightarrow> addr \<Rightarrow> u32 \<Rightarrow> est \<Rightarrow> (bool \<times> est) option" where
  "pb_encode_ex n E d src flags st =
     (if flags AND PB_ENCODE_DELIMITED \<noteq> 0 then pb_encode_submessage (pb_encode n E) E d src st
      else if flags AND PB_ENCODE_NULLTERMINATED \<noteq> 0
      then seqo (pb_encode n E d src st) (\<lambda>st. Some (pb_write E [0] 1 st))
      else pb_encode n E d src st)"

text \<open>The size, \<open>None\<close> inside when the encoding fails.\<close>
definition pb_get_encoded_size :: "nat \<Rightarrow> enc_env \<Rightarrow> mem \<Rightarrow> pb_msgdesc \<Rightarrow> addr \<Rightarrow> nat option option" where
  "pb_get_encoded_size n E m d src =
     map_option (\<lambda>(ok, st). if ok then Some (bytes_written (snd st)) else None) (pb_encode n E d src (m, PB_OSTREAM_SIZING))"

end
