(* ===== verification/Pb_Decode.thy ===== *)
theory Pb_Decode
  imports Pb_Encode
begin

unbundle bit_operations_syntax

text \<open>
  The decoder of nanopb (\<^verbatim>\<open>external/nanopb/pb_decode.c\<close>), built without \<open>PB_ENABLE_MALLOC\<close>. An operation
  takes and returns the pair of the memory and the input stream; it says whether it succeeded, or
  returns the decoded value as an option. The functions the application registers are the parameters
  in \<open>dec_env\<close>. The decoder is recursive over submessages and default values and loops over input that a
  user stream may supply without end, so the operations with such a loop take a bound \<open>n\<close> and are \<open>None\<close> when
  it is used up.
\<close>

section \<open>Streams\<close>

text \<open>
  \<open>IcBuf\<close> and \<open>IcLocal\<close> are \<open>buf_read\<close>: over memory, and over an array on the decoder's own stack, where
  the state is the offset. \<open>IcNull\<close> is the callback of \<open>PB_ISTREAM_EMPTY\<close>, which holds no bytes and is never called.
\<close>
datatype icallback = IcNull | IcBuf | IcLocal bytes | IcUser nat

record pb_istream =
  i_callback :: icallback
  i_state :: addr
  bytes_left :: nat
  i_errmsg :: "string option"

type_synonym dst = "mem \<times> pb_istream"

text \<open>
  \<open>stream_read k count\<close> is the callback of a user stream: whether it succeeded, the bytes it stored into the
  buffer it was given (\<open>count\<close> of them when it succeeds), and the new state. The other functions are as in
  \<open>enc_env\<close>; those of extension types get the extension's address, the tag and the wire type.
\<close>
record dec_env =
  drom :: rom
  stream_read :: "nat \<Rightarrow> nat \<Rightarrow> dst \<Rightarrow> bool \<times> bytes \<times> dst"
  field_decode :: "nat \<Rightarrow> pb_field_iter \<Rightarrow> dst \<Rightarrow> bool \<times> dst"
  user_decode :: "nat \<Rightarrow> pb_field_iter \<Rightarrow> addr \<Rightarrow> dst \<Rightarrow> bool \<times> dst"
  ext_decode :: "nat \<Rightarrow> addr \<Rightarrow> nat \<Rightarrow> nat \<Rightarrow> dst \<Rightarrow> bool \<times> dst"
  dec_stray :: nat

definition i_set_error :: "string \<Rightarrow> pb_istream \<Rightarrow> pb_istream" where
  "i_set_error msg s = s\<lparr>i_errmsg := (case i_errmsg s of None \<Rightarrow> Some msg | Some e \<Rightarrow> Some e)\<rparr>"

definition i_error :: "string \<Rightarrow> dst \<Rightarrow> bool \<times> dst" where
  "i_error msg st = (False, (fst st, i_set_error msg (snd st)))"

text \<open>A failed operation that would have returned a value, and the rest after one that did.\<close>
definition i_none :: "string \<Rightarrow> dst \<Rightarrow> 'a option \<times> dst" where
  "i_none msg st = (None, snd (i_error msg st))"

definition ibind :: "'a option \<times> 's \<Rightarrow> ('a \<Rightarrow> 's \<Rightarrow> bool \<times> 's) \<Rightarrow> bool \<times> 's" where
  "ibind r k = (case r of (None, s) \<Rightarrow> (False, s) | (Some x, s) \<Rightarrow> k x s)"

definition is_buf_read :: "icallback \<Rightarrow> bool" where
  "is_buf_read c = (case c of IcBuf \<Rightarrow> True | IcLocal _ \<Rightarrow> True | _ \<Rightarrow> False)"

definition buf_read :: "nat \<Rightarrow> dst \<Rightarrow> bool \<times> bytes \<times> dst" where
  "buf_read count st =
     (let s = snd st;
          source = (case i_callback s of IcLocal bs \<Rightarrow> take count (drop (i_state s) bs) | _ \<Rightarrow> mem_read (fst st) (i_state s) count)
      in (True, source, (fst st, s\<lparr>i_state := i_state s + count\<rparr>)))"

text \<open>\<open>stream->callback (stream, buf, count)\<close>.\<close>
definition call_istream :: "dec_env \<Rightarrow> nat \<Rightarrow> dst \<Rightarrow> bool \<times> bytes \<times> dst" where
  "call_istream E count st =
     (case i_callback (snd st) of
        IcUser k \<Rightarrow> stream_read E k count st
      | IcNull \<Rightarrow> (False, [], st)
      | _ \<Rightarrow> buf_read count st)"

text \<open>\<open>pb_read\<close> into a buffer: whether it succeeded, and the bytes stored there.\<close>
definition pb_read_raw :: "dec_env \<Rightarrow> nat \<Rightarrow> dst \<Rightarrow> bool \<times> bytes \<times> dst" where
  "pb_read_raw E count st =
     (if count = 0 then (True, [], st)
      else if bytes_left (snd st) < count then (False, [], snd (i_error ''end-of-stream'' st))
      else case call_istream E count st of
        (False, bs, st') \<Rightarrow> (False, bs, snd (i_error ''io error'' st'))
      | (True, bs, (m, s)) \<Rightarrow>
          (True, bs, (m, s\<lparr>bytes_left := (if bytes_left s < count then 0 else bytes_left s - count)\<rparr>)))"

text \<open>Into a local variable, and to an address.\<close>
definition pb_read :: "dec_env \<Rightarrow> nat \<Rightarrow> dst \<Rightarrow> bytes option \<times> dst" where
  "pb_read E count st = (case pb_read_raw E count st of (b, bs, st') \<Rightarrow> (if b then Some bs else None, st'))"

definition pb_read_to :: "dec_env \<Rightarrow> addr \<Rightarrow> nat \<Rightarrow> dst \<Rightarrow> bool \<times> dst" where
  "pb_read_to E buf count st = (case pb_read_raw E count st of (b, bs, (m, s)) \<Rightarrow> (b, (mem_write m buf bs, s)))"

text \<open>\<open>pb_read (stream, NULL, count)\<close>: bytes of a user stream are read and thrown away, 16 at a time.\<close>
function skip_chunks :: "dec_env \<Rightarrow> nat \<Rightarrow> dst \<Rightarrow> bool \<times> dst" where
  "skip_chunks E count st =
     (if count > 16 then ibind (pb_read E 16 st) (\<lambda>_. skip_chunks E (count - 16))
      else ibind (pb_read E count st) (\<lambda>_ st. (True, st)))"
  by pat_completeness auto
termination by (relation "measure (\<lambda>(E, count, st). count)") auto

declare skip_chunks.simps [simp del]

definition pb_read_null :: "dec_env \<Rightarrow> nat \<Rightarrow> dst \<Rightarrow> bool \<times> dst" where
  "pb_read_null E count st =
     (if count = 0 then (True, st)
      else if \<not> is_buf_read (i_callback (snd st)) then skip_chunks E count st
      else ibind (pb_read E count st) (\<lambda>_ st. (True, st)))"

definition pb_readbyte :: "dec_env \<Rightarrow> dst \<Rightarrow> byte option \<times> dst" where
  "pb_readbyte E st =
     (if bytes_left (snd st) = 0 then i_none ''end-of-stream'' st
      else case call_istream E 1 st of
        (False, bs, st') \<Rightarrow> i_none ''io error'' st'
      | (True, bs, (m, s)) \<Rightarrow> (Some (entry bs 0), (m, s\<lparr>bytes_left := wrap32 (bytes_left s + 4294967295)\<rparr>)))"

definition pb_istream_from_buffer :: "addr \<Rightarrow> nat \<Rightarrow> pb_istream" where
  "pb_istream_from_buffer buf msglen = \<lparr>i_callback = IcBuf, i_state = buf, bytes_left = msglen, i_errmsg = None\<rparr>"

text \<open>The same for an array on the stack.\<close>
definition local_istream :: "bytes \<Rightarrow> pb_istream" where
  "local_istream bs = \<lparr>i_callback = IcLocal bs, i_state = 0, bytes_left = length bs, i_errmsg = None\<rparr>"

definition PB_ISTREAM_EMPTY :: pb_istream where
  "PB_ISTREAM_EMPTY = \<lparr>i_callback = IcNull, i_state = 0, bytes_left = 0, i_errmsg = None\<rparr>"

section \<open>Integers and tags\<close>

text \<open>What one byte after the first makes of the result; \<open>None\<close> is an overflow.\<close>
definition varint32_step :: "nat \<Rightarrow> u32 \<Rightarrow> byte \<Rightarrow> u32 option" where
  "varint32_step bitpos result b =
     (if bitpos \<ge> 32 then
        (let sign_extension = (if bitpos < 63 then 0xFF else 0x01);
             valid_extension = (b AND 0x7F = 0 \<or> drop_bit 31 result \<noteq> 0 \<and> b = sign_extension)
         in if bitpos \<ge> 64 \<or> \<not> valid_extension then None else Some result)
      else if bitpos = 28 then
        (if b AND 0x70 \<noteq> 0 \<and> b AND 0x78 \<noteq> 0x78 then None else Some (result OR push_bit bitpos (ucast (b AND 0x0F))))
      else Some (result OR push_bit bitpos (ucast (b AND 0x7F))))"

lemma varint32_step_bitpos: "varint32_step bitpos result b = Some r \<Longrightarrow> bitpos < 64"
  by (auto simp: varint32_step_def Let_def split: if_splits)

text \<open>The \<open>do\<close> loop for the bytes after the first.\<close>
function varint32_loop :: "dec_env \<Rightarrow> nat \<Rightarrow> u32 \<Rightarrow> dst \<Rightarrow> u32 option \<times> dst" where
  "varint32_loop E bitpos result st =
     (case pb_readbyte E st of
        (None, st) \<Rightarrow> (None, st)
      | (Some b, st) \<Rightarrow>
          (case varint32_step bitpos result b of
             None \<Rightarrow> i_none ''varint overflow'' st
           | Some result \<Rightarrow> if b AND 0x80 \<noteq> 0 then varint32_loop E (bitpos + 7) result st else (Some result, st)))"
  by pat_completeness auto
termination by (relation "measure (\<lambda>(E, bitpos, result, st). 71 - bitpos)") (auto dest!: varint32_step_bitpos)

declare varint32_loop.simps [simp del]

definition pb_decode_varint32 :: "dec_env \<Rightarrow> dst \<Rightarrow> u32 option \<times> dst" where
  "pb_decode_varint32 E st =
     (case pb_readbyte E st of
        (None, st) \<Rightarrow> (None, st)
      | (Some b, st) \<Rightarrow>
          if b AND 0x80 = 0 then (Some (ucast b), st) else varint32_loop E 7 (ucast (b AND 0x7F)) st)"

lemma and_fe: "(b :: byte) AND 0xFE = 0 \<Longrightarrow> b AND 0x80 = 0"
proof -
  assume b: "b AND 0xFE = 0"
  have "b AND 0x80 = (b AND 0xFE) AND 0x80" by (simp add: and.assoc)
  with b show ?thesis by simp
qed

function varint_loop :: "dec_env \<Rightarrow> nat \<Rightarrow> u64 \<Rightarrow> dst \<Rightarrow> u64 option \<times> dst" where
  "varint_loop E bitpos result st =
     (case pb_readbyte E st of
        (None, st) \<Rightarrow> (None, st)
      | (Some b, st) \<Rightarrow>
          if bitpos \<ge> 63 \<and> b AND 0xFE \<noteq> 0 then i_none ''varint overflow'' st
          else
            (let result = result OR push_bit bitpos (ucast (b AND 0x7F))
             in if b AND 0x80 \<noteq> 0 then varint_loop E (bitpos + 7) result st else (Some result, st)))"
  by pat_completeness auto
termination by (relation "measure (\<lambda>(E, bitpos, result, st). 63 - bitpos)") (auto dest: and_fe)

declare varint_loop.simps [simp del]

definition pb_decode_varint :: "dec_env \<Rightarrow> dst \<Rightarrow> u64 option \<times> dst" where
  "pb_decode_varint E st = varint_loop E 0 0 st"

primrec pb_skip_varint :: "nat \<Rightarrow> dec_env \<Rightarrow> dst \<Rightarrow> (bool \<times> dst) option" where
  "pb_skip_varint 0 E st = None"
| "pb_skip_varint (Suc n) E st =
     (case pb_read E 1 st of
        (None, st) \<Rightarrow> Some (False, st)
      | (Some bs, st) \<Rightarrow> if entry bs 0 AND 0x80 \<noteq> 0 then pb_skip_varint n E st else Some (True, st))"

definition pb_skip_string :: "dec_env \<Rightarrow> dst \<Rightarrow> bool \<times> dst" where
  "pb_skip_string E st = ibind (pb_decode_varint32 E st) (\<lambda>n. pb_read_null E (unat n))"

text \<open>\<open>TagEnd\<close> is false with \<open>*eof\<close> set, \<open>TagFail\<close> false without.\<close>
datatype tag_result = TagOk nat nat | TagEnd | TagFail

definition pb_decode_tag :: "dec_env \<Rightarrow> dst \<Rightarrow> tag_result \<times> dst" where
  "pb_decode_tag E st =
     (if bytes_left (snd st) = 0 then (TagEnd, st)
      else case pb_decode_varint32 E st of
        (Some temp, st) \<Rightarrow> (TagOk (unat (temp AND 7)) (unat (drop_bit 3 temp)), st)
      | (None, (m, s)) \<Rightarrow>
          if \<not> is_buf_read (i_callback s) \<and> bytes_left s = 0
          then (TagEnd, (m, if i_errmsg s = Some ''io error'' then s\<lparr>i_errmsg := None\<rparr> else s))
          else (TagFail, (m, s)))"

definition pb_skip_field :: "nat \<Rightarrow> dec_env \<Rightarrow> nat \<Rightarrow> dst \<Rightarrow> (bool \<times> dst) option" where
  "pb_skip_field n E wire_type st =
     (if wire_type = PB_WT_VARINT then pb_skip_varint n E st
      else if wire_type = PB_WT_64BIT then Some (pb_read_null E 8 st)
      else if wire_type = PB_WT_STRING then Some (pb_skip_string E st)
      else if wire_type = PB_WT_32BIT then Some (pb_read_null E 4 st)
      else Some (i_error ''invalid wire_type'' st))"

text \<open>The varint case of \<open>read_raw_value\<close> with room for \<open>k\<close> more bytes.\<close>
primrec raw_varint :: "nat \<Rightarrow> dec_env \<Rightarrow> bytes \<Rightarrow> dst \<Rightarrow> bytes option \<times> dst" where
  "raw_varint 0 E buf st = i_none ''varint overflow'' st"
| "raw_varint (Suc k) E buf st =
     (case pb_read E 1 st of
        (None, st) \<Rightarrow> (None, st)
      | (Some bs, st) \<Rightarrow>
          if entry bs 0 AND 0x80 \<noteq> 0 then raw_varint k E (buf @ [entry bs 0]) st else (Some (buf @ [entry bs 0]), st))"

definition read_raw_value :: "dec_env \<Rightarrow> nat \<Rightarrow> nat \<Rightarrow> dst \<Rightarrow> bytes option \<times> dst" where
  "read_raw_value E wire_type room st =
     (if wire_type = PB_WT_VARINT then raw_varint room E [] st
      else if wire_type = PB_WT_64BIT then pb_read E 8 st
      else if wire_type = PB_WT_32BIT then pb_read E 4 st
      else i_none ''invalid wire_type'' st)"

definition pb_make_string_substream :: "dec_env \<Rightarrow> dst \<Rightarrow> pb_istream option \<times> dst" where
  "pb_make_string_substream E st =
     (case pb_decode_varint32 E st of
        (None, st) \<Rightarrow> (None, st)
      | (Some sz, (m, s)) \<Rightarrow>
          if bytes_left s < unat sz then i_none ''parent stream too short'' (m, s)
          else (Some (s\<lparr>bytes_left := unat sz\<rparr>), (m, s\<lparr>bytes_left := bytes_left s - unat sz\<rparr>)))"

text \<open>\<open>s\<close> is the parent stream, \<open>st\<close> the memory with the substream.\<close>
definition pb_close_string_substream :: "dec_env \<Rightarrow> pb_istream \<Rightarrow> dst \<Rightarrow> bool \<times> dst" where
  "pb_close_string_substream E s st =
     (case (if bytes_left (snd st) \<noteq> 0 then pb_read_null E (bytes_left (snd st)) st else (True, st)) of
        (False, (m, sub)) \<Rightarrow> (False, (m, s))
      | (True, (m, sub)) \<Rightarrow> (True, (m, s\<lparr>i_state := i_state sub, i_errmsg := i_errmsg sub\<rparr>)))"

section \<open>Field decoders\<close>

definition pb_decode_bool :: "dec_env \<Rightarrow> addr \<Rightarrow> dst \<Rightarrow> bool \<times> dst" where
  "pb_decode_bool E dest st =
     ibind (pb_decode_varint32 E st) (\<lambda>value (m, s). (True, (m(dest := of_bool (value \<noteq> 0)), s)))"

definition unzigzag :: "u64 \<Rightarrow> u64" where
  "unzigzag value = (if value AND 1 \<noteq> 0 then NOT (drop_bit 1 value) else drop_bit 1 value)"

definition pb_decode_svarint :: "dec_env \<Rightarrow> dst \<Rightarrow> u64 option \<times> dst" where
  "pb_decode_svarint E st = (case pb_decode_varint E st of (v, st) \<Rightarrow> (map_option unzigzag v, st))"

text \<open>The four and eight bytes are read into a local union first.\<close>
definition pb_decode_fixed32 :: "dec_env \<Rightarrow> addr \<Rightarrow> dst \<Rightarrow> bool \<times> dst" where
  "pb_decode_fixed32 E dest st = ibind (pb_read E 4 st) (\<lambda>bs (m, s). (True, (mem_write m dest (nat_le 4 (le_nat bs)), s)))"

definition pb_decode_fixed64 :: "dec_env \<Rightarrow> addr \<Rightarrow> dst \<Rightarrow> bool \<times> dst" where
  "pb_decode_fixed64 E dest st = ibind (pb_read E 8 st) (\<lambda>bs (m, s). (True, (mem_write m dest (nat_le 8 (le_nat bs)), s)))"

definition pb_dec_bool :: "dec_env \<Rightarrow> pb_field_iter \<Rightarrow> dst \<Rightarrow> bool \<times> dst" where
  "pb_dec_bool E it st = pb_decode_bool E (pData it) st"

text \<open>The assignment to an integer of \<open>n\<close> bytes; \<open>clamped\<close> is what it holds afterwards.\<close>
definition store_clamped :: "addr \<Rightarrow> nat \<Rightarrow> u64 \<Rightarrow> u64 \<Rightarrow> dst \<Rightarrow> bool \<times> dst" where
  "store_clamped dest n value clamped st =
     (let st' = (mem_write (fst st) dest (nat_le n (unat value)), snd st)
      in if clamped \<noteq> value then i_error ''integer too large'' st' else (True, st'))"

definition pb_dec_varint :: "dec_env \<Rightarrow> pb_field_iter \<Rightarrow> dst \<Rightarrow> bool \<times> dst" where
  "pb_dec_varint E it st =
     (let n = data_size it in
      if PB_LTYPE (ftype it) = PB_LTYPE_UVARINT then
        ibind (pb_decode_varint E st) (\<lambda>value st.
          if n \<notin> {1, 2, 4, 8} then i_error ''invalid data_size'' st
          else store_clamped (pData it) n value (take_bit (8 * n) value) st)
      else
        ibind (if PB_LTYPE (ftype it) = PB_LTYPE_SVARINT then pb_decode_svarint E st
               else (case pb_decode_varint E st of
                  (v, st) \<Rightarrow> (map_option (\<lambda>value. if n = 8 then value else signed_take_bit 31 value) v, st)))
          (\<lambda>svalue st.
            if n \<notin> {1, 2, 4, 8} then i_error ''invalid data_size'' st
            else store_clamped (pData it) n svalue (signed_take_bit (8 * n - 1) svalue) st))"

definition pb_dec_bytes :: "dec_env \<Rightarrow> pb_field_iter \<Rightarrow> dst \<Rightarrow> bool \<times> dst" where
  "pb_dec_bytes E it st =
     ibind (pb_decode_varint32 E st) (\<lambda>sz st.
       if unat sz > PB_SIZE_MAX then i_error ''bytes overflow'' st
       else if PB_ATYPE (ftype it) = PB_ATYPE_POINTER then i_error ''no malloc support'' st
       else if unat sz + 2 > data_size it then i_error ''bytes overflow'' st
       else pb_read_to E (pData it + 2) (unat sz) (mem_write (fst st) (pData it) (nat_le 2 (unat sz)), snd st))"

definition pb_dec_string :: "dec_env \<Rightarrow> pb_field_iter \<Rightarrow> dst \<Rightarrow> bool \<times> dst" where
  "pb_dec_string E it st =
     ibind (pb_decode_varint32 E st) (\<lambda>sz st.
       if sz = - 1 then i_error ''size too large'' st
       else if PB_ATYPE (ftype it) = PB_ATYPE_POINTER then i_error ''no malloc support'' st
       else if unat sz + 1 > data_size it then i_error ''string overflow'' st
       else pb_read_to E (pData it) (unat sz) ((fst st)(pData it + unat sz := 0), snd st))"

definition pb_dec_fixed_length_bytes :: "dec_env \<Rightarrow> pb_field_iter \<Rightarrow> dst \<Rightarrow> bool \<times> dst" where
  "pb_dec_fixed_length_bytes E it st =
     ibind (pb_decode_varint32 E st) (\<lambda>sz st.
       if unat sz > PB_SIZE_MAX then i_error ''bytes overflow'' st
       else if sz = 0 then (True, (mem_set (fst st) (pData it) 0 (data_size it), snd st))
       else if unat sz \<noteq> data_size it then i_error ''incorrect fixed length bytes size'' st
       else pb_read_to E (pData it) (data_size it) st)"

text \<open>
  The two functions the decoder calls recursively: \<open>pb_decode_inner\<close>, and \<open>pb_message_set_to_defaults\<close>, which works
  on memory and an iterator.
\<close>
record dec_ops =
  inner :: "pb_msgdesc \<Rightarrow> addr \<Rightarrow> u32 \<Rightarrow> dst \<Rightarrow> (bool \<times> dst) option"
  defaults :: "mem \<times> pb_field_iter \<Rightarrow> (bool \<times> (mem \<times> pb_field_iter)) option"

abbreviation (input) PB_DECODE_NOINIT :: u32 where "PB_DECODE_NOINIT \<equiv> 0x01"
abbreviation (input) PB_DECODE_DELIMITED :: u32 where "PB_DECODE_DELIMITED \<equiv> 0x02"
abbreviation (input) PB_DECODE_NULLTERMINATED :: u32 where "PB_DECODE_NULLTERMINATED \<equiv> 0x04"

text \<open>The message callback of \<open>pb_dec_submessage\<close>: its status, and whether it has consumed the submessage.\<close>
definition submessage_callback :: "dec_env \<Rightarrow> pb_field_iter \<Rightarrow> dst \<Rightarrow> (bool \<times> bool) \<times> dst" where
  "submessage_callback E it st =
     (let (cb, arg) = message_callback (dec_stray E) (fst st) it in
      if PB_LTYPE (ftype it) = PB_LTYPE_SUBMSG_W_CB \<and> pSize it \<noteq> PNull \<and> cb \<noteq> 0
      then (case user_decode E cb it arg st of (status, st') \<Rightarrow> ((status, bytes_left (snd st') = 0), st'))
      else ((True, False), st))"

definition pb_dec_submessage :: "dec_ops \<Rightarrow> dec_env \<Rightarrow> pb_field_iter \<Rightarrow> dst \<Rightarrow> (bool \<times> dst) option" where
  "pb_dec_submessage R E it st =
     (case pb_make_string_substream E st of
        (None, st) \<Rightarrow> Some (False, st)
      | (Some sub, (m, s)) \<Rightarrow>
          if submsg_desc it = 0 then Some (i_error ''invalid field descriptor'' (m, s))
          else
            (let ((status, consumed), sst) = submessage_callback E it (m, sub);
                 flags = (if PB_ATYPE (ftype it) = PB_ATYPE_STATIC \<and> PB_HTYPE (ftype it) \<noteq> PB_HTYPE_REPEATED
                          then PB_DECODE_NOINIT else 0)
             in case (if status \<and> \<not> consumed then inner R (drom E (submsg_desc it)) (pData it) flags sst else Some (status, sst)) of
                  None \<Rightarrow> None
                | Some (status, sst) \<Rightarrow>
                    (case pb_close_string_substream E s sst of
                       (closed, st) \<Rightarrow> Some (closed \<and> status, st))))"

definition decode_basic_field :: "dec_ops \<Rightarrow> dec_env \<Rightarrow> nat \<Rightarrow> pb_field_iter \<Rightarrow> dst \<Rightarrow> (bool \<times> dst) option" where
  "decode_basic_field R E wire_type it st =
     (let t = PB_LTYPE (ftype it);
          expect = (\<lambda>wt d. if wire_type \<in> set wt then d else Some (i_error ''wrong wire type'' st))
      in if t = PB_LTYPE_BOOL then expect [PB_WT_VARINT, PB_WT_PACKED] (Some (pb_dec_bool E it st))
         else if t = PB_LTYPE_VARINT \<or> t = PB_LTYPE_UVARINT \<or> t = PB_LTYPE_SVARINT
         then expect [PB_WT_VARINT, PB_WT_PACKED] (Some (pb_dec_varint E it st))
         else if t = PB_LTYPE_FIXED32 then expect [PB_WT_32BIT, PB_WT_PACKED] (Some (pb_decode_fixed32 E (pData it) st))
         else if t = PB_LTYPE_FIXED64 then expect [PB_WT_64BIT, PB_WT_PACKED] (Some (pb_decode_fixed64 E (pData it) st))
         else if t = PB_LTYPE_BYTES then expect [PB_WT_STRING] (Some (pb_dec_bytes E it st))
         else if t = PB_LTYPE_STRING then expect [PB_WT_STRING] (Some (pb_dec_string E it st))
         else if t = PB_LTYPE_SUBMESSAGE \<or> t = PB_LTYPE_SUBMSG_W_CB then expect [PB_WT_STRING] (pb_dec_submessage R E it st)
         else if t = PB_LTYPE_FIXED_LENGTH_BYTES then expect [PB_WT_STRING] (Some (pb_dec_fixed_length_bytes E it st))
         else Some (i_error ''invalid field type'' st))"

section \<open>Fields\<close>

text \<open>Operations that also move the iterator work on the pair of the state and the iterator.\<close>
type_synonym fst_it = "dst \<times> pb_field_iter"

definition with_iter :: "pb_field_iter \<Rightarrow> (bool \<times> dst) option \<Rightarrow> (bool \<times> fst_it) option" where
  "with_iter it r = map_option (\<lambda>(b, st). (b, (st, it))) r"

text \<open>\<open>*(pb_size_t * )field->pSize = v\<close> and \<open>*(bool * )field->pSize = v\<close>.\<close>
definition set_psize :: "nat \<Rightarrow> fst_it \<Rightarrow> fst_it" where
  "set_psize v x = (case x of ((m, s), it) \<Rightarrow> (case write_psize v m it of (m, it) \<Rightarrow> ((m, s), it)))"

definition set_psize_bool :: "bool \<Rightarrow> fst_it \<Rightarrow> fst_it" where
  "set_psize_bool v x = (case x of ((m, s), it) \<Rightarrow> (case write_psize_bool v m it of (m, it) \<Rightarrow> ((m, s), it)))"

definition get_psize :: "fst_it \<Rightarrow> nat" where
  "get_psize x = read_psize (fst (fst x)) (snd x)"

text \<open>The \<open>while\<close> loop over the entries of a packed array; the state holds the substream.\<close>
primrec packed_loop :: "nat \<Rightarrow> dec_ops \<Rightarrow> dec_env \<Rightarrow> fst_it \<Rightarrow> (bool \<times> fst_it) option" where
  "packed_loop 0 R E x = None"
| "packed_loop (Suc n) R E x =
     (if bytes_left (snd (fst x)) > 0 \<and> get_psize x < array_size (snd x) then
        (case decode_basic_field R E PB_WT_PACKED (snd x) (fst x) of
           None \<Rightarrow> None
         | Some (False, st) \<Rightarrow> Some (False, (st, snd x))
         | Some (True, st) \<Rightarrow>
             (let x1 = set_psize (wrap16 (get_psize (st, snd x) + 1)) (st, snd x)
              in packed_loop n R E (fst x1, advance_data (snd x1))))
      else Some (True, x))"

text \<open>\<open>field->pData = field->pField + field->data_size * *size\<close>.\<close>
definition at_array_end :: "fst_it \<Rightarrow> fst_it" where
  "at_array_end x = (fst x, (snd x)\<lparr>pData := pField (snd x) + data_size (snd x) * get_psize x\<rparr>)"

definition decode_packed :: "nat \<Rightarrow> dec_ops \<Rightarrow> dec_env \<Rightarrow> fst_it \<Rightarrow> (bool \<times> fst_it) option" where
  "decode_packed n R E x =
     (let x = at_array_end x in
      case pb_make_string_substream E (fst x) of
        (None, st) \<Rightarrow> Some (False, (st, snd x))
      | (Some sub, (m, s)) \<Rightarrow>
          (case packed_loop n R E ((m, sub), snd x) of
             None \<Rightarrow> None
           | Some (status, (sst, it)) \<Rightarrow>
               if bytes_left (snd sst) \<noteq> 0 then with_iter it (Some (i_error ''array overflow'' (fst sst, s)))
               else (case pb_close_string_substream E s sst of
                  (closed, st) \<Rightarrow> Some (closed \<and> status, (st, it)))))"

definition decode_array_entry :: "dec_ops \<Rightarrow> dec_env \<Rightarrow> nat \<Rightarrow> fst_it \<Rightarrow> (bool \<times> fst_it) option" where
  "decode_array_entry R E wire_type x =
     (let x = at_array_end x; count = get_psize x; full = (count \<ge> array_size (snd x)); x = set_psize (wrap16 (count + 1)) x
      in with_iter (snd x)
           (if full then Some (i_error ''array overflow'' (fst x)) else decode_basic_field R E wire_type (snd x) (fst x)))"

text \<open>Whether a submessage type has anything but zeros as defaults.\<close>
definition needs_defaults :: "pb_msgdesc \<Rightarrow> bool" where
  "needs_defaults d \<longleftrightarrow> default_value d \<noteq> NULL \<or> field_callback d \<noteq> 0 \<or> entry (submsg_info d) 0 \<noteq> 0"

text \<open>The defaults of the message of type \<open>d\<close> at \<open>a\<close>; nothing to do when it has no fields.\<close>
definition init_submessage :: "dec_ops \<Rightarrow> pb_msgdesc \<Rightarrow> addr \<Rightarrow> mem \<Rightarrow> (bool \<times> mem) option" where
  "init_submessage R d a m =
     (case pb_field_iter_begin m d a of
        (False, _) \<Rightarrow> Some (True, m)
      | (True, it) \<Rightarrow> map_option (\<lambda>(b, (m, it)). (b, m)) (defaults R (m, it)))"

definition clear_oneof :: "dec_ops \<Rightarrow> dec_env \<Rightarrow> pb_field_iter \<Rightarrow> mem \<Rightarrow> (bool \<times> mem) option" where
  "clear_oneof R E it m =
     (if PB_LTYPE_IS_SUBMSG (ftype it) \<and> read_psize m it \<noteq> tag it then
        (let m = mem_set m (pData it) 0 (data_size it)
         in if needs_defaults (drom E (submsg_desc it)) then init_submessage R (drom E (submsg_desc it)) (pData it) m else Some (True, m))
      else Some (True, m))"

definition decode_static_field :: "nat \<Rightarrow> dec_ops \<Rightarrow> dec_env \<Rightarrow> nat \<Rightarrow> fst_it \<Rightarrow> (bool \<times> fst_it) option" where
  "decode_static_field n R E wire_type x =
     (let it = snd x; h = PB_HTYPE (ftype it) in
      if h = PB_HTYPE_REQUIRED then with_iter it (decode_basic_field R E wire_type it (fst x))
      else if h = PB_HTYPE_OPTIONAL then
        (let x = set_psize_bool True x in with_iter (snd x) (decode_basic_field R E wire_type (snd x) (fst x)))
      else if h = PB_HTYPE_REPEATED then
        (if wire_type = PB_WT_STRING \<and> PB_LTYPE (ftype it) \<le> PB_LTYPE_LAST_PACKABLE then decode_packed n R E x
         else decode_array_entry R E wire_type x)
      else
        (case clear_oneof R E it (fst (fst x)) of
           None \<Rightarrow> None
         | Some (False, m) \<Rightarrow> with_iter it (Some (i_error ''failed to set defaults'' (m, snd (fst x))))
         | Some (True, m) \<Rightarrow>
             (let x = set_psize (tag it) ((m, snd (fst x)), it)
              in with_iter (snd x) (decode_basic_field R E wire_type (snd x) (fst x)))))"

definition decode_pointer_field :: "dst \<Rightarrow> bool \<times> dst" where
  "decode_pointer_field st = i_error ''no malloc support'' st"

text \<open>\<open>pb_default_field_callback (stream, NULL, field)\<close>, and the call of \<open>field_callback\<close>.\<close>
definition default_field_decode :: "dec_env \<Rightarrow> pb_field_iter \<Rightarrow> dst \<Rightarrow> bool \<times> dst" where
  "default_field_decode E it st =
     (if data_size it = 8 \<and> pData it \<noteq> NULL \<and> mem_ptr (fst st) (pData it) \<noteq> 0
      then user_decode E (mem_ptr (fst st) (pData it)) it (pData it + 4) st
      else (True, st))"

definition call_field_callback :: "dec_env \<Rightarrow> pb_field_iter \<Rightarrow> dst \<Rightarrow> bool \<times> dst" where
  "call_field_callback E it st =
     (if field_callback (descriptor it) = 1 then default_field_decode E it st
      else field_decode E (field_callback (descriptor it)) it st)"

text \<open>The callback is called again as long as it consumes some but not all of its input.\<close>
function callback_loop :: "dec_env \<Rightarrow> pb_field_iter \<Rightarrow> dst \<Rightarrow> bool \<times> dst" where
  "callback_loop E it st =
     (case call_field_callback E it st of
        (False, st') \<Rightarrow> (False, st')
      | (True, st') \<Rightarrow>
          if bytes_left (snd st') > 0 \<and> bytes_left (snd st') < bytes_left (snd st) then callback_loop E it st' else (True, st'))"
  by pat_completeness auto
termination by (relation "measure (\<lambda>(E, it, st). bytes_left (snd st))") auto

declare callback_loop.simps [simp del]

text \<open>A failed callback: the parent stream \<open>s\<close> gets the substream's message.\<close>
definition callback_failed :: "string \<Rightarrow> pb_istream \<Rightarrow> dst \<Rightarrow> bool \<times> dst" where
  "callback_failed msg s sst = i_error (case i_errmsg (snd sst) of None \<Rightarrow> msg | Some e \<Rightarrow> e) (fst sst, s)"

definition decode_callback_field :: "nat \<Rightarrow> dec_env \<Rightarrow> nat \<Rightarrow> fst_it \<Rightarrow> (bool \<times> fst_it) option" where
  "decode_callback_field n E wire_type x =
     (if field_callback (descriptor (snd x)) = 0 then with_iter (snd x) (pb_skip_field n E wire_type (fst x))
      else if wire_type = PB_WT_STRING then
        (case pb_make_string_substream E (fst x) of
           (None, st) \<Rightarrow> Some (False, (st, snd x))
         | (Some sub, (m, s)) \<Rightarrow>
             (let w_cb = (PB_LTYPE (ftype (snd x)) = PB_LTYPE_SUBMSG_W_CB \<and> pSize (snd x) \<noteq> PNull);
                  (sst, it) = (if w_cb then set_psize (tag (snd x)) ((m, sub), snd x) else ((m, sub), snd x));
                  (cb, arg) = message_callback (dec_stray E) (fst sst) it;
                  (ok1, sst) = (if w_cb \<and> cb \<noteq> 0 then user_decode E cb it arg sst else (True, sst))
              in if \<not> ok1 then with_iter it (Some (callback_failed ''submsg callback failed'' s sst))
                 else case callback_loop E it sst of
                   (False, sst) \<Rightarrow> with_iter it (Some (callback_failed ''callback failed'' s sst))
                 | (True, sst) \<Rightarrow> with_iter it (Some (pb_close_string_substream E s sst))))
      else
        (case read_raw_value E wire_type 10 (fst x) of
           (None, st) \<Rightarrow> Some (False, (st, snd x))
         | (Some buffer, (m, s)) \<Rightarrow>
             (case call_field_callback E (snd x) (m, local_istream buffer) of
                (b, (m, sub)) \<Rightarrow> Some (b, ((m, s), snd x)))))"

definition decode_field :: "nat \<Rightarrow> dec_ops \<Rightarrow> dec_env \<Rightarrow> nat \<Rightarrow> fst_it \<Rightarrow> (bool \<times> fst_it) option" where
  "decode_field n R E wire_type x =
     (let a = PB_ATYPE (ftype (snd x)) in
      if a = PB_ATYPE_STATIC then decode_static_field n R E wire_type x
      else if a = PB_ATYPE_POINTER then with_iter (snd x) (Some (decode_pointer_field (fst x)))
      else if a = PB_ATYPE_CALLBACK then decode_callback_field n E wire_type x
      else with_iter (snd x) (Some (i_error ''invalid field type'' (fst x))))"

section \<open>Extensions\<close>

definition default_extension_decoder :: "nat \<Rightarrow> dec_ops \<Rightarrow> dec_env \<Rightarrow> addr \<Rightarrow> nat \<Rightarrow> nat \<Rightarrow> dst \<Rightarrow> (bool \<times> dst) option" where
  "default_extension_decoder n R E ext t wire_type st =
     (case pb_field_iter_begin_extension (drom E) (fst st) ext of
        (False, _) \<Rightarrow> Some (i_error ''invalid extension'' st)
      | (True, it) \<Rightarrow>
          if tag it \<noteq> t \<or> message it = NULL then Some (True, st)
          else map_option (\<lambda>(b, (st, it)). (b, st)) (decode_field n R E wire_type (((fst st)(ext + 12 := 1), snd st), it)))"

text \<open>At most \<open>k\<close> extensions of the list are tried, until one has read from the stream, which was at \<open>pos\<close>.\<close>
primrec decode_extension_loop :: "nat \<Rightarrow> nat \<Rightarrow> nat \<Rightarrow> dec_ops \<Rightarrow> dec_env \<Rightarrow> nat \<Rightarrow> nat \<Rightarrow> addr \<Rightarrow> dst \<Rightarrow> (bool \<times> dst) option" where
  "decode_extension_loop 0 pos n R E t wire_type ext st =
     (if ext \<noteq> NULL \<and> pos = bytes_left (snd st) then None else Some (True, st))"
| "decode_extension_loop (Suc k) pos n R E t wire_type ext st =
     (if ext \<noteq> NULL \<and> pos = bytes_left (snd st) then
        seqo (let dec = mem_ptr (fst st) (ext_type (fst st) ext) in
              if dec \<noteq> 0 then Some (ext_decode E dec ext t wire_type st)
              else default_extension_decoder n R E ext t wire_type st)
          (\<lambda>st'. decode_extension_loop k pos n R E t wire_type (ext_next (fst st') ext) st')
      else Some (True, st))"

definition decode_extension :: "nat \<Rightarrow> dec_ops \<Rightarrow> dec_env \<Rightarrow> nat \<Rightarrow> nat \<Rightarrow> addr \<Rightarrow> dst \<Rightarrow> (bool \<times> dst) option" where
  "decode_extension n R E t wire_type ext st = decode_extension_loop n (bytes_left (snd st)) n R E t wire_type ext st"

section \<open>Default values\<close>

type_synonym mem_it = "mem \<times> pb_field_iter"

text \<open>The extensions of the list at \<open>ext\<close>, at most \<open>k\<close> of them.\<close>
primrec extension_defaults :: "nat \<Rightarrow> dec_ops \<Rightarrow> dec_env \<Rightarrow> addr \<Rightarrow> mem \<Rightarrow> (bool \<times> mem) option" where
  "extension_defaults 0 R E ext m = (if ext = NULL then Some (True, m) else None)"
| "extension_defaults (Suc k) R E ext m =
     (if ext = NULL then Some (True, m)
      else
        seqo (case pb_field_iter_begin_extension (drom E) m ext of
                (False, _) \<Rightarrow> Some (True, m)
              | (True, it) \<Rightarrow> map_option (\<lambda>(b, (m, it)). (b, m)) (defaults R (m(ext + 12 := 0), it)))
          (\<lambda>m'. extension_defaults k R E (ext_next m' ext) m'))"

definition pb_field_set_to_default :: "nat \<Rightarrow> dec_ops \<Rightarrow> dec_env \<Rightarrow> mem_it \<Rightarrow> (bool \<times> mem_it) option" where
  "pb_field_set_to_default n R E x =
     (let (m, it) = x; ty = ftype it in
      if PB_LTYPE ty = PB_LTYPE_EXTENSION then
        map_option (\<lambda>(b, m). (b, (m, it))) (extension_defaults n R E (mem_ptr m (pData it)) m)
      else if PB_ATYPE ty = PB_ATYPE_STATIC then
        (let (m, it) = (if PB_HTYPE ty = PB_HTYPE_OPTIONAL \<and> pSize it \<noteq> PNull then write_psize_bool False m it
                        else if PB_HTYPE ty = PB_HTYPE_REPEATED \<or> PB_HTYPE ty = PB_HTYPE_ONEOF then write_psize 0 m it
                        else (m, it));
             init_data = (PB_HTYPE ty \<noteq> PB_HTYPE_REPEATED \<and> PB_HTYPE ty \<noteq> PB_HTYPE_ONEOF)
         in if init_data then
              (if PB_LTYPE_IS_SUBMSG ty \<and> needs_defaults (drom E (submsg_desc it))
               then map_option (\<lambda>(b, m). (b, (m, it))) (init_submessage R (drom E (submsg_desc it)) (pData it) m)
               else Some (True, (mem_set m (pData it) 0 (data_size it), it)))
            else Some (True, (m, it)))
      else if PB_ATYPE ty = PB_ATYPE_POINTER then
        (let m = mem_write m (pField it) (nat_le 4 0)
         in if PB_HTYPE ty = PB_HTYPE_REPEATED \<or> PB_HTYPE ty = PB_HTYPE_ONEOF
            then Some (True, write_psize 0 m it) else Some (True, (m, it)))
      else Some (True, (m, it)))"

text \<open>
  One field of \<open>pb_message_set_to_defaults\<close>, given the tag and wire type that come next in the stream of
  default values, with those after it.
\<close>
definition set_field :: "nat \<Rightarrow> dec_ops \<Rightarrow> dec_env \<Rightarrow> nat \<times> nat \<Rightarrow> pb_istream \<Rightarrow> mem_it \<Rightarrow> (bool \<times> (nat \<times> nat) \<times> pb_istream \<times> mem_it) option" where
  "set_field n R E wt_tag defstream x =
     (case pb_field_set_to_default n R E x of
        None \<Rightarrow> None
      | Some (False, x) \<Rightarrow> Some (False, wt_tag, defstream, x)
      | Some (True, (m, it)) \<Rightarrow>
          (case wt_tag of (wire_type, t) \<Rightarrow>
             if t \<noteq> 0 \<and> tag it = t then
               (case decode_field n R E wire_type ((m, defstream), it) of
                  None \<Rightarrow> None
                | Some (False, ((m, s), it)) \<Rightarrow> Some (False, wt_tag, s, (m, it))
                | Some (True, (st, it)) \<Rightarrow>
                    (case pb_decode_tag E st of
                       (TagOk wire_type' t', (m, s)) \<Rightarrow> Some (True, (wire_type', t'), s, write_psize_bool False m it)
                     | (_, (m, s)) \<Rightarrow> Some (False, (0, 0), s, (m, it))))
             else Some (True, wt_tag, defstream, (m, it))))"

text \<open>
  The \<open>do\<close> loop over the fields for at most \<open>k\<close> rounds; the calls pass the number of fields, after which
  \<open>pb_field_iter_next\<close> says that it has come to the end.
\<close>
primrec defaults_loop :: "nat \<Rightarrow> nat \<Rightarrow> dec_ops \<Rightarrow> dec_env \<Rightarrow> nat \<times> nat \<Rightarrow> pb_istream \<Rightarrow> mem_it \<Rightarrow> (bool \<times> mem_it) option" where
  "defaults_loop 0 n R E wt_tag defstream x = None"
| "defaults_loop (Suc k) n R E wt_tag defstream x =
     (case set_field n R E wt_tag defstream x of
        None \<Rightarrow> None
      | Some (False, _, _, x) \<Rightarrow> Some (False, x)
      | Some (True, wt_tag, defstream, (m, it)) \<Rightarrow>
          (case pb_field_iter_next m it of
             (False, it) \<Rightarrow> Some (True, (m, it))
           | (True, it) \<Rightarrow> defaults_loop k n R E wt_tag defstream (m, it)))"

definition set_to_defaults :: "nat \<Rightarrow> dec_ops \<Rightarrow> dec_env \<Rightarrow> mem_it \<Rightarrow> (bool \<times> mem_it) option" where
  "set_to_defaults n R E x =
     (let (m, it) = x; run = defaults_loop (field_count (descriptor it)) n R E in
      if default_value (descriptor it) \<noteq> NULL then
        (case pb_decode_tag E (m, pb_istream_from_buffer (default_value (descriptor it)) 4294967295) of
           (TagOk wire_type t, (m, defstream)) \<Rightarrow> run (wire_type, t) defstream (m, it)
         | (_, (m, _)) \<Rightarrow> Some (False, (m, it)))
      else run (PB_WT_VARINT, 0) PB_ISTREAM_EMPTY (m, it))"

section \<open>Messages\<close>

text \<open>
  The local variables of \<open>pb_decode_inner\<close>; \<open>fixed_count_size\<close> is the iterator's \<open>fixed_count\<close>. There are
  \<open>PB_MAX_REQUIRED_FIELDS = 64\<close> bits for required fields, in two words.
\<close>
record inner_vars =
  iter :: pb_field_iter
  extension_range_start :: nat
  extensions :: addr
  fixed_count_field :: nat
  fixed_count_total_size :: nat
  fields_seen :: "u32 list"

text \<open>A tag that is not a field of the message: an extension field, or one to skip.\<close>
definition decode_unknown :: "nat \<Rightarrow> dec_ops \<Rightarrow> dec_env \<Rightarrow> nat \<Rightarrow> nat \<Rightarrow> inner_vars \<times> dst \<Rightarrow> (bool \<times> (inner_vars \<times> dst)) option" where
  "decode_unknown n R E wire_type t x =
     (let (L, st) = x;
          L = (if extension_range_start L = 0 then
                 (let (found, it) = pb_field_iter_find_extension (fst st) (iter L);
                      L = L\<lparr>iter := it\<rparr>;
                      L = (if found then L\<lparr>extensions := mem_ptr (fst st) (pData it), extension_range_start := tag it\<rparr> else L)
                  in if extensions L = NULL then L\<lparr>extension_range_start := 4294967295\<rparr> else L)
               else L)
      in case (if t \<ge> extension_range_start L then decode_extension n R E t wire_type (extensions L) st else Some (True, st)) of
           None \<Rightarrow> None
         | Some (False, st') \<Rightarrow> Some (False, (L, st'))
         | Some (True, st') \<Rightarrow>
             if bytes_left (snd st') \<noteq> bytes_left (snd st) then Some (True, (L, st'))
             else map_option (\<lambda>(b, st). (b, (L, st))) (pb_skip_field n E wire_type st'))"

text \<open>A repeated field without a counter of its own counts in \<open>fixed_count_size\<close>; \<open>None\<close> is an error.\<close>
definition track_fixed_count :: "inner_vars \<Rightarrow> inner_vars option" where
  "track_fixed_count L =
     (let it = iter L in
      if PB_HTYPE (ftype it) = PB_HTYPE_REPEATED \<and> pSize it = PArraySize then
        (if fixed_count_field L \<noteq> index it then
           (if fixed_count_field L \<noteq> PB_SIZE_MAX \<and> fixed_count it \<noteq> fixed_count_total_size L then None
            else Some (L\<lparr>iter := it\<lparr>fixed_count := 0, pSize := PFixedCount\<rparr>, fixed_count_field := index it,
                         fixed_count_total_size := array_size it\<rparr>))
         else Some (L\<lparr>iter := it\<lparr>pSize := PFixedCount\<rparr>\<rparr>))
      else Some L)"

definition mark_required :: "inner_vars \<Rightarrow> inner_vars" where
  "mark_required L =
     (let i = required_field_index (iter L) in
      if PB_HTYPE (ftype (iter L)) = PB_HTYPE_REQUIRED \<and> i < 64
      then L\<lparr>fields_seen := (fields_seen L)[i div 32 := fields_seen L ! (i div 32) OR push_bit (i mod 32) 1]\<rparr>
      else L)"

definition decode_known :: "nat \<Rightarrow> dec_ops \<Rightarrow> dec_env \<Rightarrow> nat \<Rightarrow> inner_vars \<times> dst \<Rightarrow> (bool \<times> (inner_vars \<times> dst)) option" where
  "decode_known n R E wire_type x =
     (case track_fixed_count (fst x) of
        None \<Rightarrow> Some (case i_error ''wrong size for fixed count field'' (snd x) of (b, st) \<Rightarrow> (b, (fst x, st)))
      | Some L \<Rightarrow>
          (let L = mark_required L in
           map_option (\<lambda>(b, (st, it)). (b, (L\<lparr>iter := it\<rparr>, st))) (decode_field n R E wire_type (snd x, iter L))))"

text \<open>
  The loop over the fields of the input, at most \<open>k\<close> of them. It succeeds with the end of the message;
  when it fails, so does \<open>pb_decode_inner\<close>.
\<close>
primrec inner_loop :: "nat \<Rightarrow> nat \<Rightarrow> dec_ops \<Rightarrow> dec_env \<Rightarrow> u32 \<Rightarrow> inner_vars \<times> dst \<Rightarrow> (bool \<times> (inner_vars \<times> dst)) option" where
  "inner_loop 0 n R E flags x = None"
| "inner_loop (Suc k) n R E flags x =
     (case pb_decode_tag E (snd x) of
        (TagEnd, st) \<Rightarrow> Some (True, (fst x, st))
      | (TagFail, st) \<Rightarrow> Some (False, (fst x, st))
      | (TagOk wire_type t, st) \<Rightarrow>
          if t = 0 then
            (if flags AND PB_DECODE_NULLTERMINATED \<noteq> 0 then Some (True, (fst x, st))
             else Some (case i_error ''zero tag'' st of (b, st) \<Rightarrow> (b, (fst x, st))))
          else
            (case pb_field_iter_find (fst st) t (iter (fst x)) of
               (found, it) \<Rightarrow>
                 seqo (if \<not> found \<or> PB_LTYPE (ftype it) = PB_LTYPE_EXTENSION
                       then decode_unknown n R E wire_type t ((fst x)\<lparr>iter := it\<rparr>, st)
                       else decode_known n R E wire_type ((fst x)\<lparr>iter := it\<rparr>, st))
                   (inner_loop k n R E flags)))"

text \<open>The check that all required fields were present.\<close>
definition required_present :: "inner_vars \<Rightarrow> bool" where
  "required_present L =
     (let req = min 64 (required_field_count (descriptor (iter L))); seen = fields_seen L in
      (\<forall>i \<in> set [0..<req div 32]. seen ! i = - 1) \<and> (req mod 32 \<noteq> 0 \<longrightarrow> seen ! (req div 32) = drop_bit (32 - req mod 32) (- 1)))"

definition decode_inner :: "nat \<Rightarrow> dec_ops \<Rightarrow> dec_env \<Rightarrow> pb_msgdesc \<Rightarrow> addr \<Rightarrow> u32 \<Rightarrow> dst \<Rightarrow> (bool \<times> dst) option" where
  "decode_inner n R E d dest flags st =
     (let (has, it) = pb_field_iter_begin (fst st) d dest in
      case (if has \<and> flags AND PB_DECODE_NOINIT = 0 then defaults R (fst st, it) else Some (True, (fst st, it))) of
        None \<Rightarrow> None
      | Some (False, (m, it)) \<Rightarrow> Some (i_error ''failed to set defaults'' (m, snd st))
      | Some (True, (m, it)) \<Rightarrow>
          (case inner_loop n n R E flags
              (\<lparr>iter = it, extension_range_start = 0, extensions = NULL, fixed_count_field = PB_SIZE_MAX,
                fixed_count_total_size = 0, fields_seen = [0, 0]\<rparr>, (m, snd st)) of
             None \<Rightarrow> None
           | Some (False, (L, st)) \<Rightarrow> Some (False, st)
           | Some (True, (L, st)) \<Rightarrow>
               if fixed_count_field L \<noteq> PB_SIZE_MAX \<and> fixed_count (iter L) \<noteq> fixed_count_total_size L
               then Some (i_error ''wrong size for fixed count field'' st)
               else if \<not> required_present L then Some (i_error ''missing required field'' st)
               else Some (True, st)))"

text \<open>Both functions for nesting up to \<open>n\<close>, each loop for up to \<open>n\<close> rounds.\<close>
primrec decoder :: "dec_env \<Rightarrow> nat \<Rightarrow> dec_ops" where
  "decoder E 0 = \<lparr>inner = (\<lambda>_ _ _ _. None), defaults = (\<lambda>_. None)\<rparr>"
| "decoder E (Suc n) = \<lparr>inner = decode_inner n (decoder E n) E, defaults = set_to_defaults n (decoder E n) E\<rparr>"

definition pb_message_set_to_defaults :: "nat \<Rightarrow> dec_env \<Rightarrow> mem_it \<Rightarrow> (bool \<times> mem_it) option" where
  "pb_message_set_to_defaults n E = defaults (decoder E n)"

definition pb_decode_inner :: "nat \<Rightarrow> dec_env \<Rightarrow> pb_msgdesc \<Rightarrow> addr \<Rightarrow> u32 \<Rightarrow> dst \<Rightarrow> (bool \<times> dst) option" where
  "pb_decode_inner n E = inner (decoder E n)"

definition pb_decode_ex :: "nat \<Rightarrow> dec_env \<Rightarrow> pb_msgdesc \<Rightarrow> addr \<Rightarrow> u32 \<Rightarrow> dst \<Rightarrow> (bool \<times> dst) option" where
  "pb_decode_ex n E d dest flags st =
     (if flags AND PB_DECODE_DELIMITED = 0 then pb_decode_inner n E d dest flags st
      else case pb_make_string_substream E st of
        (None, st) \<Rightarrow> Some (False, st)
      | (Some sub, (m, s)) \<Rightarrow>
          (case pb_decode_inner n E d dest flags (m, sub) of
             None \<Rightarrow> None
           | Some (status, sst) \<Rightarrow> (case pb_close_string_substream E s sst of (closed, st) \<Rightarrow> Some (closed \<and> status, st))))"

definition pb_decode :: "nat \<Rightarrow> dec_env \<Rightarrow> pb_msgdesc \<Rightarrow> addr \<Rightarrow> dst \<Rightarrow> (bool \<times> dst) option" where
  "pb_decode n E d dest st = pb_decode_ex n E d dest 0 st"

text \<open>Without \<open>PB_ENABLE_MALLOC\<close> there is nothing to release.\<close>
definition pb_release :: "pb_msgdesc \<Rightarrow> addr \<Rightarrow> mem \<Rightarrow> mem" where
  "pb_release d dest m = m"

end
