(* ===== verification/Pb_Depth.thy ===== *)
theory Pb_Depth
  imports Pb_Encode
begin

text \<open>
  How deep the encoder of nanopb has to descend: for message types whose submessages are nested to a bounded depth, every
  depth beyond it makes \<open>pb_encode\<close> return, whatever the message, the memory, the stream and the functions of the application are.
\<close>

section \<open>Nesting of message types\<close>

text \<open>
  Message types that are nested at most \<open>n\<close> deep: their fields are in tag order, none is an extension range, and the types of their
  submessages are nested less deep. Types that contain themselves through a pointer are not among them.
\<close>
primrec nests :: "nat \<Rightarrow> enc_env \<Rightarrow> pb_msgdesc \<Rightarrow> bool" where
  "nests 0 E d \<longleftrightarrow> False"
| "nests (Suc n) E d \<longleftrightarrow> desc_wf d \<and>
     (\<forall>k < field_count d. PB_LTYPE (type_at d k) \<noteq> PB_LTYPE_EXTENSION
        \<and> (PB_LTYPE_IS_SUBMSG (type_at d k) \<longrightarrow> nests n E (erom E (entry (submsg_info d) (sub_pos d k)))))"

text \<open>At a field, with its type and submessage loaded, whatever else the iterator holds.\<close>
definition at_field :: "pb_msgdesc \<Rightarrow> nat \<Rightarrow> pb_field_iter \<Rightarrow> bool" where
  "at_field d k it \<longleftrightarrow> positioned d k it \<and> ftype it = type_at d k
     \<and> submsg_desc it = (if PB_LTYPE_IS_SUBMSG (type_at d k) then entry (submsg_info d) (sub_pos d k) else 0)"

lemma loaded_at_field:
  assumes "loaded m d k it"
  shows "at_field d k it"
proof -
  have p: "positioned d k it" and l: "snd (load_descriptor_values m it) = it" using assms by (simp_all add: loaded_def)
  then have i: "index it < field_count (descriptor it)" by (simp add: positioned_def)
  note v = load_vals(3,6) [OF i, of m, unfolded l]
  have "type_of_iter it = type_at d k" using p by (simp add: positioned_def type_at_def word_at_def)
  with v p show ?thesis by (simp add: at_field_def positioned_def)
qed

lemma at_field_data [simp]: "at_field d k (advance_data it) = at_field d k it" "at_field d k (it\<lparr>pData := a\<rparr>) = at_field d k it"
  by (simp_all add: at_field_def positioned_def advance_data_def)

lemma at_field_begin: "fst (pb_field_iter_begin m d src) \<Longrightarrow> at_field d 0 (snd (pb_field_iter_begin m d src))"
  using begin_empty [of d m src] begin_loaded(2) [of d m src] by (intro loaded_at_field) auto

lemma at_field_next:
  assumes "at_field d k it" and "desc_wf d"
  shows "at_field d ((k + 1) mod field_count d) (snd (pb_field_iter_next m it))"
  using assms next_loaded(2) [of d k it m] by (intro loaded_at_field) (simp add: at_field_def)

section \<open>The encoder returns\<close>

definition returns :: "'a option \<Rightarrow> bool" where
  "returns r \<longleftrightarrow> r \<noteq> None"

lemma returns_simps [simp]: "returns (Some x)" "\<not> returns None" "returns (map_option g r) = returns r"
  by (simp_all add: returns_def)

lemma returnsE: "returns r \<Longrightarrow> (\<And>x. r = Some x \<Longrightarrow> thesis) \<Longrightarrow> thesis"
  by (auto simp: returns_def)

lemma returns_if [simp]: "returns (if c then x else y) \<longleftrightarrow> (if c then returns x else returns y)"
  by simp

lemma seqo_returns: "returns r \<Longrightarrow> (\<And>s. returns (k s)) \<Longrightarrow> returns (seqo r k)"
  by (auto simp: seqo_def elim!: returnsE)

lemma each_field_returns:
  assumes "\<And>k it st. at_field d k it \<Longrightarrow> returns (f it st)" and "desc_wf d" and "at_field d k it"
  shows "returns (each_field f mm it st)"
  using assms
proof (induction f mm it st arbitrary: k rule: each_field.induct)
  case (1 f mm it st)
  show ?case
  proof (subst each_field.simps, rule seqo_returns)
    show "returns (f it st)" by (rule 1(2) [OF 1(4)])
    show "returns (if fst (pb_field_iter_next (mm st') it) then each_field f mm (snd (pb_field_iter_next (mm st') it)) st' else Some (True, st'))" for st'
    proof (cases "fst (pb_field_iter_next (mm st') it)")
      case True
      show ?thesis unfolding if_P [OF True] by (rule 1(1) [OF True _ 1(3) at_field_next [OF 1(4,3)]]) (rule 1(2))
    qed simp
  qed
qed

lemma check_default_returns:
  assumes "nests k E d" and "at_field d j it" and "k \<le> n"
  shows "returns (pb_check_proto3_default_value n (erom E) m it)"
  using assms
proof (induction n arbitrary: k d j it)
  case (Suc n)
  obtain k' where k: "k = Suc k'" using Suc.prems(1) by (cases k) auto
  have j: "j < field_count d" "ftype it = type_at d j" using Suc.prems(2) by (simp_all add: at_field_def positioned_def)
  have sub: "nests k' E (erom E (submsg_desc it))" if "PB_LTYPE_IS_SUBMSG (ftype it)"
    using Suc.prems(1,2) j that by (simp add: k at_field_def)
  have e: "returns (each_field (\<lambda>it u. map_option (\<lambda>b. (b, u)) (pb_check_proto3_default_value n (erom E) m it)) (\<lambda>_. m) it' ())"
    if t: "PB_LTYPE_IS_SUBMSG (ftype it)" "at_field (erom E (submsg_desc it)) 0 it'" for it'
  proof (rule each_field_returns [OF _ _ t(2)])
    show "desc_wf (erom E (submsg_desc it))" using sub [OF t(1)] by (cases k') auto
    show "returns (map_option (\<lambda>b. (b, u)) (pb_check_proto3_default_value n (erom E) m it2))" if "at_field (erom E (submsg_desc it)) i it2" for i it2 u
      using Suc.IH [OF sub [OF t(1)] that] Suc.prems(3) by (simp add: k)
  qed
  have b: "returns (case pb_field_iter_begin m (erom E (submsg_desc it)) (pData it) of (False, _) \<Rightarrow> Some True
      | (True, it') \<Rightarrow> map_option fst (each_field (\<lambda>it u. map_option (\<lambda>b. (b, u)) (pb_check_proto3_default_value n (erom E) m it)) (\<lambda>_. m) it' ()))"
    if "PB_LTYPE_IS_SUBMSG (ftype it)"
    using at_field_begin [of m "erom E (submsg_desc it)" "pData it"] e [OF that]
    by (cases "pb_field_iter_begin m (erom E (submsg_desc it)) (pData it)") (auto split: bool.splits)
  show ?case unfolding pb_check_proto3_default_value.simps Let_def returns_if using b by simp
next
  case 0
  then show ?case by (cases k) simp_all
qed

text \<open>The recursive call returns on the submessage type of the field.\<close>
definition enc_returns :: "enc_rec \<Rightarrow> enc_env \<Rightarrow> pb_field_iter \<Rightarrow> bool" where
  "enc_returns enc E it \<longleftrightarrow> (PB_LTYPE_IS_SUBMSG (ftype it) \<longrightarrow> (\<forall>src st. returns (enc (erom E (submsg_desc it)) src st)))"

lemma enc_returns_data [simp]: "enc_returns enc E (advance_data it) = enc_returns enc E it" "enc_returns enc E (it\<lparr>pData := a\<rparr>) = enc_returns enc E it"
  by (simp_all add: enc_returns_def advance_data_def)

lemma returns_ifI: "returns x \<Longrightarrow> returns y \<Longrightarrow> returns (if c then x else y)"
  by simp

lemma returns_caseI: "returns r \<Longrightarrow> (\<And>x m s. returns (k x m s)) \<Longrightarrow> returns (case r of None \<Rightarrow> None | Some (x, m, s) \<Rightarrow> k x m s)"
  by (cases r) (auto split: prod.splits)

lemma submessage_returns:
  assumes "\<And>src st. returns (enc d src st)"
  shows "returns (pb_encode_submessage enc E d src st)"
proof -
  obtain b m sub where 1: "enc d src (fst st, PB_OSTREAM_SIZING) = Some (b, m, sub)"
    using assms [of src "(fst st, PB_OSTREAM_SIZING)"] by (metis returnsE prod_cases3)
  show ?thesis
  proof (cases b)
    case True
    with 1 have 1: "enc d src (fst st, PB_OSTREAM_SIZING) = Some (True, m, sub)" by simp
    show ?thesis unfolding pb_encode_submessage_def 1 option.case prod.case bool.case Let_def
      by (intro seqo_returns returns_ifI returns_caseI returns_simps(1) assms)
  qed (simp add: pb_encode_submessage_def 1)
qed

lemma enc_submessage_returns:
  assumes "enc_returns enc E it" and "PB_LTYPE_IS_SUBMSG (ftype it)"
  shows "returns (pb_enc_submessage enc E it st)"
proof -
  have "returns (pb_encode_submessage enc E (erom E (submsg_desc it)) a st')" for a st'
    using assms unfolding enc_returns_def by (intro submessage_returns) blast
  then show ?thesis unfolding pb_enc_submessage_def Let_def case_prod_beta by (auto intro!: seqo_returns)
qed

lemma basic_field_returns:
  assumes "enc_returns enc E it"
  shows "returns (encode_basic_field enc E it st)"
proof -
  have "PB_LTYPE_IS_SUBMSG (ftype it)" if "PB_LTYPE (ftype it) = PB_LTYPE_SUBMESSAGE \<or> PB_LTYPE (ftype it) = PB_LTYPE_SUBMSG_W_CB"
    using that by (auto simp: PB_LTYPE_IS_SUBMSG_def)
  with enc_submessage_returns [OF assms] show ?thesis
    unfolding encode_basic_field_def Let_def by (auto intro!: seqo_returns)
qed

lemma array_loop_returns:
  assumes "\<And>it st. P it \<Longrightarrow> returns (f it st)" and "\<And>it. P it \<Longrightarrow> P (advance_data it)" and "P it"
  shows "returns (array_loop f n it st)"
  using assms(3)
proof (induction n arbitrary: it st)
  case (Suc n)
  show ?case unfolding array_loop.simps by (rule seqo_returns) (use assms(1,2) Suc in blast)+
qed simp

lemma encode_array_returns:
  assumes "enc_returns enc E it"
  shows "returns (encode_array enc E it st)"
proof -
  have p: "returns (array_loop (packed_element E) n it st)" for n st
    by (rule array_loop_returns [where P = "\<lambda>_. True"]) (simp_all add: packed_element_def)
  have "returns (unpacked_element enc E it st)" if "enc_returns enc E it" for it st
    unfolding unpacked_element_def Let_def using basic_field_returns that by (auto intro!: seqo_returns)
  then have u: "returns (array_loop (unpacked_element enc E) n it st)" for n st
    by (rule array_loop_returns [where P = "enc_returns enc E"]) (use assms in simp_all)
  have "returns (case packed_size E n it m of Inl msg \<Rightarrow> Some (o_error msg st') | Inr k \<Rightarrow>
      seqo (Some (pb_encode_varint E (of_nat k) st')) (\<lambda>st. if o_callback (snd st) = OcNull then Some (pb_write E [] k st) else array_loop (packed_element E) n it st))" for n m st'
    by (cases "packed_size E n it m") (auto intro!: seqo_returns p)
  then show ?thesis
    unfolding encode_array_def Let_def by (auto intro!: seqo_returns u)
qed

lemma encode_field_returns:
  assumes "enc_returns enc E it" and "returns (pb_check_proto3_default_value n (erom E) (fst st) it)"
  shows "returns (encode_field enc n E it st)"
proof -
  have "returns (field_present n E it (fst st))" using assms(2) by (simp add: field_present_def)
  then obtain b where "field_present n E it (fst st) = Some b" by (rule returnsE)
  then show ?thesis using encode_array_returns [OF assms(1)] basic_field_returns [OF assms(1)]
    by (cases b) (simp_all add: encode_field_def)
qed

text \<open>For such types the depth suffices.\<close>
lemma pb_encode_returns:
  assumes "nests k E d" and "k < n"
  shows "returns (pb_encode n E d src st)"
  using assms
proof (induction n arbitrary: k d src st)
  case (Suc n)
  obtain k' where k: "k = Suc k'" using Suc.prems(1) by (cases k) auto
  have wf: "desc_wf d" using Suc.prems(1) by (simp add: k)
  have f: "returns (encode_message_field (pb_encode n E) n E it st)" if "at_field d j it" for j it st
  proof -
    have j: "j < field_count d" "ftype it = type_at d j" using that by (simp_all add: at_field_def positioned_def)
    then have ext: "PB_LTYPE (ftype it) \<noteq> PB_LTYPE_EXTENSION" using Suc.prems(1) by (simp add: k)
    have "nests k' E (erom E (submsg_desc it))" if "PB_LTYPE_IS_SUBMSG (ftype it)"
      using Suc.prems(1) j \<open>at_field d j it\<close> that by (simp add: k at_field_def)
    then have "enc_returns (pb_encode n E) E it" unfolding enc_returns_def using Suc.IH Suc.prems(2) k by auto
    moreover have "returns (pb_check_proto3_default_value n (erom E) (fst st) it)"
      using Suc.prems(2) by (intro check_default_returns [OF Suc.prems(1) that]) simp
    ultimately show ?thesis using ext by (simp add: encode_message_field_def encode_field_returns)
  qed
  have e: "returns (each_field (encode_message_field (pb_encode n E) n E) fst it st)" if "at_field d 0 it" for it
    by (rule each_field_returns [OF _ wf that]) (rule f)
  show ?case
    using at_field_begin [of "fst st" d src] e
    by (cases "pb_field_iter_begin (fst st) d src") (auto split: bool.splits)
qed simp

end
