(* ===== verification/Pb_Encode_Correct.thy ===== *)
theory Pb_Encode_Correct
  imports Pb_Depth
begin

unbundle bit_operations_syntax

text \<open>
  Correctness of the encoder: integers are written as base-128 varints, and whatever the message and
  its descriptor, encoding into a buffer stays inside that buffer and accounts for every byte.
\<close>

section \<open>Varints\<close>

text \<open>The wire format of an unsigned integer: seven bits a byte, least significant first.\<close>
fun varint :: "nat \<Rightarrow> bytes" where
  "varint n = (if n < 128 then [of_nat n] else (of_nat (n mod 128) OR 0x80) # varint (n div 128))"

declare varint.simps [simp del]

lemma length_varint: "n < 128 ^ Suc k \<Longrightarrow> length (varint n) \<le> Suc k"
proof (induction k arbitrary: n)
  case 0
  then show ?case by (simp add: varint.simps [of n])
next
  case (Suc k)
  have "n div 128 < 128 ^ Suc k" using Suc.prems by (simp add: less_mult_imp_div_less mult.commute)
  with Suc.IH show ?case by (simp add: varint.simps [of n])
qed

lemma varint_ne [simp]: "varint n \<noteq> []"
  by (simp add: varint.simps [of n])

lemma byte_eq: "unat (b :: byte) = n \<Longrightarrow> b = of_nat n"
  by auto

lemma varint_step:
  assumes "unat b < 128" and "0 < r"
  shows "varint (unat (b :: byte) + 128 * r) = (b OR 0x80) # varint r"
proof -
  have "(unat b + 128 * r) mod 128 = unat b" and "(unat b + 128 * r) div 128 = r" using assms(1) by simp_all
  with assms show ?thesis by (subst varint.simps) simp
qed

lemma varint_last: "unat (b :: byte) < 128 \<Longrightarrow> varint (unat b) = [b]"
  by (subst varint.simps) simp

lemma unat_low7: "unat (ucast (x AND 0x7F :: u32) :: byte) = unat x mod 128"
proof -
  have "(0x7F :: u32) = mask 7" by (simp add: mask_eq_exp_minus_1)
  then have "unat (x AND 0x7F) = unat x mod 128" using unat_and_mask [of x 7] by simp
  moreover have "unat x mod 128 < 256" by (rule order.strict_trans [OF mod_less_divisor]) simp_all
  ultimately show ?thesis by (simp add: unsigned_ucast_eq take_bit_eq_mod)
qed

lemma varint_high_spec:
  assumes "unat b < 128"
  shows "fst (varint_high b high buffer) @ [snd (varint_high b high buffer)] = buffer @ varint (unat b + 128 * unat high)"
  using assms
proof (induction b high buffer rule: varint_high.induct)
  case (1 b high buffer)
  show ?case
  proof (cases "high = 0")
    case True
    then show ?thesis using 1 by (subst (1 2) varint_high.simps) (simp add: varint_last)
  next
    case False
    then have nz: "0 < unat high" by (simp add: unat_gt_0)
    have d: "unat (drop_bit 7 high) = unat high div 128" by (simp add: unat_drop_bit_u32)
    have "fst (varint_high b high buffer) @ [snd (varint_high b high buffer)] =
        buffer @ [b OR 0x80] @ varint (unat high mod 128 + 128 * (unat high div 128))"
      using 1(1) [OF False] unat_low7 [of high] d False by (subst (1 2) varint_high.simps) simp
    then show ?thesis using varint_step [OF 1(2) nz] by simp
  qed
qed

lemma varint_low_stop: "fst (varint_low 4 b low high buffer) = buffer" "snd (varint_low 4 b low high buffer) = b"
  by (simp_all add: varint_low.simps [of 4])

text \<open>With a zero high word the loop writes the whole number.\<close>
lemma varint_low_spec0:
  assumes "unat b < 128" and "k \<le> 4" and "unat low < 2 ^ (7 * k)"
  shows "fst (varint_low (4 - k) b low 0 buffer) @ [snd (varint_low (4 - k) b low 0 buffer)] = buffer @ varint (unat b + 128 * unat low)"
  using assms
proof (induction k arbitrary: b low buffer)
  case 0
  then show ?case by (simp add: varint_low_stop varint_last)
next
  case (Suc k)
  have i: "4 - Suc k < 4" "4 - Suc k + 1 = 4 - k" using Suc.prems(2) by auto
  show ?case
  proof (cases "low = 0")
    case True
    then show ?thesis using Suc.prems by (subst (1 2) varint_low.simps) (simp add: varint_last)
  next
    case False
    then have nz: "0 < unat low" by (simp add: unat_gt_0)
    have d: "unat (drop_bit 7 low) = unat low div 128" by (simp add: unat_drop_bit_u32)
    have "unat low div 128 < 2 ^ (7 * k)"
      using Suc.prems(3) by (intro less_mult_imp_div_less) (simp add: power_add mult.commute)
    with Suc.IH [of "ucast (low AND 0x7F)" "drop_bit 7 low" "buffer @ [b OR 0x80]"] Suc.prems(2) unat_low7 [of low] d i False
    have "fst (varint_low (4 - Suc k) b low 0 buffer) @ [snd (varint_low (4 - Suc k) b low 0 buffer)] =
        buffer @ [b OR 0x80] @ varint (unat low mod 128 + 128 * (unat low div 128))"
      by (subst (1 2) varint_low.simps) simp
    then show ?thesis using varint_step [OF Suc.prems(1) nz] by simp
  qed
qed

text \<open>With a non-zero high word it writes four groups and keeps four bits.\<close>
lemma varint_low_spec1:
  assumes "high \<noteq> 0" and "k \<le> 4" and "unat b < 128" and "unat b + 128 * unat low < 2 ^ (4 + 7 * k)"
  shows "\<exists>pre b'. varint_low (4 - k) b low high buffer = (buffer @ pre, b') \<and> unat b' < 16
    \<and> (\<forall>h > 0. varint (unat b + 128 * unat low + 2 ^ (4 + 7 * k) * h) = pre @ varint (unat b' + 16 * h))"
  using assms(2-)
proof (induction k arbitrary: b low buffer)
  case 0
  then have "unat low = 0" by simp
  with 0 show ?case by (auto simp: varint_low.simps [of 4])
next
  case (Suc k)
  have i: "4 - Suc k < 4" "4 - Suc k + 1 = 4 - k" using Suc.prems(1) by auto
  have d: "unat (drop_bit 7 low) = unat low div 128" by (simp add: unat_drop_bit_u32)
  have l: "unat low < 2 ^ (4 + 7 * k)"
  proof -
    have "128 * unat low < 128 * 2 ^ (4 + 7 * k)" using Suc.prems(3) by (simp add: power_add)
    then show ?thesis by simp
  qed
  from Suc.IH [of "ucast (low AND 0x7F)" "drop_bit 7 low" "buffer @ [b OR 0x80]"] Suc.prems(1) unat_low7 [of low] d l
  obtain pre b' where p: "varint_low (4 - k) (ucast (low AND 0x7F)) (drop_bit 7 low) high (buffer @ [b OR 0x80]) = ((buffer @ [b OR 0x80]) @ pre, b')"
    "unat b' < 16" "\<And>h. h > 0 \<Longrightarrow> varint (unat low + 2 ^ (4 + 7 * k) * h) = pre @ varint (unat b' + 16 * h)"
    by auto
  have "varint_low (4 - Suc k) b low high buffer = (buffer @ (b OR 0x80) # pre, b')"
    using p(1) i assms(1) by (subst varint_low.simps) simp
  moreover have "varint (unat b + 128 * unat low + 2 ^ (4 + 7 * Suc k) * h) = (b OR 0x80) # pre @ varint (unat b' + 16 * h)" if "h > 0" for h
  proof -
    have eq: "unat b + 128 * unat low + 2 ^ (4 + 7 * Suc k) * h = unat b + 128 * (unat low + 2 ^ (4 + 7 * k) * h)"
      by (simp add: power_add algebra_simps)
    have "0 < unat low + 2 ^ (4 + 7 * k) * h" using that by simp
    from varint_step [OF Suc.prems(2) this] p(3) [OF that] show ?thesis unfolding eq by simp
  qed
  ultimately show ?case using p(2) by auto
qed

lemma varint_32_bytes_eq: "varint_32_bytes low high = varint (unat low + 4294967296 * unat high)"
proof -
  let ?b = "ucast (low AND 0x7F) :: byte" and ?l = "drop_bit 7 low"
  have b: "unat ?b = unat low mod 128" "unat ?b < 128" "unat ?l = unat low div 128"
    by (simp_all add: unat_low7 unat_drop_bit_u32)
  have lim: "unat low < 4294967296" using unsigned_less [of low, where ?'a = nat] by simp
  show ?thesis
  proof (cases "high = 0")
    case True
    have "unat low div 128 < 2 ^ (7 * 4)" using lim by (simp add: less_mult_imp_div_less)
    with varint_low_spec0 [OF b(2), of 4 ?l "[]"] b True show ?thesis
      by (simp add: varint_32_bytes_def Let_def case_prod_beta)
  next
    case False
    then obtain pre b' where p: "varint_low 0 ?b ?l high [] = (pre, b')" "unat b' < 16"
      "\<And>h. h > 0 \<Longrightarrow> varint (unat low + 4294967296 * h) = pre @ varint (unat b' + 16 * h)"
      using varint_low_spec1 [OF False, of 4 ?b ?l "[]"] b lim by auto
    let ?c = "b' OR ucast (push_bit 4 (high AND 0x07))"
    have "unat (push_bit 4 (high AND 0x07)) = unat high mod 8 * 16"
    proof -
      have "(0x07 :: u32) = mask 3" by (simp add: mask_eq_exp_minus_1)
      then have "unat (high AND 0x07) = unat high mod 8" using unat_and_mask [of high 3] by simp
      moreover have "unat high mod 8 * 16 < 4294967296" by (rule order.strict_trans [of _ "8 * 16"]) simp_all
      ultimately show ?thesis using unat_push_bit_u32 [of "high AND 0x07" 4] by (simp only: ) simp
    qed
    moreover have "unat high mod 8 * 16 < 128" using mod_less_divisor [of 8 "unat high"] by simp
    ultimately have u: "unat (ucast (push_bit 4 (high AND 0x07)) :: byte) = unat high mod 8 * 16"
      by (simp add: unsigned_ucast_eq take_bit_eq_mod)
    have "unat ?c = unat b' + unat high mod 8 * 16"
      using unat_or_add [of b' 4 "ucast (push_bit 4 (high AND 0x07))"] p(2) unfolding u by simp
    moreover have "unat high mod 8 \<le> 7" using mod_less_divisor [of 8 "unat high"] by linarith
    moreover have "16 * unat high = 16 * (unat high mod 8) + 128 * (unat high div 8)"
      using div_mult_mod_eq [of "unat high" 8] by linarith
    ultimately have c: "unat ?c < 128" "unat ?c + 128 * (unat high div 8) = unat b' + 16 * unat high"
      using p(2) by simp_all
    have "unat (drop_bit 3 high) = unat high div 8" by (simp add: unat_drop_bit_u32)
    with varint_high_spec [OF c(1), of "drop_bit 3 high" pre] c(2) p(1,3) False show ?thesis
      by (simp add: varint_32_bytes_def Let_def case_prod_beta unat_gt_0)
  qed
qed

lemma unat_u64_less: "unat (v :: u64) < 18446744073709551616"
  using unsigned_less [of v, where ?'a = nat] by simp

lemma pb_encode_varint_eq: "pb_encode_varint E v st = pb_write E (varint (unat v)) (length (varint (unat v))) st"
proof (cases "v \<le> 0x7F")
  case True
  then have "unat v < 128" by (simp add: word_le_nat_alt)
  then have "varint (unat v) = [ucast v]" by (subst varint.simps) simp
  with True show ?thesis by (simp add: pb_encode_varint_def)
next
  case False
  have "unat (ucast v :: u32) = unat v mod 4294967296" by (simp add: unsigned_ucast_eq take_bit_eq_mod)
  moreover have "unat (ucast (drop_bit 32 v) :: u32) = unat v div 4294967296"
  proof -
    have "unat (drop_bit 32 v) = unat v div 4294967296"
      unfolding unsigned_drop_bit_eq using unat_u64_less [of v] by (simp add: drop_bit_eq_div take_bit_eq_mod)
    moreover have "unat v div 4294967296 < 4294967296" using unat_u64_less [of v] by (simp add: less_mult_imp_div_less)
    ultimately show ?thesis by (simp add: unsigned_ucast_eq take_bit_eq_mod)
  qed
  ultimately have "varint_32_bytes (ucast v) (ucast (drop_bit 32 v)) = varint (unat v)"
    by (simp only: varint_32_bytes_eq mod_mult_div_eq)
  with False show ?thesis by (simp add: pb_encode_varint_def pb_encode_varint_32_def Let_def)
qed

text \<open>
  C28. The two loops of \<open>pb_encode_varint_32\<close> over the halves of a 64-bit value, and the quick case in front of
  them, write exactly the base-128 representation of the value: seven bits a byte, least significant
  group first, bit 7 set on all bytes but the last.
\<close>
theorem pb_encode_varint_bytes:
  "pb_encode_varint E v st = pb_write E (varint (unat v)) (length (varint (unat v))) st"
  by (rule pb_encode_varint_eq)

lemma length_varint_u64: "length (varint (unat (v :: u64))) \<le> 10"
  using length_varint [of "unat v" 9] unat_u64_less [of v] by simp

section \<open>Staying inside the buffer\<close>

text \<open>
  What an operation may do to memory and stream: a sizing stream leaves memory alone; a buffer stream
  that has not exceeded its limit does not exceed it, has advanced its pointer by the bytes it counted,
  and has changed only the memory in between.
\<close>
definition confined :: "est \<Rightarrow> est \<Rightarrow> bool" where
  "confined st st' \<longleftrightarrow>
     o_callback (snd st') = o_callback (snd st) \<and> max_size (snd st') = max_size (snd st)
     \<and> (o_callback (snd st) = OcNull \<longrightarrow> fst st' = fst st)
     \<and> (o_callback (snd st) = OcBuf \<and> bytes_written (snd st) \<le> max_size (snd st) \<and> max_size (snd st) \<le> 2147483648 \<longrightarrow>
          bytes_written (snd st) \<le> bytes_written (snd st') \<and> bytes_written (snd st') \<le> max_size (snd st)
          \<and> o_state (snd st') = o_state (snd st) + (bytes_written (snd st') - bytes_written (snd st))
          \<and> mem_frame {o_state (snd st)..<o_state (snd st')} (fst st) (fst st'))"

named_theorems confined_intros \<open>operations that stay inside the buffer\<close>

lemma confined_refl [simp, confined_intros]: "confined st st"
  by (simp add: confined_def)

lemma confined_buf:
  assumes "confined st st'" and "o_callback (snd st) = OcBuf" and "bytes_written (snd st) \<le> max_size (snd st)" and "max_size (snd st) \<le> 2147483648"
  shows "bytes_written (snd st) \<le> bytes_written (snd st')" "bytes_written (snd st') \<le> max_size (snd st)"
    "o_state (snd st') = o_state (snd st) + (bytes_written (snd st') - bytes_written (snd st))"
    "mem_frame {o_state (snd st)..<o_state (snd st')} (fst st) (fst st')"
  using assms unfolding confined_def by blast+

lemma confined_ctl:
  "confined st st' \<Longrightarrow> o_callback (snd st') = o_callback (snd st)" "confined st st' \<Longrightarrow> max_size (snd st') = max_size (snd st)"
  "confined st st' \<Longrightarrow> o_callback (snd st) = OcNull \<Longrightarrow> fst st' = fst st"
  by (simp_all add: confined_def)

lemma confinedI:
  assumes "o_callback (snd st') = o_callback (snd st)" and "max_size (snd st') = max_size (snd st)"
    and "o_callback (snd st) = OcNull \<Longrightarrow> fst st' = fst st"
    and "o_callback (snd st) = OcBuf \<Longrightarrow> bytes_written (snd st) \<le> max_size (snd st) \<Longrightarrow> max_size (snd st) \<le> 2147483648 \<Longrightarrow>
      bytes_written (snd st) \<le> bytes_written (snd st') \<and> bytes_written (snd st') \<le> max_size (snd st)
      \<and> o_state (snd st') = o_state (snd st) + (bytes_written (snd st') - bytes_written (snd st))
      \<and> mem_frame {o_state (snd st)..<o_state (snd st')} (fst st) (fst st')"
  shows "confined st st'"
  using assms unfolding confined_def by blast

lemma confined_trans:
  assumes "confined a b" and "confined b c"
  shows "confined a c"
proof (rule confinedI)
  assume a: "o_callback (snd a) = OcBuf" "bytes_written (snd a) \<le> max_size (snd a)" "max_size (snd a) \<le> 2147483648"
  note ab = confined_buf [OF assms(1) a]
  have b: "o_callback (snd b) = OcBuf" "bytes_written (snd b) \<le> max_size (snd b)" "max_size (snd b) \<le> 2147483648"
    using ab(2) a confined_ctl [OF assms(1)] by simp_all
  note bc = confined_buf [OF assms(2) b]
  have "mem_frame {o_state (snd a)..<o_state (snd c)} (fst a) (fst c)"
    by (rule mem_frame_trans [OF mem_frame_mono [OF ab(4)] mem_frame_mono [OF bc(4)]]) (use ab(3) bc(3) in auto)
  then show "bytes_written (snd a) \<le> bytes_written (snd c) \<and> bytes_written (snd c) \<le> max_size (snd a)
      \<and> o_state (snd c) = o_state (snd a) + (bytes_written (snd c) - bytes_written (snd a))
      \<and> mem_frame {o_state (snd a)..<o_state (snd c)} (fst a) (fst c)"
    using ab(1-3) bc(1-3) confined_ctl [OF assms(1)] by simp
qed (use confined_ctl [OF assms(1)] confined_ctl [OF assms(2)] in simp_all)

lemma confined_error [simp]: "confined st (snd (o_error msg st'))  = confined st st'" "\<not> fst (o_error msg st')"
  by (simp_all add: confined_def o_error_def o_set_error_def)

lemma confined_seq [confined_intros]:
  assumes "confined st (snd r)" and "\<And>st'. confined st' (snd (k st'))"
  shows "confined st (snd (seq r k))"
  using assms confined_trans by (auto simp: seq_def)

text \<open>The same for operations that may run out of depth.\<close>
definition ok :: "est \<Rightarrow> (bool \<times> est) option \<Rightarrow> bool" where
  "ok st r \<longleftrightarrow> (\<forall>b st'. r = Some (b, st') \<longrightarrow> confined st st')"

lemma ok_Some [simp]: "ok st (Some r) \<longleftrightarrow> confined st (snd r)"
  by (cases r) (simp add: ok_def)

lemma ok_None [simp]: "ok st None"
  by (simp add: ok_def)

lemma ok_seqo [confined_intros]:
  assumes "ok st r" and "\<And>st'. confined st st' \<Longrightarrow> ok st' (k st')"
  shows "ok st (seqo r k)"
proof (cases r)
  case (Some p)
  obtain b st' where p: "p = (b, st')" by (rule prod.exhaust)
  with Some assms have "confined st st'" "ok st' (k st')" by simp_all
  then show ?thesis using Some p confined_trans by (auto simp: seqo_def ok_def)
qed (simp add: seqo_def)

text \<open>The functions of the application keep to the rule, as they must by writing through \<open>pb_write\<close>.\<close>
definition env_ok :: "enc_env \<Rightarrow> bool" where
  "env_ok E \<longleftrightarrow>
     (\<forall>k bs st. o_callback (snd st) = OcUser k \<longrightarrow> confined st (snd (stream_write E k bs st)))
     \<and> (\<forall>k it st. confined st (snd (field_encode E k it st)))
     \<and> (\<forall>k it a st. confined st (snd (user_encode E k it a st)))
     \<and> (\<forall>k e st. confined st (snd (ext_encode E k e st)))"

lemma confined_buf_write:
  assumes "o_callback (snd st) = OcBuf" and "length bs = n" and "bytes_written (snd st) + n \<le> max_size (snd st)"
  shows "confined st (mem_write (fst st) (o_state (snd st)) bs,
    (snd st)\<lparr>o_state := o_state (snd st) + n, bytes_written := bytes_written (snd st) + n\<rparr>)"
  by (rule confinedI) (use assms in auto)

lemma confined_pb_write [confined_intros]:
  assumes "env_ok E" and "length bs = n \<or> o_callback (snd st) = OcNull" and "n < 4294967296"
  shows "confined st (snd (pb_write E bs n st))"
proof (cases "o_callback (snd st)")
  case OcNull
  then show ?thesis by (simp add: pb_write_def confined_def case_prod_beta Let_def)
next
  case (OcUser k)
  then have "confined st (snd (stream_write E k bs st))" using assms(1) unfolding env_ok_def by blast
  with OcUser show ?thesis
    by (auto simp: pb_write_def confined_def case_prod_beta Let_def call_stream_def o_error_def o_set_error_def split: prod.splits bool.splits)
next
  case OcBuf
  show ?thesis
  proof (cases "n = 0 \<or> wrap32 (bytes_written (snd st) + n) < bytes_written (snd st) \<or> wrap32 (bytes_written (snd st) + n) > max_size (snd st)")
    case True
    then show ?thesis
      using OcBuf by (intro confinedI) (auto simp: pb_write_def case_prod_beta Let_def o_error_def o_set_error_def)
  next
    case False
    have w: "pb_write E bs n st = (True, mem_write (fst st) (o_state (snd st)) bs,
        (snd st)\<lparr>o_state := o_state (snd st) + n, bytes_written := wrap32 (bytes_written (snd st) + n)\<rparr>)"
      using False OcBuf assms(2) by (auto simp: pb_write_def case_prod_beta Let_def call_stream_def buf_write_def)
    show ?thesis
    proof (rule confinedI)
      assume lim: "bytes_written (snd st) \<le> max_size (snd st)" "max_size (snd st) \<le> 2147483648"
      have "bytes_written (snd st) + n < 4294967296"
      proof (rule ccontr)
        assume "\<not> bytes_written (snd st) + n < 4294967296"
        then have "wrap32 (bytes_written (snd st) + n) = bytes_written (snd st) + n - 4294967296"
          using lim assms(3) by (simp add: mod_if)
        then show False using False assms(3) \<open>\<not> bytes_written (snd st) + n < 4294967296\<close> by linarith
      qed
      then have "wrap32 (bytes_written (snd st) + n) = bytes_written (snd st) + n" by simp
      then show "bytes_written (snd st) \<le> bytes_written (snd (snd (pb_write E bs n st)))
          \<and> bytes_written (snd (snd (pb_write E bs n st))) \<le> max_size (snd st)
          \<and> o_state (snd (snd (pb_write E bs n st))) = o_state (snd st) + (bytes_written (snd (snd (pb_write E bs n st))) - bytes_written (snd st))
          \<and> mem_frame {o_state (snd st)..<o_state (snd (snd (pb_write E bs n st)))} (fst st) (fst (snd (pb_write E bs n st)))"
        unfolding w using False assms(2) OcBuf by auto
    qed (use OcBuf w in simp_all)
  qed
qed

lemma confined_varint [confined_intros]: "env_ok E \<Longrightarrow> confined st (snd (pb_encode_varint E v st))"
  unfolding pb_encode_varint_eq using length_varint_u64 [of v] by (intro confined_pb_write) auto

lemma confined_string [confined_intros]:
  "env_ok E \<Longrightarrow> length bs = n \<Longrightarrow> n < 4294967296 \<Longrightarrow> confined st (snd (pb_encode_string E bs n st))"
  unfolding pb_encode_string_def by (intro confined_intros) auto

lemma confined_tag [confined_intros]: "env_ok E \<Longrightarrow> confined st (snd (pb_encode_tag E w n st))"
  unfolding pb_encode_tag_def by (intro confined_intros)

lemma confined_tag_for_field [confined_intros]: "env_ok E \<Longrightarrow> confined st (snd (pb_encode_tag_for_field E it st))"
  unfolding pb_encode_tag_for_field_def by (auto intro: confined_intros split: option.splits)

lemma confined_enc_bool [confined_intros]: "env_ok E \<Longrightarrow> confined st (snd (pb_enc_bool E it st))"
  unfolding pb_enc_bool_def by (intro confined_intros)

lemma confined_enc_varint [confined_intros]: "env_ok E \<Longrightarrow> confined st (snd (pb_enc_varint E it st))"
  unfolding pb_enc_varint_def pb_encode_svarint_def by (auto intro: confined_intros)

lemma confined_enc_fixed [confined_intros]: "env_ok E \<Longrightarrow> confined st (snd (pb_enc_fixed E it st))"
  unfolding pb_enc_fixed_def pb_encode_fixed32_def pb_encode_fixed64_def by (auto intro: confined_intros)

lemma confined_enc_bytes [confined_intros]: "env_ok E \<Longrightarrow> confined st (snd (pb_enc_bytes E it st))"
proof -
  assume E: "env_ok E"
  have "le_nat (mem_read (fst st) (pData it) 2) < 65536"
    using le_nat_bound [of "mem_read (fst st) (pData it) 2"] by simp
  with E show ?thesis unfolding pb_enc_bytes_def Let_def by (auto intro!: confined_intros)
qed

lemma strnlen_le: "n \<le> k \<Longrightarrow> strnlen m p n k \<le> k"
  by (induction m p n k rule: strnlen.induct) (subst strnlen.simps, auto)

definition it_ok :: "pb_field_iter \<Rightarrow> bool" where
  "it_ok it \<longleftrightarrow> data_size it < 65536"

lemma confined_enc_string [confined_intros]: "env_ok E \<Longrightarrow> it_ok it \<Longrightarrow> confined st (snd (pb_enc_string E it st))"
proof -
  assume E: "env_ok E" "it_ok it"
  have "strnlen (fst st) (pData it) 0 4294967295 \<le> 4294967295" "strnlen (fst st) (pData it) 0 (data_size it - 1) \<le> data_size it - 1"
    by (rule strnlen_le, simp)+
  with E show ?thesis unfolding pb_enc_string_def Let_def it_ok_def by (auto intro!: confined_intros)
qed

lemma confined_enc_fixed_length [confined_intros]: "env_ok E \<Longrightarrow> it_ok it \<Longrightarrow> confined st (snd (pb_enc_fixed_length_bytes E it st))"
  unfolding pb_enc_fixed_length_bytes_def it_ok_def by (intro confined_intros) auto

text \<open>What the recursive call \<open>enc\<close> does; no message of a submessage type is as long as 2 GiB.\<close>
definition enc_ok :: "enc_env \<Rightarrow> enc_rec \<Rightarrow> bool" where
  "enc_ok E enc \<longleftrightarrow> (\<forall>d src st. ok st (enc d src st))
     \<and> (\<forall>i src m m' s. enc (erom E i) src (m, PB_OSTREAM_SIZING) = Some (True, (m', s)) \<longrightarrow> bytes_written s < 2147483648)"

text \<open>The second pass: the submessage is written through a stream limited to its size.\<close>
definition submessage_pass :: "enc_rec \<Rightarrow> enc_env \<Rightarrow> pb_msgdesc \<Rightarrow> addr \<Rightarrow> nat \<Rightarrow> est \<Rightarrow> (bool \<times> est) option" where
  "submessage_pass enc E d src n st1 =
     (if o_callback (snd st1) = OcNull then Some (pb_write E [] n st1)
      else if wrap32 (bytes_written (snd st1) + n) > max_size (snd st1) then Some (o_error ''stream full'' st1)
      else case enc d src (fst st1, \<lparr>o_callback = o_callback (snd st1), o_state = o_state (snd st1), max_size = n,
                             bytes_written = 0, o_errmsg = None\<rparr>) of
          None \<Rightarrow> None
        | Some (status, (m2, sub2)) \<Rightarrow>
            (let st2 = (m2, (snd st1)\<lparr>bytes_written := wrap32 (bytes_written (snd st1) + bytes_written sub2),
                                      o_state := o_state sub2, o_errmsg := o_errmsg sub2\<rparr>)
             in if bytes_written sub2 \<noteq> n then Some (o_error ''submsg size changed'' st2) else Some (status, st2)))"

lemma pb_encode_submessage_pass:
  "pb_encode_submessage enc E d src st =
     (case enc d src (fst st, PB_OSTREAM_SIZING) of
        None \<Rightarrow> None
      | Some (False, (m, sub)) \<Rightarrow> Some (False, (m, (snd st)\<lparr>o_errmsg := o_errmsg sub\<rparr>))
      | Some (True, (m, sub)) \<Rightarrow>
          seqo (Some (pb_encode_varint E (of_nat (bytes_written sub)) (m, snd st))) (submessage_pass enc E d src (bytes_written sub)))"
  unfolding pb_encode_submessage_def submessage_pass_def [abs_def] Let_def by (rule refl)

lemma ok_submessage_pass:
  assumes "env_ok E" and "enc_ok E enc" and "n < 2147483648"
  shows "ok st (submessage_pass enc E d src n st)"
proof (cases "o_callback (snd st) = OcNull \<or> wrap32 (bytes_written (snd st) + n) > max_size (snd st)")
  case True
  then show ?thesis using assms by (auto simp: submessage_pass_def intro!: confined_pb_write)
next
  case False
  let ?sub = "\<lparr>o_callback = o_callback (snd st), o_state = o_state (snd st), max_size = n, bytes_written = 0, o_errmsg = None\<rparr>"
  show ?thesis
  proof (cases "enc d src (fst st, ?sub)")
    case None
    then show ?thesis using False by (simp add: submessage_pass_def)
  next
    case (Some r)
    obtain b m2 sub2 where r: "r = (b, m2, sub2)" by (rule prod_cases3)
    let ?st2 = "(m2, (snd st)\<lparr>bytes_written := wrap32 (bytes_written (snd st) + bytes_written sub2),
                     o_state := o_state sub2, o_errmsg := o_errmsg sub2\<rparr>)"
    have "confined (fst st, ?sub) (m2, sub2)" using assms(2) Some r unfolding enc_ok_def ok_def by blast
    note c = confined_buf [OF this]
    have "confined st ?st2"
    proof (rule confinedI)
      assume st: "o_callback (snd st) = OcBuf" "bytes_written (snd st) \<le> max_size (snd st)" "max_size (snd st) \<le> 2147483648"
      have sub: "bytes_written sub2 \<le> n" "o_state sub2 = o_state (snd st) + bytes_written sub2"
        "mem_frame {o_state (snd st)..<o_state sub2} (fst st) m2"
        using c st(1) assms(3) by simp_all
      have "wrap32 (bytes_written (snd st) + n) = bytes_written (snd st) + n" using st assms(3) by simp
      then have "bytes_written (snd st) + bytes_written sub2 \<le> max_size (snd st)" using False sub(1) by simp
      then have "wrap32 (bytes_written (snd st) + bytes_written sub2) = bytes_written (snd st) + bytes_written sub2" using st(3) by simp
      with sub \<open>bytes_written (snd st) + bytes_written sub2 \<le> max_size (snd st)\<close>
      show "bytes_written (snd st) \<le> bytes_written (snd ?st2) \<and> bytes_written (snd ?st2) \<le> max_size (snd st)
          \<and> o_state (snd ?st2) = o_state (snd st) + (bytes_written (snd ?st2) - bytes_written (snd st))
          \<and> mem_frame {o_state (snd st)..<o_state (snd ?st2)} (fst st) (fst ?st2)" by simp
    qed (use False in simp_all)
    then show ?thesis using False Some r by (auto simp: submessage_pass_def Let_def)
  qed
qed

lemma ok_submessage [confined_intros]:
  assumes "env_ok E" and "enc_ok E enc"
  shows "ok st (pb_encode_submessage enc E (erom E i) src st)"
proof (cases "enc (erom E i) src (fst st, PB_OSTREAM_SIZING)")
  case None
  then show ?thesis by (simp add: pb_encode_submessage_def)
next
  case (Some r)
  obtain b m sub where r: "r = (b, m, sub)" by (rule prod_cases3)
  have "confined (fst st, PB_OSTREAM_SIZING) (m, sub)" using assms(2) Some r unfolding enc_ok_def ok_def by blast
  then have m: "m = fst st" using confined_ctl(3) by (fastforce simp: PB_OSTREAM_SIZING_def)
  show ?thesis
  proof (cases b)
    case False
    then show ?thesis using Some r m by (simp add: pb_encode_submessage_def confined_def)
  next
    case True
    with Some r have "enc (erom E i) src (fst st, PB_OSTREAM_SIZING) = Some (True, m, sub)" by simp
    then have "bytes_written sub < 2147483648" using assms(2) unfolding enc_ok_def by blast
    then have p: "ok st' (submessage_pass enc E (erom E i) src (bytes_written sub) st')" for st'
      by (rule ok_submessage_pass [OF assms])
    have "pb_encode_submessage enc E (erom E i) src st =
        seqo (Some (pb_encode_varint E (of_nat (bytes_written sub)) st)) (submessage_pass enc E (erom E i) src (bytes_written sub))"
      using Some r True m by (simp add: pb_encode_submessage_pass)
    moreover have "ok st (Some (pb_encode_varint E (of_nat (bytes_written sub)) st))"
      using confined_varint [OF assms(1)] by simp
    ultimately show ?thesis using p by (simp only: ok_seqo)
  qed
qed

lemma env_okD:
  assumes "env_ok E"
  shows "confined st (snd (field_encode E k it st))" "confined st (snd (user_encode E k it a st))" "confined st (snd (ext_encode E k e st))"
  using assms unfolding env_ok_def by blast+

lemma ok_enc_submessage [confined_intros]:
  assumes "env_ok E" and "enc_ok E enc"
  shows "ok st (pb_enc_submessage enc E it st)"
  unfolding pb_enc_submessage_def Let_def case_prod_beta
  by (auto intro!: ok_seqo ok_submessage [OF assms] env_okD [OF assms(1)])

lemma ok_basic_field [confined_intros]:
  assumes "env_ok E" and "enc_ok E enc" and "it_ok it"
  shows "ok st (encode_basic_field enc E it st)"
proof (cases "pData it = NULL")
  case False
  show ?thesis
    unfolding encode_basic_field_def if_not_P [OF False] Let_def
  proof (rule ok_seqo)
    show "ok st (Some (pb_encode_tag_for_field E it st))" using confined_tag_for_field [OF assms(1)] by simp
  qed (use assms in \<open>auto intro!: confined_enc_bool confined_enc_varint confined_enc_fixed confined_enc_bytes confined_enc_string
      confined_enc_fixed_length ok_enc_submessage\<close>)
qed (simp add: encode_basic_field_def)

lemma it_ok_advance [simp]: "it_ok (advance_data it) = it_ok it" "it_ok (it\<lparr>pData := a\<rparr>) = it_ok it"
  by (simp_all add: it_ok_def advance_data_def)

lemma ok_array_loop:
  assumes "\<And>it st. it_ok it \<Longrightarrow> ok st (f it st)" and "it_ok it"
  shows "ok st (array_loop f n it st)"
  using assms(2)
proof (induction n arbitrary: it st)
  case (Suc n)
  show ?case unfolding array_loop.simps
    by (rule ok_seqo) (use assms(1) Suc in simp_all)
qed simp

lemma ok_encode_array [confined_intros]:
  assumes "env_ok E" and "enc_ok E enc" and "it_ok it"
  shows "ok st (encode_array enc E it st)"
proof -
  have p: "ok st (array_loop (packed_element E) n it st)" for n st
    by (rule ok_array_loop [OF _ assms(3)])
      (use confined_enc_fixed [OF assms(1)] confined_enc_varint [OF assms(1)] in \<open>simp add: packed_element_def\<close>)
  have "ok st (unpacked_element enc E it st)" if "it_ok it" for it st
    unfolding unpacked_element_def Let_def
    using that by (auto intro!: ok_seqo confined_tag_for_field [OF assms(1)] confined_varint [OF assms(1)] ok_basic_field [OF assms(1,2)])
  then have u: "ok st (array_loop (unpacked_element enc E) n it st)" for n st
    by (rule ok_array_loop [OF _ assms(3)])
  have "ok st' (case packed_size E n it (fst st') of Inl msg \<Rightarrow> Some (o_error msg st')
      | Inr k \<Rightarrow> seqo (Some (pb_encode_varint E (of_nat k) st')) (\<lambda>st.
          if o_callback (snd st) = OcNull then Some (pb_write E [] k st) else array_loop (packed_element E) n it st))" for n st'
  proof (cases "packed_size E n it (fst st')")
    case (Inr k)
    show ?thesis
      unfolding Inr sum.case
    proof (rule ok_seqo)
      show "ok st' (Some (pb_encode_varint E (of_nat k) st'))" using confined_varint [OF assms(1)] by simp
      show "ok st2 (if o_callback (snd st2) = OcNull then Some (pb_write E [] k st2) else array_loop (packed_element E) n it st2)" for st2
        by (auto intro!: p simp: confined_def pb_write_def case_prod_beta Let_def)
    qed
  qed simp
  then show ?thesis
    unfolding encode_array_def Let_def by (auto intro!: ok_seqo u confined_tag [OF assms(1)])
qed

lemma confined_callback_field [confined_intros]: "env_ok E \<Longrightarrow> confined st (snd (encode_callback_field E it st))"
  unfolding encode_callback_field_def default_field_encode_def Let_def
  by (auto intro!: env_okD)

lemma ok_encode_field [confined_intros]:
  assumes "env_ok E" and "enc_ok E enc" and "it_ok it"
  shows "ok st (encode_field enc n E it st)"
  unfolding encode_field_def
  by (auto intro!: ok_encode_array [OF assms] ok_basic_field [OF assms] confined_callback_field [OF assms(1)]
      split: option.splits bool.splits)

lemma unpack_data_size: "w_data_size (unpack_words fi i) < 65536"
proof -
  have "unat (drop_bit 28 w AND 0x0F :: u32) < 65536" "unat (drop_bit 16 w AND 0x0FFF :: u32) < 65536" for w
    by (simp_all add: unat_and_masks order.strict_trans [OF mod_less_divisor])
  then show ?thesis by (simp add: unpack_words_def Let_def)
qed

lemma it_ok_load: "fst (load_descriptor_values m it) \<Longrightarrow> it_ok (snd (load_descriptor_values m it))"
  using load_vals(4) [of it m] unpack_data_size
  by (cases "index it < field_count (descriptor it)") (simp_all add: it_ok_def, simp add: load_descriptor_values_def)

lemma it_ok_begin: "fst (pb_field_iter_begin m d src) \<Longrightarrow> it_ok (snd (pb_field_iter_begin m d src))"
  unfolding pb_field_iter_begin_def by (rule it_ok_load)

lemma it_ok_next: "fst (pb_field_iter_next m it) \<Longrightarrow> it_ok (snd (pb_field_iter_next m it))"
proof -
  assume "fst (pb_field_iter_next m it)"
  then have "index (advance_iterator it) \<noteq> 0" by (simp add: pb_field_iter_next_def Let_def)
  then have "index (advance_iterator it) < field_count (descriptor (advance_iterator it))"
    by (auto simp: advance_iterator_def Let_def split: if_splits)
  then show "it_ok (snd (pb_field_iter_next m it))"
    unfolding pb_field_iter_next_def Let_def snd_conv by (intro it_ok_load load_vals(1))
qed

lemma it_ok_begin_extension:
  "fst (pb_field_iter_begin_extension R m e) \<Longrightarrow> it_ok (snd (pb_field_iter_begin_extension R m e))"
  using it_ok_begin [of m] by (auto simp: pb_field_iter_begin_extension_def Let_def it_ok_def case_prod_beta split: if_splits)

lemma ok_each_field:
  assumes "\<And>it st. it_ok it \<Longrightarrow> ok st (f it st)" and "it_ok it"
  shows "ok st (each_field f fst it st)"
  using assms
proof (induction f "fst :: est \<Rightarrow> mem" it st rule: each_field.induct)
  case (1 f it st)
  show ?case
  proof (subst each_field.simps, rule ok_seqo)
    show "ok st (f it st)" using 1(2,3) .
    show "ok st' (if fst (pb_field_iter_next (fst st') it) then each_field f fst (snd (pb_field_iter_next (fst st') it)) st' else Some (True, st'))" for st'
      using 1(1) [OF _ 1(2)] it_ok_next [of "fst st'" it] by simp
  qed
qed

lemma ok_extension_walk:
  assumes "env_ok E" and "enc_ok E enc"
  shows "ok st (extension_walk k enc n E ext st)"
proof (induction k arbitrary: ext st)
  case (Suc k)
  have "ok st (default_extension_encoder enc n E ext st)"
    unfolding default_extension_encoder_def using it_ok_begin_extension [of "erom E" "fst st" ext]
    by (auto intro!: ok_encode_field [OF assms] split: prod.splits bool.splits)
  with Suc.IH show ?case
    by (auto intro!: ok_seqo env_okD [OF assms(1)])
qed simp

lemma ok_message_field:
  assumes "env_ok E" and "enc_ok E enc" and "it_ok it"
  shows "ok st (encode_message_field enc n E it st)"
  unfolding encode_message_field_def encode_extension_field_def
  using ok_extension_walk [OF assms(1,2)] ok_encode_field [OF assms] by simp

text \<open>The sizes of the submessage types of the application stay below 2 GiB.\<close>
definition submessages_small :: "enc_env \<Rightarrow> bool" where
  "submessages_small E \<longleftrightarrow>
     (\<forall>n i src m m' s. pb_encode n E (erom E i) src (m, PB_OSTREAM_SIZING) = Some (True, (m', s)) \<longrightarrow> bytes_written s < 2147483648)"

lemma ok_pb_encode:
  assumes "env_ok E" and "submessages_small E"
  shows "ok st (pb_encode n E d src st)"
proof (induction n arbitrary: d src st)
  case (Suc n)
  have enc: "enc_ok E (pb_encode n E)" unfolding enc_ok_def
    using Suc assms(2) unfolding submessages_small_def by blast
  show ?case
    using it_ok_begin [of "fst st" d src]
    by (auto intro!: ok_each_field ok_message_field [OF assms(1) enc] split: prod.splits bool.splits)
qed simp

text \<open>
  C15. Encoding is memory safe: whatever the message in memory and its descriptor, encoding into a
  buffer of \<open>n\<close> bytes (at most 2 GiB) writes only inside that buffer, never counts more than \<open>n\<close> bytes, and
  leaves exactly the counted bytes written, in success and in failure; and it returns, with every depth beyond that to
  which the message type is nested. The functions of the
  application have to keep to the same rule (\<open>env_ok\<close>) and its submessage types to sizes below 2 GiB (\<open>submessages_small\<close>).
\<close>
theorem pb_encode_confined:
  assumes "env_ok E" and "submessages_small E" and "n \<le> 2147483648"
  shows "(\<forall>success m' s'. pb_encode depth E d src (m, pb_ostream_from_buffer buf n) = Some (success, (m', s')) \<longrightarrow>
      bytes_written s' \<le> n \<and> o_state s' = buf + bytes_written s' \<and> mem_frame {buf..<buf + bytes_written s'} m m')
    \<and> (\<forall>k. nests k E d \<longrightarrow> k < depth \<longrightarrow> pb_encode depth E d src (m, pb_ostream_from_buffer buf n) \<noteq> None)"
proof (intro conjI allI impI)
  fix success m' s'
  assume "pb_encode depth E d src (m, pb_ostream_from_buffer buf n) = Some (success, (m', s'))"
  then have "confined (m, pb_ostream_from_buffer buf n) (m', s')"
    using ok_pb_encode [OF assms(1,2)] unfolding ok_def by blast
  from confined_buf [OF this] assms(3)
  show "bytes_written s' \<le> n" "o_state s' = buf + bytes_written s'" "mem_frame {buf..<buf + bytes_written s'} m m'"
    by (simp_all add: pb_ostream_from_buffer_def)
qed (use pb_encode_returns in \<open>auto simp: returns_def\<close>)

text \<open>A message with one required \<open>uint32\<close> of tag 1 at offset 4, in an application without functions of its own.\<close>
definition one_field_desc :: pb_msgdesc where
  "one_field_desc = \<lparr>field_info = PB_FIELDINFO_1 1 0x02 4 4 0 1 @ [0], submsg_info = [0], default_value = 0,
     field_callback = 0, field_count = 1, required_field_count = 1, largest_tag = 1\<rparr>"

definition empty_desc :: pb_msgdesc where
  "empty_desc = \<lparr>field_info = [0], submsg_info = [0], default_value = 0, field_callback = 0, field_count = 0,
     required_field_count = 0, largest_tag = 0\<rparr>"

definition plain_env :: enc_env where
  "plain_env = \<lparr>erom = (\<lambda>_. empty_desc), stream_write = (\<lambda>_ _ st. (False, st)), field_encode = (\<lambda>_ _ st. (True, st)),
     user_encode = (\<lambda>_ _ _ st. (True, st)), ext_encode = (\<lambda>_ _ st. (True, st)), stray_word = 0\<rparr>"

lemma plain_env_ok: "env_ok plain_env"
  by (simp add: env_ok_def plain_env_def)

lemma encode_empty: "pb_encode n E empty_desc src st = Some (b, st') \<Longrightarrow> st' = st"
proof (cases n)
  case (Suc k)
  have "\<not> fst (pb_field_iter_begin (fst st) empty_desc src)" by (rule begin_empty) (simp add: empty_desc_def)
  then obtain it where "pb_field_iter_begin (fst st) empty_desc src = (False, it)" by (cases "pb_field_iter_begin (fst st) empty_desc src") auto
  then show "pb_encode n E empty_desc src st = Some (b, st') \<Longrightarrow> st' = st" using Suc by simp
qed simp

lemma plain_env_small: "submessages_small plain_env"
  unfolding submessages_small_def
proof (intro allI impI)
  fix n i src m m' s
  assume "pb_encode n plain_env (erom plain_env i) src (m, PB_OSTREAM_SIZING) = Some (True, m', s)"
  then have "(m', s) = (m, PB_OSTREAM_SIZING)" by (intro encode_empty) (simp add: plain_env_def)
  then show "bytes_written s < 2147483648" by (simp add: PB_OSTREAM_SIZING_def)
qed

lemma each_field_last:
  assumes "f it st = Some (b, st')" and "\<not> fst (pb_field_iter_next (mm st') it)"
  shows "each_field f mm it st = Some (b, st')"
  by (subst each_field.simps) (use assms in \<open>simp add: seqo_def\<close>)

lemma each_field_more:
  assumes "f it st = Some (True, st')" and "pb_field_iter_next (mm st') it = (True, it')"
  shows "each_field f mm it st = each_field f mm it' st'"
  by (subst each_field.simps) (use assms in \<open>simp add: seqo_def\<close>)

lemma one_field_encode:
  assumes "it = snd (pb_field_iter_begin m one_field_desc 64)" and "m = (\<lambda>_. 0)(68 := 5)"
  shows "encode_message_field enc n plain_env it (m, pb_ostream_from_buffer 128 16) =
    Some (True, mem_write m 128 [8, 5], (pb_ostream_from_buffer 130 16)\<lparr>bytes_written := 2\<rparr>)"
proof -
  have it: "ftype it = 2" "tag it = 1" "data_size it = 4" "pData it = 68"
    by (simp_all add: assms(1) pb_field_iter_begin_def load_descriptor_values_def one_field_desc_def Let_def entry_def
        load_pointers_def unpack_words_def PB_FIELDINFO_1_def PB_HTYPE_def PB_ATYPE_def)
  have v: "read_uint (mem_write m 128 [8]) 68 4 = 5"
    by (simp add: read_uint_def assms(2) mem_write_def mem_read_def upt_rec)
  have "mem_write (mem_write m 128 [8]) 129 [5] = mem_write m 128 [8, 5]"
    using mem_write_append [of m 128 "[8]" "[5]"] by simp
  then show ?thesis
    by (simp add: encode_message_field_def encode_field_def field_present_def encode_basic_field_def it PB_LTYPE_def PB_HTYPE_def
        PB_ATYPE_def seqo_def pb_encode_tag_for_field_def wire_type_of_def pb_encode_tag_def pb_encode_varint_def pb_write_def
        pb_ostream_from_buffer_def call_stream_def buf_write_def pb_enc_varint_def v Let_def)
qed

lemma one_field_nests: "nests 1 plain_env one_field_desc"
proof -
  have "field_count one_field_desc = Suc 0" "largest_tag one_field_desc = 1" by (simp_all add: one_field_desc_def)
  moreover have "type_at one_field_desc 0 = 2" "tag_at one_field_desc 0 = 1"
    by (simp_all add: type_at_def tag_at_def word_at_def one_field_desc_def entry_def type_of_word_def unpack_words_def Let_def PB_FIELDINFO_1_def)
  ultimately show ?thesis by (simp add: desc_wf_def PB_LTYPE_def PB_LTYPE_IS_SUBMSG_def)
qed

text \<open>A depth of 2 makes the encoder return; the message is the field 1 with the value 5.\<close>
theorem pb_encode_confined_witness:
  "\<exists>b m' s'. pb_encode 2 plain_env one_field_desc 64 ((\<lambda>_. 0)(68 := 5), pb_ostream_from_buffer 128 16) = Some (b, (m', s'))
     \<and> bytes_written s' \<le> 16 \<and> mem_frame {128..<128 + bytes_written s'} ((\<lambda>_. 0)(68 := 5)) m'
     \<and> b \<and> mem_read m' 128 (bytes_written s') = [8, 5]"
proof -
  let ?m = "(\<lambda>_. 0)(68 := 5) :: mem"
  let ?b = "pb_field_iter_begin ?m one_field_desc 64"
  let ?r = "pb_encode 2 plain_env one_field_desc 64 (?m, pb_ostream_from_buffer 128 16)"
  note t = pb_encode_confined [OF plain_env_ok plain_env_small, of 16 2 one_field_desc 64 ?m 128]
  have n: "(16 :: nat) \<le> 2147483648" by simp
  have "?r \<noteq> None" using conjunct2 [OF t [OF n]] one_field_nests by (metis one_less_numeral_iff semiring_norm(76))
  then obtain b' m' s' where r: "?r = Some (b', (m', s'))" by (metis not_None_eq prod_cases3)
  from conjunct1 [OF t [OF n]] r have c: "bytes_written s' \<le> 16" "mem_frame {128..<128 + bytes_written s'} ?m m'" by blast+
  have b: "fst ?b" "index (snd ?b) = 0" "field_count (descriptor (snd ?b)) = 1"
    by (simp_all add: pb_field_iter_begin_def load_descriptor_values_def one_field_desc_def Let_def)
  have "\<not> fst (pb_field_iter_next m (snd ?b))" for m
    using b by (simp add: pb_field_iter_next_def advance_iterator_def Let_def)
  with each_field_last [of "encode_message_field (pb_encode 1 plain_env) 1 plain_env", OF one_field_encode [OF refl refl], of fst] b(1)
  have "?r = Some (True, mem_write ?m 128 [8, 5], (pb_ostream_from_buffer 130 16)\<lparr>bytes_written := 2\<rparr>)"
    by (cases ?b) (simp add: numeral_2_eq_2)
  with r have "b'" "mem_read m' 128 (bytes_written s') = [8, 5]" using mem_read_write_same [where bs = "[8, 5]"] by auto
  with r c show ?thesis by blast
qed

end
