(* ===== verification/Pb_Decode_Correct.thy ===== *)
theory Pb_Decode_Correct
  imports Pb_Decode Pb_Encode_Correct
begin

unbundle bit_operations_syntax

text \<open>
  Correctness of the decoder: integers come back as they were encoded, and whatever bytes arrive, the
  decoding of a message without submessages ends, reads only its input and writes only the message.
\<close>

section \<open>Reading from a buffer\<close>

text \<open>A stream over memory whose next bytes are \<open>bs\<close>; the stream after \<open>k\<close> bytes.\<close>
definition holds :: "dst \<Rightarrow> bytes \<Rightarrow> bool" where
  "holds st bs \<longleftrightarrow> i_callback (snd st) = IcBuf \<and> mem_read (fst st) (i_state (snd st)) (length bs) = bs
     \<and> length bs \<le> bytes_left (snd st) \<and> bytes_left (snd st) < 4294967296"

definition adv :: "nat \<Rightarrow> dst \<Rightarrow> dst" where
  "adv k st = (fst st, (snd st)\<lparr>i_state := i_state (snd st) + k, bytes_left := bytes_left (snd st) - k\<rparr>)"

lemma adv_sel [simp]:
  "fst (adv k st) = fst st" "i_state (snd (adv k st)) = i_state (snd st) + k" "bytes_left (snd (adv k st)) = bytes_left (snd st) - k"
  "i_callback (snd (adv k st)) = i_callback (snd st)" "i_errmsg (snd (adv k st)) = i_errmsg (snd st)"
  by (simp_all add: adv_def)

lemma adv_adv [simp]: "adv j (adv i st) = adv (i + j) st"
  by (simp add: adv_def add.assoc)

lemma adv_0 [simp]: "adv 0 st = st"
  by (simp add: adv_def)

lemma holds_append: "holds st (bs @ cs) \<longleftrightarrow> holds st bs \<and> holds (adv (length bs) st) cs \<and> length (bs @ cs) \<le> bytes_left (snd st)"
  by (auto simp: holds_def mem_read_add)

lemma holds_Cons: "holds st (b # bs) \<Longrightarrow> holds (adv 1 st) bs"
  using holds_append [of st "[b]" bs] by simp

lemma wrap_dec: "0 < n \<Longrightarrow> n < 4294967296 \<Longrightarrow> wrap32 (n + 4294967295) = n - 1"
proof -
  assume n: "0 < n" "n < 4294967296"
  then have "n + 4294967295 = (n - 1) + 4294967296" by simp
  then have "wrap32 (n + 4294967295) = wrap32 (n - 1)" by (simp only: mod_add_self2)
  then show ?thesis using n by simp
qed

lemma readbyte_buf: "holds st (b # bs) \<Longrightarrow> pb_readbyte E st = (Some b, adv 1 st)"
  using wrap_dec [of "bytes_left (snd st)"]
  by (auto simp: holds_def pb_readbyte_def call_istream_def buf_read_def adv_def mem_read_Suc entry_def Let_def)

lemma read_buf: "holds st bs \<Longrightarrow> n = length bs \<Longrightarrow> pb_read E n st = (Some bs, adv n st)"
  by (auto simp: holds_def pb_read_def pb_read_raw_def call_istream_def buf_read_def adv_def Let_def)

lemma read_to_buf:
  "holds st bs \<Longrightarrow> n = length bs \<Longrightarrow> pb_read_to E a n st = (True, (mem_write (fst st) a bs, snd (adv n st)))"
  by (auto simp: holds_def pb_read_to_def pb_read_raw_def call_istream_def buf_read_def adv_def Let_def)

section \<open>Integers\<close>

lemma unat_u64_small: "n < 18446744073709551616 \<Longrightarrow> unat (of_nat n :: u64) = n"
  by (simp add: unat_of_nat)

text \<open>The groups of a varint are put together again.\<close>
lemma or_group:
  fixes r :: "'a :: len word"
  assumes "unat r < 2 ^ k" and "unat b * 2 ^ k + unat r < 2 ^ LENGTH('a)" and "unat b < 2 ^ LENGTH('a)"
  shows "unat (r OR push_bit k (ucast (b :: byte))) = unat b * 2 ^ k + unat r"
proof -
  have b: "unat (ucast b :: 'a word) = unat b" using assms(3) by (simp add: unsigned_ucast_eq take_bit_eq_mod)
  then have "unat (push_bit k (ucast b :: 'a word)) = unat b * 2 ^ k"
    unfolding unsigned_push_bit_eq using assms(2) by (simp add: push_bit_eq_mult take_bit_eq_mod)
  then show ?thesis using unat_or_add [OF assms(1), of "push_bit k (ucast b)"] by simp
qed

lemma group_byte: "unat (of_nat (n mod 128) OR 0x80 :: byte) = n mod 128 + 128"
  and group_low: "(of_nat (n mod 128) OR 0x80 :: byte) AND 0x7F = of_nat (n mod 128)"
  and group_more: "(of_nat (n mod 128) OR 0x80 :: byte) AND 0x80 \<noteq> 0"
proof -
  have m: "unat (of_nat (n mod 128) :: byte) = n mod 128" by (simp add: unat_of_nat)
  then show g: "unat (of_nat (n mod 128) OR 0x80 :: byte) = n mod 128 + 128"
    using unat_or_80 [of "of_nat (n mod 128)"] by simp
  have "unat ((of_nat (n mod 128) OR 0x80 :: byte) AND 0x7F) = unat (of_nat (n mod 128) :: byte)"
    unfolding unat_and_7f g m by simp
  then show "(of_nat (n mod 128) OR 0x80 :: byte) AND 0x7F = of_nat (n mod 128)" by (simp only: word_unat_eq_iff)
  show "(of_nat (n mod 128) OR 0x80 :: byte) AND 0x80 \<noteq> 0" unfolding and_80_iff g by simp
qed

lemma last_group:
  assumes "n < 128"
  shows "(of_nat n :: byte) AND 0x80 = 0" and "(of_nat n :: byte) AND 0x7F = of_nat n" and "unat (of_nat n :: byte) = n"
proof -
  show u: "unat (of_nat n :: byte) = n" using assms by (simp add: unat_of_nat)
  then show "(of_nat n :: byte) AND 0x80 = 0" using assms by (simp add: and_80_iff)
  have "unat ((of_nat n :: byte) AND 0x7F) = unat (of_nat n :: byte)" unfolding unat_and_7f u using assms by simp
  then show "(of_nat n :: byte) AND 0x7F = of_nat n" by (simp only: word_unat_eq_iff)
qed

lemma group_split: "n div 128 * 2 ^ (k + 7) + (n mod 128 * 2 ^ k + r) = n * 2 ^ k + (r :: nat)"
proof -
  have "n div 128 * 2 ^ (k + 7) + n mod 128 * 2 ^ k = (n div 128 * 128 + n mod 128) * 2 ^ k"
    unfolding add_mult_distrib by (simp add: power_add)
  also have "\<dots> = n * 2 ^ k" by (simp only: div_mult_mod_eq)
  finally show ?thesis by simp
qed

lemma group_bound:
  assumes "r < 2 ^ k"
  shows "n mod 128 * 2 ^ k + r < 128 * (2 :: nat) ^ k"
proof -
  have "n mod 128 \<le> 127" using mod_less_divisor [of 128 n] by linarith
  then have "n mod 128 * 2 ^ k \<le> 127 * 2 ^ k" by (rule mult_le_mono1)
  with assms show ?thesis by linarith
qed

lemma varint_loop_spec:
  assumes "holds st (varint n)" and "unat result < 2 ^ bitpos" and "n * 2 ^ bitpos + unat result < 18446744073709551616" and "bitpos \<le> 63"
  shows "varint_loop E bitpos result st = (Some (of_nat (n * 2 ^ bitpos + unat result)), adv (length (varint n)) st)"
  using assms
proof (induction n arbitrary: bitpos result st rule: varint.induct)
  case (1 n)
  show ?case
  proof (cases "n < 128")
    case True
    then have v: "varint n = [of_nat n]" by (simp add: varint.simps [of n])
    have "unat (result OR push_bit bitpos (ucast (of_nat n :: byte))) = n * 2 ^ bitpos + unat result"
      using or_group [OF "1.prems"(2), of "of_nat n"] "1.prems"(3) last_group(3) [OF True] True by simp
    then have r: "result OR push_bit bitpos (ucast (of_nat n :: byte)) = of_nat (n * 2 ^ bitpos + unat result)"
      using "1.prems"(3) by (simp only: word_unat_eq_iff unat_u64_small)
    have "(of_nat n :: byte) AND 0xFE = 0" if "63 \<le> bitpos"
    proof -
      have "bitpos = 63" using that "1.prems"(4) by (rule le_antisym [rotated])
      with "1.prems"(3) have "n = 0 \<or> n = 1" by auto
      then show ?thesis by auto
    qed
    then show ?thesis
      using readbyte_buf [of st "of_nat n" "[]" E] "1.prems"(1) last_group(1,2) [OF True] r
      by (subst varint_loop.simps) (auto simp: v Let_def)
  next
    case False
    let ?b = "of_nat (n mod 128) OR 0x80 :: byte" and ?r = "result OR push_bit bitpos (ucast (of_nat (n mod 128) :: byte))"
    have v: "varint n = ?b # varint (n div 128)" using False by (simp add: varint.simps [of n])
    have "2 ^ (bitpos + 7) = 128 * (2 :: nat) ^ bitpos" by (simp add: power_add)
    also have "\<dots> \<le> n * 2 ^ bitpos" using False by simp
    also have "\<dots> < 2 ^ 64" using "1.prems"(3) by simp
    finally have bp: "bitpos + 7 \<le> 63" by (simp only: power_strict_increasing_iff)
    have "n mod 128 * 2 ^ bitpos + unat result \<le> n * 2 ^ bitpos + unat result" by simp
    then have "n mod 128 * 2 ^ bitpos + unat result < 18446744073709551616" using "1.prems"(3) by (rule order.strict_trans1)
    moreover have "n mod 128 < 18446744073709551616" by (rule order.strict_trans [OF mod_less_divisor]) simp_all
    ultimately have u: "unat ?r = n mod 128 * 2 ^ bitpos + unat result"
      using or_group [OF "1.prems"(2), of "of_nat (n mod 128)"] last_group(3) [of "n mod 128"] by simp
    have "n mod 128 * 2 ^ bitpos + unat result < 128 * 2 ^ bitpos"
      by (rule group_bound [OF "1.prems"(2)])
    then have "unat ?r < 2 ^ (bitpos + 7)" unfolding u by (simp add: power_add mult.commute)
    moreover have "n div 128 * 2 ^ (bitpos + 7) + unat ?r = n * 2 ^ bitpos + unat result" unfolding u by (rule group_split)
    ultimately have "varint_loop E (bitpos + 7) ?r (adv 1 st) = (Some (of_nat (n * 2 ^ bitpos + unat result)), adv (length (varint (n div 128))) (adv 1 st))"
      using "1.IH" [OF False _ _ _ bp, of "adv 1 st" ?r] holds_Cons "1.prems" by (simp only: v)
    then show ?thesis
      using readbyte_buf [of st ?b _ E] "1.prems"(1) bp group_low [of n] group_more [of n]
      by (subst varint_loop.simps) (simp add: v Let_def)
  qed
qed

lemma decode_varint_buf:
  "holds st (varint (unat v)) \<Longrightarrow> pb_decode_varint E st = (Some v, adv (length (varint (unat v))) st)"
  using varint_loop_spec [of st "unat v" 0 0 E] unat_u64_less [of v] by (simp add: pb_decode_varint_def)

lemma low_nibble:
  assumes "n < 16"
  shows "(of_nat n :: byte) AND 0x70 = 0" and "(of_nat n :: byte) AND 0x0F = of_nat n"
proof -
  have "n \<in> set [0..<16]" using assms by simp
  then show "(of_nat n :: byte) AND 0x70 = 0" "(of_nat n :: byte) AND 0x0F = of_nat n"
    by (auto simp: upt_rec [of _ "16 :: nat"])
qed

lemma varint32_step_group:
  assumes "bitpos \<in> {7, 14, 21, 28}" and "unat result < 2 ^ bitpos" and "unat b mod 128 * 2 ^ bitpos + unat result < 4294967296"
  shows "\<exists>r. varint32_step bitpos result b = Some r \<and> unat r = unat b mod 128 * 2 ^ bitpos + unat result"
proof (cases "bitpos = 28")
  case True
  let ?n = "unat b mod 128"
  have n: "?n < 16" using assms(3) True by simp
  have b: "b AND 0x7F = of_nat ?n" using unat_and_7f [of b] by (simp only: word_unat_eq_iff last_group(3) mod_less_divisor zero_less_numeral)
  have "b AND 0x70 = (b AND 0x7F) AND 0x70" "b AND 0x0F = (b AND 0x7F) AND 0x0F" by (simp_all add: and.assoc)
  then have b': "b AND 0x70 = 0" "b AND 0x0F = of_nat ?n" using low_nibble [OF n] by (simp_all only: b)
  have u: "unat (of_nat ?n :: byte) = ?n" by (rule last_group(3)) simp
  have "unat (result OR push_bit bitpos (ucast (of_nat ?n :: byte))) = ?n * 2 ^ bitpos + unat result"
    using or_group [OF assms(2), of "of_nat ?n"] assms(3) u n by simp
  then show ?thesis using True b' by (simp add: varint32_step_def)
next
  case False
  have "unat (b AND 0x7F) = unat b mod 128" by (rule unat_and_7f)
  then have "unat (result OR push_bit bitpos (ucast (b AND 0x7F))) = unat b mod 128 * 2 ^ bitpos + unat result"
    using or_group [OF assms(2), of "b AND 0x7F"] assms(3) unat_byte_less [of "b AND 0x7F"] by simp
  moreover have "bitpos < 32" using assms(1) by auto
  ultimately show ?thesis using False by (simp add: varint32_step_def)
qed

lemma varint32_loop_spec:
  assumes "holds st (varint n)" and "unat result < 2 ^ bitpos" and "n * 2 ^ bitpos + unat result < 4294967296" and "bitpos \<in> {7, 14, 21, 28}"
  shows "varint32_loop E bitpos result st = (Some (of_nat (n * 2 ^ bitpos + unat result)), adv (length (varint n)) st)"
  using assms
proof (induction n arbitrary: bitpos result st rule: varint.induct)
  case (1 n)
  obtain b bs where v: "varint n = b # bs" by (cases "varint n") simp_all
  have b: "unat b mod 128 = n mod 128" "n < 128 \<Longrightarrow> b AND 0x80 = 0 \<and> bs = []"
      "\<not> n < 128 \<Longrightarrow> b AND 0x80 \<noteq> 0 \<and> bs = varint (n div 128)"
    using v last_group(3) [of n] group_byte [of n] last_group(1) [of n] group_more [of n] by (auto simp: varint.simps [of n] split: if_splits)
  have rd: "pb_readbyte E st = (Some b, adv 1 st)" using readbyte_buf "1.prems"(1) v by simp
  have "n mod 128 * 2 ^ bitpos + unat result \<le> n * 2 ^ bitpos + unat result" by simp
  then have "n mod 128 * 2 ^ bitpos + unat result < 4294967296" using "1.prems"(3) by (rule order.strict_trans1)
  then obtain r where r: "varint32_step bitpos result b = Some r" "unat r = n mod 128 * 2 ^ bitpos + unat result"
    using varint32_step_group [OF "1.prems"(4,2), of b] b(1) by auto
  show ?case
  proof (cases "n < 128")
    case True
    then have "unat r = n * 2 ^ bitpos + unat result" using r(2) by simp
    from arg_cong [OF this, of "of_nat :: nat \<Rightarrow> u32"] have "r = of_nat (n * 2 ^ bitpos + unat result)" by simp
    then show ?thesis using b(2) [OF True] rd r(1) v by (subst varint32_loop.simps) simp
  next
    case False
    have "2 ^ (bitpos + 7) = 128 * (2 :: nat) ^ bitpos" by (simp add: power_add)
    also have "\<dots> \<le> n * 2 ^ bitpos" using False by simp
    also have "\<dots> < 2 ^ 32" using "1.prems"(3) by simp
    finally have "bitpos + 7 < 32" by (simp only: power_strict_increasing_iff)
    then have bp: "bitpos + 7 \<in> {7, 14, 21, 28}" using "1.prems"(4) by auto
    have "unat r < 2 ^ (bitpos + 7)" unfolding r(2) using group_bound [OF "1.prems"(2), of n] by (simp add: power_add mult.commute)
    moreover have "n div 128 * 2 ^ (bitpos + 7) + unat r = n * 2 ^ bitpos + unat result" unfolding r(2) by (rule group_split)
    moreover have "holds (adv 1 st) (varint (n div 128))" using "1.prems"(1) v b(3) [OF False] holds_Cons by auto
    ultimately have "varint32_loop E (bitpos + 7) r (adv 1 st) = (Some (of_nat (n * 2 ^ bitpos + unat result)), adv (length bs) (adv 1 st))"
      using "1.IH" [OF False _ _ _ bp, of "adv 1 st" r] "1.prems"(3) b(3) [OF False] by (simp only:)
    then show ?thesis using b(3) [OF False] rd r(1) v by (subst varint32_loop.simps) simp
  qed
qed

lemma decode_varint32_buf:
  assumes "holds st (varint n)" and "n < 4294967296"
  shows "pb_decode_varint32 E st = (Some (of_nat n), adv (length (varint n)) st)"
proof (cases "n < 128")
  case True
  then have v: "varint n = [of_nat n]" by (simp add: varint.simps [of n])
  then have "pb_readbyte E st = (Some (of_nat n), adv 1 st)" using readbyte_buf assms(1) by simp
  moreover have "ucast (of_nat n :: byte) = (of_nat n :: u32)"
    using last_group(3) [OF True] True by (simp add: word_unat_eq_iff unsigned_ucast_eq take_bit_eq_mod unat_of_nat)
  ultimately show ?thesis using last_group(1) [OF True] v by (simp add: pb_decode_varint32_def)
next
  case False
  let ?b = "of_nat (n mod 128) OR 0x80 :: byte"
  have v: "varint n = ?b # varint (n div 128)" using False by (simp add: varint.simps [of n])
  have u: "unat (ucast (of_nat (n mod 128) :: byte) :: u32) = n mod 128"
    using last_group(3) [of "n mod 128"] by (simp add: unsigned_ucast_eq take_bit_eq_mod)
  have "n mod 128 < 128" by simp
  have "n div 128 * 2 ^ 7 + n mod 128 = n" by simp
  then have "varint32_loop E 7 (ucast (of_nat (n mod 128) :: byte)) (adv 1 st) = (Some (of_nat n), adv (length (varint (n div 128))) (adv 1 st))"
    using varint32_loop_spec [of "adv 1 st" "n div 128" "ucast (of_nat (n mod 128) :: byte)" 7 E] u assms holds_Cons v by auto
  moreover have "pb_readbyte E st = (Some ?b, adv 1 st)" using readbyte_buf assms(1) v by simp
  ultimately show ?thesis using group_low [of n] group_more [of n] v by (simp add: pb_decode_varint32_def)
qed

text \<open>What a buffer stream holds after a successful \<open>pb_write\<close>.\<close>
lemma write_buf_fits:
  "length bs \<le> n \<Longrightarrow> length bs < 4294967296 \<Longrightarrow> pb_write E bs (length bs) (m, pb_ostream_from_buffer buf n) =
     (True, (mem_write m buf bs, (pb_ostream_from_buffer (buf + length bs) n)\<lparr>bytes_written := length bs\<rparr>))"
  by (cases bs) (simp_all add: pb_write_def pb_ostream_from_buffer_def Let_def call_stream_def buf_write_def)

lemma write_buf_full:
  "n < length bs \<Longrightarrow> length bs < 4294967296 \<Longrightarrow> \<not> fst (pb_write E bs (length bs) (m, pb_ostream_from_buffer buf n))"
  by (cases bs) (simp_all add: pb_write_def pb_ostream_from_buffer_def Let_def o_error_def)

lemma write_buf:
  assumes "pb_write E bs (length bs) (m, pb_ostream_from_buffer buf n) = (True, (m', s'))" and "length bs < 4294967296"
  shows "m' = mem_write m buf bs" "bytes_written s' = length bs" "length bs \<le> n"
proof -
  show n: "length bs \<le> n" using write_buf_full [OF _ assms(2), of n E m buf] assms(1) by (cases "length bs \<le> n") auto
  show "m' = mem_write m buf bs" "bytes_written s' = length bs"
    using write_buf_fits [OF n assms(2), of E m buf] assms(1) by auto
qed

lemma holds_written:
  "length bs < 4294967296 \<Longrightarrow> holds (mem_write m buf bs, pb_istream_from_buffer buf (length bs)) bs"
  by (simp add: holds_def pb_istream_from_buffer_def)

lemma length_varint_u64_less: "length (varint (unat (v :: u64))) < 4294967296"
  using length_varint_u64 [of v] by simp

text \<open>
  C29. Integers survive the wire: a 64-bit value that \<open>pb_encode_varint\<close> could write into a buffer is read
  back by \<open>pb_decode_varint\<close> from exactly the bytes written, with none left over; a value below \<open>2^32\<close> is
  also read back by \<open>pb_decode_varint32\<close>, which stops at the same byte.
\<close>
theorem varint_roundtrip:
  assumes "pb_encode_varint E v (m, pb_ostream_from_buffer buf n) = (True, (m', s'))"
  shows "fst (pb_decode_varint D (m', pb_istream_from_buffer buf (bytes_written s'))) = Some v
    \<and> bytes_left (snd (snd (pb_decode_varint D (m', pb_istream_from_buffer buf (bytes_written s'))))) = 0
    \<and> (unat v < 4294967296 \<longrightarrow>
      pb_decode_varint32 D (m', pb_istream_from_buffer buf (bytes_written s')) =
        (Some (ucast v), snd (pb_decode_varint D (m', pb_istream_from_buffer buf (bytes_written s')))))"
proof -
  note w = write_buf [OF assms [unfolded pb_encode_varint_eq] length_varint_u64_less]
  let ?st = "(m', pb_istream_from_buffer buf (bytes_written s'))"
  have h: "holds ?st (varint (unat v))" unfolding w(1,2) by (rule holds_written [OF length_varint_u64_less])
  note d = decode_varint_buf [OF h, of D]
  have "(of_nat (unat v) :: u32) = ucast v" by (simp add: word_unat_eq_iff unsigned_ucast_eq take_bit_eq_mod unat_of_nat)
  then show ?thesis
    using decode_varint32_buf [OF h, of D] unfolding d by (simp add: w(2) pb_istream_from_buffer_def)
qed

definition plain_dec :: dec_env where
  "plain_dec = \<lparr>drom = (\<lambda>_. empty_desc), stream_read = (\<lambda>_ _ st. (False, [], st)), field_decode = (\<lambda>_ _ st. (True, st)),
     user_decode = (\<lambda>_ _ _ st. (True, st)), ext_decode = (\<lambda>_ _ _ _ st. (True, st)), dec_stray = 0\<rparr>"

theorem varint_roundtrip_witness:
  "\<exists>m' s'. pb_encode_varint plain_env 300 (\<lambda>_. 0, pb_ostream_from_buffer 64 10) = (True, (m', s'))
     \<and> fst (pb_decode_varint plain_dec (m', pb_istream_from_buffer 64 (bytes_written s'))) = Some 300
     \<and> fst (pb_decode_varint32 plain_dec (m', pb_istream_from_buffer 64 (bytes_written s'))) = Some 300"
proof -
  have "length (varint 300) = 2" by (simp add: varint.simps)
  then have "fst (pb_encode_varint plain_env 300 (\<lambda>_. 0, pb_ostream_from_buffer 64 10))"
    using write_buf_fits [of "varint 300" 10 plain_env "\<lambda>_. 0" 64] by (simp add: pb_encode_varint_eq)
  then obtain m' s' where e: "pb_encode_varint plain_env 300 (\<lambda>_. 0, pb_ostream_from_buffer 64 10) = (True, (m', s'))"
    by (cases "pb_encode_varint plain_env 300 (\<lambda>_. 0, pb_ostream_from_buffer 64 10)") auto
  show ?thesis using varint_roundtrip [OF e, of plain_dec] e by simp
qed

lemmas word_bits = bit_not_iff bit_push_bit_iff bit_and_iff bit_drop_bit_eq bit_minus_1_iff possible_bit_word comp_apply

lemma bit_zigzag: "bit (zigzag v) n \<longleftrightarrow> n < 64 \<and> (if n = 0 then bit v 63 else bit v (n - 1) \<noteq> bit v 63)"
proof (cases "sint v < 0")
  case True
  then have b: "bit v 63" using bit_last_iff [of v] by simp
  show ?thesis unfolding zigzag_def if_P [OF True] word_bits by (use b in auto)
next
  case False
  then have b: "\<not> bit v 63" using bit_last_iff [of v] by simp
  show ?thesis unfolding zigzag_def if_not_P [OF False] word_bits by (use b in auto)
qed

lemma bit_unzigzag: "bit (unzigzag v) n \<longleftrightarrow> n < 64 \<and> (bit v 0 \<noteq> (n < 63 \<and> bit v (n + 1)))"
proof -
  have "v AND 1 \<noteq> 0 \<longleftrightarrow> bit v 0" by (simp add: and_one_eq bit_0 odd_iff_mod_2_eq_one)
  moreover have "bit v (n + 1) \<Longrightarrow> n < 63" using bit_imp_le_length [of v "n + 1"] by simp
  ultimately show ?thesis unfolding unzigzag_def by (auto simp: word_bits)
qed

lemma zigzag_value: "uint (zigzag v) = (if sint v < 0 then - 2 * sint v - 1 else 2 * sint v)"
proof -
  have lim: "- (2 ^ 63) \<le> sint v" "sint v < 2 ^ 63" using sint_greater_eq [of v] sint_less [of v] by simp_all
  have v: "v = of_int (sint v)" by simp
  have "push_bit 1 (v AND drop_bit 1 (- 1)) = push_bit 1 v"
    by (rule bit_word_eqI) (simp only: word_bits, auto)
  then have "zigzag v = (if sint v < 0 then - (2 * v) - 1 else 2 * v)"
    unfolding zigzag_def by (simp only: push_bit_eq_mult not_eq_complement power_one_right mult.commute [of 2])
  then have "zigzag v = of_int (if sint v < 0 then - 2 * sint v - 1 else 2 * sint v)" by simp
  then have "uint (zigzag v) = take_bit 64 (if sint v < 0 then - 2 * sint v - 1 else 2 * sint v)"
    by (simp only: unsigned_of_int len_num0 len_num1 len_bit0 len_bit1) simp
  also have "\<dots> = (if sint v < 0 then - 2 * sint v - 1 else 2 * sint v)"
    using lim by (intro take_bit_int_eq_self) auto
  finally show ?thesis .
qed

lemma top_bit: "n < 64 \<Longrightarrow> \<not> n < 63 \<Longrightarrow> n = (63 :: nat)"
  by arith

text \<open>
  Signed integers in zigzag form: the encoder's and the decoder's transformations are inverse to each
  other on all 64-bit values, and values near zero become small.
\<close>
lemma zigzag_roundtrip:
  "unzigzag (zigzag v) = v \<and> zigzag (unzigzag v) = v
   \<and> uint (zigzag v) = (if sint v < 0 then - 2 * sint v - 1 else 2 * sint v)"
proof (intro conjI)
  show "unzigzag (zigzag v) = v"
    by (rule bit_word_eqI) (auto simp: bit_unzigzag bit_zigzag dest: top_bit)
  show "zigzag (unzigzag v) = v"
    by (rule bit_word_eqI) (auto simp: bit_unzigzag bit_zigzag dest: top_bit)
qed (rule zigzag_value)

end
