(* ===== verification/Sensor_Codec.thy ===== *)
theory Sensor_Codec
  imports Pb_Decode_Correct Sensor_Data
begin

unbundle bit_operations_syntax

text \<open>
  The telemetry record on the wire: \<open>ProtobufSerializer\<close> of the sensor node
  (\<^verbatim>\<open>firmware/\<dots>/protobuf_wrapper.cpp\<close>) over the nanopb encoder. The descriptor
  \<open>industrial_SensorData_fields\<close> is generated at build time; what the generator documents about it for
  \<^verbatim>\<open>sensor_data.proto\<close> and \<^verbatim>\<open>sensor_data.options\<close> is the hypothesis \<open>describes_sensor\<close>.
\<close>

section \<open>The serializer\<close>

text \<open>\<open>c_str ()\<close> ends at the first NUL; \<open>snprintf (dst, 32, "%s", s)\<close> stores at most 31 bytes and a NUL.\<close>
definition c_str :: "bytes \<Rightarrow> bytes" where
  "c_str s = takeWhile (\<lambda>c. c \<noteq> 0) s"

definition snprintf_s :: "mem \<Rightarrow> addr \<Rightarrow> nat \<Rightarrow> bytes \<Rightarrow> mem" where
  "snprintf_s m dst n s = (if n = 0 then m else mem_write m dst (take (n - 1) (c_str s) @ [0]))"

text \<open>
  The struct \<open>industrial_SensorData\<close> at \<open>msg\<close>: \<open>device_id[32]\<close>, then temperature, humidity and uptime of four
  bytes each, filled from \<open>industrial_SensorData_init_default\<close>.
\<close>
definition fill_message :: "addr \<Rightarrow> bytes \<Rightarrow> u32 \<Rightarrow> u32 \<Rightarrow> u32 \<Rightarrow> mem \<Rightarrow> mem" where
  "fill_message msg dev temp hum uptime m =
     (let m = mem_set m msg 0 44;
          m = snprintf_s m msg 32 dev;
          m = mem_write m (msg + 32) (nat_le 4 (unat temp));
          m = mem_write m (msg + 36) (nat_le 4 (unat hum))
      in mem_write m (msg + 40) (nat_le 4 (unat uptime)))"

text \<open>
  The result is the vector of encoded bytes, empty when the encoder failed. \<open>msg\<close> and \<open>buf\<close> are the
  addresses of the local variables, \<open>depth\<close> the bound of \<open>pb_encode\<close>.
\<close>
definition serialize_sensor_data ::
  "nat \<Rightarrow> enc_env \<Rightarrow> pb_msgdesc \<Rightarrow> addr \<Rightarrow> addr \<Rightarrow> bytes \<Rightarrow> u32 \<Rightarrow> u32 \<Rightarrow> u32 \<Rightarrow> mem \<Rightarrow> (bytes \<times> mem) option" where
  "serialize_sensor_data depth E d msg buf dev temp hum uptime m =
     (case pb_encode depth E d msg (fill_message msg dev temp hum uptime m, pb_ostream_from_buffer buf 128) of
        None \<Rightarrow> None
      | Some (False, (m', stream)) \<Rightarrow> Some ([], m')
      | Some (True, (m', stream)) \<Rightarrow> Some (mem_read m' buf (bytes_written stream), m'))"

section \<open>The generated descriptor\<close>

text \<open>Field \<open>k\<close> has this tag, type, size and offset, one entry and no presence flag.\<close>
definition describes_field :: "pb_msgdesc \<Rightarrow> nat \<Rightarrow> nat \<Rightarrow> pb_type \<Rightarrow> nat \<Rightarrow> nat \<Rightarrow> bool" where
  "describes_field d k t ty sz off \<longleftrightarrow> type_at d k = ty \<and> unpack_words (field_info d) (info_pos d k) =
     \<lparr>w_tag = t, w_data_size = sz, w_array_size = 1, w_size_offset = 0, w_data_offset = off\<rparr>"

text \<open>Four singular static fields: a string, two floats, a \<open>uint32\<close>.\<close>
definition describes_sensor :: "pb_msgdesc \<Rightarrow> bool" where
  "describes_sensor d \<longleftrightarrow> field_count d = 4 \<and> largest_tag d = 4 \<and> required_field_count d = 0 \<and> default_value d = NULL
     \<and> describes_field d 0 1 0x17 32 0 \<and> describes_field d 1 2 0x14 4 32 \<and> describes_field d 2 3 0x14 4 36
     \<and> describes_field d 3 4 0x12 4 40"

text \<open>The descriptor as \<open>PB_BIND (\<dots>, AUTO)\<close> lays it out.\<close>
definition sensor_desc :: pb_msgdesc where
  "sensor_desc = \<lparr>field_info = PB_FIELDINFO_2 1 0x17 0 32 0 1 @ PB_FIELDINFO_1 2 0x14 32 4 0 1 @ PB_FIELDINFO_1 3 0x14 36 4 0 1
       @ PB_FIELDINFO_1 4 0x12 40 4 0 1 @ [0],
     submsg_info = [0], default_value = 0, field_callback = 0, field_count = 4, required_field_count = 0, largest_tag = 4\<rparr>"

lemma sensor_desc_info: "field_info sensor_desc = [0x00011705, 0x00200000, 0x40201408, 0x4024140C, 0x40281210, 0]"
  by (simp add: sensor_desc_def PB_FIELDINFO_1_def PB_FIELDINFO_2_def)

lemma sensor_desc_pos: "info_pos sensor_desc 0 = 0" "info_pos sensor_desc 1 = 2" "info_pos sensor_desc 2 = 3" "info_pos sensor_desc 3 = 4"
proof -
  have p: "info_pos sensor_desc (Suc 0) = 2" "info_pos sensor_desc (Suc (Suc 0)) = 3" "info_pos sensor_desc (Suc (Suc (Suc 0))) = 4"
    by (simp_all add: word_at_def entry_def sensor_desc_info)
  have n: "(2 :: nat) = Suc (Suc 0)" "(3 :: nat) = Suc (Suc (Suc 0))" by simp_all
  show "info_pos sensor_desc 0 = 0" "info_pos sensor_desc 1 = 2" "info_pos sensor_desc 2 = 3" "info_pos sensor_desc 3 = 4"
    using p(1) p(2) [folded n(1)] p(3) [folded n(2)] by (simp_all only: info_pos.simps(1) One_nat_def)
qed

lemma sensor_desc_describes: "describes_sensor sensor_desc"
proof -
  note f = describes_field_def type_at_def type_of_word_def unpack_words_def word_at_def entry_def sensor_desc_info Let_def
  have "describes_field sensor_desc 0 1 0x17 32 0" unfolding f sensor_desc_pos by simp
  moreover have "describes_field sensor_desc 1 2 0x14 4 32" unfolding f sensor_desc_pos by simp
  moreover have "describes_field sensor_desc 2 3 0x14 4 36" unfolding f sensor_desc_pos by simp
  moreover have "describes_field sensor_desc 3 4 0x12 4 40" unfolding f sensor_desc_pos by simp
  ultimately show ?thesis unfolding describes_sensor_def by (simp add: sensor_desc_def)
qed

lemma field_tag: "describes_field d k t ty sz off \<Longrightarrow> tag_at d k = t"
  by (simp add: describes_field_def tag_at_def)

lemma less_4: "k < 4 \<longleftrightarrow> k = 0 \<or> k = 1 \<or> k = 2 \<or> k = (3 :: nat)"
  by auto

lemma sensor_tag: "describes_sensor d \<Longrightarrow> k < 4 \<Longrightarrow> tag_at d k = k + 1"
  unfolding less_4 describes_sensor_def by (auto dest!: field_tag)

lemma sensor_wf: "describes_sensor d \<Longrightarrow> desc_wf d"
  unfolding desc_wf_def using sensor_tag by (auto simp: describes_sensor_def)

text \<open>What the iterator holds at field \<open>k\<close>.\<close>
lemma sensor_it:
  assumes "describes_field d k t ty sz off" and "loaded m d k it" and "message it = msg" and "msg \<noteq> NULL"
    and "PB_HTYPE ty = PB_HTYPE_OPTIONAL" and "PB_ATYPE ty = PB_ATYPE_STATIC"
  shows "ftype it = ty" "tag it = t" "data_size it = sz" "array_size it = 1" "pField it = msg + off" "descriptor it = d"
    "pSize it = PNull" "pData it = msg + off"
proof -
  have k: "k < field_count d" "descriptor it = d" "field_info_index it = info_pos d k" "index it = k" and l: "load_descriptor_values m it = (True, it)"
    using assms(2) by (auto simp: loaded_def positioned_def)
  have r: "unpack_words (field_info d) (info_pos d k) = \<lparr>w_tag = t, w_data_size = sz, w_array_size = 1, w_size_offset = 0, w_data_offset = off\<rparr>"
    using assms(1) by (simp add: describes_field_def)
  have i: "index it < field_count (descriptor it)" using k by simp
  note v = load_vals(2-5,7-9) [OF i, of m, unfolded l snd_conv, unfolded k assms(3) r]
  have ty: "type_of_word (entry (field_info d) (info_pos d k)) = ty" using assms(1) by (simp add: describes_field_def type_at_def word_at_def)
  show "ftype it = ty" "tag it = t" "data_size it = sz" "array_size it = 1" "pField it = msg + off" "descriptor it = d"
    "pSize it = PNull" "pData it = msg + off"
    using v ty assms(4-6) k by simp_all
qed

section \<open>Encoding\<close>

text \<open>A buffer stream after \<open>bs\<close> has been written to it, and whether \<open>n\<close> more bytes fit.\<close>
definition app :: "est \<Rightarrow> bytes \<Rightarrow> est" where
  "app st bs = (mem_write (fst st) (o_state (snd st)) bs,
     (snd st)\<lparr>o_state := o_state (snd st) + length bs, bytes_written := bytes_written (snd st) + length bs\<rparr>)"

definition room :: "est \<Rightarrow> nat \<Rightarrow> bool" where
  "room st n \<longleftrightarrow> o_callback (snd st) = OcBuf \<and> bytes_written (snd st) + n \<le> max_size (snd st) \<and> max_size (snd st) < 4294967296"

lemma app_Nil [simp]: "app st [] = st"
  by (simp add: app_def)

lemma app_app [simp]: "app (app st a) b = app st (a @ b)"
  by (simp add: app_def mem_write_append add.assoc)

lemma room_app [simp]: "room (app st a) n \<longleftrightarrow> room st (length a + n)"
  by (auto simp: room_def app_def)

lemma room_le: "room st n \<Longrightarrow> k \<le> n \<Longrightarrow> room st k"
  by (auto simp: room_def)

lemma write_app: "room st n \<Longrightarrow> length bs = n \<Longrightarrow> pb_write E bs n st = (True, app st bs)"
  by (cases st; cases bs) (auto simp: room_def app_def pb_write_def Let_def call_stream_def buf_write_def)

lemma varint_app: "room st (length (varint (unat v))) \<Longrightarrow> pb_encode_varint E v st = (True, app st (varint (unat v)))"
  unfolding pb_encode_varint_eq by (rule write_app) simp_all

lemma string_app:
  assumes "room st (length (varint n) + n)" and "length bs = n" and "n < 4294967296"
  shows "pb_encode_string E bs n st = (True, app st (varint n @ bs))"
proof -
  have u: "unat (of_nat n :: u64) = n" using assms(3) by (simp add: unat_of_nat)
  then have "pb_encode_varint E (of_nat n) st = (True, app st (varint n))"
    using varint_app [of st "of_nat n" E] room_le [OF assms(1)] by simp
  then show ?thesis using write_app [of "app st (varint n)" n bs E] assms by (simp add: pb_encode_string_def seq_def)
qed

lemma small_varint: "n < 128 \<Longrightarrow> varint n = [of_nat n]"
  by (simp add: varint.simps [of n])

text \<open>A singular field of a message without explicit default values.\<close>
lemma singular_field:
  assumes "PB_HTYPE (ftype it) = PB_HTYPE_OPTIONAL" and "PB_ATYPE (ftype it) = PB_ATYPE_STATIC" and "\<not> PB_LTYPE_IS_SUBMSG (ftype it)"
    and "PB_LTYPE (ftype it) \<noteq> PB_LTYPE_EXTENSION" and "pSize it = PNull" and "default_value (descriptor it) = NULL" and "pData it \<noteq> NULL"
  shows "encode_message_field enc (Suc n) E it st = (if scalar_is_default (fst st) it then Some (True, st) else encode_basic_field enc E it st)"
  using assms by (simp add: encode_message_field_def encode_field_def field_present_def Let_def)

lemma zero_bytes: "(\<forall>i \<in> set [0..<k]. m (a + i) = 0) \<longleftrightarrow> mem_read m a k = replicate k 0"
  by (auto simp: list_eq_iff_nth_eq)

lemma nat_le_zero: "n < 256 ^ k \<Longrightarrow> nat_le k n = replicate k 0 \<longleftrightarrow> n = 0"
proof
  assume n: "n < 256 ^ k" and "nat_le k n = replicate k 0"
  then have "le_nat (nat_le k n) = le_nat (replicate k 0)" by simp
  moreover have "le_nat (replicate k 0) = 0" by (induction k) simp_all
  ultimately show "n = 0" using n by (simp add: le_nat_nat_le)
next
  assume "n = 0"
  then show "nat_le k n = replicate k 0" by (induction k) (simp_all add: replicate_append_same)
qed

lemma unat_u32_less: "unat (v :: u32) < 4294967296"
  using unsigned_less [of v, where ?'a = nat] by simp

lemma word_zero: "mem_read m a 4 = nat_le 4 (unat (v :: u32)) \<Longrightarrow> (\<forall>i \<in> set [0..<4]. m (a + i) = 0) \<longleftrightarrow> v = 0"
  unfolding zero_bytes using nat_le_zero [of "unat v" 4] unat_u32_less [of v] by (simp add: unat_eq_0)

text \<open>The bytes of the fields of the telemetry record.\<close>
definition wire_float :: "byte \<Rightarrow> u32 \<Rightarrow> bytes" where
  "wire_float key v = (if v = 0 then [] else key # nat_le 4 (unat v))"

definition wire_uint :: "byte \<Rightarrow> u32 \<Rightarrow> bytes" where
  "wire_uint key v = (if v = 0 then [] else key # varint (unat v))"

definition wire_string :: "byte \<Rightarrow> bytes \<Rightarrow> bytes" where
  "wire_string key s = (if s = [] then [] else key # varint (length s) @ s)"

text \<open>The proto3 wire format of the record: fields in tag order, those with the default value left out.\<close>
definition wire_sensor :: "sensor_data \<Rightarrow> bytes" where
  "wire_sensor r = wire_string 0x0A (device_id r) @ wire_float 0x15 (temperature r) @ wire_float 0x1D (humidity r) @ wire_uint 0x20 (uptime_ms r)"

lemma tag_app: "room st 1 \<Longrightarrow> unat (push_bit 3 (of_nat t) OR of_nat w :: u64) = n \<Longrightarrow> n < 128 \<Longrightarrow> pb_encode_tag E w t st = (True, app st [of_nat n])"
  unfolding pb_encode_tag_def using varint_app [of st "push_bit 3 (of_nat t) OR of_nat w" E] by (simp add: small_varint)

lemma float_field:
  assumes "ftype it = 0x14" and "data_size it = 4" and "tag it = t" and "t = 2 \<and> key = 0x15 \<or> t = 3 \<and> key = 0x1D"
    and "pSize it = PNull" and "default_value (descriptor it) = NULL" and "pData it = a" and "a \<noteq> NULL"
    and "mem_read (fst st) a 4 = nat_le 4 (unat v)" and "room st 5" and "mem_read (fst (app st [key])) a 4 = mem_read (fst st) a 4"
  shows "encode_message_field enc (Suc n) E it st = Some (True, app st (wire_float key v))"
proof -
  have d: "scalar_is_default (fst st) it \<longleftrightarrow> v = 0"
    using word_zero [OF assms(9)] assms(1,2,7) by (simp add: scalar_is_default_def PB_LTYPE_def)
  have t: "pb_encode_tag E 5 t st = (True, app st [key])"
    using assms(4) tag_app [OF room_le [OF assms(10)], of t 5 "8 * t + 5" E] by auto
  have "encode_basic_field enc E it st = Some (True, app st (key # nat_le 4 (unat v)))"
    using assms t write_app [of "app st [key]" 4 "nat_le 4 (unat v)" E]
    by (simp add: encode_basic_field_def pb_encode_tag_for_field_def wire_type_of_def PB_LTYPE_def seqo_def Let_def pb_enc_fixed_def
        pb_encode_fixed32_def)
  then show ?thesis
    using singular_field [of it enc n E st] d assms(1,5-8) by (simp add: PB_HTYPE_def PB_ATYPE_def PB_LTYPE_def PB_LTYPE_IS_SUBMSG_def wire_float_def)
qed

lemma uint_field:
  assumes "ftype it = 0x12" and "data_size it = 4" and "tag it = 4"
    and "pSize it = PNull" and "default_value (descriptor it) = NULL" and "pData it = a" and "a \<noteq> NULL"
    and "mem_read (fst st) a 4 = nat_le 4 (unat v)" and "room st 6" and "mem_read (fst (app st [0x20])) a 4 = mem_read (fst st) a 4"
  shows "encode_message_field enc (Suc n) E it st = Some (True, app st (wire_uint 0x20 v))"
proof -
  have d: "scalar_is_default (fst st) it \<longleftrightarrow> v = 0"
    using word_zero [OF assms(8)] assms(1,2,6) by (simp add: scalar_is_default_def PB_LTYPE_def)
  have t: "pb_encode_tag E 0 4 st = (True, app st [0x20])"
    using tag_app [OF room_le [OF assms(9)], of 4 0 32 E] by simp
  have u: "unat (read_uint (fst (app st [0x20])) a 4) = unat v"
    unfolding read_uint_def assms(10,8) le_nat_nat_le using unat_u32_less [of v] by (simp add: unsigned_ucast_eq take_bit_eq_mod)
  have "length (varint (unat v)) \<le> 5" using length_varint [of "unat v" 4] unat_u32_less [of v] by simp
  then have "pb_encode_varint E (read_uint (fst (app st [0x20])) a 4) (app st [0x20]) = (True, app st (0x20 # varint (unat v)))"
    using varint_app [of "app st [0x20]" "read_uint (fst (app st [0x20])) a 4" E] room_le [OF assms(9)] unfolding u by simp
  then have "encode_basic_field enc E it st = Some (True, app st (0x20 # varint (unat v)))"
    using assms t
    by (simp add: encode_basic_field_def pb_encode_tag_for_field_def wire_type_of_def PB_LTYPE_def seqo_def Let_def pb_enc_varint_def)
  then show ?thesis
    using singular_field [of it enc n E st] d assms(1,4-7) by (simp add: PB_HTYPE_def PB_ATYPE_def PB_LTYPE_def PB_LTYPE_IS_SUBMSG_def wire_uint_def)
qed

lemma strnlen_stops:
  assumes "mem_read m p (length s) = s" and "0 \<notin> set s" and "m (p + length s) = 0" and "n + length s \<le> k"
  shows "strnlen m p n k = n + length s"
  using assms
proof (induction s arbitrary: p n)
  case Nil
  then show ?case by (subst strnlen.simps) simp
next
  case (Cons c s)
  then have "m p = c" "mem_read m (Suc p) (length s) = s" by (simp_all add: mem_read_Suc)
  then show ?case using Cons by (subst strnlen.simps) simp
qed

lemma string_field:
  assumes "ftype it = 0x17" and "data_size it = 32" and "tag it = 1"
    and "pSize it = PNull" and "default_value (descriptor it) = NULL" and "pData it = a" and "a \<noteq> NULL"
    and "mem_read (fst st) a (length s) = s" and "fst st (a + length s) = 0" and "0 \<notin> set s" and "length s \<le> 31" and "room st 33"
    and "mem_read (fst (app st [0x0A])) a 32 = mem_read (fst st) a 32"
  shows "encode_message_field enc (Suc n) E it st = Some (True, app st (wire_string 0x0A s))"
proof -
  have "fst st a = 0 \<longleftrightarrow> s = []"
    using assms(8-10) by (cases s) (auto simp: mem_read_Suc)
  then have d: "scalar_is_default (fst st) it \<longleftrightarrow> s = []" using assms(1,6) by (simp add: scalar_is_default_def PB_LTYPE_def)
  have t: "pb_encode_tag E 2 1 st = (True, app st [0x0A])"
    using tag_app [OF room_le [OF assms(12)], of 1 2 10 E] by simp
  let ?m = "fst (app st [0x0A])"
  have m: "?m (a + i) = fst st (a + i)" if "i < 32" for i
    using arg_cong [OF assms(13), of "\<lambda>xs. xs ! i"] that by simp
  have "mem_read ?m a (length s) = s" using assms(8,11) m by (simp add: list_eq_iff_nth_eq)
  moreover have "?m (a + length s) = 0" using m [of "length s"] assms(9,11) by simp
  ultimately have n: "strnlen ?m a 0 31 = length s" "mem_read ?m a (length s) = s" "?m (a + length s) = 0"
    using strnlen_stops [of ?m a s 0 31] assms(10,11) by simp_all
  have "length (varint (length s)) = 1" using assms(11) by (simp add: small_varint)
  then have "pb_encode_string E s (length s) (app st [0x0A]) = (True, app st (0x0A # varint (length s) @ s))"
    using string_app [of "app st [0x0A]" "length s" s E] room_le [OF assms(12)] assms(11) by simp
  then have "encode_basic_field enc E it st = Some (True, app st (0x0A # varint (length s) @ s))"
    using assms(1-7) t n
    by (simp add: encode_basic_field_def pb_encode_tag_for_field_def wire_type_of_def PB_LTYPE_def PB_ATYPE_def seqo_def Let_def pb_enc_string_def)
  then show ?thesis
    using singular_field [of it enc n E st] d assms(1,4-7) by (simp add: PB_HTYPE_def PB_ATYPE_def PB_LTYPE_def PB_LTYPE_IS_SUBMSG_def wire_string_def)
qed

text \<open>The struct at \<open>msg\<close> holds the record \<open>r\<close>.\<close>
definition struct_holds :: "mem \<Rightarrow> addr \<Rightarrow> sensor_data \<Rightarrow> bool" where
  "struct_holds m msg r \<longleftrightarrow> length (device_id r) \<le> 31 \<and> 0 \<notin> set (device_id r)
     \<and> mem_read m msg (length (device_id r)) = device_id r \<and> m (msg + length (device_id r)) = 0
     \<and> mem_read m (msg + 32) 4 = nat_le 4 (unat (temperature r)) \<and> mem_read m (msg + 36) 4 = nat_le 4 (unat (humidity r))
     \<and> mem_read m (msg + 40) 4 = nat_le 4 (unat (uptime_ms r))"

lemma struct_holds_cong:
  assumes "\<And>x. msg \<le> x \<Longrightarrow> x < msg + 44 \<Longrightarrow> m' x = m x" and "struct_holds m msg r"
  shows "struct_holds m' msg r"
proof -
  have "mem_read m' (msg + i) n = mem_read m (msg + i) n" if "i + n \<le> 44" for i n
    by (rule mem_read_cong) (use assms(1) that in simp)
  from this [of 0] this [of 32 4] this [of 36 4] this [of 40 4] assms show ?thesis
    by (simp add: struct_holds_def)
qed

lemma app_outside: "x < o_state (snd st) \<or> o_state (snd st) + length bs \<le> x \<Longrightarrow> fst (app st bs) x = fst st x"
  by (simp add: app_def mem_write_outside)

lemma length_wire:
  "length (wire_float key v) \<le> 5" "length (wire_uint key v) \<le> 6" "length s \<le> 31 \<Longrightarrow> length (wire_string key s) \<le> 33"
proof -
  have "length (varint (unat v)) \<le> 5" using length_varint [of "unat v" 4] unat_u32_less [of v] by simp
  then show "length (wire_uint key v) \<le> 6" by (simp add: wire_uint_def)
qed (simp_all add: wire_float_def wire_string_def small_varint)

lemma sensor_encode:
  assumes "describes_sensor d" and "msg \<noteq> NULL" and "struct_holds m msg r" and "msg + 44 \<le> buf \<or> buf + 128 \<le> msg"
  shows "pb_encode (Suc (Suc n)) E d msg (m, pb_ostream_from_buffer buf 128) = Some (True, app (m, pb_ostream_from_buffer buf 128) (wire_sensor r))"
proof -
  let ?st = "(m, pb_ostream_from_buffer buf 128)" and ?f = "encode_message_field (pb_encode (Suc n) E) (Suc n) E"
  define b0 b1 b2 b3 where "b0 = wire_string 0x0A (device_id r)" and "b1 = b0 @ wire_float 0x15 (temperature r)"
    and "b2 = b1 @ wire_float 0x1D (humidity r)" and "b3 = b2 @ wire_uint 0x20 (uptime_ms r)"
  have n: "field_count d = 4" and dv: "default_value d = NULL" and
    df: "describes_field d 0 1 0x17 32 0" "describes_field d 1 2 0x14 4 32" "describes_field d 2 3 0x14 4 36" "describes_field d 3 4 0x12 4 40"
    using assms(1) by (simp_all add: describes_sensor_def)
  note wf = sensor_wf [OF assms(1)]
  have len: "length b0 \<le> 33" "length b1 \<le> 38" "length b2 \<le> 43"
    using length_wire(3) [of "device_id r" "0x0A"] length_wire(1) [of "0x15" "temperature r"] length_wire(1) [of "0x1D" "humidity r"] assms(3)
    unfolding b0_def b1_def b2_def struct_holds_def by simp_all
  have room: "room (app ?st bs) k" if "length bs + k \<le> 128" for bs k using that by (simp add: room_def app_def pb_ostream_from_buffer_def)
  have keep: "fst (app ?st bs) x = m x" if "length bs \<le> 128" "msg \<le> x" "x < msg + 44" for bs x
    using app_outside [of x ?st bs] assms(4) that by (auto simp: pb_ostream_from_buffer_def)
  have sh: "struct_holds (fst (app ?st bs)) msg r" if "length bs \<le> 128" for bs
    by (rule struct_holds_cong [OF keep [OF that] assms(3)])
  have rd: "mem_read (fst (app (app ?st bs) [key])) (msg + i) k = mem_read (fst (app ?st bs)) (msg + i) k" if "length bs < 128" "i + k \<le> 44" for bs key i k
    unfolding app_app by (rule mem_read_cong) (use keep that in simp)
  have ty: "PB_HTYPE 0x17 = PB_HTYPE_OPTIONAL" "PB_HTYPE 0x14 = PB_HTYPE_OPTIONAL" "PB_HTYPE 0x12 = PB_HTYPE_OPTIONAL"
    "PB_ATYPE 0x17 = PB_ATYPE_STATIC" "PB_ATYPE 0x14 = PB_ATYPE_STATIC" "PB_ATYPE 0x12 = PB_ATYPE_STATIC"
    by (simp_all add: PB_HTYPE_def PB_ATYPE_def)
  have nx: "\<exists>it'. pb_field_iter_next m' it = (True, it') \<and> loaded m' d (k + 1) it' \<and> message it' = msg"
    if "loaded m0 d k it" "message it = msg" "k < 3" for m0 m' k it
    using next_loaded [of d k it m'] that wf n by (cases "pb_field_iter_next m' it") (simp add: loaded_def)
  obtain it0 where i0: "pb_field_iter_begin m d msg = (True, it0)" "loaded m d 0 it0" "message it0 = msg"
    using begin_loaded [of d m msg] n by (cases "pb_field_iter_begin m d msg") simp
  have f0: "?f it0 ?st = Some (True, app ?st b0)"
    unfolding b0_def using sensor_it [OF df(1) i0(2,3) assms(2) ty(1,4)] dv assms(2) sh [of "[]"] room [of "[]" 33] rd [of "[]" 0 32 "0x0A"]
    by (intro string_field [where a = msg]) (simp_all add: struct_holds_def)
  obtain it1 where i1: "pb_field_iter_next (fst (app ?st b0)) it0 = (True, it1)" "loaded (fst (app ?st b0)) d 1 it1" "message it1 = msg"
    using nx [OF i0(2,3)] by auto
  have f1: "?f it1 (app ?st b0) = Some (True, app ?st b1)"
    unfolding b1_def app_app [symmetric]
    using sensor_it [OF df(2) i1(2,3) assms(2) ty(2,5)] dv assms(2) sh [of b0] room [of b0 5] rd [of b0 32 4 "0x15"] len
    by (intro float_field [where a = "msg + 32"]) (simp_all add: struct_holds_def)
  obtain it2 where i2: "pb_field_iter_next (fst (app ?st b1)) it1 = (True, it2)" "loaded (fst (app ?st b1)) d 2 it2" "message it2 = msg"
    using nx [OF i1(2,3)] by (auto simp: numeral_2_eq_2)
  have f2: "?f it2 (app ?st b1) = Some (True, app ?st b2)"
    unfolding b2_def app_app [symmetric]
    using sensor_it [OF df(3) i2(2,3) assms(2) ty(2,5)] dv assms(2) sh [of b1] room [of b1 5] rd [of b1 36 4 "0x1D"] len
    by (intro float_field [where a = "msg + 36"]) (simp_all add: struct_holds_def)
  obtain it3 where i3: "pb_field_iter_next (fst (app ?st b2)) it2 = (True, it3)" "loaded (fst (app ?st b2)) d 3 it3" "message it3 = msg"
    using nx [OF i2(2,3)] by (auto simp: numeral_3_eq_3 numeral_2_eq_2)
  have f3: "?f it3 (app ?st b2) = Some (True, app ?st b3)"
    unfolding b3_def app_app [symmetric]
    using sensor_it [OF df(4) i3(2,3) assms(2) ty(3,6)] dv assms(2) sh [of b2] room [of b2 6] rd [of b2 40 4 "0x20"] len
    by (intro uint_field [where a = "msg + 40"]) (simp_all add: struct_holds_def)
  have "\<not> fst (pb_field_iter_next (fst (app ?st b3)) it3)" using next_loaded(1) [of d 3 it3] i3(2) wf n by (simp add: loaded_def)
  from each_field_last [of ?f, OF f3, of fst, OF this]
  have "each_field ?f fst it0 ?st = Some (True, app ?st b3)"
    using each_field_more [of ?f it0 ?st _ fst, OF f0 i1(1)] each_field_more [of ?f it1 _ _ fst, OF f1 i2(1)] each_field_more [of ?f it2 _ _ fst, OF f2 i3(1)]
    by simp
  then show ?thesis using i0(1) by (simp add: b3_def b2_def b1_def b0_def wire_sensor_def)
qed

text \<open>What the serializer makes of its arguments: the name is cut at a NUL and at 31 bytes.\<close>
definition record_of :: "bytes \<Rightarrow> u32 \<Rightarrow> u32 \<Rightarrow> u32 \<Rightarrow> sensor_data" where
  "record_of dev temp hum uptime = \<lparr>device_id = take 31 (c_str dev), temperature = temp, humidity = hum, uptime_ms = uptime\<rparr>"

lemma c_str_no_nul: "0 \<notin> set (take n (c_str s))"
  unfolding c_str_def using set_takeWhileD [of 0 "\<lambda>c. c \<noteq> 0" s] set_take_subset [of n "takeWhile (\<lambda>c. c \<noteq> 0) s"] by auto

lemma fill_message_holds: "struct_holds (fill_message msg dev temp hum uptime m) msg (record_of dev temp hum uptime)"
proof -
  define s where "s = take 31 (c_str dev)"
  have s: "length s \<le> 31" "0 \<notin> set s" using c_str_no_nul [of 31 dev] by (simp_all add: s_def)
  let ?m0 = "mem_set m msg 0 44"
  let ?m1 = "mem_write ?m0 msg (s @ [0])"
  let ?m2 = "mem_write ?m1 (msg + 32) (nat_le 4 (unat temp))"
  let ?m3 = "mem_write ?m2 (msg + 36) (nat_le 4 (unat hum))"
  let ?m4 = "mem_write ?m3 (msg + 40) (nat_le 4 (unat uptime))"
  have f: "fill_message msg dev temp hum uptime m = ?m4" by (simp add: fill_message_def snprintf_s_def Let_def s_def)
  have "mem_read ?m4 msg (length s + 1) = s @ [0]"
    using s(1) by (simp add: mem_read_write_disjoint mem_read_write_same del: mem_write_append)
  then have "mem_read ?m4 msg (length s) = s" "?m4 (msg + length s) = 0"
    using mem_read_add [of ?m4 msg "length s" 1] by (simp_all add: mem_read_Suc)
  moreover have "mem_read ?m4 (msg + 32) 4 = nat_le 4 (unat temp)" "mem_read ?m4 (msg + 36) 4 = nat_le 4 (unat hum)"
    "mem_read ?m4 (msg + 40) 4 = nat_le 4 (unat uptime)"
    by (simp_all add: mem_read_write_disjoint)
  ultimately show ?thesis unfolding f struct_holds_def record_of_def s_def [symmetric] using s by simp
qed

lemma length_wire_sensor: "length (device_id r) \<le> 31 \<Longrightarrow> length (wire_sensor r) \<le> 49"
  using length_wire(3) [of "device_id r" "0x0A"] length_wire(1) [of "0x15" "temperature r"] length_wire(1) [of "0x1D" "humidity r"]
    length_wire(2) [of "0x20" "uptime_ms r"] by (simp add: wire_sensor_def)

lemma serialize_wire:
  assumes "describes_sensor d" and "msg \<noteq> NULL" and "msg + 44 \<le> buf \<or> buf + 128 \<le> msg" and "2 \<le> depth"
  shows "serialize_sensor_data depth E d msg buf dev temp hum uptime m =
    Some (wire_sensor (record_of dev temp hum uptime),
      fst (app (fill_message msg dev temp hum uptime m, pb_ostream_from_buffer buf 128) (wire_sensor (record_of dev temp hum uptime))))"
proof -
  define n where "n = depth - 2"
  have depth: "depth = Suc (Suc n)" using assms(4) by (simp add: n_def)
  show ?thesis
    unfolding serialize_sensor_data_def depth sensor_encode [OF assms(1,2) fill_message_holds assms(3)]
    by (simp add: app_def pb_ostream_from_buffer_def)
qed

text \<open>
  C30. The serializer of the sensor node never fails: for every name, readings and uptime the payload is
  the proto3 encoding of the record with the name cut to 31 bytes. It takes at most 49 of the 128 bytes of
  the buffer, and the node's memory changes only in the two local variables.
\<close>
theorem serialize_sensor_data_correct:
  assumes "describes_sensor d" and "msg \<noteq> NULL" and "msg + 44 \<le> buf \<or> buf + 128 \<le> msg" and "2 \<le> depth"
  shows "\<exists>m'. serialize_sensor_data depth E d msg buf dev temp hum uptime m = Some (wire_sensor (record_of dev temp hum uptime), m')
    \<and> length (wire_sensor (record_of dev temp hum uptime)) \<le> 49 \<and> mem_frame ({msg..<msg + 44} \<union> {buf..<buf + 128}) m m'"
proof -
  let ?r = "record_of dev temp hum uptime" and ?m = "fill_message msg dev temp hum uptime m"
  have len: "length (wire_sensor ?r) \<le> 49" by (rule length_wire_sensor) (simp add: record_of_def)
  let ?st = "app (?m, pb_ostream_from_buffer buf 128) (wire_sensor ?r)"
  have "mem_frame {msg..<msg + 44} m ?m"
    by (auto simp: mem_frame_def fill_message_def snprintf_s_def mem_set_def Let_def mem_write_outside c_str_def)
  moreover have "mem_frame {buf..<buf + 128} ?m (fst ?st)"
    unfolding app_def pb_ostream_from_buffer_def using len by (auto intro!: mem_frame_write)
  ultimately have "mem_frame ({msg..<msg + 44} \<union> {buf..<buf + 128}) m (fst ?st)" by (simp add: mem_frame_def)
  then show ?thesis using serialize_wire [OF assms] len by blast
qed

lemma nat_le_4: "nat_le 4 n = [of_nat (n mod 256), of_nat (n div 256 mod 256), of_nat (n div 65536 mod 256), of_nat (n div 16777216 mod 256)]"
proof -
  have "(4 :: nat) = Suc (Suc (Suc (Suc 0)))" by simp
  then have "nat_le 4 n = [of_nat (n mod 256), of_nat (n div 256 mod 256), of_nat (n div 256 div 256 mod 256), of_nat (n div 256 div 256 div 256 mod 256)]"
    by (simp only: nat_le.simps)
  then show ?thesis by (simp add: div_mult2_eq [symmetric])
qed

theorem serialize_sensor_data_correct_witness:
  "\<exists>m'. serialize_sensor_data 2 plain_env sensor_desc 1000 2000 [0x45, 0x53, 0x50] 0x41CB3333 0 7 (\<lambda>_. 0) =
     Some ([0x0A, 3, 0x45, 0x53, 0x50, 0x15, 0x33, 0x33, 0xCB, 0x41, 0x20, 7], m')"
proof -
  have "wire_sensor (record_of [0x45, 0x53, 0x50] 0x41CB3333 0 7) = [0x0A, 3, 0x45, 0x53, 0x50, 0x15, 0x33, 0x33, 0xCB, 0x41, 0x20, 7]"
    by (simp add: wire_sensor_def record_of_def wire_string_def wire_float_def wire_uint_def c_str_def small_varint nat_le_4)
  with serialize_sensor_data_correct [OF sensor_desc_describes, of 1000 2000 2 plain_env "[0x45, 0x53, 0x50]" "0x41CB3333" 0 7 "\<lambda>_. 0"]
  show ?thesis by auto
qed

end
