(* ===== verification/Sensor_Roundtrip.thy ===== *)
theory Sensor_Roundtrip
  imports Sensor_Codec
begin

unbundle bit_operations_syntax

text \<open>
  The telemetry record survives the wire: decoding what the sensor node serialized gives back the record.
\<close>

section \<open>One round of the decoder\<close>

lemma tag_buf:
  assumes "holds st (b # bs)" and "unat b < 128"
  shows "pb_decode_tag E st = (TagOk (unat b mod 8) (unat b div 8), adv 1 st)"
proof -
  have "holds st (varint (unat b))" using assms holds_append [of st "[b]" bs] by (simp add: varint_last)
  then have d: "pb_decode_varint32 E st = (Some (of_nat (unat b)), adv 1 st)"
    using decode_varint32_buf [of st "unat b" E] assms(2) by (simp add: varint_last)
  have u: "unat (of_nat (unat b) :: u32) = unat b" using assms(2) by (simp add: unsigned_ucast_eq take_bit_eq_mod)
  have seven: "(7 :: u32) = mask 3" by (simp add: mask_eq_exp_minus_1)
  have "unat ((of_nat (unat b) :: u32) AND 7) = unat b mod 8" "unat (drop_bit 3 (of_nat (unat b) :: u32)) = unat b div 8"
    unfolding seven unat_and_mask unat_drop_bit_u32 u by simp_all
  moreover have "bytes_left (snd st) \<noteq> 0" using assms(1) by (auto simp: holds_def)
  ultimately show ?thesis by (simp add: pb_decode_tag_def d)
qed

lemma find_loop_message: "message (snd (find_loop n m start t it)) = message it"
proof (induction n arbitrary: it)
  case (Suc n)
  have "message (advance_iterator it) = message it" by (simp add: advance_iterator_def Let_def)
  then show ?case by (simp add: find_loop.simps(2) Let_def Suc.IH)
qed simp

lemma find_message: "message (snd (pb_field_iter_find m t it)) = message it"
  by (simp add: pb_field_iter_find_def find_loop_message)

lemma sensor_find:
  assumes "describes_sensor d" and "loaded m0 d k it" and "message it = msg" and "j < 4"
  shows "\<exists>m1 it'. pb_field_iter_find m (j + 1) it = (True, it') \<and> loaded m1 d j it' \<and> message it' = msg"
proof (cases "k = j")
  case True
  then have "tag it = j + 1" using sensor_tag [OF assms(1,4)] load_values(2) [of d k it m0] assms(2) by (simp add: loaded_def)
  then show ?thesis using True assms(2,3) by (auto simp: pb_field_iter_find_def)
next
  case False
  have n: "field_count d = 4" using assms(1) by (simp add: describes_sensor_def)
  have k: "positioned d k it" "k < 4" "tag it = tag_at d k" using assms(2) load_values(2) [of d k it m0] n by (auto simp: loaded_def positioned_def)
  have ext: "PB_LTYPE (type_at d i) \<noteq> PB_LTYPE_EXTENSION" if "i < 4" for i
    using that assms(1) unfolding less_4 describes_sensor_def describes_field_def by (auto simp: PB_LTYPE_def)
  have "tag_at d k \<noteq> j + 1" using sensor_tag [OF assms(1) k(2)] False by simp
  moreover have "\<exists>i < field_count d. tag_at d i = j + 1 \<and> PB_LTYPE (type_at d i) \<noteq> PB_LTYPE_EXTENSION"
    using sensor_tag [OF assms(1,4)] ext [OF assms(4)] assms(4) n by auto
  ultimately have "fst (pb_field_iter_find m (j + 1) it) \<and> (\<exists>i. tag_at d i = j + 1 \<and> loaded m d i (snd (pb_field_iter_find m (j + 1) it)))"
    using iter_find_correct [OF sensor_wf [OF assms(1)] k(1,3), of "j + 1" m] by auto
  then obtain i where i: "fst (pb_field_iter_find m (j + 1) it)" "tag_at d i = j + 1" "loaded m d i (snd (pb_field_iter_find m (j + 1) it))" by blast
  then have "i < 4" using n by (simp add: loaded_def positioned_def)
  then have "i = j" using sensor_tag [OF assms(1)] i(2) by simp
  moreover have "message (snd (pb_field_iter_find m (j + 1) it)) = msg"
    using find_message assms(3) by simp
  ultimately show ?thesis using i by (metis prod.collapse)
qed


text \<open>The loop of the decoder stands at some field of the record, with no fixed-count array open.\<close>
definition ready :: "pb_msgdesc \<Rightarrow> addr \<Rightarrow> inner_vars \<Rightarrow> bool" where
  "ready d msg L \<longleftrightarrow> (\<exists>m k. loaded m d k (iter L)) \<and> message (iter L) = msg \<and> fixed_count_field L = PB_SIZE_MAX"

lemma set_psize_bool_null: "pSize it = PNull \<Longrightarrow> set_psize_bool v (st, it) = (st, it)"
  by (simp add: set_psize_bool_def write_psize_bool_def split_beta)

lemma known_round:
  assumes "describes_sensor d" and "msg \<noteq> NULL" and "ready d msg L" and "describes_field d j (j + 1) ty sz off" and "j < 4"
    and "PB_HTYPE ty = PB_HTYPE_OPTIONAL" and "PB_ATYPE ty = PB_ATYPE_STATIC" and "PB_LTYPE ty \<noteq> PB_LTYPE_EXTENSION"
    and "holds st (b # bs)" and "unat b < 128" and "unat b div 8 = j + 1"
    and "\<And>it. ftype it = ty \<Longrightarrow> data_size it = sz \<Longrightarrow> pData it = msg + off \<Longrightarrow>
      decode_basic_field R E (unat b mod 8) it (adv 1 st) = Some (True, st')"
  shows "\<exists>L'. ready d msg L' \<and> inner_loop (Suc k) n R E flags (L, st) = inner_loop k n R E flags (L', st')"
proof -
  obtain m0 i where "loaded m0 d i (iter L)" "message (iter L) = msg" using assms(3) by (auto simp: ready_def)
  from sensor_find [OF assms(1) this assms(5), of "fst (adv 1 st)"] obtain m1 it where
    it: "pb_field_iter_find (fst (adv 1 st)) (j + 1) (iter L) = (True, it)" "loaded m1 d j it" "message it = msg" by blast
  note f = sensor_it [OF assms(4) it(2,3) assms(2,6,7)]
  have "decode_basic_field R E (unat b mod 8) it (adv 1 st) = Some (True, st')" using assms(12) f by simp
  then have "decode_field n R E (unat b mod 8) (adv 1 st, it) = Some (True, (st', it))"
    using f assms(6,7) by (simp add: decode_field_def decode_static_field_def set_psize_bool_null with_iter_def Let_def)
  then have "decode_known n R E (unat b mod 8) (L\<lparr>iter := it\<rparr>, adv 1 st) = Some (True, (L\<lparr>iter := it\<rparr>, st'))"
    using f assms(6) by (simp add: decode_known_def track_fixed_count_def mark_required_def Let_def)
  then have "inner_loop (Suc k) n R E flags (L, st) = inner_loop k n R E flags (L\<lparr>iter := it\<rparr>, st')"
    using tag_buf [OF assms(9,10), of E] it(1) f assms(8,11) by (simp add: seqo_def)
  moreover have "ready d msg (L\<lparr>iter := it\<rparr>)" using it(2,3) assms(3) by (auto simp: ready_def)
  ultimately show ?thesis by blast
qed


section \<open>The fields of the record\<close>

text \<open>What decoding a field leaves in the struct; a field left out of the message is not touched.\<close>
definition put_word :: "addr \<Rightarrow> u32 \<Rightarrow> mem \<Rightarrow> mem" where
  "put_word a v m = (if v = 0 then m else mem_write m a (nat_le 4 (unat v)))"

definition put_string :: "addr \<Rightarrow> bytes \<Rightarrow> mem \<Rightarrow> mem" where
  "put_string a s m = (if s = [] then m else mem_write (m(a + length s := 0)) a s)"

text \<open>From \<open>(m, s)\<close> the loop goes on \<open>length bs\<close> bytes later, with memory \<open>m'\<close>, having used at most one round.\<close>
definition goes_on :: "pb_msgdesc \<Rightarrow> addr \<Rightarrow> nat \<Rightarrow> dec_ops \<Rightarrow> dec_env \<Rightarrow> bytes \<Rightarrow> mem \<Rightarrow> mem \<Rightarrow> pb_istream \<Rightarrow> bool" where
  "goes_on d msg n R E bs m m' s \<longleftrightarrow> (\<forall>L k. ready d msg L \<longrightarrow> 0 < k \<longrightarrow>
     (\<exists>L' k'. ready d msg L' \<and> k \<le> Suc k' \<and> inner_loop k n R E 0 (L, (m, s)) = inner_loop k' n R E 0 (L', (m', snd (adv (length bs) (m, s))))))"

lemma goes_on_Nil: "goes_on d msg n R E [] m m s"
  unfolding goes_on_def by (metis adv_0 le_SucI list.size(3) order.refl snd_conv)

lemma goes_on_known:
  assumes "describes_sensor d" and "msg \<noteq> NULL" and "describes_field d j (j + 1) ty sz off" and "j < 4"
    and "PB_HTYPE ty = PB_HTYPE_OPTIONAL" and "PB_ATYPE ty = PB_ATYPE_STATIC" and "PB_LTYPE ty \<noteq> PB_LTYPE_EXTENSION"
    and "holds (m, s) (b # bs)" and "unat b < 128" and "unat b div 8 = j + 1"
    and "\<And>it. ftype it = ty \<Longrightarrow> data_size it = sz \<Longrightarrow> pData it = msg + off \<Longrightarrow>
      decode_basic_field R E (unat b mod 8) it (adv 1 (m, s)) = Some (True, (m', snd (adv (length (b # bs)) (m, s))))"
  shows "goes_on d msg n R E (b # bs) m m' s"
  unfolding goes_on_def
proof (intro allI impI)
  fix L and k :: nat assume L: "ready d msg L" "0 < k"
  from L(2) obtain k' where k: "k = Suc k'" using gr0_implies_Suc by blast
  from known_round [OF assms(1,2) L(1) assms(3-11), of k' n 0]
  show "\<exists>L' k'. ready d msg L' \<and> k \<le> Suc k' \<and> inner_loop k n R E 0 (L, (m, s)) = inner_loop k' n R E 0 (L', (m', snd (adv (length (b # bs)) (m, s))))"
    unfolding k by blast
qed

lemma goes_on_float:
  assumes "describes_sensor d" and "msg \<noteq> NULL" and "describes_field d j (j + 1) 0x14 4 off" and "j < 4"
    and "unat b < 128" and "unat b div 8 = j + 1" and "unat b mod 8 = 5" and "holds (m, s) (wire_float b v)"
  shows "goes_on d msg n R E (wire_float b v) m (put_word (msg + off) v m) s"
proof (cases "v = 0")
  case False
  then have w: "wire_float b v = b # nat_le 4 (unat v)" by (simp add: wire_float_def)
  have "holds (adv 1 (m, s)) (nat_le 4 (unat v))" using assms(8) holds_Cons unfolding w by blast
  then have r: "pb_read E 4 (adv 1 (m, s)) = (Some (nat_le 4 (unat v)), adv 4 (adv 1 (m, s)))" by (rule read_buf) simp
  have u: "le_nat (nat_le 4 (unat v)) = unat v" using unat_u32_less [of v] by (simp add: le_nat_nat_le)
  show ?thesis unfolding w
  proof (rule goes_on_known [OF assms(1-4)])
    fix it :: pb_field_iter assume it: "ftype it = 0x14" "data_size it = 4" "pData it = msg + off"
    show "decode_basic_field R E (unat b mod 8) it (adv 1 (m, s)) =
        Some (True, (put_word (msg + off) v m, snd (adv (length (b # nat_le 4 (unat v))) (m, s))))"
      using it r u False by (simp add: decode_basic_field_def assms(7) PB_LTYPE_def Let_def pb_decode_fixed32_def ibind_def put_word_def split_beta)
  qed (use assms(5-8) w in \<open>simp_all add: PB_HTYPE_def PB_ATYPE_def PB_LTYPE_def\<close>)
qed (simp add: wire_float_def put_word_def goes_on_Nil)

lemma goes_on_uint:
  assumes "describes_sensor d" and "msg \<noteq> NULL" and "describes_field d j (j + 1) 0x12 4 off" and "j < 4"
    and "unat b < 128" and "unat b div 8 = j + 1" and "unat b mod 8 = 0" and "holds (m, s) (wire_uint b v)"
  shows "goes_on d msg n R E (wire_uint b v) m (put_word (msg + off) v m) s"
proof (cases "v = 0")
  case False
  then have w: "wire_uint b v = b # varint (unat v)" by (simp add: wire_uint_def)
  let ?v = "ucast v :: u64"
  have u: "unat ?v = unat v" using unat_u32_less [of v] by (simp add: unsigned_ucast_eq take_bit_eq_mod)
  have "holds (adv 1 (m, s)) (varint (unat ?v))" using assms(8) holds_Cons unfolding w u by blast
  then have r: "pb_decode_varint E (adv 1 (m, s)) = (Some ?v, adv (length (varint (unat v))) (adv 1 (m, s)))"
    using decode_varint_buf [of _ ?v E] unfolding u by blast
  have c: "take_bit 32 ?v = ?v" by (rule bit_word_eqI) (auto simp: bit_simps dest: bit_imp_le_length)
  show ?thesis unfolding w
  proof (rule goes_on_known [OF assms(1-4)])
    fix it :: pb_field_iter assume it: "ftype it = 0x12" "data_size it = 4" "pData it = msg + off"
    show "decode_basic_field R E (unat b mod 8) it (adv 1 (m, s)) =
        Some (True, (put_word (msg + off) v m, snd (adv (length (b # varint (unat v))) (m, s))))"
      using it r u c False
      by (simp add: decode_basic_field_def assms(7) PB_LTYPE_def Let_def pb_dec_varint_def store_clamped_def ibind_def put_word_def split_beta)
  qed (use assms(5-8) w in \<open>simp_all add: PB_HTYPE_def PB_ATYPE_def PB_LTYPE_def\<close>)
qed (simp add: wire_uint_def put_word_def goes_on_Nil)


lemma goes_on_string:
  assumes "describes_sensor d" and "msg \<noteq> NULL" and "describes_field d 0 (0 + 1) 0x17 32 off"
    and "unat b < 128" and "unat b div 8 = 0 + 1" and "unat b mod 8 = 2" and "length t \<le> 31" and "holds (m, s) (wire_string b t)"
    and "i_state s + bytes_left s \<le> msg + off \<or> msg + off + 32 \<le> i_state s"
  shows "goes_on d msg n R E (wire_string b t) m (put_string (msg + off) t m) s"
proof (cases "t = []")
  case False
  let ?a = "msg + off" and ?v = "varint (length t)"
  have w: "wire_string b t = b # ?v @ t" using False by (simp add: wire_string_def)
  have l: "length ?v = 1" using assms(7) by (simp add: small_varint)
  have "holds (adv 1 (m, s)) (?v @ t)" using assms(8) holds_Cons unfolding w by blast
  then have h: "holds (adv 1 (m, s)) ?v" "holds (adv 2 (m, s)) t" unfolding holds_append l by (simp_all add: numeral_2_eq_2)
  have r: "pb_decode_varint32 E (adv 1 (m, s)) = (Some (of_nat (length t)), adv 2 (m, s))"
    using decode_varint32_buf [OF h(1), of E] assms(7) l by (simp add: numeral_2_eq_2)
  have u: "unat (of_nat (length t) :: u32) = length t" using assms(7) by (simp add: unat_of_nat)
  then have ne: "(of_nat (length t) :: u32) \<noteq> - 1" using assms(7) by (auto dest!: arg_cong [of _ _ unat] simp: unsigned_minus_1_eq_mask mask_eq_exp_minus_1)
  have "holds (m(?a + length t := 0), snd (adv 2 (m, s))) t"
  proof -
    have "length t \<le> bytes_left s - 2" "2 \<le> bytes_left s"
      using h(2) assms(8) l unfolding holds_def w by simp_all
    then have "mem_read (m(?a + length t := 0)) (i_state s + 2) (length t) = mem_read m (i_state s + 2) (length t)"
      using assms(7,9) by (intro mem_read_cong) auto
    then show ?thesis using h(2) by (simp add: holds_def)
  qed
  from read_to_buf [OF this refl, of E ?a]
  have q: "pb_read_to E ?a (length t) (m(?a + length t := 0), snd (adv 2 (m, s)))
      = (True, (put_string ?a t m, snd (adv (2 + length t) (m, s))))"
    using False by (simp add: put_string_def adv_def)
  show ?thesis unfolding w
  proof (rule goes_on_known [OF assms(1-3)])
    fix it :: pb_field_iter assume it: "ftype it = 0x17" "data_size it = 32" "pData it = ?a"
    show "decode_basic_field R E (unat b mod 8) it (adv 1 (m, s)) = Some (True, (put_string ?a t m, snd (adv (length (b # ?v @ t)) (m, s))))"
      using it r u ne q assms(7) l
      by (simp add: decode_basic_field_def assms(6) PB_LTYPE_def PB_ATYPE_def Let_def pb_dec_string_def ibind_def)
  qed (use assms(4-8) w in \<open>simp_all add: PB_HTYPE_def PB_ATYPE_def PB_LTYPE_def\<close>)
qed (simp add: wire_string_def put_string_def goes_on_Nil)

lemma goes_on_trans:
  assumes "goes_on d msg n R E bs m m' s" and "ready d msg L" and "0 < k"
  obtains L' k' where "ready d msg L'" "k \<le> Suc k'"
    "inner_loop k n R E 0 (L, (m, s)) = inner_loop k' n R E 0 (L', (m', snd (adv (length bs) (m, s))))"
  using assms unfolding goes_on_def by blast

section \<open>Default values\<close>

lemma sensor_defaults:
  assumes "describes_sensor d" and "msg \<noteq> NULL" and "loaded m d 0 it" and "message it = msg"
  shows "\<exists>it'. set_to_defaults n R E (m, it) =
      Some (True, (mem_set (mem_set (mem_set (mem_set m msg 0 32) (msg + 32) 0 4) (msg + 36) 0 4) (msg + 40) 0 4, it'))
    \<and> (\<exists>m0 k. loaded m0 d k it') \<and> message it' = msg"
proof -
  have n: "field_count d = 4" and dv: "default_value d = NULL" and
    df: "describes_field d 0 1 0x17 32 0" "describes_field d 1 2 0x14 4 32" "describes_field d 2 3 0x14 4 36" "describes_field d 3 4 0x12 4 40"
    using assms(1) by (simp_all add: describes_sensor_def)
  note wf = sensor_wf [OF assms(1)]
  have step: "set_field n R E (PB_WT_VARINT, 0) PB_ISTREAM_EMPTY (m', it') = Some (True, (PB_WT_VARINT, 0), PB_ISTREAM_EMPTY, (mem_set m' (msg + off) 0 sz, it'))"
    if "describes_field d k t ty sz off" "loaded m0 d k it'" "message it' = msg" "ty \<in> {0x17, 0x14, 0x12}" for k t ty sz off m0 m' it'
  proof -
    have ty: "PB_HTYPE ty = PB_HTYPE_OPTIONAL" "PB_ATYPE ty = PB_ATYPE_STATIC" "PB_LTYPE ty \<noteq> PB_LTYPE_EXTENSION" "\<not> PB_LTYPE_IS_SUBMSG ty"
      using that(4) by (auto simp: PB_HTYPE_def PB_ATYPE_def PB_LTYPE_def PB_LTYPE_IS_SUBMSG_def)
    show ?thesis using sensor_it [OF that(1,2,3) assms(2) ty(1,2)] ty
      by (simp add: set_field_def pb_field_set_to_default_def Let_def)
  qed
  have nx: "\<exists>it2. pb_field_iter_next m' it' = (more, it2) \<and> loaded m' d k' it2 \<and> message it2 = msg"
    if "loaded m0 d k it'" "message it' = msg" "k' = (k + 1) mod 4" "more \<longleftrightarrow> k < 3" for m0 m' k k' it' more
    using next_loaded [of d k it' m'] that wf n by (cases "pb_field_iter_next m' it'") (auto simp: loaded_def)
  have idx: "(1 :: nat) = (0 + 1) mod 4" "(2 :: nat) = (1 + 1) mod 4" "(3 :: nat) = (2 + 1) mod 4" "(0 :: nat) = (3 + 1) mod 4"
    "True \<longleftrightarrow> 0 < (3 :: nat)" "True \<longleftrightarrow> 1 < (3 :: nat)" "True \<longleftrightarrow> 2 < (3 :: nat)" "False \<longleftrightarrow> 3 < (3 :: nat)" by simp_all
  let ?m1 = "mem_set m msg 0 32"
  let ?m2 = "mem_set ?m1 (msg + 32) 0 4"
  let ?m3 = "mem_set ?m2 (msg + 36) 0 4"
  let ?m4 = "mem_set ?m3 (msg + 40) 0 4"
  obtain it1 where i1: "pb_field_iter_next ?m1 it = (True, it1)" "loaded ?m1 d 1 it1" "message it1 = msg" using nx [OF assms(3,4) idx(1,5), of ?m1] by blast
  obtain it2 where i2: "pb_field_iter_next ?m2 it1 = (True, it2)" "loaded ?m2 d 2 it2" "message it2 = msg" using nx [OF i1(2,3) idx(2,6), of ?m2] by blast
  obtain it3 where i3: "pb_field_iter_next ?m3 it2 = (True, it3)" "loaded ?m3 d 3 it3" "message it3 = msg" using nx [OF i2(2,3) idx(3,7), of ?m3] by blast
  obtain it4 where i4: "pb_field_iter_next ?m4 it3 = (False, it4)" "loaded ?m4 d 0 it4" "message it4 = msg" using nx [OF i3(2,3) idx(4,8), of ?m4] by blast
  have loop: "defaults_loop (Suc k) n R E (PB_WT_VARINT, 0) PB_ISTREAM_EMPTY (m', a) =
      (if more then defaults_loop k n R E (PB_WT_VARINT, 0) PB_ISTREAM_EMPTY (m2, b) else Some (True, (m2, b)))"
    if "set_field n R E (PB_WT_VARINT, 0) PB_ISTREAM_EMPTY (m', a) = Some (True, (PB_WT_VARINT, 0), PB_ISTREAM_EMPTY, (m2, a))"
      "pb_field_iter_next m2 a = (more, b)" for k m' m2 a b more
    using that by simp
  note steps = loop [OF step [OF df(1) assms(3,4), of m, simplified] i1(1)] loop [OF step [OF df(2) i1(2,3), of ?m1, simplified] i2(1)]
    loop [OF step [OF df(3) i2(2,3), of ?m2, simplified] i3(1)] loop [OF step [OF df(4) i3(2,3), of ?m3, simplified] i4(1)]
  have four: "(4 :: nat) = Suc (Suc (Suc (Suc 0)))" by simp
  have "descriptor it = d" using assms(3) by (simp add: loaded_def positioned_def)
  then have "set_to_defaults n R E (m, it) = defaults_loop 4 n R E (PB_WT_VARINT, 0) PB_ISTREAM_EMPTY (m, it)"
    by (simp add: set_to_defaults_def dv n)
  also have "\<dots> = defaults_loop (Suc (Suc (Suc (Suc 0)))) n R E (PB_WT_VARINT, 0) PB_ISTREAM_EMPTY (m, it)"
    by (rule arg_cong [OF four, of "\<lambda>k. defaults_loop k n R E (PB_WT_VARINT, 0) PB_ISTREAM_EMPTY (m, it)"])
  also have "\<dots> = Some (True, (?m4, it4))" using steps by (simp only: if_True if_False)
  finally have "set_to_defaults n R E (m, it) = Some (True, (?m4, it4))" .
  then show ?thesis using i4(2,3) by blast
qed


section \<open>The whole message\<close>

definition put_sensor :: "addr \<Rightarrow> sensor_data \<Rightarrow> mem \<Rightarrow> mem" where
  "put_sensor a r m = put_word (a + 40) (uptime_ms r) (put_word (a + 36) (humidity r) (put_word (a + 32) (temperature r) (put_string a (device_id r) m)))"

lemma put_frame:
  "mem_frame {a..<a + 4} m (put_word a v m)" "length t \<le> 31 \<Longrightarrow> mem_frame {a..<a + 32} m (put_string a t m)"
  by (auto simp: mem_frame_def put_word_def put_string_def mem_write_outside)

lemma holds_frame:
  assumes "mem_frame A m m'" and "{i_state s..<i_state s + length bs} \<inter> A = {}"
  shows "holds (m', s) bs \<longleftrightarrow> holds (m, s) bs"
  using mem_frame_read [OF assms] by (simp add: holds_def)

lemma sensor_loop:
  assumes "describes_sensor d" and "msg \<noteq> NULL" and "ready d msg L" and "5 \<le> k" and "length (device_id r) \<le> 31"
    and "holds (m, s) (wire_sensor r)" and "bytes_left s = length (wire_sensor r)"
    and "i_state s + bytes_left s \<le> msg \<or> msg + 44 \<le> i_state s"
  shows "\<exists>L'. ready d msg L' \<and> inner_loop k n R E 0 (L, (m, s)) = Some (True, (L', (put_sensor msg r m, snd (adv (length (wire_sensor r)) (m, s)))))"
proof -
  define b0 b1 b2 b3 where b: "b0 = wire_string 0x0A (device_id r)" "b1 = wire_float 0x15 (temperature r)"
    "b2 = wire_float 0x1D (humidity r)" "b3 = wire_uint 0x20 (uptime_ms r)"
  have w: "wire_sensor r = b0 @ b1 @ b2 @ b3" by (simp add: wire_sensor_def b)
  define m1 m2 m3 m4 where m: "m1 = put_string msg (device_id r) m" "m2 = put_word (msg + 32) (temperature r) m1"
    "m3 = put_word (msg + 36) (humidity r) m2" "m4 = put_word (msg + 40) (uptime_ms r) m3"
  define s1 s2 s3 s4 where s: "s1 = snd (adv (length b0) (m, s))" "s2 = snd (adv (length b1) (m1, s1))"
    "s3 = snd (adv (length b2) (m2, s2))" "s4 = snd (adv (length b3) (m3, s3))"
  have df: "describes_field d 0 (0 + 1) 0x17 32 0" "describes_field d 1 (1 + 1) 0x14 4 32" "describes_field d 2 (2 + 1) 0x14 4 36"
    "describes_field d 3 (3 + 1) 0x12 4 40"
    using assms(1) by (simp_all add: describes_sensor_def eval_nat_numeral)
  have hm: "mem_frame {msg..<msg + 44} m m1" "mem_frame {msg..<msg + 44} m1 m2" "mem_frame {msg..<msg + 44} m2 m3"
    using put_frame(2) [OF assms(5), of msg m] put_frame(1) [of "msg + 32"] put_frame(1) [of "msg + 36"]
    unfolding m by (auto simp: mem_frame_def)
  have h: "holds (m, s) b0" "holds (m, s1) (b1 @ b2 @ b3)"
    using assms(6) holds_append [of "(m, s)" b0] unfolding w by (simp_all add: s adv_def)
  have h1: "holds (m1, s1) b1" "holds (m1, s2) (b2 @ b3)"
    using h(2) holds_frame [OF hm(1), of s1 "b1 @ b2 @ b3"] holds_append [of "(m1, s1)" b1] assms(7,8) unfolding w by (auto simp: s adv_def)
  have h2: "holds (m2, s2) b2" "holds (m2, s3) b3"
    using h1(2) holds_frame [OF hm(2), of s2 "b2 @ b3"] holds_append [of "(m2, s2)" b2] assms(7,8) unfolding w by (auto simp: s adv_def)
  have h3: "holds (m3, s3) b3"
    using h2(2) holds_frame [OF hm(3), of s3 b3] assms(7,8) unfolding w by (auto simp: s adv_def)
  have g0: "goes_on d msg n R E b0 m m1 s"
    using goes_on_string [OF assms(1,2) df(1), of "0x0A" "device_id r" m s n R E] h(1) assms(5,7,8) by (auto simp: b m)
  have g1: "goes_on d msg n R E b1 m1 m2 s1"
    using goes_on_float [OF assms(1,2) df(2), of "0x15" m1 s1 "temperature r" n R E] h1(1) by (simp add: b m)
  have g2: "goes_on d msg n R E b2 m2 m3 s2"
    using goes_on_float [OF assms(1,2) df(3), of "0x1D" m2 s2 "humidity r" n R E] h2(1) by (simp add: b m)
  have g3: "goes_on d msg n R E b3 m3 m4 s3"
    using goes_on_uint [OF assms(1,2) df(4), of "0x20" m3 s3 "uptime_ms r" n R E] h3 by (simp add: b m)
  have k: "0 < k" using assms(4) by simp
  obtain L1 k1 where 1: "ready d msg L1" "k \<le> Suc k1" "inner_loop k n R E 0 (L, (m, s)) = inner_loop k1 n R E 0 (L1, (m1, s1))"
    using goes_on_trans [OF g0 assms(3) k] unfolding s by blast
  have k1: "0 < k1" using 1(2) assms(4) by simp
  obtain L2 k2 where 2: "ready d msg L2" "k1 \<le> Suc k2" "inner_loop k1 n R E 0 (L1, (m1, s1)) = inner_loop k2 n R E 0 (L2, (m2, s2))"
    using goes_on_trans [OF g1 1(1) k1] unfolding s by blast
  have k2: "0 < k2" using 1(2) 2(2) assms(4) by simp
  obtain L3 k3 where 3: "ready d msg L3" "k2 \<le> Suc k3" "inner_loop k2 n R E 0 (L2, (m2, s2)) = inner_loop k3 n R E 0 (L3, (m3, s3))"
    using goes_on_trans [OF g2 2(1) k2] unfolding s by blast
  have k3: "0 < k3" using 1(2) 2(2) 3(2) assms(4) by simp
  obtain L4 k4 where 4: "ready d msg L4" "k3 \<le> Suc k4" "inner_loop k3 n R E 0 (L3, (m3, s3)) = inner_loop k4 n R E 0 (L4, (m4, s4))"
    using goes_on_trans [OF g3 3(1) k3] unfolding s by blast
  obtain q where q: "k4 = Suc q" using 1(2) 2(2) 3(2) 4(2) assms(4) by (cases k4) auto
  have "bytes_left s4 = 0" using assms(7) by (simp add: s w)
  then have "inner_loop k4 n R E 0 (L4, (m4, s4)) = Some (True, (L4, (m4, s4)))" by (simp add: q pb_decode_tag_def)
  moreover have "s4 = snd (adv (length (wire_sensor r)) (m, s))" "m4 = put_sensor msg r m"
    by (simp_all add: s w adv_def put_sensor_def m add.assoc)
  ultimately show ?thesis using 1(3) 2(3) 3(3) 4(1,3) by auto
qed


lemma put_word_read:
  "mem_read m a 4 = replicate 4 0 \<Longrightarrow> mem_read (put_word a v m) a 4 = nat_le 4 (unat v)"
  "x + n \<le> a \<or> a + 4 \<le> x \<Longrightarrow> mem_read (put_word a v m) x n = mem_read m x n"
  using nat_le_zero [of 0 4] by (simp_all add: put_word_def mem_read_write_disjoint)

lemma put_sensor_holds:
  assumes "length (device_id r) \<le> 31" and "0 \<notin> set (device_id r)" and "mem_read m a 44 = replicate 44 0"
  shows "struct_holds (put_sensor a r m) a r"
proof -
  let ?t = "device_id r" and ?m1 = "put_string a (device_id r) m"
  have z: "mem_read m (a + i) n = replicate n 0" if "i + n \<le> 44" for i n
  proof -
    have "m (a + (i + j)) = 0" if "j < n" for j
      using arg_cong [OF assms(3), of "\<lambda>xs. xs ! (i + j)"] \<open>i + n \<le> 44\<close> that by simp
    then show ?thesis by (simp add: list_eq_iff_nth_eq add.assoc)
  qed
  have f: "mem_read ?m1 (a + i) n = mem_read m (a + i) n" if "32 \<le> i" for i n
    using put_frame(2) [OF assms(1), of a m] that by (intro mem_frame_read) auto
  have t: "mem_read ?m1 a (length ?t + 1) = ?t @ [0]"
  proof (cases "?t = []")
    case False
    then have "mem_read ?m1 (a + length ?t) 1 = [0]" by (simp add: put_string_def mem_read_Suc mem_write_outside)
    with False show ?thesis unfolding mem_read_add by (simp add: put_string_def)
  qed (use z [of 0 1] in \<open>simp add: put_string_def\<close>)
  then have "mem_read (put_sensor a r m) a (length ?t + 1) = ?t @ [0]"
    unfolding put_sensor_def using assms(1) by (simp add: put_word_read(2))
  then have "mem_read (put_sensor a r m) a (length ?t) = ?t" "put_sensor a r m (a + length ?t) = 0"
    using mem_read_add [of "put_sensor a r m" a "length ?t" 1] by (simp_all add: mem_read_Suc)
  moreover have "mem_read (put_sensor a r m) (a + 32) 4 = nat_le 4 (unat (temperature r))"
    "mem_read (put_sensor a r m) (a + 36) 4 = nat_le 4 (unat (humidity r))"
    "mem_read (put_sensor a r m) (a + 40) 4 = nat_le 4 (unat (uptime_ms r))"
    unfolding put_sensor_def using f [of 32 4] f [of 36 4] f [of 40 4] z [of 32 4] z [of 36 4] z [of 40 4]
    by (simp_all add: put_word_read)
  ultimately show ?thesis using assms(1,2) by (simp add: struct_holds_def)
qed

lemma mem_set_read: "mem_read (mem_set m a v n) a n = replicate n v"
  by (simp add: mem_set_def)

lemma sensor_decode:
  assumes "describes_sensor d" and "dest \<noteq> NULL" and "6 \<le> n" and "length (device_id r) \<le> 31" and "0 \<notin> set (device_id r)"
    and "mem_read m buf (length (wire_sensor r)) = wire_sensor r" and "buf + length (wire_sensor r) \<le> dest \<or> dest + 44 \<le> buf"
  shows "\<exists>m' s. pb_decode n E d dest (m, pb_istream_from_buffer buf (length (wire_sensor r))) = Some (True, (m', s)) \<and> struct_holds m' dest r"
proof -
  let ?s = "pb_istream_from_buffer buf (length (wire_sensor r))"
  obtain k where n: "n = Suc (Suc k)" "4 \<le> k" using assms(3) by (metis Suc_le_D Suc_le_mono numeral_eq_Suc pred_numeral_simps(2,3) semiring_norm(26,27,28))
  let ?m = "mem_set (mem_set (mem_set (mem_set m dest 0 32) (dest + 32) 0 4) (dest + 36) 0 4) (dest + 40) 0 4"
  have fc: "0 < field_count d" "required_field_count d = 0" using assms(1) by (simp_all add: describes_sensor_def)
  obtain it where i: "pb_field_iter_begin m d dest = (True, it)" "loaded m d 0 it" "message it = dest"
    using begin_loaded [OF fc(1), of m dest] by (cases "pb_field_iter_begin m d dest") simp
  obtain it' where it': "set_to_defaults k (decoder E k) E (m, it) = Some (True, (?m, it'))" "\<exists>m0 k. loaded m0 d k it'" "message it' = dest"
    using sensor_defaults [OF assms(1,2) i(2,3), of k "decoder E k" E] by blast
  define L where "L = \<lparr>iter = it', extension_range_start = 0, extensions = NULL, fixed_count_field = PB_SIZE_MAX,
                fixed_count_total_size = 0, fields_seen = [0, 0]\<rparr>"
  have L: "ready d dest L" using it'(2,3) by (simp add: ready_def L_def)
  have fr: "mem_frame {dest..<dest + 44} m ?m" by (auto simp: mem_frame_def mem_set_def mem_write_outside)
  have len: "length (wire_sensor r) < 4294967296" using length_wire_sensor [OF assms(4)] by simp
  have "holds (m, ?s) (wire_sensor r)" using assms(6) len by (simp add: holds_def pb_istream_from_buffer_def)
  moreover have "{i_state ?s..<i_state ?s + length (wire_sensor r)} \<inter> {dest..<dest + 44} = {}"
    using assms(7) by (auto simp: pb_istream_from_buffer_def)
  ultimately have h: "holds (?m, ?s) (wire_sensor r)" using holds_frame [OF fr] by blast
  have "5 \<le> Suc k" using n(2) by simp
  from sensor_loop [OF assms(1,2) L this assms(4) h, of "Suc k" "decoder E (Suc k)" E] obtain L' where
    l: "ready d dest L'" "inner_loop (Suc k) (Suc k) (decoder E (Suc k)) E 0 (L, (?m, ?s)) =
      Some (True, (L', (put_sensor dest r ?m, snd (adv (length (wire_sensor r)) (?m, ?s)))))"
    using assms(7) by (auto simp: pb_istream_from_buffer_def)
  have "descriptor (iter L') = d" "fixed_count_field L' = PB_SIZE_MAX" using l(1) by (auto simp: ready_def loaded_def positioned_def)
  then have req: "required_present L'" by (simp add: required_present_def fc(2))
  have "pb_decode n E d dest (m, ?s) = Some (True, (put_sensor dest r ?m, snd (adv (length (wire_sensor r)) (?m, ?s))))"
    using i(1) it'(1) l(2) req \<open>fixed_count_field L' = PB_SIZE_MAX\<close>
    unfolding pb_decode_def pb_decode_ex_def pb_decode_inner_def n
    by (simp add: decode_inner_def L_def [symmetric] del: inner_loop.simps)
  moreover have "mem_read ?m dest 44 = replicate 44 0"
    by (rule nth_equalityI) (auto simp: mem_set_def mem_write_def)
  ultimately show ?thesis using put_sensor_holds [OF assms(4,5)] by blast
qed


text \<open>
  C8. A record survives the wire. Whatever the sensor node serialized, a receiver that has the payload
  somewhere in its memory, outside the destination struct, decodes it without error and has in the struct
  the record that went in: the same name (cut to 31 bytes), bit-identical readings and uptime. The decoder
  needs at most four rounds and the end of the message, so six as bound of its loops is enough.
\<close>
theorem sensor_roundtrip:
  assumes "describes_sensor d" and "msg \<noteq> NULL" and "msg + 44 \<le> buf \<or> buf + 128 \<le> msg" and "2 \<le> depth"
    and "serialize_sensor_data depth E d msg buf dev temp hum uptime m = Some (payload, m')"
    and "mem_read rm rbuf (length payload) = payload" and "dest \<noteq> NULL" and "rbuf + length payload \<le> dest \<or> dest + 44 \<le> rbuf" and "6 \<le> n"
  shows "\<exists>rm' s. pb_decode n D d dest (rm, pb_istream_from_buffer rbuf (length payload)) = Some (True, (rm', s))
    \<and> struct_holds rm' dest (record_of dev temp hum uptime)"
proof -
  have "struct_holds (fill_message msg dev temp hum uptime m) msg (record_of dev temp hum uptime)" by (rule fill_message_holds)
  then have r: "length (device_id (record_of dev temp hum uptime)) \<le> 31" "0 \<notin> set (device_id (record_of dev temp hum uptime))"
    by (simp_all add: struct_holds_def)
  have "payload = wire_sensor (record_of dev temp hum uptime)"
    using serialize_wire [OF assms(1-4)] assms(5) by simp
  then show ?thesis using sensor_decode [OF assms(1,7,9) r] assms(6,8) by blast
qed

theorem sensor_roundtrip_witness:
  "\<exists>payload m' rm' s. serialize_sensor_data 2 plain_env sensor_desc 1000 2000 [0x45, 0x53, 0x50] 0x41CB3333 0 7 (\<lambda>_. 0) = Some (payload, m')
     \<and> pb_decode 6 plain_dec sensor_desc 500 (mem_write (\<lambda>_. 0xFF) 600 payload, pb_istream_from_buffer 600 (length payload)) = Some (True, (rm', s))
     \<and> struct_holds rm' 500 \<lparr>device_id = [0x45, 0x53, 0x50], temperature = 0x41CB3333, humidity = 0, uptime_ms = 7\<rparr>"
proof -
  obtain payload m' where p: "serialize_sensor_data 2 plain_env sensor_desc 1000 2000 [0x45, 0x53, 0x50] 0x41CB3333 0 7 (\<lambda>_. 0) = Some (payload, m')"
    using serialize_wire [OF sensor_desc_describes, of 1000 2000 2] by auto
  have "record_of [0x45, 0x53, 0x50] 0x41CB3333 0 7 = \<lparr>device_id = [0x45, 0x53, 0x50], temperature = 0x41CB3333, humidity = 0, uptime_ms = 7\<rparr>"
    by (simp add: record_of_def c_str_def)
  with sensor_roundtrip [OF sensor_desc_describes _ _ _ p, of "mem_write (\<lambda>_. 0xFF) 600 payload" 600 500 6 plain_dec] p
  show ?thesis by auto
qed

end
