(* ===== verification/Edge_Node.thy ===== *)
theory Edge_Node
  imports Mqtt_Publish Sensor_Roundtrip
begin

unbundle bit_operations_syntax

text \<open>
  The application of the sensor node: \<open>MqttManager\<close>, \<open>WifiManager\<close> and \<open>app_main\<close>
  (\<^verbatim>\<open>firmware/esp32/esp32-sensor-node\<close>) over the MQTT client and the serializer. The manager registers its
  event handler with the client, so it is the part of the client's world that the events reach.
\<close>

section \<open>MqttManager\<close>

text \<open>\<open>has_callback\<close>: whether \<open>on_connected_\<close> is set; \<open>callbacks\<close> counts its calls.\<close>
record mqtt_manager =
  is_connected :: bool
  has_callback :: bool
  callbacks :: nat

definition mqtt_manager_init :: mqtt_manager where
  "mqtt_manager_init = \<lparr>is_connected = False, has_callback = False, callbacks = 0\<rparr>"

definition set_on_connected_callback :: "bool \<Rightarrow> mqtt_manager \<Rightarrow> mqtt_manager" where
  "set_on_connected_callback cb m = m\<lparr>has_callback := cb\<rparr>"

definition mqtt_event_handler :: "mqtt_event \<Rightarrow> mqtt_manager \<Rightarrow> mqtt_manager" where
  "mqtt_event_handler e m =
     (case event_id e of
        MQTT_EVENT_CONNECTED \<Rightarrow>
          (let m = m\<lparr>is_connected := True\<rparr> in if has_callback m then m\<lparr>callbacks := callbacks m + 1\<rparr> else m)
      | MQTT_EVENT_DISCONNECTED \<Rightarrow> m\<lparr>is_connected := False\<rparr>
      | _ \<Rightarrow> m)"

text \<open>The platform with the manager as the registered handler: posted events reach it, the rest goes by.\<close>
definition node_platform :: "'n platform \<Rightarrow> ('n \<times> mqtt_manager) platform" where
  "node_platform P =
     \<lparr>transport_read = (\<lambda>n t (w, m). case transport_read P n t w of (r, bs, w) \<Rightarrow> (r, bs, (w, m))),
      transport_write = (\<lambda>b t (w, m). case transport_write P b t w of (r, w) \<Rightarrow> (r, (w, m))),
      transport_connect = (\<lambda>p (w, m). case transport_connect P p w of (r, w) \<Rightarrow> (r, (w, m))),
      transport_close = (\<lambda>(w, m). (transport_close P w, m)),
      transport_poll_read = (\<lambda>t (w, m). case transport_poll_read P t w of (r, w) \<Rightarrow> (r, (w, m))),
      list_get_transport = list_get_transport P,
      err_timeout = err_timeout P,
      esp_timer_get_time = (\<lambda>(w, m). case esp_timer_get_time P w of (t, w) \<Rightarrow> (t, (w, m))),
      event_post = (\<lambda>e (w, m). (event_post P e w, mqtt_event_handler e m)),
      event_loop_run = (\<lambda>(w, m). (event_loop_run P w, m)),
      allocate = (\<lambda>n (w, m). case allocate P n w of (r, w) \<Rightarrow> (r, (w, m))),
      mem_ok = (\<lambda>(w, m). case mem_ok P w of (r, w) \<Rightarrow> (r, (w, m))),
      build_of = build_of P, read_mac = read_mac P, transport_setup = (\<lambda>l (w, m). (transport_setup P l w, m))\<rparr>"

text \<open>The data pointer of an empty vector is null.\<close>
definition manager_publish :: "('n \<times> mqtt_manager) platform \<Rightarrow> bytes \<Rightarrow> bytes \<Rightarrow> ('n \<times> mqtt_manager) client
    \<Rightarrow> fault + bool \<times> ('n \<times> mqtt_manager) client" where
  "manager_publish P t payload s =
     (if \<not> is_connected (snd (world s)) then Inr (False, s)
      else bnd (esp_mqtt_client_publish P (Some (c_str t)) (if payload = [] then None else Some payload) (s32 (int (length payload))) 1 0 s)
        (\<lambda>i s. Inr (i \<noteq> - 1, s)))"

text \<open>The destructor, up to the wait for the task; \<open>esp_mqtt_client_destroy\<close> only frees.\<close>
definition manager_destroy :: "('n \<times> mqtt_manager) platform \<Rightarrow> ('n \<times> mqtt_manager) client \<Rightarrow> fault + esp_err \<times> ('n \<times> mqtt_manager) client" where
  "manager_destroy P s = esp_mqtt_client_stop P False s"

interpretation manager: observed "node_platform P" "is_connected \<circ> snd"
  for P :: "'n platform"
  by unfold_locales
    (auto simp: node_platform_def mqtt_event_handler_def Let_def split: prod.splits esp_mqtt_event_id.splits)

section \<open>WifiManager\<close>

datatype wifi_event = WIFI_EVENT_STA_START | WIFI_EVENT_STA_DISCONNECTED | IP_EVENT_STA_GOT_IP | WIFI_EVENT_OTHER

text \<open>
  The credentials, the event group, the configuration given to the driver, whether the driver was started, and how often it was asked to
  connect.
\<close>
record wifi_manager =
  ssid :: bytes
  wifi_password :: bytes
  connected_bit :: bool
  fail_bit :: bool
  sta_config :: "(bytes \<times> bytes) option"
  started :: bool
  connects :: nat

definition wifi_init :: "bytes \<Rightarrow> bytes \<Rightarrow> wifi_manager" where
  "wifi_init name pass = \<lparr>ssid = name, wifi_password = pass, connected_bit = False, fail_bit = False, sta_config = None, started = False, connects = 0\<rparr>"

definition wifi_event_handler :: "wifi_event \<Rightarrow> wifi_manager \<Rightarrow> wifi_manager" where
  "wifi_event_handler e w =
     (case e of
        WIFI_EVENT_STA_START \<Rightarrow> w\<lparr>connects := connects w + 1\<rparr>
      | WIFI_EVENT_STA_DISCONNECTED \<Rightarrow> w\<lparr>connects := connects w + 1\<rparr>
      | IP_EVENT_STA_GOT_IP \<Rightarrow> w\<lparr>connected_bit := True\<rparr>
      | WIFI_EVENT_OTHER \<Rightarrow> w)"

text \<open>
  The credentials in the driver's configuration: zeroed arrays of the given size, of which the last byte
  stays zero.
\<close>
definition copy_credential :: "nat \<Rightarrow> bytes \<Rightarrow> bytes" where
  "copy_credential n s = (let k = min (length s) (n - 1) in take k s @ replicate (n - k) 0)"

text \<open>\<open>xEventGroupWaitBits\<close> without timeout, while the events of the list arrive; \<open>None\<close>: still waiting after them.\<close>
primrec wifi_wait :: "wifi_event list \<Rightarrow> wifi_manager \<Rightarrow> (bool \<times> wifi_manager) option" where
  "wifi_wait [] w = (if connected_bit w \<or> fail_bit w then Some (connected_bit w, w) else None)"
| "wifi_wait (e # es) w = (if connected_bit w \<or> fail_bit w then Some (connected_bit w, w) else wifi_wait es (wifi_event_handler e w))"

definition wifi_connect :: "wifi_event list \<Rightarrow> wifi_manager \<Rightarrow> (bool \<times> wifi_manager) option" where
  "wifi_connect es w =
     wifi_wait es (w\<lparr>sta_config := Some (copy_credential 32 (ssid w), copy_credential 64 (wifi_password w)), started := True\<rparr>)"

section \<open>app\_main\<close>

text \<open>The state of the node: the task of the client is not started, at the head of its loop, before its poll, or has ended.\<close>
datatype task_pc = Idle | Head | Poll | Ended

record 'n node =
  pc :: task_pc
  mqtt :: "('n \<times> mqtt_manager) client"
  counter :: u32

definition telemetry_topic :: bytes where
  "telemetry_topic = lit ''industrial/telemetry/sensor''"

definition node_name :: bytes where
  "node_name = lit ''ESP32-NODE-01''"

text \<open>One round of the loop of \<open>app_main\<close>: the readings are 25.4 and 48.2 as floats.\<close>
definition app_round :: "nat \<Rightarrow> enc_env \<Rightarrow> pb_msgdesc \<Rightarrow> addr \<Rightarrow> addr \<Rightarrow> mem \<Rightarrow> ('n \<times> mqtt_manager) platform \<Rightarrow> 'n node
    \<Rightarrow> (fault + bool \<times> 'n node) option" where
  "app_round depth E d msg buf m P x =
     (case serialize_sensor_data depth E d msg buf node_name 0x41CB3333 0x4240CCCD (counter x) m of
        None \<Rightarrow> None
      | Some (payload, _) \<Rightarrow> Some
          (let x = x\<lparr>counter := counter x + 1\<rparr> in
           case manager_publish P telemetry_topic payload (mqtt x) of
             Inl f \<Rightarrow> Inl f
           | Inr (accepted, s) \<Rightarrow> Inr (accepted, x\<lparr>mqtt := s\<rparr>)))"

text \<open>
  The steps of the node: the application starts the client, publishes, and leaves; the client's task runs its rounds, each
  under the client's lock, and polls without it. The application may come between any two of them.
\<close>
inductive node_step :: "'n platform \<Rightarrow> 'n node \<Rightarrow> 'n node \<Rightarrow> bool" for Q :: "'n platform" where
  start: "pc x = Idle \<Longrightarrow> esp_mqtt_client_start True (mqtt x) = ESP_OK \<Longrightarrow> node_step Q x (x\<lparr>pc := Head, mqtt := task_begin (mqtt x)\<rparr>)"
| round: "pc x = Head \<Longrightarrow> run (mqtt x) \<Longrightarrow> task_round n (node_platform Q) (mqtt x) = Some (Inr ((), s))
    \<Longrightarrow> node_step Q x (x\<lparr>pc := Poll, mqtt := s\<rparr>)"
| poll: "pc x = Poll \<Longrightarrow> task_poll (node_platform Q) (mqtt x) = Inr ((), s) \<Longrightarrow> node_step Q x (x\<lparr>pc := Head, mqtt := s\<rparr>)"
| finish: "pc x = Head \<Longrightarrow> \<not> run (mqtt x) \<Longrightarrow> node_step Q x (x\<lparr>pc := Ended, mqtt := task_end (node_platform Q) (mqtt x)\<rparr>)"
| app: "app_round depth E d msg buf m (node_platform Q) x = Some (Inr (b, y)) \<Longrightarrow> node_step Q x y"
| destroy: "manager_destroy (node_platform Q) (mqtt x) = Inr (e, s) \<Longrightarrow> node_step Q x (x\<lparr>mqtt := s\<rparr>)"

definition node_booted :: "'n node \<Rightarrow> bool" where
  "node_booted x \<longleftrightarrow> pc x = Idle \<and> snd (world (mqtt x)) = mqtt_manager_init \<and> state (mqtt x) = MQTT_STATE_INIT \<and> counter x = 0"

section \<open>The manager knows the state of the connection\<close>

definition node_inv :: "'n node \<Rightarrow> bool" where
  "node_inv x \<longleftrightarrow> manager.link (mqtt x) \<and> (pc x = Idle \<longrightarrow> \<not> is_connected (snd (world (mqtt x))))"

lemma publish_tied: "moves manager.tied s (manager_publish (node_platform Q) t p s)"
  unfolding manager_publish_def by (auto intro!: moves_bnd [OF manager.tied_publish])

lemma destroy_idle:
  assumes "manager.link s" and "\<not> is_connected (snd (world s))" and "manager_destroy (node_platform Q) s = Inr (e, s')"
  shows "\<not> is_connected (snd (world s'))"
  using assms by (auto simp: manager_destroy_def esp_mqtt_client_stop_def manager.link_def bnd_def split: if_splits)

lemma app_tied:
  assumes "app_round depth E d msg buf m (node_platform Q) x = Some (Inr (b, y))"
  shows "pc y = pc x \<and> manager.tied (mqtt x) (mqtt y)"
proof -
  obtain payload s where s: "manager_publish (node_platform Q) telemetry_topic payload (mqtt x) = Inr (b, s)" "y = x\<lparr>counter := counter x + 1, mqtt := s\<rparr>"
    using assms by (auto simp: app_round_def Let_def split: option.splits sum.splits)
  then show ?thesis using publish_tied [of "mqtt x" Q telemetry_topic payload] by simp
qed

lemma node_inv_step: "node_step Q x y \<Longrightarrow> node_inv x \<Longrightarrow> node_inv y"
proof (induction rule: node_step.induct)
  case (start x)
  then show ?case using manager.begin_link [of "mqtt x"] by (simp add: node_inv_def)
next
  case (round x n s)
  then show ?case using manager.round_link [OF _ round(3)] by (simp add: node_inv_def)
next
  case (poll x s)
  then show ?case using manager.poll_link [of "mqtt x" Q] by (simp add: node_inv_def)
next
  case (finish x)
  then show ?case using manager.end_link [of "mqtt x"] by (simp add: node_inv_def)
next
  case (app depth E d msg buf m x b y)
  then show ?case using app_tied [OF app(1)] manager.link_tied [of "mqtt x" "mqtt y"] by (auto simp: node_inv_def manager.tied_def)
next
  case (destroy x e s)
  then show ?case using manager.stop_link [of "mqtt x" Q False] destroy_idle [of "mqtt x"] by (auto simp: node_inv_def manager_destroy_def)
qed

lemma node_inv_reachable: "(node_step Q)\<^sup>*\<^sup>* x y \<Longrightarrow> node_booted x \<Longrightarrow> node_inv y"
proof (induction rule: rtranclp_induct)
  case base
  then show ?case by (simp add: node_inv_def node_booted_def manager.link_def mqtt_manager_init_def)
qed (simp add: node_inv_step)

text \<open>
  C4. The manager's flag is right. In every state that the node can reach from boot, however the rounds of the client's task,
  its polls, the publishes of the application and the stop in the destructor follow each other, and whatever the
  transport and the broker do: as long as the task is to run, \<open>is_connected_\<close> holds exactly when the client is in its connected
  state.
\<close>
theorem node_connected_iff:
  assumes "(node_step Q)\<^sup>*\<^sup>* x y" and "node_booted x" and "run (mqtt y)"
  shows "is_connected (snd (world (mqtt y))) \<longleftrightarrow> state (mqtt y) = MQTT_STATE_CONNECTED"
  using node_inv_reachable [OF assms(1,2)] assms(3) by (auto simp: node_inv_def manager.link_def)

text \<open>A node, its client with the defaults.\<close>
definition sample_node :: "task_pc \<Rightarrow> mqtt_client_state \<Rightarrow> bool \<Rightarrow> 'n \<Rightarrow> 'n node" where
  "sample_node c st b w = \<lparr>pc = c, mqtt = sample_client 1024 st (w, mqtt_manager_init\<lparr>is_connected := b\<rparr>), counter = 0\<rparr>"

theorem node_connected_iff_witness:
  "\<exists>y. (node_step quiet_platform)\<^sup>*\<^sup>* (sample_node Idle MQTT_STATE_INIT False ()) y \<and> node_booted (sample_node Idle MQTT_STATE_INIT False ()) \<and> run (mqtt y)
     \<and> (is_connected (snd (world (mqtt y))) \<longleftrightarrow> state (mqtt y) = MQTT_STATE_CONNECTED)"
proof -
  let ?x = "sample_node Idle MQTT_STATE_INIT False ()" and ?y = "(sample_node Idle MQTT_STATE_INIT False ())\<lparr>pc := Head, mqtt := task_begin (mqtt (sample_node Idle MQTT_STATE_INIT False ()))\<rparr>"
  have "node_step quiet_platform ?x ?y" by (rule node_step.start) (simp_all add: sample_node_def sample_client_def esp_mqtt_client_start_def)
  then have r: "(node_step quiet_platform)\<^sup>*\<^sup>* ?x ?y" by (rule r_into_rtranclp)
  have b: "node_booted ?x" by (simp add: node_booted_def sample_node_def sample_client_def mqtt_manager_init_def)
  have u: "run (mqtt ?y)" by (simp add: task_begin_def)
  from node_connected_iff [OF r b u] r b u show ?thesis by blast
qed

section \<open>Waiting for the network\<close>

lemma wifi_wait_exact:
  "\<not> fail_bit w \<Longrightarrow> map_option fst (wifi_wait es w) = (if connected_bit w \<or> IP_EVENT_STA_GOT_IP \<in> set es then Some True else None)"
proof (induction es arbitrary: w)
  case (Cons e es)
  have "\<not> fail_bit (wifi_event_handler e w)" "connected_bit (wifi_event_handler e w) \<longleftrightarrow> connected_bit w \<or> e = IP_EVENT_STA_GOT_IP"
    using Cons.prems by (cases e; simp add: wifi_event_handler_def)+
  then show ?case using Cons.IH [of "wifi_event_handler e w"] Cons.prems by auto
qed simp

text \<open>
  C35. \<open>WifiManager::connect\<close> returns once an address has been obtained, and then true; until then it keeps waiting, through any number of
  failed attempts. It never returns false: \<open>FAIL_BIT\<close>, which it waits for, is never set.
\<close>
theorem wifi_connect_exact:
  "map_option fst (wifi_connect es (wifi_init name pass)) = (if IP_EVENT_STA_GOT_IP \<in> set es then Some True else None)"
  by (simp add: wifi_connect_def wifi_init_def wifi_wait_exact)

lemma c_str_no_zero: "0 \<notin> set s \<Longrightarrow> c_str s = s"
  by (auto simp: c_str_def takeWhile_eq_all_conv)

lemma copy_credential_c_str:
  assumes "0 \<notin> set s" and "0 < n"
  shows "length (copy_credential n s) = n" and "c_str (copy_credential n s) = take (n - 1) s"
proof -
  let ?k = "min (length s) (n - 1)"
  show "length (copy_credential n s) = n" using assms(2) by (simp add: copy_credential_def Let_def)
  have "takeWhile (\<lambda>c. c \<noteq> 0) (take ?k s @ 0 # replicate (n - ?k - 1) 0) = take ?k s"
    using assms(1) set_take_subset [of ?k s] by (intro takeWhile_tail [THEN trans] ) (auto simp: takeWhile_eq_all_conv)
  moreover have "replicate (n - ?k) (0 :: byte) = 0 # replicate (n - ?k - 1) 0" using assms(2) by (cases "n - ?k") auto
  moreover have "take ?k s = take (n - 1) s" by (simp add: min_def)
  ultimately show "c_str (copy_credential n s) = take (n - 1) s" by (simp only: copy_credential_def c_str_def Let_def)
qed

lemma wifi_wait_config: "wifi_wait es w = Some (r, w') \<Longrightarrow> sta_config w' = sta_config w"
  by (induction es arbitrary: w) (auto simp: wifi_event_handler_def split: if_splits wifi_event.splits)

text \<open>
  The credentials are copied inside the driver's arrays of 32 and 64 bytes and are zero-terminated there: what the driver reads as
  strings are the first 31 bytes of the SSID and the first 63 of the password.
\<close>
lemma wifi_credentials_bounded:
  assumes "wifi_connect es (wifi_init name pass) = Some (r, w)" and "0 \<notin> set name" and "0 \<notin> set pass"
  shows "\<exists>a b. sta_config w = Some (a, b) \<and> length a = 32 \<and> length b = 64 \<and> c_str a = take 31 name \<and> c_str b = take 63 pass"
  using wifi_wait_config [OF assms(1) [unfolded wifi_connect_def]] assms(2,3) copy_credential_c_str [of name 32] copy_credential_c_str [of pass 64]
  by (simp add: wifi_init_def)

lemma wifi_credentials_bounded_witness:
  "\<exists>w a b. wifi_connect [WIFI_EVENT_STA_START, WIFI_EVENT_STA_DISCONNECTED, IP_EVENT_STA_GOT_IP] (wifi_init [1, 2] [3]) = Some (True, w)
     \<and> sta_config w = Some (a, b) \<and> length a = 32 \<and> length b = 64 \<and> c_str a = [1, 2] \<and> c_str b = [3]"
proof -
  obtain w where w: "wifi_connect [WIFI_EVENT_STA_START, WIFI_EVENT_STA_DISCONNECTED, IP_EVENT_STA_GOT_IP] (wifi_init [1, 2] [3]) = Some (True, w)"
    by (simp add: wifi_connect_def wifi_init_def wifi_event_handler_def)
  from wifi_credentials_bounded [OF w] w show ?thesis by simp
qed

section \<open>From the sensor to the wire\<close>

interpretation node_wire: wire "node_platform (recorded Q)" "snd \<circ> fst"
  for Q :: "'q platform"
  by unfold_locales (auto simp: node_platform_def recorded_def split: prod.splits)

lemma allocates_node:
  fixes Q :: "'n platform"
  assumes "allocates Q"
  shows "allocates (node_platform Q)"
  unfolding allocates_def
proof (intro allI)
  fix n and w :: "'n \<times> mqtt_manager"
  obtain a raw w' where "allocate Q n (fst w) = ((Some a, Some raw), w')" "length raw = n" using assms unfolding allocates_def by blast
  then show "\<exists>a raw w'. allocate (node_platform Q) n w = ((Some a, Some raw), w') \<and> length raw = n" by (cases w) (simp add: node_platform_def)
qed

lemma telemetry_topic_text: "c_str telemetry_topic = telemetry_topic" "telemetry_topic \<noteq> []" "length telemetry_topic = 27"
  by (simp_all add: telemetry_topic_def lit_def c_str_def)

text \<open>The record that the application sends: 25.4 and 48.2 as floats, and the counter.\<close>
definition telemetry_record :: "u32 \<Rightarrow> sensor_data" where
  "telemetry_record n = record_of node_name 0x41CB3333 0x4240CCCD n"

text \<open>Any receiver with the payload in its memory gets the record back.\<close>
definition decodes_to :: "pb_msgdesc \<Rightarrow> bytes \<Rightarrow> sensor_data \<Rightarrow> bool" where
  "decodes_to d payload r \<longleftrightarrow>
     (\<forall>D rm rbuf dest. mem_read rm rbuf (length payload) = payload \<longrightarrow> dest \<noteq> NULL \<longrightarrow> rbuf + length payload \<le> dest \<or> dest + 44 \<le> rbuf
        \<longrightarrow> (\<exists>rm' s. pb_decode 6 D d dest (rm, pb_istream_from_buffer rbuf (length payload)) = Some (True, (rm', s)) \<and> struct_holds rm' dest r))"

lemma telemetry_decodes:
  assumes "describes_sensor d"
  shows "decodes_to d (wire_sensor (telemetry_record n)) (telemetry_record n)"
  unfolding decodes_to_def telemetry_record_def
  using sensor_decode [OF assms, of _ 6] c_str_no_nul [of 31 node_name] by (auto simp: record_of_def)

lemma telemetry_length: "0 < length (wire_sensor (telemetry_record n))" "length (wire_sensor (telemetry_record n)) \<le> 49"
  using length_wire_sensor [of "telemetry_record n"] by (simp_all add: telemetry_record_def record_of_def wire_sensor_def wire_float_def)

lemma app_round_sends:
  assumes "node_inv x" and "run (mqtt x)" and "is_connected (snd (world (mqtt x)))" and "ready_to_publish (mqtt x) 76" and "allocates Q"
    and "describes_sensor d" and "msg \<noteq> NULL" and "msg + 44 \<le> buf \<or> buf + 128 \<le> msg" and "2 \<le> depth"
  obtains b y i where "app_round depth E d msg buf m (node_platform (recorded Q)) x = Some (Inr (b, y))"
    and "counter y = counter x + 1" and "0 < i" and "i < 65536"
    and "outbox_view (outbox_of (mqtt y)) = outbox_view (outbox_of (mqtt x))
      @ [(int i, 3, publish_packet 1 0 telemetry_topic i (wire_sensor (telemetry_record (counter x))))]"
    and "if b then snd (fst (world (mqtt y))) = snd (fst (world (mqtt x))) @ publish_packet 1 0 telemetry_topic i (wire_sensor (telemetry_record (counter x)))
      else state (mqtt y) = MQTT_STATE_WAIT_RECONNECT"
proof -
  let ?p = "wire_sensor (telemetry_record (counter x))"
  have c: "state (mqtt x) = MQTT_STATE_CONNECTED" using assms(1-3) by (simp add: node_inv_def manager.link_def)
  have ser: "serialize_sensor_data depth E d msg buf node_name 0x41CB3333 0x4240CCCD (counter x) m = Some (?p, m')"
    if "m' = fst (app (fill_message msg node_name 0x41CB3333 0x4240CCCD (counter x) m, pb_ostream_from_buffer buf 128) ?p)" for m'
    using serialize_wire [OF assms(6-9)] that by (simp add: telemetry_record_def)
  have "ready_to_publish (mqtt x) (length telemetry_topic + length ?p)"
    using assms(4) telemetry_length [of "counter x"] by (simp add: ready_to_publish_def telemetry_topic_text)
  from node_wire.publish_stored [OF this telemetry_topic_text(2) _ allocates_node [OF allocates_recorded [OF assms(5)]]] telemetry_length
  have "stored_and_sent (mqtt x) telemetry_topic ?p (snd \<circ> fst)
    (esp_mqtt_client_publish (node_platform (recorded Q)) (Some telemetry_topic) (Some ?p) (int (length ?p)) 1 0 (mqtt x))" by simp
  then obtain v i s' where r: "esp_mqtt_client_publish (node_platform (recorded Q)) (Some telemetry_topic) (Some ?p) (int (length ?p)) 1 0 (mqtt x) = Inr (v, s')"
    "0 < i" "i < 65536" "outbox_view (outbox_of s') = outbox_view (outbox_of (mqtt x)) @ [(int i, 3, publish_packet 1 0 telemetry_topic i ?p)]"
    "v = int i \<and> snd (fst (world s')) = snd (fst (world (mqtt x))) @ publish_packet 1 0 telemetry_topic i ?p \<or> v = - 1 \<and> state s' = MQTT_STATE_WAIT_RECONNECT"
    unfolding stored_and_sent_def c by auto
  have l: "s32 (int (length ?p)) = int (length ?p)" using telemetry_length(2) [of "counter x"] by (intro s32_id) auto
  have "manager_publish (node_platform (recorded Q)) telemetry_topic ?p (mqtt x) = Inr (v \<noteq> - 1, s')"
    using r(1) assms(3) telemetry_length(1) [of "counter x"] by (simp add: manager_publish_def telemetry_topic_text l bnd_def)
  then have "app_round depth E d msg buf m (node_platform (recorded Q)) x = Some (Inr (v \<noteq> - 1, x\<lparr>counter := counter x + 1, mqtt := s'\<rparr>))"
    using ser by (simp add: app_round_def)
  from that [OF this _ r(2,3)] r(4,5) show thesis by auto
qed

text \<open>One record in the outbox and, when accepted, on the wire.\<close>
definition telemetry_sent :: "pb_msgdesc \<Rightarrow> ('q \<times> bytes) node \<Rightarrow> bool \<Rightarrow> ('q \<times> bytes) node \<Rightarrow> bool" where
  "telemetry_sent d x b y \<longleftrightarrow> counter y = counter x + 1 \<and>
     (\<exists>i payload. 0 < i \<and> i < 65536 \<and> decodes_to d payload (telemetry_record (counter x))
        \<and> outbox_view (outbox_of (mqtt y)) = outbox_view (outbox_of (mqtt x)) @ [(int i, 3, publish_packet 1 0 telemetry_topic i payload)]
        \<and> (if b then snd (fst (world (mqtt y))) = snd (fst (world (mqtt x))) @ publish_packet 1 0 telemetry_topic i payload
           else state (mqtt y) = MQTT_STATE_WAIT_RECONNECT))"

text \<open>
  C2. One round of the application, through serializer, manager, MQTT client and outbox. While the manager believes in the
  connection, the round ends without a fault and adds to the outbox one PUBLISH packet on the telemetry topic whose payload every nanopb
  receiver decodes to the record of this round. When the round reports success, that packet went to the transport byte for byte;
  when it reports failure the client has gone to its reconnect state with the packet kept for retransmission.
\<close>
theorem telemetry_end_to_end:
  assumes "node_inv x" and "run (mqtt x)" and "is_connected (snd (world (mqtt x)))" and "ready_to_publish (mqtt x) 76" and "allocates Q"
    and "describes_sensor d" and "msg \<noteq> NULL" and "msg + 44 \<le> buf \<or> buf + 128 \<le> msg" and "2 \<le> depth"
  shows "\<exists>b y. app_round depth E d msg buf m (node_platform (recorded Q)) x = Some (Inr (b, y)) \<and> telemetry_sent d x b y"
proof -
  from app_round_sends [OF assms, of E m] obtain b y i where
    r: "app_round depth E d msg buf m (node_platform (recorded Q)) x = Some (Inr (b, y))" "counter y = counter x + 1" "0 < i" "i < 65536"
    "outbox_view (outbox_of (mqtt y)) = outbox_view (outbox_of (mqtt x))
      @ [(int i, 3, publish_packet 1 0 telemetry_topic i (wire_sensor (telemetry_record (counter x))))]"
    "if b then snd (fst (world (mqtt y))) = snd (fst (world (mqtt x))) @ publish_packet 1 0 telemetry_topic i (wire_sensor (telemetry_record (counter x)))
      else state (mqtt y) = MQTT_STATE_WAIT_RECONNECT" .
  from r(2-6) telemetry_decodes [OF assms(6), of "counter x"] have "telemetry_sent d x b y" unfolding telemetry_sent_def by blast
  with r(1) show ?thesis by blast
qed

theorem telemetry_end_to_end_witness:
  "\<exists>b y. app_round 2 plain_env sensor_desc 1000 2000 (\<lambda>_. 0) (node_platform (recorded quiet_platform)) (sample_node Head MQTT_STATE_CONNECTED True ((), []))
      = Some (Inr (b, y)) \<and> telemetry_sent sensor_desc (sample_node Head MQTT_STATE_CONNECTED True ((), [])) b y"
proof (rule telemetry_end_to_end)
  let ?x = "sample_node Head MQTT_STATE_CONNECTED True ((), [] :: bytes)"
  show "allocates quiet_platform" by (simp add: allocates_def quiet_platform_def)
  show "ready_to_publish (mqtt ?x) 76"
    by (simp add: ready_to_publish_def sample_node_def sample_client_def empty_config_def conn_wf_def in_wf_def ids_available_def s32_def)
  show "node_inv ?x" "run (mqtt ?x)" "is_connected (snd (world (mqtt ?x)))"
    by (simp_all add: node_inv_def manager.link_def sample_node_def sample_client_def)
qed (simp_all add: sensor_desc_describes)

end
