(* ===== verification/Mqtt_Delivery.thy ===== *)
theory Mqtt_Delivery
  imports Edge_Node
begin

unbundle bit_operations_syntax

text \<open>
  A message with QoS 1 or 2 stays in the outbox of the sensor node through lost connections, resends and new messages, until an
  acknowledgement with its id arrives, it expires, or the task of the client ends.
\<close>

section \<open>A message and its place in the outbox\<close>

text \<open>The same item, at most marked as a duplicate, with another state or another time stamp.\<close>
definition same_message :: "outbox_item \<Rightarrow> outbox_item \<Rightarrow> bool" where
  "same_message e it \<longleftrightarrow> self it = self e \<and> msg_id it = msg_id e \<and> msg_type it = msg_type e \<and> msg_qos it = msg_qos e \<and> len it = len e
     \<and> (buffer it = buffer e \<or> mqtt_set_dup (buffer e) = Inr (buffer it))"

definition carries :: "outbox \<Rightarrow> outbox_item \<Rightarrow> bool" where
  "carries ob e \<longleftrightarrow> (\<exists>it \<in> set (items ob). same_message e it)"

definition sized :: "outbox \<Rightarrow> bool" where
  "sized ob \<longleftrightarrow> size_of ob = of_int (sum_list (map len (items ob)))"

lemma outbox_wf_sized: "outbox_wf ob \<longleftrightarrow> distinct (map self (items ob)) \<and> sized ob"
  by (simp add: outbox_wf_def sized_def)

lemma same_message_fields [simp]:
  "same_message e (it\<lparr>pending := p\<rparr>) = same_message e it" "same_message e (it\<lparr>tick := t\<rparr>) = same_message e it"
  by (simp_all add: same_message_def)

lemma set_dup_twice:
  assumes "mqtt_set_dup b = Inr c" and "mqtt_set_dup c = Inr d"
  shows "d = c"
  using assms by (cases b) (auto simp: mqtt_set_dup_def rd_def or.assoc)

lemma same_message_dup: "same_message e it \<Longrightarrow> mqtt_set_dup (buffer it) = Inr b \<Longrightarrow> same_message e (it\<lparr>buffer := b\<rparr>)"
  by (auto simp: same_message_def dest: set_dup_twice)

lemma carries_update:
  assumes "carries ob e" and "\<And>it. it \<in> set (items ob) \<Longrightarrow> self it = a \<Longrightarrow> same_message e it \<Longrightarrow> same_message e (f it)"
  shows "carries (update_item a f ob) e"
proof -
  obtain it where it: "it \<in> set (items ob)" "same_message e it" using assms(1) by (auto simp: carries_def)
  show ?thesis
  proof (cases "self it = a")
    case True
    then have "f it \<in> set (items (update_item a f ob))" using it by (force simp: update_item_def)
    then show ?thesis using assms(2) [OF it(1) True it(2)] by (auto simp: carries_def)
  next
    case False
    then have "it \<in> set (items (update_item a f ob))" using it by (force simp: update_item_def)
    then show ?thesis using it by (auto simp: carries_def)
  qed
qed

lemma update_wf:
  assumes "\<And>it. self (f it) = self it \<and> len (f it) = len it"
  shows "map self (items (update_item a f ob)) = map self (items ob)" and "sized (update_item a f ob) = sized ob"
proof -
  show "map self (items (update_item a f ob)) = map self (items ob)" using assms by (simp add: update_item_def)
  have "map len (items (update_item a f ob)) = map len (items ob)" "size_of (update_item a f ob) = size_of ob"
    using assms by (simp_all add: update_item_def)
  then show "sized (update_item a f ob) = sized ob" by (simp add: sized_def)
qed

lemma carries_set_pending: "carries ob e \<Longrightarrow> carries (snd (outbox_set_pending ob i p)) e"
  and carries_set_tick: "carries ob e \<Longrightarrow> carries (snd (outbox_set_tick ob i t)) e"
  by (auto simp: outbox_set_pending_def outbox_set_tick_def split: option.splits intro!: carries_update)

lemma wf_set_pending: "map self (items (snd (outbox_set_pending ob i p))) = map self (items ob)" "sized (snd (outbox_set_pending ob i p)) = sized ob"
  and wf_set_tick: "map self (items (snd (outbox_set_tick ob i t))) = map self (items ob)" "sized (snd (outbox_set_tick ob i t)) = sized ob"
  by (auto simp: outbox_set_pending_def outbox_set_tick_def update_wf split: option.splits)

lemma carries_enqueue: "carries ob e \<Longrightarrow> carries (snd (outbox_enqueue h raw ob msg t)) e"
  and sized_enqueue: "sized ob \<Longrightarrow> sized (snd (outbox_enqueue h raw ob msg t))"
  by (auto simp: outbox_enqueue_def carries_def sized_def Let_def split: option.splits)

lemma carries_unlink:
  assumes "outbox_wf ob" and "carries ob e" and "find Q (items ob) = Some it" and "\<not> same_message e it"
  shows "carries (outbox_unlink ob it) e" and "outbox_wf (outbox_unlink ob it)"
proof -
  obtain ys zs where s: "items ob = ys @ it # zs" using find_split [OF assms(3)] by blast
  note u = outbox_unlink_split [OF s assms(1)]
  show "outbox_wf (outbox_unlink ob it)" by (rule u(2))
  obtain x where x: "x \<in> set (items ob)" "same_message e x" using assms(2) by (auto simp: carries_def)
  then have "x \<in> set (items (outbox_unlink ob it))" using assms(4) u(1) s by auto
  then show "carries (outbox_unlink ob it) e" using x by (auto simp: carries_def)
qed

lemma carries_delete:
  assumes "outbox_wf ob" and "carries ob e" and "\<not> (msg_id e = i \<and> msg_type e mod 256 = ty)"
  shows "carries (snd (outbox_delete ob i ty)) e" and "outbox_wf (snd (outbox_delete ob i ty))"
proof -
  have "\<not> same_message e it" if "find (\<lambda>it. msg_id it = i \<and> msg_type it mod 256 = ty) (items ob) = Some it" for it
    using assms(3) find_split [OF that] by (auto simp: same_message_def)
  then show "carries (snd (outbox_delete ob i ty)) e" "outbox_wf (snd (outbox_delete ob i ty))"
    using carries_unlink [OF assms(1,2)] assms(1,2) by (auto simp: outbox_delete_def split: option.splits)
qed

lemma carries_delete_item:
  assumes "outbox_wf ob" and "carries ob e" and "h \<noteq> self e"
  shows "carries (snd (outbox_delete_item ob h)) e" and "outbox_wf (snd (outbox_delete_item ob h))"
proof -
  have "\<not> same_message e it" if "find (\<lambda>it. self it = h) (items ob) = Some it" for it
    using assms(3) find_split [OF that] by (auto simp: same_message_def)
  then show "carries (snd (outbox_delete_item ob h)) e" "outbox_wf (snd (outbox_delete_item ob h))"
    using carries_unlink [OF assms(1,2)] assms(1,2) by (auto simp: outbox_delete_item_def split: option.splits)
qed

lemma carries_delete_expired:
  assumes "outbox_wf ob" and "carries ob e" and "\<And>it. it \<in> set (items ob) \<Longrightarrow> same_message e it \<Longrightarrow> \<not> expired now timeout it"
  shows "carries (snd (outbox_delete_expired ob now timeout)) e" and "outbox_wf (snd (outbox_delete_expired ob now timeout))"
  using delete_expired_walk_spec [OF assms(1), of "[]" "items ob" now timeout 0] assms(2,3)
  by (auto simp: outbox_delete_expired_def carries_def)

lemma carries_dup:
  assumes "outbox_wf ob" and "carries ob e" and "it \<in> set (items ob)" and "mqtt_set_dup (buffer it) = Inr b"
  shows "carries (update_item (self it) (\<lambda>x. x\<lparr>buffer := b\<rparr>) ob) e" and "outbox_wf (update_item (self it) (\<lambda>x. x\<lparr>buffer := b\<rparr>) ob)"
proof -
  have "x = it" if "x \<in> set (items ob)" "self x = self it" for x
    using assms(1,3) that by (auto simp: outbox_wf_def distinct_map inj_on_def)
  then show "carries (update_item (self it) (\<lambda>x. x\<lparr>buffer := b\<rparr>) ob) e"
    by (intro carries_update [OF assms(2)]) (metis assms(4) same_message_dup)
  show "outbox_wf (update_item (self it) (\<lambda>x. x\<lparr>buffer := b\<rparr>) ob)"
    using assms(1) by (simp add: outbox_wf_sized update_wf)
qed

section \<open>The task\<close>

lemma moves_mono: "moves R s r \<Longrightarrow> (\<And>t. R s t \<Longrightarrow> R' s' t) \<Longrightarrow> moves R' s' r"
  unfolding moves_def by (erule Mqtt_Client_Correct.ok_mono)

lemma moves_lft_eq: "(\<And>a. r = Inr a \<Longrightarrow> moves R s (k a)) \<Longrightarrow> moves R s (lft r k)"
  by (auto simp: lft_def split: sum.splits)

definition same_pending :: "'w client \<Rightarrow> 'w client \<Rightarrow> bool" where
  "same_pending s s' \<longleftrightarrow> pending_msg_type s' = pending_msg_type s \<and> pending_publish_qos s' = pending_publish_qos s"

lemma pending_write_loop: "moves same_pending s (write_loop P bs s)"
proof (induction "length bs" arbitrary: bs s rule: less_induct)
  case less
  obtain wlen w where w: "transport_write P bs (network_timeout_ms (config s)) (world s) = (wlen, w)" by (rule prod.exhaust)
  have err: "moves same_pending s (esp_mqtt_client_dispatch_transport_error P (s\<lparr>world := w\<rparr>))"
    unfolding esp_mqtt_client_dispatch_transport_error_def esp_mqtt_dispatch_event_with_msgid_def
    by (rule moves_lft) (simp add: esp_mqtt_dispatch_event_def same_pending_def)
  have rec: "moves same_pending s (write_loop P (drop (nat wlen) bs) (s\<lparr>world := w\<rparr>))" if "0 < wlen" "bs \<noteq> []"
    using less [of "drop (nat wlen) bs" "s\<lparr>world := w\<rparr>"] that by (auto elim!: moves_mono simp: same_pending_def)
  show ?case
    by (subst write_loop.simps) (use rec in \<open>auto simp: w Let_def same_pending_def intro!: moves_bnd [OF err]\<close>)
qed

lemma pending_write: "moves same_pending s (esp_mqtt_write P s)"
  unfolding esp_mqtt_write_def Let_def
  by (auto intro!: moves_lft pending_write_loop simp: same_pending_def)

text \<open>What a step of the task does to the outbox as seen from the message.\<close>
definition keeps :: "outbox_item \<Rightarrow> 'w client \<Rightarrow> 'w client \<Rightarrow> bool" where
  "keeps e s s' \<longleftrightarrow> (outbox_wf (outbox_of s) \<and> carries (outbox_of s) e \<longrightarrow> outbox_wf (outbox_of s') \<and> carries (outbox_of s') e)"

lemma keeps_refl [simp]: "keeps e s s"
  and keeps_trans: "keeps e s t \<Longrightarrow> keeps e t u \<Longrightarrow> keeps e s u"
  and keeps_same: "outbox_of t = outbox_of s \<Longrightarrow> keeps e s t"
  by (auto simp: keeps_def)

lemma keeps_moves: "keeps e s t \<Longrightarrow> moves (keeps e) t r \<Longrightarrow> moves (keeps e) s r"
  by (erule moves_mono) (rule keeps_trans)

lemma keeps_set_pending: "keeps e s t \<Longrightarrow> keeps e s (set_pending i p t)"
  by (auto simp: keeps_def set_pending_def outbox_wf_sized wf_set_pending carries_set_pending)

text \<open>The task gives the message up: it has expired, or what \<open>mqtt_message_receive\<close> returns is an acknowledgement with its id.\<close>
definition acked :: "'w platform \<Rightarrow> 'w client \<Rightarrow> outbox_item \<Rightarrow> bool" where
  "acked P s e \<longleftrightarrow> (\<exists>recv t ty i. mqtt_message_receive P 0 s = Inr (recv, t) \<and> 0 < recv \<and> mqtt_get_type (in_buffer t) = Inr ty
     \<and> (ty = MQTT_MSG_TYPE_PUBACK \<or> ty = MQTT_MSG_TYPE_PUBCOMP) \<and> mqtt_get_id (in_buffer t) (message_length t) = Inr i \<and> msg_id e = int i)"

definition given_up :: "'w platform \<Rightarrow> 'w client \<Rightarrow> outbox_item \<Rightarrow> bool" where
  "given_up P s e \<longleftrightarrow>
     (let s = s\<lparr>world := event_loop_run P (world s)\<rparr> in
      (\<exists>it \<in> set (items (outbox_of s)). same_message e it \<and> expired (sint (fst (get_tick P s))) 30000 it)
      \<or> state s = MQTT_STATE_CONNECTED \<and> \<not> disconnect_bit s \<and> acked P (mqtt_delete_expired_messages P s) e)"

context observed
begin

lemma keeps_quiet: "quiet s t \<Longrightarrow> keeps e s t"
  and keeps_lost: "lost s t \<Longrightarrow> keeps e s t"
  by (auto simp: quiet_def lost_def intro: keeps_same)

lemma moves_quiet_keeps: "moves quiet s r \<Longrightarrow> moves (keeps e) s r"
  and moves_lost_keeps: "moves lost s r \<Longrightarrow> moves (keeps e) s r"
  by (auto elim!: moves_mono intro: keeps_quiet keeps_lost)

lemmas keeps_abort = moves_lost_keeps [OF abort_moves]
lemmas keeps_write = moves_quiet_keeps [OF quiet_write]
lemmas keeps_build = moves_quiet_keeps [OF quiet_build]

lemma keeps_respond: "(\<And>t. keeps e s t \<Longrightarrow> keeps e s (u t)) \<Longrightarrow> moves (keeps e) s (respond P b f u s)"
  unfolding respond_def
  by (auto intro!: moves_bnd [OF keeps_build] moves_bnd [OF keeps_moves [OF _ keeps_write]])

lemma keeps_acknowledged:
  assumes "\<And>t. moves (keeps e) t (k t)" and "\<not> (msg_id e = int i \<and> msg_type e mod 256 = ty)"
  shows "moves (keeps e) s (acknowledged P ty i k s)"
proof -
  have "keeps e s (s\<lparr>outbox_of := ob\<rparr>)" if "outbox_delete (outbox_of s) (int i) ty = (r, ob)" for r ob
    using carries_delete [of "outbox_of s" e "int i" ty] assms(2) that by (auto simp: keeps_def)
  then show ?thesis unfolding acknowledged_def remove_initiator_message_def
    by (auto split: prod.splits bool.splits intro!: keeps_moves [OF _ assms(1)])
qed

lemma keeps_handle:
  assumes "msg_type e = MQTT_MSG_TYPE_PUBLISH" and "\<not> ((ty = MQTT_MSG_TYPE_PUBACK \<or> ty = MQTT_MSG_TYPE_PUBCOMP) \<and> msg_id e = int i)"
  shows "moves (keeps e) s (handle_message P ty q i s)"
proof -
  have tick: "keeps e s (t\<lparr>keepalive_tick := a\<rparr>)" if "get_tick P (s\<lparr>wait_for_ping_resp := False\<rparr>) = (a, t)" for a t
    using keeps_quiet [OF quiet_tick [OF that], of e] by (simp add: keeps_def)
  show ?thesis
    unfolding handle_message_def using assms(2)
    by (auto intro!: keeps_acknowledged keeps_respond moves_bnd [OF moves_quiet_keeps [OF quiet_deliver_publish]]
        keeps_moves [OF _ keeps_respond]
        intro: keeps_set_pending moves_quiet_keeps quiet_deliver_suback quiet_post_event keeps_same [THEN keeps_trans] tick split: prod.splits simp: assms(1))
qed

lemma keeps_process_receive:
  assumes "msg_type e = MQTT_MSG_TYPE_PUBLISH" and "\<not> acked P s e"
  shows "moves (keeps e) s (mqtt_process_receive P s)"
proof (cases "mqtt_message_receive P 0 s")
  case (Inr x)
  obtain recv t where x: "x = (recv, t)" by (rule prod.exhaust)
  have t: "keeps e s t" using quiet_receive [of s 0] by (simp add: Inr x keeps_quiet)
  have "moves (keeps e) s (bnd (handle_message P ty q i t) (\<lambda>r s. if r \<noteq> ESP_OK then Inr (r, s) else Inr (ESP_OK, s\<lparr>in_buffer_read_len := 0\<rparr>)))"
    if "0 < recv" "mqtt_get_type (in_buffer t) = Inr ty" "mqtt_get_id (in_buffer t) (message_length t) = Inr i" for ty q i
  proof (rule moves_bnd)
    have "\<not> ((ty = MQTT_MSG_TYPE_PUBACK \<or> ty = MQTT_MSG_TYPE_PUBCOMP) \<and> msg_id e = int i)"
      using assms(2) that Inr x by (auto simp: acked_def)
    then show "moves (keeps e) s (handle_message P ty q i t)" by (rule keeps_moves [OF t keeps_handle [OF assms(1)]])
  qed (auto simp: keeps_def)
  then show ?thesis
    using t by (auto simp: mqtt_process_receive_def Let_def Inr x bnd_def intro!: moves_lft_eq)
qed (simp add: mqtt_process_receive_def bnd_def)

lemma keeps_resend_write: "moves (keeps e) s (resend_write P s)"
  unfolding resend_write_def by (auto intro!: moves_bnd [OF keeps_write] moves_bnd [OF keeps_moves [OF _ keeps_abort]])

lemma outbox_of_take_item [simp]: "outbox_of (take_item it s) = outbox_of s"
  by (simp add: take_item_def)

lemma keeps_resend_queued:
  assumes "it \<in> set (items (outbox_of s))"
  shows "moves (keeps e) s (mqtt_resend_queued P it s)"
proof -
  have "keeps e s ((take_item it s)\<lparr>outbox_of := update_item (self it) (\<lambda>x. x\<lparr>buffer := b\<rparr>) (outbox_of s)\<rparr>)"
    if "mqtt_set_dup (buffer it) = Inr b" for b
    using carries_dup [of "outbox_of s" e it b] assms that by (simp add: keeps_def)
  moreover have "keeps e s (take_item it s)" by (rule keeps_same) simp
  ultimately show ?thesis
    unfolding mqtt_resend_queued_def set_item_dup_def Let_def
    by (auto intro!: moves_bnd moves_lft_eq elim: keeps_moves [OF _ keeps_resend_write])
qed

lemma keeps_resend_pubrel: "moves (keeps e) s (mqtt_resend_pubrel P it s)"
proof -
  have "keeps e s (take_item it s)" by (rule keeps_same) simp
  then show ?thesis
    unfolding mqtt_resend_pubrel_def Let_def
    by (auto intro!: moves_bnd [OF keeps_moves [OF _ keeps_build]] elim: keeps_moves [OF _ keeps_resend_write])
qed

lemma resend_queued_pending:
  assumes "mqtt_resend_queued P it s = Inr (ESP_OK, s')"
  shows "pending_msg_type s' = msg_type it \<and> pending_publish_qos s' = msg_qos it"
proof -
  have w: "pending_msg_type s' = pending_msg_type t \<and> pending_publish_qos s' = pending_publish_qos t" if "resend_write P t = Inr (ESP_OK, s')" for t
    using that pending_write [of t P] by (auto simp: resend_write_def bnd_def same_pending_def split: sum.splits prod.splits if_splits)
  from assms show ?thesis
    by (auto simp: mqtt_resend_queued_def set_item_dup_def Let_def bnd_def lft_def take_item_def split: sum.splits if_splits dest!: w)
qed

lemma keeps_resend_first:
  assumes "it \<in> set (items (outbox_of s))" and "msg_qos e > 0"
  shows "moves (keeps e) s (resend_first P it s)"
proof (cases "mqtt_resend_queued P it s")
  case (Inr x)
  obtain r t where x: "x = (r, t)" by (rule prod.exhaust)
  have k: "keeps e s t" using keeps_resend_queued [OF assms(1), of e] by (simp add: Inr x)
  show ?thesis
  proof (cases "r = ESP_OK")
    case True
    note p = resend_queued_pending [of it s t]
    have d: "keeps e s (t\<lparr>outbox_of := snd (outbox_delete_item (outbox_of t) (self it))\<rparr>)" if "msg_qos it = 0"
    proof -
      have "self it \<noteq> self e" if w: "outbox_wf (outbox_of s)" and c: "carries (outbox_of s) e"
      proof
        assume "self it = self e"
        moreover obtain y where "y \<in> set (items (outbox_of s))" "same_message e y" using c by (auto simp: carries_def)
        ultimately have "y = it" using assms(1) w by (auto simp: outbox_wf_def distinct_map inj_on_def same_message_def)
        then show False using \<open>same_message e y\<close> \<open>msg_qos it = 0\<close> assms(2) by (simp add: same_message_def)
      qed
      then show ?thesis using k carries_delete_item [of "outbox_of t" e "self it"] by (auto simp: keeps_def)
    qed
    then show ?thesis using k p True by (auto simp: resend_first_def Inr x bnd_def Let_def intro: keeps_set_pending)
  qed (use k in \<open>simp add: resend_first_def Inr x bnd_def\<close>)
qed (simp add: resend_first_def bnd_def)

lemma dequeue_member: "outbox_dequeue ob p = Some it \<Longrightarrow> it \<in> set (items ob)"
  by (auto simp: outbox_dequeue_def dest: find_split)

lemma keeps_resend_old:
  assumes "\<And>it t. it \<in> set (items (outbox_of t)) \<Longrightarrow> moves (keeps e) t (f it t)"
  shows "moves (keeps e) s (resend_old p f s)"
  unfolding resend_old_def by (auto split: option.splits intro!: moves_bnd [OF assms] dequeue_member)

lemma keeps_retransmit:
  assumes "msg_qos e > 0"
  shows "moves (keeps e) s (retransmit P s)"
proof -
  define s1 where "s1 = (if last_retransmit s = 0 then (case get_tick P s of (t, s) \<Rightarrow> s\<lparr>last_retransmit := t\<rparr>) else s)"
  have s1: "keeps e s s1" using keeps_quiet [OF quiet_tick [of s]] by (auto simp: s1_def keeps_def split: prod.splits)
  have rest: "moves (keeps e) s1 (bnd (resend_old TRANSMITTED (mqtt_resend_queued P) (b\<lparr>last_retransmit := t\<rparr>))
        (\<lambda>_ s. resend_old ACKNOWLEDGED (mqtt_resend_pubrel P) s))"
    if "has_timed_out P (last_retransmit s1) u s1 = (True, a)" "get_tick P a = (t, b)" for a b t u
  proof -
    have "keeps e s1 (b\<lparr>last_retransmit := t\<rparr>)"
      using keeps_quiet [OF quiet_trans [OF quiet_timed_out [OF that(1)] quiet_tick [OF that(2)]], of e] by (simp add: keeps_def)
    then show ?thesis
      by (intro moves_bnd keeps_moves [OF _ keeps_resend_old] keeps_resend_queued keeps_resend_pubrel)
  qed
  have "moves (keeps e) s1 (case outbox_dequeue (outbox_of s1) QUEUED of
        Some it \<Rightarrow> resend_first P it s1
      | None \<Rightarrow>
          (case has_timed_out P (last_retransmit s1) (of_int (message_retransmit_timeout (config s1))) s1 of
             (False, s) \<Rightarrow> Inr ((), s)
           | (True, s) \<Rightarrow>
               (let (t, s) = get_tick P s in
                bnd (resend_old TRANSMITTED (mqtt_resend_queued P) (s\<lparr>last_retransmit := t\<rparr>))
                  (\<lambda>_ s. resend_old ACKNOWLEDGED (mqtt_resend_pubrel P) s))))"
    using keeps_quiet [OF quiet_timed_out] rest keeps_resend_first [OF dequeue_member assms]
    by (auto split: option.splits prod.splits bool.splits simp: Let_def)
  from keeps_moves [OF s1 this] show ?thesis unfolding retransmit_def Let_def s1_def .
qed

lemma keeps_refresh: "moves (keeps e) s (refresh_connection P s)"
proof -
  have "moves (keeps e) s (bnd (esp_mqtt_abort_connection P t) (\<lambda>_ s. Inr ((), s\<lparr>state := MQTT_STATE_INIT\<rparr>)))" if "keeps e s t" for t
    using that by (intro moves_bnd [OF keeps_moves [OF _ keeps_abort]]) (auto simp: keeps_def)
  then show ?thesis unfolding refresh_connection_def
    using keeps_quiet [OF quiet_timed_out] by (auto split: prod.splits bool.splits)
qed

lemma keeps_connected_work: "msg_qos e > 0 \<Longrightarrow> moves (keeps e) s (connected_work P s)"
  unfolding connected_work_def
  by (auto intro!: moves_bnd [OF keeps_retransmit] moves_bnd [OF keeps_moves [OF _ moves_lost_keeps [OF keepalive_lost]]]
      elim: keeps_moves [OF _ keeps_refresh])

lemma keeps_connected:
  assumes "msg_type e = MQTT_MSG_TYPE_PUBLISH" and "msg_qos e > 0" and "disconnect_bit s \<or> \<not> acked P s e"
  shows "moves (keeps e) s (state_connected P s)"
proof -
  have k: "keeps e s (s\<lparr>disconnect_bit := False\<rparr>)" by (simp add: keeps_def)
  show ?thesis unfolding state_connected_def using assms
    by (auto intro!: moves_bnd [OF keeps_moves [OF k moves_quiet_keeps [OF quiet_disconnect]]] moves_bnd [OF keeps_process_receive]
        elim: keeps_moves [OF _ keeps_abort] keeps_moves [OF _ keeps_connected_work])
qed

lemma keeps_choose: "choose_transport P s = (x, s') \<Longrightarrow> keeps e s s'"
  by (rule keeps_same)
    (auto simp: choose_transport_def quiet_def split: option.splits prod.splits if_splits dest!: quiet_create_transport)

lemma keeps_on_connected: "moves (keeps e) s (on_connected P s)"
  unfolding on_connected_def esp_mqtt_dispatch_event_with_msgid_def Let_def
  by (auto intro!: moves_lft moves_bnd split: prod.splits dest!: quiet_tick simp: esp_mqtt_dispatch_event_def keeps_def quiet_def)

lemma keeps_init:
  assumes "state_init n P s = Some r"
  shows "moves (keeps e) s r"
proof -
  obtain x t where x: "choose_transport P (s\<lparr>reconnect_bit := False, disconnect_bit := False\<rparr>) = (x, t)" by (rule prod.exhaust)
  have t: "keeps e s t" using keeps_choose [OF x, of e] by (simp add: keeps_def)
  show ?thesis
  proof (cases x)
    case None
    then show ?thesis using assms t by (auto simp: state_init_def x)
  next
    case (Some p)
    define u where "u = (if port (config t) = 0 then t\<lparr>config := (config t)\<lparr>port := p\<rparr>\<rparr> else t)"
    have u: "keeps e s u" using t by (simp add: u_def keeps_def)
    let ?b = "lft (transport_settings (build_of P) (config u)) (\<lambda>l.
        esp_mqtt_dispatch_event_with_msgid P (set_event MQTT_EVENT_BEFORE_CONNECT (u\<lparr>world := transport_setup P l (world u)\<rparr>)))"
    have b: "moves (keeps e) s ?b"
      unfolding esp_mqtt_dispatch_event_with_msgid_def using u
      by (auto intro!: moves_lft simp: esp_mqtt_dispatch_event_def set_event_def keeps_def)
    show ?thesis
    proof (cases ?b)
      case (Inl f)
      then have "r = Inl f" using assms by (simp add: state_init_def x Some u_def [symmetric])
      then show ?thesis by simp
    next
      case (Inr y)
      obtain v where y: "y = ((), v)" by (cases y) auto
      obtain c w where w: "transport_connect P (port (config v)) (world v) = (c, w)" by (rule prod.exhaust)
      have v: "keeps e s (v\<lparr>world := w\<rparr>)" using b by (simp add: Inr y keeps_def)
      have "moves (keeps e) s (bnd (esp_mqtt_client_dispatch_transport_error P (v\<lparr>world := w\<rparr>)) (\<lambda>_ s. esp_mqtt_abort_connection P s))"
        by (rule moves_bnd [OF keeps_moves [OF v moves_quiet_keeps [OF quiet_transport_error]]]) (erule keeps_moves [OF _ keeps_abort])
      moreover have "moves (keeps e) s (bnd z (\<lambda>e s. if e \<noteq> ESP_OK then esp_mqtt_abort_connection P s else on_connected P s))"
        if "esp_mqtt_connect n P (v\<lparr>world := w\<rparr>) = Some z" for z
        by (rule moves_bnd [OF keeps_moves [OF v moves_quiet_keeps [OF quiet_connect [OF that]]]])
          (auto elim: keeps_moves [OF _ keeps_abort] keeps_moves [OF _ keeps_on_connected])
      ultimately show ?thesis
        using assms by (auto simp: state_init_def x Some u_def [symmetric] Inr y w Let_def split: if_splits)
    qed
  qed
qed

lemma keeps_wait: "keeps e s (state_wait_reconnect P s)"
  by (rule keeps_same) (auto simp: state_wait_reconnect_def quiet_def split: prod.splits dest!: quiet_tick)

theorem keeps_round:
  assumes "msg_type e = MQTT_MSG_TYPE_PUBLISH" and "msg_qos e > 0" and "task_round n P s = Some r" and "\<not> given_up P s e"
  shows "moves (keeps e) s r"
proof -
  let ?s = "s\<lparr>world := event_loop_run P (world s)\<rparr>"
  obtain c u where c: "get_tick P ?s = (c, u)" by (rule prod.exhaust)
  define t where "t = mqtt_delete_expired_messages P ?s"
  have td: "t = u\<lparr>outbox_of := snd (outbox_delete_expired (outbox_of u) (sint c) 30000)\<rparr>" by (simp add: t_def mqtt_delete_expired_messages_def c)
  have u: "u = s\<lparr>world := world u\<rparr>" using c by (auto simp: get_tick_def split: prod.splits)
  have f: "outbox_of u = outbox_of s" "state t = state s" "disconnect_bit t = disconnect_bit s" by (subst u, simp)+ (simp_all add: td, (subst u, simp)+)
  have "keeps e s t"
    using carries_delete_expired [of "outbox_of s" e "sint c" 30000] assms(4) by (auto simp: keeps_def td f(1) given_up_def c)
  moreover have "moves (keeps e) t r"
    using assms keeps_init [of n t r e] keeps_connected [of e t] keeps_wait [of e t] f
    by (cases "state t") (auto simp: task_round_def t_def [symmetric] given_up_def)
  ultimately show ?thesis by (rule keeps_moves)
qed

lemma keeps_poll: "moves (keeps e) s (task_poll P s)"
proof -
  have "keeps e s (s\<lparr>world := w\<rparr>)" for w by (rule keeps_same) simp
  then show ?thesis unfolding task_poll_def by (auto split: prod.splits intro!: keeps_moves [OF _ keeps_abort])
qed

end

section \<open>The application\<close>

text \<open>New messages go behind the others; the address of a new item is the allocator's.\<close>
definition grows :: "outbox_item \<Rightarrow> 'w client \<Rightarrow> 'w client \<Rightarrow> bool" where
  "grows e s s' \<longleftrightarrow> (carries (outbox_of s) e \<longrightarrow> carries (outbox_of s') e) \<and> (sized (outbox_of s) \<longrightarrow> sized (outbox_of s'))"

lemma grows_refl [simp]: "grows e s s"
  and grows_trans: "grows e s t \<Longrightarrow> grows e t u \<Longrightarrow> grows e s u"
  and grows_same: "outbox_of t = outbox_of s \<Longrightarrow> grows e s t"
  by (auto simp: grows_def)

lemma grows_moves: "grows e s t \<Longrightarrow> moves (grows e) t r \<Longrightarrow> moves (grows e) s r"
  by (erule moves_mono) (rule grows_trans)

lemma grows_fields [simp]:
  "grows e s (t\<lparr>connection := c\<rparr>) = grows e s t" "grows e s (t\<lparr>out_item := d\<rparr>) = grows e s t" "grows e s (t\<lparr>pending_msg_id := b\<rparr>) = grows e s t"
  "grows e s (t\<lparr>pending_msg_type := f\<rparr>) = grows e s t" "grows e s (t\<lparr>pending_publish_qos := f\<rparr>) = grows e s t" "grows e s (t\<lparr>world := w\<rparr>) = grows e s t"
  "grows e s (set_frag i j t) = grows e s t" "grows e s (clear_frag_total t) = grows e s t"
  by (simp_all add: grows_def set_frag_def clear_frag_total_def)

lemma grows_set_pending: "grows e s t \<Longrightarrow> grows e s (set_pending i p t)"
  by (auto simp: grows_def set_pending_def wf_set_pending carries_set_pending)

lemma grows_set_tick: "grows e s t \<Longrightarrow> grows e s (t\<lparr>outbox_of := snd (outbox_set_tick (outbox_of t) i v)\<rparr>)"
  by (auto simp: grows_def wf_set_tick carries_set_tick)

context observed
begin

lemma grows_quiet: "quiet s t \<Longrightarrow> grows e s t"
  and grows_lost: "lost s t \<Longrightarrow> grows e s t"
  by (auto simp: quiet_def lost_def intro: grows_same)

lemma moves_quiet_grows: "moves quiet s r \<Longrightarrow> moves (grows e) s r"
  and moves_lost_grows: "moves lost s r \<Longrightarrow> moves (grows e) s r"
  by (auto elim!: moves_mono intro: grows_quiet grows_lost)

lemmas grows_after = grows_moves [OF _ moves_quiet_grows [OF quiet_write]] grows_moves [OF _ moves_lost_grows [OF abort_moves]]

lemma grows_enqueue: "moves (grows e) s (mqtt_enqueue P d n s)"
  unfolding mqtt_enqueue_def Let_def
  by (auto intro!: moves_lft split: prod.splits dest!: quiet_tick simp: grows_def quiet_def)
    (metis carries_enqueue sized_enqueue snd_conv)+

lemma grows_fragments: "moves (grows e) s (send_fragments P d rest i s)"
proof (induction "nat rest" arbitrary: rest i s rule: less_induct)
  case less
  define n where "n = (if rest > int (cbuffer_length (connection s)) then int (cbuffer_length (connection s)) else rest)"
  have abort: "moves (grows e) s (bnd (esp_mqtt_abort_connection P t) (\<lambda>_ s. Inr (False, s)))" if "grows e s t" for t
    using that by (intro moves_bnd [OF grows_after(2)]) auto
  show ?case
  proof (cases "rest > 0 \<and> n > 0")
    case True
    let ?c = "lft (data_from d i n) (\<lambda>b. buf_memcpy 0 b (nat n) (connection s))"
    show ?thesis
    proof (cases ?c)
      case (Inl f)
      then show ?thesis using True by (subst send_fragments.simps) (simp add: Let_def n_def [symmetric])
    next
      case (Inr c)
      define t where "t = s\<lparr>connection := c\<lparr>outbound := (outbound c)\<lparr>m_data := 0, m_length := nat n\<rparr>\<rparr>, out_item := None\<rparr>"
      have t: "grows e s t" by (simp add: t_def)
      have w: "grows e s v" if "esp_mqtt_write P t = Inr (r, v)" for r v
        using grows_after(1) [OF t] that by simp
      have rec: "moves (grows e) s (send_fragments P d (rest - n) (i + n) (set_frag 0 0 v))" if "grows e s v" for v
        using less [of "rest - n" "set_frag 0 0 v" "i + n"] True that by (intro grows_moves [of e s "set_frag 0 0 v"]) (auto simp: n_def split: if_splits)
      show ?thesis
        using True Inr by (subst send_fragments.simps)
          (auto simp: Let_def n_def [symmetric] t_def [symmetric] split: sum.splits prod.splits dest!: w intro!: abort rec)
    qed
  qed (subst send_fragments.simps, auto simp: Let_def n_def [symmetric])
qed

lemma grows_send_publish: "moves (grows e) s (send_publish P d n s)"
  unfolding send_publish_def
  by (auto intro!: moves_bnd [OF moves_quiet_grows [OF quiet_write]] moves_bnd [OF grows_after(2)] grows_moves [OF _ grows_fragments])

lemma grows_make_publish: "moves (grows e) s (make_publish t d n q rt s)"
  unfolding make_publish_def Let_def by (auto intro!: moves_lft split: prod.splits)

lemma grows_enqueue_publish: "moves (grows e) s (mqtt_client_enqueue_publish P t d n q rt b s)"
  unfolding mqtt_client_enqueue_publish_def Let_def
  by (auto intro!: moves_bnd [OF grows_make_publish] moves_lft moves_bnd [OF grows_moves [OF _ grows_enqueue]])

lemma grows_mark: "grows e s (mark_transmitted P i s)"
  by (auto simp: mark_transmitted_def split: prod.splits dest!: quiet_tick [THEN grows_quiet] intro!: grows_set_pending grows_set_tick)

lemma grows_publish: "moves (grows e) s (esp_mqtt_client_publish P t d n q rt s)"
  unfolding esp_mqtt_client_publish_def
  by (auto intro!: moves_lft moves_bnd [OF grows_enqueue_publish] moves_bnd [OF grows_moves [OF _ grows_send_publish]] grows_trans [OF _ grows_mark])

lemma grows_stop: "moves (grows e) s (esp_mqtt_client_stop P b s)"
  unfolding esp_mqtt_client_stop_def
  by (auto intro!: moves_bnd moves_quiet_grows [OF quiet_disconnect] simp: grows_def)

end

section \<open>The node\<close>

lemma publish_grows: "moves (grows e) s (manager_publish (node_platform Q) t p s)"
  unfolding manager_publish_def by (auto intro!: moves_bnd [OF manager.grows_publish])

lemma app_grows:
  assumes "app_round depth E d msg buf m (node_platform Q) x = Some (Inr (b, y))"
  shows "pc y = pc x \<and> grows e (mqtt x) (mqtt y)"
proof -
  obtain payload s where s: "manager_publish (node_platform Q) telemetry_topic payload (mqtt x) = Inr (b, s)" "y = x\<lparr>counter := counter x + 1, mqtt := s\<rparr>"
    using assms by (auto simp: app_round_def Let_def split: option.splits sum.splits)
  then show ?thesis using publish_grows [of e "mqtt x" Q telemetry_topic payload] by simp
qed

lemma grows_keeps: "grows e s t \<Longrightarrow> distinct (map self (items (outbox_of t))) \<Longrightarrow> keeps e s t"
  by (auto simp: grows_def keeps_def outbox_wf_sized)

lemma node_step_keeps:
  assumes "node_step Q x y" and "msg_type e = MQTT_MSG_TYPE_PUBLISH" and "msg_qos e > 0"
    and "distinct (map self (items (outbox_of (mqtt y))))" and "pc y \<noteq> Ended"
    and "\<not> (pc x = Head \<and> pc y = Poll \<and> given_up (node_platform Q) (mqtt x) e)"
  shows "keeps e (mqtt x) (mqtt y)"
  using assms
proof (induction rule: node_step.induct)
  case (start x)
  then show ?case by (auto simp: task_begin_def intro: keeps_same)
next
  case (round x n s)
  then show ?case using manager.keeps_round [OF _ _ round(3), of e] by simp
next
  case (poll x s)
  then show ?case using manager.keeps_poll [of e "mqtt x" Q] by simp
next
  case (finish x)
  then show ?case by simp
next
  case (app depth E d msg buf m x b y)
  then show ?case using app_grows [OF app(1)] grows_keeps by blast
next
  case (destroy x d s)
  then show ?case using manager.grows_stop [of e "mqtt x" Q False] grows_keeps [of e "mqtt x" s] by (simp add: manager_destroy_def)
qed

text \<open>
  C3. At least once. Let a PUBLISH with QoS 1 or 2 be in the outbox of the node. However many rounds of the client's task, polls,
  lost and new connections, resends and further publishes follow, it is still there, byte for byte but for the DUP
  flag, unless at one of the steps the task saw that it had expired, the task received an acknowledgement (PUBACK or PUBCOMP) with its
  message id, or the task ended. The allocator never hands out the address of an item in the list.
\<close>
theorem unacknowledged_kept:
  assumes "e \<in> set (items (outbox_of (mqtt (f 0))))" and "msg_type e = MQTT_MSG_TYPE_PUBLISH" and "msg_qos e > 0"
    and "outbox_wf (outbox_of (mqtt (f 0)))" and "\<forall>j<k. node_step Q (f j) (f (Suc j))"
    and "\<forall>j<k. distinct (map self (items (outbox_of (mqtt (f (Suc j))))))"
  shows "carries (outbox_of (mqtt (f k))) e
    \<or> (\<exists>j<k. pc (f j) = Head \<and> pc (f (Suc j)) = Poll \<and> given_up (node_platform Q) (mqtt (f j)) e \<or> pc (f (Suc j)) = Ended)"
proof -
  let ?gone = "\<lambda>k. \<exists>j<k. pc (f j) = Head \<and> pc (f (Suc j)) = Poll \<and> given_up (node_platform Q) (mqtt (f j)) e \<or> pc (f (Suc j)) = Ended"
  have "i \<le> k \<Longrightarrow> outbox_wf (outbox_of (mqtt (f i))) \<and> carries (outbox_of (mqtt (f i))) e \<or> ?gone i" for i
  proof (induction i)
    case 0
    then show ?case using assms(1,4) by (auto simp: carries_def same_message_def)
  next
    case (Suc i)
    then have k: "keeps e (mqtt (f i)) (mqtt (f (Suc i))) \<or> ?gone (Suc i)"
      using node_step_keeps [of Q "f i" "f (Suc i)" e] assms(2,3,5,6) by auto
    from Suc have "outbox_wf (outbox_of (mqtt (f i))) \<and> carries (outbox_of (mqtt (f i))) e \<or> ?gone i" by simp
    then show ?case
    proof
      assume "?gone i"
      then have "?gone (Suc i)" using less_Suc_eq by blast
      then show ?thesis ..
    next
      assume "outbox_wf (outbox_of (mqtt (f i))) \<and> carries (outbox_of (mqtt (f i))) e"
      then show ?thesis using k by (auto simp: keeps_def)
    qed
  qed
  then show ?thesis by blast
qed

definition waiting_item :: outbox_item where
  "waiting_item = \<lparr>self = 16, buffer = publish_packet 1 0 [0x61] 7 [1, 2, 3], len = 10, msg_id = 7, msg_type = 3, msg_qos = 1, tick = 0,
     pending = TRANSMITTED\<rparr>"

definition waiting_node :: "task_pc \<Rightarrow> unit node" where
  "waiting_node c = (sample_node c MQTT_STATE_WAIT_RECONNECT False ())
     \<lparr>mqtt := (mqtt (sample_node c MQTT_STATE_WAIT_RECONNECT False ()))\<lparr>outbox_of := \<lparr>size_of = 10, items = [waiting_item]\<rparr>\<rparr>\<rparr>"

lemma waiting_round: "task_round n (node_platform quiet_platform) (mqtt (waiting_node c)) = Some (Inr ((), mqtt (waiting_node c)))"
  by (simp add: task_round_def mqtt_delete_expired_messages_def get_tick_def platform_tick_get_ms_def node_platform_def quiet_platform_def
      waiting_node_def sample_node_def sample_client_def outbox_delete_expired_def expired_def waiting_item_def state_wait_reconnect_def)

text \<open>A node without a connection: a round of the task, the poll after it.\<close>
theorem unacknowledged_kept_witness:
  "carries (outbox_of (mqtt (waiting_node Head))) waiting_item"
proof -
  let ?f = "\<lambda>j :: nat. if j = 1 then waiting_node Poll else waiting_node Head"
  have m: "mqtt (waiting_node c) = mqtt (waiting_node d)" "pc (waiting_node c) = c" "waiting_node c = (waiting_node d)\<lparr>pc := c\<rparr>" for c d
    by (simp_all add: waiting_node_def sample_node_def)
  have i: "outbox_of (mqtt (waiting_node c)) = \<lparr>size_of = 10, items = [waiting_item]\<rparr>" for c by (simp add: waiting_node_def)
  have "node_step quiet_platform (waiting_node Head) (waiting_node Poll)"
    using node_step.round [of "waiting_node Head" 0 quiet_platform "mqtt (waiting_node Head)", OF _ _ waiting_round] m
    by (simp add: waiting_node_def sample_node_def sample_client_def)
  moreover have "node_step quiet_platform (waiting_node Poll) (waiting_node Head)"
    using node_step.poll [of "waiting_node Poll" quiet_platform "mqtt (waiting_node Poll)"] m
    by (simp add: waiting_node_def sample_node_def sample_client_def task_poll_def)
  ultimately have step: "\<forall>j<2. node_step quiet_platform (?f j) (?f (Suc j))" by (auto simp: less_2_cases_iff)
  have "\<not> given_up (node_platform quiet_platform) (mqtt (?f 0)) waiting_item"
    by (simp add: given_up_def waiting_node_def sample_node_def sample_client_def expired_def waiting_item_def get_tick_def
        platform_tick_get_ms_def node_platform_def quiet_platform_def)
  moreover have "carries (outbox_of (mqtt (?f 2))) waiting_item
    \<or> (\<exists>j<2. pc (?f j) = Head \<and> pc (?f (Suc j)) = Poll \<and> given_up (node_platform quiet_platform) (mqtt (?f j)) waiting_item \<or> pc (?f (Suc j)) = Ended)"
    by (rule unacknowledged_kept [OF _ _ _ _ step])
      (simp_all add: i m outbox_wf_def, simp_all add: waiting_item_def)
  ultimately show ?thesis using m by (auto simp: less_2_cases_iff)
qed

end
