(* ===== verification/Mqtt_Receive.thy ===== *)
theory Mqtt_Receive
  imports Mqtt_Publish
begin

unbundle bit_operations_syntax

text \<open>
  Receiving (\<open>mqtt_message_receive\<close>): a packet that arrives in pieces is put together again, and where this fails.
\<close>

section \<open>Steps that end\<close>

text \<open>The step ends without a fault, in a state with the property.\<close>
definition runs :: "fault + 'a \<times> 's \<Rightarrow> ('a \<Rightarrow> 's \<Rightarrow> bool) \<Rightarrow> bool" where
  "runs r Q \<longleftrightarrow> (\<exists>a s. r = Inr (a, s) \<and> Q a s)"

lemma runs_Inr [simp]: "runs (Inr (a, s)) Q \<longleftrightarrow> Q a s"
  by (simp add: runs_def)

lemma runs_bnd: "runs r R \<Longrightarrow> (\<And>a s. R a s \<Longrightarrow> runs (k a s) Q) \<Longrightarrow> runs (bnd r k) Q"
  by (auto simp: runs_def bnd_def)

lemma runs_mono: "runs r R \<Longrightarrow> (\<And>a s. R a s \<Longrightarrow> Q a s) \<Longrightarrow> runs r Q"
  by (auto simp: runs_def)

lemma runs_lft: "r = Inr a \<Longrightarrow> runs (k a) Q \<Longrightarrow> runs (lft r k) Q"
  by (simp add: lft_def)

section \<open>Bytes that arrive\<close>

text \<open>
  With \<open>inc\<close> what the peer has sent and nobody has read yet: the first \<open>k\<close> bytes of \<open>p\<close> are in the
  input buffer, which has room for all of \<open>p\<close>; the others are still to come, and \<open>rest\<close> after them.
\<close>
definition arriving :: "('w \<Rightarrow> bytes) \<Rightarrow> bytes \<Rightarrow> bytes \<Rightarrow> nat \<Rightarrow> 'w client \<Rightarrow> bool" where
  "arriving inc p rest k s \<longleftrightarrow> in_wf s \<and> in_buffer_read_len s = k \<and> k \<le> length p \<and> length p \<le> length (in_buffer s)
     \<and> take k (in_buffer s) = take k p \<and> inc (world s) = drop k p @ rest"

text \<open>The result 1: all of \<open>p\<close> is in the buffer and nothing of \<open>rest\<close> is taken. Otherwise \<open>p\<close> is still on its way, nothing of it lost.\<close>
definition assembled :: "('w \<Rightarrow> bytes) \<Rightarrow> bytes \<Rightarrow> bytes \<Rightarrow> nat \<Rightarrow> int \<Rightarrow> 'w client \<Rightarrow> bool" where
  "assembled inc p rest k r s \<longleftrightarrow> r = 1 \<and> arriving inc p rest (length p) s \<and> message_length s = length p
     \<or> r \<in> {0, - 1, - 2} \<and> (\<exists>k' \<ge> k. arriving inc p rest k' s)"

text \<open>A transport that hands out what the peer has sent, in order and in pieces of any size.\<close>
locale peer =
  fixes P :: "'w platform" and inc :: "'w \<Rightarrow> bytes"
  assumes read_fails: "transport_read P n t w = (r, bs, w') \<Longrightarrow> r \<le> 0 \<Longrightarrow> inc w' = inc w"
    and read_gets: "transport_read P n t w = (r, bs, w') \<Longrightarrow> 0 < r \<Longrightarrow>
      r \<le> n \<and> nat r \<le> length (inc w) \<and> bs = take (nat r) (inc w) \<and> inc w' = drop (nat r) (inc w)"
    and inc_post: "inc (event_post P e w) = inc w"
    and inc_loop: "inc (event_loop_run P w) = inc w"
begin

abbreviation holds :: "bytes \<Rightarrow> bytes \<Rightarrow> nat \<Rightarrow> 'w client \<Rightarrow> bool" where
  "holds \<equiv> arriving inc"

lemma error_event_inc: "esp_mqtt_client_dispatch_transport_error P s = Inr ((), s') \<Longrightarrow> inc (world s') = inc (world s)"
  by (auto simp: esp_mqtt_client_dispatch_transport_error_def esp_mqtt_dispatch_event_with_msgid_def lft_def esp_mqtt_dispatch_event_def
      inc_post inc_loop split: sum.splits)

lemma holds_core:
  assumes "same_core s s'" and "inc (world s') = inc (world s)"
  shows "holds p rest k s' = holds p rest k s"
proof -
  have "in_buffer_read_len s' = in_buffer_read_len s" by (subst assms(1) [unfolded same_core_def]) simp
  then show ?thesis using assms(2) same_core_sel [OF assms(1)] by (simp add: arriving_def in_wf_def)
qed

lemma read_error_holds:
  assumes "holds p rest k s"
  shows "runs (esp_mqtt_handle_transport_read_error P e m s) (\<lambda>r s'. r \<in> {0, - 1, - 2} \<and> holds p rest k s')"
proof -
  have "in_wf s" using assms by (simp add: arriving_def)
  from error_event_runs [OF this] obtain s' where s': "esp_mqtt_client_dispatch_transport_error P s = Inr ((), s')" "same_core s s'" by blast
  then have "holds p rest k s'" using holds_core [OF s'(2) error_event_inc [OF s'(1)]] assms by simp
  then show ?thesis using assms s'(1) by (simp add: esp_mqtt_handle_transport_read_error_def bnd_def)
qed

lemma read_holds:
  assumes "holds p rest k s" and "k + n \<le> length p"
  shows "runs (read_at P k (int n) t s) (\<lambda>r s'. r \<le> 0 \<and> holds p rest k s'
    \<or> 0 < r \<and> r \<le> int n \<and> in_buffer_read_len s' = k \<and> message_length s' = message_length s
      \<and> holds p rest (k + nat r) (s'\<lparr>in_buffer_read_len := k + nat r\<rparr>))"
proof -
  obtain r bs w where w: "transport_read P (int n) t (world s) = (r, bs, w)" by (metis prod.exhaust)
  note h = assms(1) [unfolded arriving_def]
  show ?thesis
  proof (cases "r \<le> 0")
    case True
    have "holds p rest k (s\<lparr>world := w\<rparr>)" using h read_fails [OF w True] by (simp add: arriving_def in_wf_def)
    then show ?thesis using True by (simp add: read_at_def w)
  next
    case False
    then have r: "r \<le> int n" "nat r \<le> length (inc (world s))" "bs = take (nat r) (inc (world s))" "inc w = drop (nat r) (inc (world s))"
      using read_gets [OF w] by auto
    have len: "nat r \<le> length p - k" "k + nat r \<le> length p" using r(1) assms(2) by linarith+
    then have bs: "bs = take (nat r) (drop k p)" using r(3) h by simp
    have l: "length bs = nat r" using bs len by simp
    have "length (take k p) = k" using h by simp
    then have "take (k + nat r) (overlay (in_buffer s) k bs) = take k p @ bs"
      using h l by (simp add: overlay_def)
    also have "\<dots> = take (k + nat r) p" by (simp add: bs take_add)
    finally have "take (k + nat r) (overlay (in_buffer s) k bs) = take (k + nat r) p" .
    moreover have "inc w = drop (k + nat r) p @ rest" using r(4) h len by (simp add: add.commute)
    moreover have "length (overlay (in_buffer s) k bs) = length (in_buffer s)" using h l assms(2) r(1) by (intro length_overlay) linarith
    ultimately have "holds p rest (k + nat r) (s\<lparr>in_buffer := overlay (in_buffer s) k bs, world := w, in_buffer_read_len := k + nat r\<rparr>)"
      using h len by (simp add: arriving_def in_wf_def)
    moreover have "k + length bs \<le> length (in_buffer s)" using h l len by linarith
    ultimately show ?thesis using False r(1) h by (simp add: read_at_def w)
  qed
qed

end

section \<open>Packets\<close>

definition header_length :: "bytes \<Rightarrow> nat" where
  "header_length body = 1 + length (encoded_lens (int (length body)))"

text \<open>
  A packet with a type byte that the client accepts. One of less than six bytes must not have a byte of 128 or more after its
  header: see \<open>resumed_ack_swallows_next\<close> below.
\<close>
definition packet_of :: "byte \<Rightarrow> bytes \<Rightarrow> bytes" where
  "packet_of b0 body = b0 # encoded_lens (int (length body)) @ body"

definition receivable :: "byte \<Rightarrow> bytes \<Rightarrow> bool" where
  "receivable b0 body \<longleftrightarrow> valid_hdr_byte b0 \<and> length body < 268435456
     \<and> (6 \<le> length (packet_of b0 body) \<or> (\<forall>b \<in> set body. b AND 0x80 = 0))"

lemma header_length_bounds: "length body < 268435456 \<Longrightarrow> 2 \<le> header_length body \<and> header_length body \<le> 5 \<and> header_length body \<le> length (packet_of b0 body)"
  using length_encoded_lens4 [of "length body"] by (cases "encoded_lens (int (length body))") (auto simp: header_length_def packet_of_def)

lemma encoded_lens_bits:
  "i < length (encoded_lens (int n)) \<Longrightarrow> (encoded_lens (int n) ! i) AND 0x80 = 0 \<longleftrightarrow> i + 1 = length (encoded_lens (int n))"
proof (induction n arbitrary: i rule: less_induct)
  case (less n)
  show ?case
  proof (cases n rule: encoded_lens_cases)
    case 1
    then show ?thesis using less.prems by simp
  next
    case (2 x)
    then show ?thesis using less.prems less.IH [of "n div 128" "i - 1"] by (cases i) auto
  qed
qed

text \<open>Up to the end of the header exactly the last byte has the top bit clear.\<close>
lemma header_bits:
  assumes "1 \<le> i" and "i < header_length body"
  shows "packet_of b0 body ! i AND 0x80 = 0 \<longleftrightarrow> i + 1 = header_length body"
  using encoded_lens_bits [of "i - 1" "length body"] assms
  by (auto simp: packet_of_def header_length_def nth_Cons' nth_append)

lemma body_bits:
  assumes "receivable b0 body" and "header_length body \<le> i" and "i < length (packet_of b0 body)" and "packet_of b0 body ! i AND 0x80 \<noteq> 0"
  shows "6 \<le> length (packet_of b0 body)"
proof -
  have "packet_of b0 body ! i = body ! (i - header_length body)" "i - header_length body < length body"
    using assms(2,3) by (auto simp: packet_of_def header_length_def nth_Cons' nth_append)
  then have "packet_of b0 body ! i \<in> set body" by simp
  then show ?thesis using assms(1,4) by (auto simp: receivable_def)
qed

lemma buffered_total:
  assumes "take k b = take k (packet_of b0 body)" and "header_length body \<le> k" and "k \<le> length (packet_of b0 body)" and "length body < 268435456"
  shows "mqtt_get_total_length b k = Inr (of_nat (length (packet_of b0 body)), header_length body)"
proof -
  let ?p = "packet_of b0 body" and ?h = "header_length body"
  have "take ?h b = take ?h ?p" using arg_cong [OF assms(1), of "take ?h"] assms(2) by (simp add: min_def)
  then have "b = take ?h ?p @ drop ?h b" by (metis append_take_drop_id)
  moreover have "take ?h ?p = [b0] @ encoded_lens (int (length body))" by (simp add: packet_of_def header_length_def)
  ultimately have "b = [b0] @ encoded_lens (int (length body)) @ drop ?h b" by simp
  from total_scan_encoded [OF this, of 1 k 0] assms(2,4)
  have "total_scan b k 1 0 = Inr (of_nat (length body), ?h)" by (simp add: header_length_def)
  then show ?thesis by (simp add: mqtt_get_total_length_def packet_of_def header_length_def)
qed

context peer
begin

abbreviation received :: "bytes \<Rightarrow> bytes \<Rightarrow> nat \<Rightarrow> int \<Rightarrow> 'w client \<Rightarrow> bool" where
  "received \<equiv> assembled inc"

lemma received_error: "r \<in> {0, - 1, - 2} \<and> holds p rest k s \<Longrightarrow> j \<le> k \<Longrightarrow> received p rest j r s"
  by (auto simp: assembled_def)

lemma received_mono: "received p rest k r s \<Longrightarrow> j \<le> k \<Longrightarrow> received p rest j r s"
  by (auto simp: assembled_def)

lemma holds_message_length [simp]: "holds p rest k (s\<lparr>message_length := n\<rparr>) = holds p rest k s"
  by (simp add: arriving_def in_wf_def)

lemma rest_received:
  assumes "holds p rest k s" and "k \<le> length p" and "message_length s = length p"
  shows "runs (receive_rest P t (int (length p)) s) (received p rest k)"
proof -
  have h: "in_wf s" "in_buffer_read_len s = k" "length p \<le> length (in_buffer s)" using assms(1) by (simp_all add: arriving_def)
  then have z: "sz (int (length p)) = length p" "s32 (int (length p) - int k) = int (length p - k)"
    using assms(2) by (simp_all add: in_wf_def sz_of_nat s32_id of_nat_diff)
  show ?thesis
  proof (cases "k < length p")
    case False
    then show ?thesis using assms h z by (simp add: receive_rest_def assembled_def)
  next
    case True
    have "k + (length p - k) \<le> length p" using assms(2) by simp
    from read_holds [OF assms(1) this, of t]
    have "runs (bnd (read_at P k (int (length p - k)) t s) (\<lambda>r s.
        if r \<le> 0 then esp_mqtt_handle_transport_read_error P r True s
        else (let s = s\<lparr>in_buffer_read_len := in_buffer_read_len s + nat r\<rparr>
              in if in_buffer_read_len s < length p then Inr (0, s) else Inr (1, s)))) (received p rest k)"
    proof (rule runs_bnd)
      fix r s'
      assume a: "r \<le> 0 \<and> holds p rest k s' \<or> 0 < r \<and> r \<le> int (length p - k) \<and> in_buffer_read_len s' = k \<and> message_length s' = message_length s
        \<and> holds p rest (k + nat r) (s'\<lparr>in_buffer_read_len := k + nat r\<rparr>)"
      show "runs (if r \<le> 0 then esp_mqtt_handle_transport_read_error P r True s'
          else (let s = s'\<lparr>in_buffer_read_len := in_buffer_read_len s' + nat r\<rparr>
                in if in_buffer_read_len s < length p then Inr (0, s) else Inr (1, s))) (received p rest k)"
      proof (cases "r \<le> 0")
        case True
        then show ?thesis using a by (auto intro!: runs_mono [OF read_error_holds] received_error)
      next
        case False
        then have le: "k + nat r \<le> length p" using a by linarith
        show ?thesis
        proof (cases "k + nat r < length p")
          case True
          then show ?thesis using False a le by (auto simp: Let_def assembled_def intro!: exI [of _ "k + nat r"])
        next
          case False
          then have "k + nat r = length p" using le by simp
          then show ?thesis using \<open>\<not> r \<le> 0\<close> a assms(3) by (simp add: Let_def assembled_def)
        qed
      qed
    qed
    then show ?thesis using True h z by (simp add: receive_rest_def cong: if_cong)
  qed
qed

lemma body_received:
  assumes "holds (packet_of b0 body) rest k s" and "receivable b0 body" and "header_length body \<le> k"
  shows "runs (receive_body P t s) (received (packet_of b0 body) rest k)"
proof -
  let ?p = "packet_of b0 body"
  have h: "in_wf s" "in_buffer_read_len s = k" "k \<le> length ?p" "length ?p \<le> length (in_buffer s)" "take k (in_buffer s) = take k ?p"
    using assms(1) by (simp_all add: arriving_def)
  have tot: "mqtt_get_total_length (in_buffer s) k = Inr (of_nat (length ?p), header_length body)"
    using buffered_total [OF h(5) assms(3) h(3)] assms(2) by (simp add: receivable_def)
  have "length ?p < 2147483648" using h(1,4) by (simp add: in_wf_def)
  then have n: "unat (of_nat (length ?p) :: u32) = length ?p" "sint (of_nat (length ?p) :: u32) = int (length ?p)"
    by (simp_all add: unat_of_nat signed_of_nat signed_take_bit_int_eq_self)
  have "holds ?p rest k (s\<lparr>message_length := length ?p\<rparr>)" using assms(1) by simp
  from rest_received [OF this h(3)] show ?thesis
    using h by (simp add: receive_body_def lft_def tot n in_wf_def)
qed

lemma length_loop_received:
  assumes "holds (packet_of b0 body) rest k s" and "receivable b0 body" and "1 \<le> k"
    and "k < header_length body \<or> 6 \<le> length (packet_of b0 body)" and "n + k = 6" and "message_length s = 0"
  shows "runs (receive_length_loop n P t (receive_body P t) s) (received (packet_of b0 body) rest k)"
  using assms
proof (induction n arbitrary: k s)
  case 0
  then show ?case using header_length_bounds [of body b0] body_received [OF 0(1,2), of t] by (simp add: receivable_def)
next
  case (Suc n)
  let ?p = "packet_of b0 body"
  have hl: "header_length body \<le> 5" "header_length body \<le> length ?p"
    using header_length_bounds [of body b0] Suc.prems(2) by (simp_all add: receivable_def)
  have "k + 1 \<le> length ?p" and k: "in_buffer_read_len s = k" using Suc.prems(1,4,5) hl by (auto simp: arriving_def)
  from read_holds [OF Suc.prems(1) this(1), of t]
  show ?case unfolding receive_length_loop.simps k of_nat_1
  proof (rule runs_bnd)
    fix r s'
    assume a: "r \<le> 0 \<and> holds ?p rest k s' \<or> 0 < r \<and> r \<le> 1 \<and> in_buffer_read_len s' = k \<and> message_length s' = message_length s
      \<and> holds ?p rest (k + nat r) (s'\<lparr>in_buffer_read_len := k + nat r\<rparr>)"
    show "runs (if r \<le> 0 then esp_mqtt_handle_transport_read_error P r True s'
        else (let s = s'\<lparr>in_buffer_read_len := in_buffer_read_len s' + 1\<rparr>
              in if more_length s then receive_length_loop n P t (receive_body P t) s else receive_body P t s)) (received ?p rest k)"
    proof (cases "r \<le> 0")
      case True
      then show ?thesis using a by (auto intro!: runs_mono [OF read_error_holds] received_error)
    next
      case False
      let ?s = "s'\<lparr>in_buffer_read_len := k + 1\<rparr>"
      have r: "r = 1" using False a by linarith
      with a have s': "in_buffer_read_len s' = k" "message_length s' = 0" and h: "holds ?p rest (k + 1) ?s"
        using Suc.prems(6) by auto
      have "take (k + 1) (in_buffer s') = take (k + 1) ?p" "k < length ?p" "length ?p \<le> length (in_buffer s')"
        using h by (simp_all add: arriving_def)
      then have nth: "in_buffer s' ! k = ?p ! k" by (metis less_add_one nth_take)
      have "runs (if more_length ?s then receive_length_loop n P t (receive_body P t) ?s else receive_body P t ?s) (received ?p rest (k + 1))"
      proof (cases "more_length ?s")
        case True
        then have bit: "?p ! k AND 0x80 \<noteq> 0" using nth by (simp add: more_length_def)
        have "k + 1 < header_length body \<or> 6 \<le> length ?p"
          using Suc.prems(4) header_bits [of k body b0] Suc.prems(3) bit by auto
        then show ?thesis using Suc.IH [OF h Suc.prems(2)] True Suc.prems(5) s' by simp
      next
        case False
        have "header_length body \<le> k + 1"
        proof (rule ccontr)
          assume "\<not> header_length body \<le> k + 1"
          then have "more_length ?s" using header_bits [of k body b0] Suc.prems(3) hl nth by (simp add: more_length_def)
          then show False using False by simp
        qed
        then show ?thesis using body_received [OF h Suc.prems(2)] False by simp
      qed
      from runs_mono [OF this, of "received ?p rest k"] show ?thesis using r s' by (auto simp: Let_def received_mono [of ?p rest "k + 1"] split: if_splits)
    qed
  qed
qed

lemma length_received:
  assumes "holds (packet_of b0 body) rest k s" and "receivable b0 body" and "1 \<le> k" and "message_length s = 0"
    and "k < length (packet_of b0 body)"
  shows "runs (receive_length P t (receive_body P t) s) (received (packet_of b0 body) rest k)"
proof -
  let ?p = "packet_of b0 body"
  have hl: "2 \<le> header_length body" "header_length body \<le> 5"
    using header_length_bounds [of body b0] assms(2) by (simp_all add: receivable_def)
  have h: "in_buffer_read_len s = k" "take k (in_buffer s) = take k ?p" using assms(1) by (simp_all add: arriving_def)
  have nth: "in_buffer s ! (k - 1) = ?p ! (k - 1)" using h(2) assms(3) by (metis diff_less less_le_trans nth_take zero_less_one)
  show ?thesis
  proof (cases "k = 1 \<or> more_length s")
    case True
    have "k < header_length body \<or> 6 \<le> length ?p"
    proof (cases "k < header_length body")
      case False
      then have bit: "?p ! (k - 1) AND 0x80 \<noteq> 0" using \<open>k = 1 \<or> more_length s\<close> h nth hl by (auto simp: more_length_def)
      have "k - 1 < length ?p" "1 \<le> k - 1" using False hl assms(5) by auto
      then have "k \<noteq> header_length body" using header_bits [of "k - 1" body b0] bit by auto
      then have "header_length body \<le> k - 1" using False by simp
      then show ?thesis using body_bits [OF assms(2) _ \<open>k - 1 < length ?p\<close> bit] by simp
    qed simp
    moreover have "6 - k + k = 6" using True hl h by (auto simp: more_length_def)
    ultimately show ?thesis using length_loop_received [OF assms(1-3) _ _ assms(4)] True h by (simp add: receive_length_def)
  next
    case False
    have "header_length body \<le> k"
    proof (rule ccontr)
      assume "\<not> header_length body \<le> k"
      moreover from this have "1 \<le> k - 1" using False assms(3) by auto
      ultimately have "?p ! (k - 1) AND 0x80 \<noteq> 0" "k < 6" using header_bits [of "k - 1" body b0] hl by auto
      then show False using False h nth by (simp add: more_length_def)
    qed
    then show ?thesis using body_received [OF assms(1,2)] False h by (simp add: receive_length_def)
  qed
qed

theorem message_received:
  assumes "holds (packet_of b0 body) rest k s" and "receivable b0 body" and "k < length (packet_of b0 body)"
  shows "runs (mqtt_message_receive P t s) (received (packet_of b0 body) rest k)"
proof -
  let ?p = "packet_of b0 body" and ?s = "s\<lparr>message_length := 0\<rparr>"
  have h: "holds ?p rest k ?s" using assms(1) by simp
  have k: "in_buffer_read_len s = k" using assms(1) by (simp add: arriving_def)
  show ?thesis
  proof (cases "k = 0")
    case False
    then show ?thesis using length_received [OF h assms(2) _ _ assms(3)] k by (simp add: mqtt_message_receive_def receive_type_def)
  next
    case True
    have "runs (bnd (read_at P 0 1 t ?s) (\<lambda>r s.
        if r \<le> 0 then esp_mqtt_handle_transport_read_error P r False s
        else lft (mqtt_has_valid_msg_hdr (in_buffer s) (nat r)) (\<lambda>valid.
          if \<not> valid then receive_err P s
          else receive_length P t (receive_body P t) (s\<lparr>in_buffer_read_len := 1\<rparr>)))) (received ?p rest k)"
      using read_holds [OF h, of 1 t, unfolded True of_nat_1]
    proof (rule runs_bnd)
      show "0 + 1 \<le> length ?p" by (simp add: packet_of_def)
      fix r s'
      assume a: "r \<le> 0 \<and> holds ?p rest 0 s' \<or> 0 < r \<and> r \<le> 1 \<and> in_buffer_read_len s' = 0 \<and> message_length s' = message_length ?s
        \<and> holds ?p rest (0 + nat r) (s'\<lparr>in_buffer_read_len := 0 + nat r\<rparr>)"
      show "runs (if r \<le> 0 then esp_mqtt_handle_transport_read_error P r False s'
        else lft (mqtt_has_valid_msg_hdr (in_buffer s') (nat r)) (\<lambda>valid.
          if \<not> valid then receive_err P s'
          else receive_length P t (receive_body P t) (s'\<lparr>in_buffer_read_len := 1\<rparr>))) (received ?p rest k)"
      proof (cases "r \<le> 0")
        case True
        then show ?thesis using a \<open>k = 0\<close> by (auto intro!: runs_mono [OF read_error_holds] received_error)
      next
        case False
        then have r: "r = 1" using a by linarith
        with a have h1: "holds ?p rest 1 (s'\<lparr>in_buffer_read_len := 1\<rparr>)" and ml: "message_length s' = 0" by auto
        then obtain bs where "in_buffer s' = b0 # bs" by (cases "in_buffer s'") (auto simp: arriving_def packet_of_def)
        then have v: "mqtt_has_valid_msg_hdr (in_buffer s') 1 = Inr True"
          using assms(2) by (simp add: receivable_def mqtt_has_valid_msg_hdr_def rd_def)
        have "1 < length ?p" using header_length_bounds [of body b0] assms(2) by (simp add: receivable_def)
        with length_received [OF h1 assms(2)] ml
        have "runs (receive_length P t (receive_body P t) (s'\<lparr>in_buffer_read_len := 1\<rparr>)) (received ?p rest 1)" by simp
        then have "runs (receive_length P t (receive_body P t) (s'\<lparr>in_buffer_read_len := 1\<rparr>)) (received ?p rest k)"
          by (rule runs_mono) (simp add: True received_mono [of ?p rest 1])
        then show ?thesis using r v by (simp add: lft_def)
      qed
    qed
    then show ?thesis using True k by (simp add: mqtt_message_receive_def receive_type_def)
  qed
qed

end

section \<open>The bytes to come as a part of the world\<close>

text \<open>Any platform, with the bytes that the peer has sent: a read that takes \<open>r\<close> bytes takes them from the front, as many as there are.\<close>
definition fed :: "'n platform \<Rightarrow> ('n \<times> bytes) platform" where
  "fed P =
     \<lparr>transport_read = (\<lambda>n t (w, b). case transport_read P n t w of (r, _, w) \<Rightarrow>
        (let k = min (min r n) (int (length b)) in (k, take (nat k) b, (w, drop (nat k) b)))),
      transport_write = (\<lambda>d t (w, b). case transport_write P d t w of (r, w) \<Rightarrow> (r, (w, b))),
      transport_connect = (\<lambda>p (w, b). case transport_connect P p w of (r, w) \<Rightarrow> (r, (w, b))),
      transport_close = (\<lambda>(w, b). (transport_close P w, b)),
      transport_poll_read = (\<lambda>t (w, b). case transport_poll_read P t w of (r, w) \<Rightarrow> (r, (w, b))),
      list_get_transport = list_get_transport P,
      err_timeout = err_timeout P,
      esp_timer_get_time = (\<lambda>(w, b). case esp_timer_get_time P w of (t, w) \<Rightarrow> (t, (w, b))),
      event_post = (\<lambda>e (w, b). (event_post P e w, b)),
      event_loop_run = (\<lambda>(w, b). (event_loop_run P w, b)),
      allocate = (\<lambda>n (w, b). case allocate P n w of (r, w) \<Rightarrow> (r, (w, b))),
      mem_ok = (\<lambda>(w, b). case mem_ok P w of (r, w) \<Rightarrow> (r, (w, b))),
      build_of = build_of P, read_mac = read_mac P, transport_setup = (\<lambda>l (w, b). (transport_setup P l w, b))\<rparr>"

interpretation script: peer "fed P" snd
  for P :: "'n platform"
  by unfold_locales (auto simp: fed_def Let_def split: prod.splits)

text \<open>
  C5. Of a packet that fits the input buffer, has a valid type byte, and either is at least six bytes long or has no byte of 128 or more behind its
  header, the first \<open>k\<close> bytes have been read (what happens to the other packets is \<open>resumed_ack_swallows_next\<close> below). Then
  \<open>mqtt_message_receive\<close>, however many bytes the transport hands out at each read and wherever it
  stops, either returns 1 with exactly that packet in the buffer, its length in \<open>message_length\<close>
  and not a byte of what follows taken, or reports a timeout or an error and has kept what has come, so that the next call goes on from there.
\<close>
theorem receive_reassembles:
  assumes "arriving snd (packet_of b0 body) rest k s" and "receivable b0 body" and "k < length (packet_of b0 body)"
  shows "runs (mqtt_message_receive (fed Q) t s) (assembled snd (packet_of b0 body) rest k)"
  by (rule script.message_received [OF assms])

text \<open>A platform whose reads take \<open>n\<close> bytes at most.\<close>
definition reading :: "int \<Rightarrow> unit platform" where
  "reading n = quiet_platform\<lparr>transport_read := (\<lambda>_ _ w. (n, [], w))\<rparr>"

text \<open>A CONNACK of which the first byte has come, byte by byte, with a PINGRESP behind it.\<close>
theorem receive_reassembles_witness:
  "runs (mqtt_message_receive (fed (reading 1)) 0
       ((sample_client 1024 MQTT_STATE_INIT ((), [2, 0, 0, 0xD0, 0]))\<lparr>in_buffer := 0x20 # replicate 1023 0, in_buffer_read_len := 1\<rparr>))
     (assembled snd [0x20, 2, 0, 0] [0xD0, 0] 1)"
proof -
  have p: "packet_of 0x20 [0, 0] = [0x20, 2, 0, 0]" by (simp add: packet_of_def encoded_lens.simps)
  have "receivable 0x20 [0, 0]" by (simp add: receivable_def valid_hdr_byte_def type_of_def)
  then show ?thesis
    using receive_reassembles [of "0x20" "[0, 0]" "[0xD0, 0]" 1 _ "reading 1" 0] unfolding p
    by (simp add: arriving_def in_wf_def sample_client_def)
qed

section \<open>Where it fails\<close>

text \<open>The transport has at least one byte for every read; as many as asked for.\<close>
definition delivers :: "'n platform \<Rightarrow> bool" where
  "delivers P \<longleftrightarrow> (\<forall>n t w. n \<le> fst (transport_read P n t w))"

lemma fed_byte:
  assumes "delivers Q" and "snd (world s) = b # bs" and "i < length (in_buffer s)"
  obtains w where "read_at (fed Q) i 1 t s = Inr (1, s\<lparr>in_buffer := (in_buffer s)[i := b], world := (w, bs)\<rparr>)"
proof -
  obtain u where u: "world s = (u, b # bs)" using assms(2) by (cases "world s") simp
  obtain r d w where r: "transport_read Q 1 t u = (r, d, w)" by (metis prod.exhaust)
  then have "1 \<le> r" using assms(1) unfolding delivers_def by (metis fst_conv)
  then have k: "min r 1 = 1" by simp
  have "overlay (in_buffer s) i [b] = (in_buffer s)[i := b]" using assms(3) by (simp add: overlay_def upd_conv_take_nth_drop)
  then have "read_at (fed Q) i 1 t s = Inr (1, s\<lparr>in_buffer := (in_buffer s)[i := b], world := (w, bs)\<rparr>)"
    using assms(3) by (simp add: read_at_def fed_def u r Let_def k)
  then show ?thesis by (rule that)
qed

definition full_reads :: "unit platform" where
  "full_reads = quiet_platform\<lparr>transport_read := (\<lambda>n _ w. (n, [], w))\<rparr>"

lemma full_reads_deliver [simp]: "delivers full_reads"
  by (simp add: delivers_def full_reads_def)

text \<open>The first \<open>k\<close> bytes of \<open>b\<close> are read, \<open>bs\<close> is still to come.\<close>
definition at_byte :: "bytes \<Rightarrow> nat \<Rightarrow> bytes \<Rightarrow> ('n \<times> bytes) client \<Rightarrow> bool" where
  "at_byte b k bs s \<longleftrightarrow> in_wf s \<and> in_buffer s = b \<and> in_buffer_read_len s = k \<and> snd (world s) = bs"

lemma length_step:
  assumes "delivers Q" and "at_byte b k (x # bs) s" and "k < length b" and "N = Suc n"
  obtains s' where "receive_length_loop N (fed Q) t K s = (if k + 1 < 6 \<and> x AND 0x80 \<noteq> 0 then receive_length_loop n (fed Q) t K s' else K s')"
    and "at_byte (b[k := x]) (k + 1) bs s'"
proof -
  have s: "in_wf s" "in_buffer s = b" "in_buffer_read_len s = k" "snd (world s) = x # bs" using assms(2) by (simp_all add: at_byte_def)
  obtain w where w: "read_at (fed Q) k 1 t s = Inr (1, s\<lparr>in_buffer := b[k := x], world := (w, bs)\<rparr>)"
    by (rule fed_byte [OF assms(1) s(4), of k]) (use s assms(3) in auto)
  let ?s = "s\<lparr>in_buffer := b[k := x], world := (w, bs), in_buffer_read_len := k + 1\<rparr>"
  have "receive_length_loop N (fed Q) t K s = (if k + 1 < 6 \<and> x AND 0x80 \<noteq> 0 then receive_length_loop n (fed Q) t K ?s else K ?s)"
    using w assms(3) unfolding assms(4) by (simp add: s more_length_def bnd_def Let_def)
  moreover have "at_byte (b[k := x]) (k + 1) bs ?s" using s by (simp add: at_byte_def in_wf_def)
  ultimately show ?thesis by (rule that)
qed

text \<open>
  C38. An acknowledgement whose message id has two bytes of 128 or more, interrupted after the first of them. The
  call that goes on with it takes the bytes of the id for more of the remaining length, reads past the end of the packet and
  reports a complete message of four bytes: the first byte of the next packet is lost with it.
\<close>
theorem resumed_ack_swallows_next:
  assumes "at_byte (0x40 # 2 # hi # qs) 3 (lo # x # rest) s" and "3 \<le> length qs"
    and "hi AND 0x80 \<noteq> 0" and "lo AND 0x80 \<noteq> 0" and "x AND 0x80 = 0" and "delivers Q"
  shows "runs (mqtt_message_receive (fed Q) t s) (\<lambda>r s'. r = 1 \<and> message_length s' = 4 \<and> in_buffer_read_len s' = 5 \<and> snd (world s') = rest)"
proof -
  let ?s = "s\<lparr>message_length := 0\<rparr>" and ?K = "receive_body (fed Q) t"
  obtain a b c qs' where m: "qs = a # b # c # qs'" using assms(2) by (metis Suc_le_length_iff numeral_3_eq_3)
  have s0: "at_byte (0x40 # 2 # hi # qs) 3 (lo # x # rest) ?s" using assms(1) by (auto simp: at_byte_def in_wf_def)
  obtain s1 where s1: "receive_length_loop 3 (fed Q) t ?K ?s = receive_length_loop 2 (fed Q) t ?K s1" "at_byte (0x40 # 2 # hi # lo # b # c # qs') 4 (x # rest) s1"
    by (rule length_step [OF assms(6) s0 _, of 3 2 t ?K]) (use assms(4) m in \<open>auto simp del: receive_length_loop.simps\<close>)
  obtain s2 where s2: "receive_length_loop 2 (fed Q) t ?K s1 = ?K s2" "at_byte (0x40 # 2 # hi # lo # x # c # qs') 5 rest s2"
    by (rule length_step [OF assms(6) s1(2) _, of 2 1 t ?K]) (use assms(5) in \<open>auto simp del: receive_length_loop.simps\<close>)
  have s: "in_wf s2" "in_buffer s2 = 0x40 # 2 # hi # lo # x # c # qs'" "in_buffer_read_len s2 = 5" "snd (world s2) = rest"
    using s2(2) by (simp_all add: at_byte_def)
  have tot: "mqtt_get_total_length (in_buffer s2) 5 = Inr (4, 2)"
    unfolding s by (simp add: mqtt_get_total_length_def total_scan.simps rd_def)
  have "runs (?K s2) (\<lambda>r s'. r = 1 \<and> message_length s' = 4 \<and> in_buffer_read_len s' = 5 \<and> snd (world s') = rest)"
    using tot s by (simp add: receive_body_def lft_def receive_rest_def sz_def in_wf_def)
  moreover have "mqtt_message_receive (fed Q) t s = ?K s2"
    using assms(1,3) s1(1) s2(1) by (simp add: mqtt_message_receive_def receive_type_def receive_length_def more_length_def at_byte_def)
  ultimately show ?thesis by simp
qed

theorem resumed_ack_swallows_next_witness:
  "runs (mqtt_message_receive (fed full_reads) 0
       ((sample_client 8 MQTT_STATE_CONNECTED ((), [0x80, 0x40, 0x02]))\<lparr>in_buffer := [0x40, 2, 0x80, 0, 0, 0, 0, 0], in_buffer_read_len := 3\<rparr>))
     (\<lambda>r s'. r = 1 \<and> message_length s' = 4 \<and> in_buffer_read_len s' = 5 \<and> snd (world s') = [0x02])"
  using resumed_ack_swallows_next [of "0x80" "[0, 0, 0, 0, 0]" "0x80" "0x40" "[0x02]" _ full_reads 0]
  by (simp add: at_byte_def in_wf_def sample_client_def)

text \<open>
  C39. A PUBLISH with five bytes of remaining length that stand for 2^31 - 3: the total length is a negative \<open>int\<close>, smaller than the
  buffer, and read as a \<open>size_t\<close> it asks the transport for two gigabytes. When the peer sends more than the buffer
  holds, the read goes past its end.
\<close>
theorem five_length_bytes_overrun:
  assumes "at_byte b 0 ([0x30, 0xFD, 0xFF, 0xFF, 0xFF, 0x07] @ rest) s" and "6 \<le> length b" and "length b < 6 + length rest" and "delivers Q"
  shows "mqtt_message_receive (fed Q) t s = Inl Overrun"
proof -
  let ?s = "s\<lparr>message_length := 0\<rparr>" and ?K = "receive_body (fed Q) t"
  obtain b0 b1 b2 b3 b4 b5 qs where b: "b = b0 # b1 # b2 # b3 # b4 # b5 # qs"
    using assms(2) by (metis Suc_le_length_iff numeral_eq_Suc pred_numeral_simps(2,3) semiring_norm(26,27,28))
  have i: "snd (world ?s) = 0x30 # [0xFD, 0xFF, 0xFF, 0xFF, 0x07] @ rest" and ib: "in_buffer ?s = b" using assms(1) by (simp_all add: at_byte_def)
  obtain w where w: "read_at (fed Q) 0 1 t ?s = Inr (1, ?s\<lparr>in_buffer := (in_buffer ?s)[0 := 0x30], world := (w, [0xFD, 0xFF, 0xFF, 0xFF, 0x07] @ rest)\<rparr>)"
    by (rule fed_byte [OF assms(4) i, of 0]) (use b ib in auto)
  let ?s1 = "?s\<lparr>in_buffer := 0x30 # b1 # b2 # b3 # b4 # b5 # qs, world := (w, [0xFD, 0xFF, 0xFF, 0xFF, 0x07] @ rest), in_buffer_read_len := 1\<rparr>"
  have s1: "at_byte (0x30 # b1 # b2 # b3 # b4 # b5 # qs) 1 ([0xFD, 0xFF, 0xFF, 0xFF, 0x07] @ rest) ?s1"
    using assms(1) b by (auto simp: at_byte_def in_wf_def)
  have "mqtt_message_receive (fed Q) t s = receive_length_loop 5 (fed Q) t ?K ?s1"
    using w ib assms(1) b
    by (simp add: mqtt_message_receive_def receive_type_def receive_length_def at_byte_def mqtt_has_valid_msg_hdr_def rd_def
        valid_hdr_byte_def type_of_def qos_of_def dup_of_def lft_def bnd_def)
  moreover obtain s2 where "receive_length_loop 5 (fed Q) t ?K ?s1 = receive_length_loop 4 (fed Q) t ?K s2"
    and s2: "at_byte (0x30 # 0xFD # b2 # b3 # b4 # b5 # qs) 2 ([0xFF, 0xFF, 0xFF, 0x07] @ rest) s2"
    by (rule length_step [OF assms(4) s1 [simplified] _, of 5 4 t ?K]) (auto simp flip: numeral_2_eq_2 simp del: receive_length_loop.simps)
  moreover obtain s3 where "receive_length_loop 4 (fed Q) t ?K s2 = receive_length_loop 3 (fed Q) t ?K s3"
    and s3: "at_byte (0x30 # 0xFD # 0xFF # b3 # b4 # b5 # qs) 3 ([0xFF, 0xFF, 0x07] @ rest) s3"
    by (rule length_step [OF assms(4) s2 [simplified] _, of 4 3 t ?K]) (auto simp del: receive_length_loop.simps)
  moreover obtain s4 where "receive_length_loop 3 (fed Q) t ?K s3 = receive_length_loop 2 (fed Q) t ?K s4"
    and s4: "at_byte (0x30 # 0xFD # 0xFF # 0xFF # b4 # b5 # qs) 4 ([0xFF, 0x07] @ rest) s4"
    by (rule length_step [OF assms(4) s3 [simplified] _, of 3 2 t ?K]) (auto simp del: receive_length_loop.simps)
  moreover obtain s5 where "receive_length_loop 2 (fed Q) t ?K s4 = receive_length_loop 1 (fed Q) t ?K s5"
    and s5: "at_byte (0x30 # 0xFD # 0xFF # 0xFF # 0xFF # b5 # qs) 5 ([0x07] @ rest) s5"
    by (rule length_step [OF assms(4) s4 [simplified] _, of 2 1 t ?K]) (auto simp del: receive_length_loop.simps)
  moreover obtain s6 where "receive_length_loop 1 (fed Q) t ?K s5 = ?K s6"
    and s6: "at_byte (0x30 # 0xFD # 0xFF # 0xFF # 0xFF # 0x07 # qs) 6 rest s6"
    by (rule length_step [OF assms(4) s5 [simplified] _, of 1 0 t ?K]) (auto simp del: receive_length_loop.simps)
  moreover have "?K s6 = Inl Overrun"
  proof -
    let ?b = "0x30 # 0xFD # 0xFF # 0xFF # 0xFF # 0x07 # qs"
    have s: "in_wf s6" "in_buffer s6 = ?b" "in_buffer_read_len s6 = 6" "snd (world s6) = rest" using s6 by (simp_all add: at_byte_def)
    have tot: "mqtt_get_total_length ?b 6 = Inr (0x80000003, 6)"
      by (simp add: mqtt_get_total_length_def total_scan.simps rd_def)
    obtain u where u: "world s6 = (u, rest)" using s(4) by (cases "world s6") simp
    obtain r d w where r: "transport_read Q 2147483645 t u = (r, d, w)" by (metis prod.exhaust)
    then have "2147483645 \<le> r" using assms(4) unfolding delivers_def by (metis fst_conv)
    then have m: "min r 2147483645 = 2147483645" by simp
    have "length qs < length rest" "length ?b < 2147483648" using assms(3) s(1,2) by (auto simp: b in_wf_def)
    then have "read_at (fed Q) 6 2147483645 t (s6\<lparr>message_length := 2147483651\<rparr>) = Inl Overrun"
      by (auto simp: read_at_def fed_def u r Let_def m s)
    then show ?thesis using s(1)
      by (simp add: receive_body_def lft_def tot s receive_rest_def sz_def s32_def in_wf_def bnd_def)
  qed
  ultimately show ?thesis by simp
qed

theorem five_length_bytes_overrun_witness:
  "mqtt_message_receive (fed full_reads) 0
     (sample_client 8 MQTT_STATE_CONNECTED ((), [0x30, 0xFD, 0xFF, 0xFF, 0xFF, 0x07, 1, 2, 3])) = Inl Overrun"
  using five_length_bytes_overrun [of "replicate 8 0" "[1, 2, 3]" "sample_client 8 MQTT_STATE_CONNECTED ((), [0x30, 0xFD, 0xFF, 0xFF, 0xFF, 0x07, 1, 2, 3])" full_reads 0]
  by (simp add: at_byte_def in_wf_def sample_client_def)

end
