(* ===== verification/Pb_Decode_Safe.thy ===== *)
theory Pb_Decode_Safe
  imports Pb_Decode_Correct
begin

unbundle bit_operations_syntax

text \<open>
  Safety of the decoder against arbitrary input: for a message type without submessages, extensions,
  pointers and callbacks, decoding any bytes ends, never moves its read position out of the input, and writes only the message.
\<close>

section \<open>Reading a stream over memory\<close>

text \<open>
  What an operation that may write the addresses \<open>A\<close> does to a stream over memory: the read position moves
  forward, the end of the input stays where it is or comes closer, and only \<open>A\<close> changes.
\<close>
definition reads :: "addr set \<Rightarrow> dst \<Rightarrow> dst \<Rightarrow> bool" where
  "reads A st st' \<longleftrightarrow> (i_callback (snd st) = IcBuf \<longrightarrow>
     i_callback (snd st') = IcBuf \<and> i_state (snd st) \<le> i_state (snd st')
     \<and> i_state (snd st') + bytes_left (snd st') \<le> i_state (snd st) + bytes_left (snd st)
     \<and> mem_frame A (fst st) (fst st'))"

named_theorems reads_intros \<open>operations that stay inside their input\<close>

lemma reads_refl [simp, reads_intros]: "reads A st st"
  by (simp add: reads_def)

lemma reads_trans: "reads A a b \<Longrightarrow> reads A b c \<Longrightarrow> reads A a c"
  unfolding reads_def using mem_frame_trans order.trans by auto

lemma reads_mono: "reads A a b \<Longrightarrow> A \<subseteq> B \<Longrightarrow> reads B a b"
  unfolding reads_def using mem_frame_mono by blast

lemma reads_buf: "reads A a b \<Longrightarrow> i_callback (snd a) = IcBuf \<Longrightarrow> i_callback (snd b) = IcBuf"
  by (simp add: reads_def)

lemma reads_left: "reads A a b \<Longrightarrow> i_callback (snd a) = IcBuf \<Longrightarrow> bytes_left (snd b) \<le> bytes_left (snd a)"
  by (auto simp: reads_def)

lemma reads_error [simp]: "reads A st (snd (i_error msg st')) = reads A st st'" "fst (i_error msg st') = False"
  by (simp_all add: reads_def i_error_def i_set_error_def)

lemma reads_none [simp]: "reads A st (snd (i_none msg st')) = reads A st st'" "fst (i_none msg st') = None"
  by (simp_all add: i_none_def)

lemma reads_write: "mem_frame A m m' \<Longrightarrow> reads A (m, s) (m', s)"
  by (simp add: reads_def)

lemma reads_ibind:
  assumes "reads A st (snd r)" and "\<And>x st'. r = (Some x, st') \<Longrightarrow> reads A st' (snd (k x st'))"
  shows "reads A st (snd (ibind r k))"
proof -
  obtain v st' where r: "r = (v, st')" by (rule prod.exhaust)
  show ?thesis using assms reads_trans [of A st st'] unfolding r by (cases v) (auto simp: ibind_def)
qed

lemma read_raw_reads:
  assumes "pb_read_raw E n st = (b, bs, st')" and "i_callback (snd st) = IcBuf"
  shows "reads {} st st'" and "length bs \<le> n" and "b \<Longrightarrow> bytes_left (snd st') + n = bytes_left (snd st)"
  using assms
  by (auto simp: pb_read_raw_def reads_def call_istream_def buf_read_def Let_def i_error_def i_set_error_def split: if_splits)

lemma read_reads [reads_intros]: "reads A st (snd (pb_read E n st))"
proof (cases "i_callback (snd st) = IcBuf")
  case True
  obtain b bs st' where r: "pb_read_raw E n st = (b, bs, st')" by (rule prod_cases3)
  show ?thesis using reads_mono [OF read_raw_reads(1) [OF r True]] r by (simp add: pb_read_def)
qed (simp add: reads_def)

lemma read_less:
  "pb_read E n st = (Some bs, st') \<Longrightarrow> i_callback (snd st) = IcBuf \<Longrightarrow> bytes_left (snd st') + n = bytes_left (snd st)"
  using read_raw_reads(3) by (auto simp: pb_read_def split: prod.splits if_splits)

lemma read_to_reads [reads_intros]:
  assumes "{a..<a + n} \<subseteq> A"
  shows "reads A st (snd (pb_read_to E a n st))"
proof (cases "i_callback (snd st) = IcBuf")
  case True
  obtain b bs m s where r: "pb_read_raw E n st = (b, bs, m, s)" by (rule prod_cases4)
  note rr = read_raw_reads [OF r True]
  have "mem_frame A m (mem_write m a bs)" using rr(2) assms by (intro mem_frame_write) (auto simp: subset_iff)
  then have "reads A st (mem_write m a bs, s)" using reads_trans [OF reads_mono [OF rr(1)] reads_write] by blast
  then show ?thesis using r by (simp add: pb_read_to_def)
qed (simp add: reads_def)

lemma read_null_reads [reads_intros]: "reads A st (snd (pb_read_null E n st))"
proof (cases "i_callback (snd st) = IcBuf")
  case True
  then have "pb_read_null E n st = (if n = 0 then (True, st) else ibind (pb_read E n st) (\<lambda>_ st. (True, st)))"
    by (simp add: pb_read_null_def is_buf_read_def)
  then show ?thesis by (simp add: reads_ibind read_reads)
qed (simp add: reads_def)

lemma read_null_done:
  "pb_read_null E n st = (True, st') \<Longrightarrow> i_callback (snd st) = IcBuf \<Longrightarrow> bytes_left (snd st') + n = bytes_left (snd st)"
  using read_less [of E n st] by (auto simp: pb_read_null_def is_buf_read_def ibind_def split: if_splits prod.splits option.splits)

lemma wrap_dec_le: "0 < n \<Longrightarrow> wrap32 (n + 4294967295) < n"
proof -
  assume n: "0 < n"
  then have "n + 4294967295 = (n - 1) + 4294967296" by simp
  then have "wrap32 (n + 4294967295) = wrap32 (n - 1)" by (simp only: mod_add_self2)
  also have "\<dots> \<le> n - 1" by (rule mod_less_eq_dividend)
  finally show ?thesis using n by simp
qed

lemma readbyte_reads [reads_intros]: "reads A st (snd (pb_readbyte E st))"
  using wrap_dec_le [of "bytes_left (snd st)"]
  by (auto simp: reads_def pb_readbyte_def i_none_def i_error_def i_set_error_def call_istream_def buf_read_def Let_def)

lemma readbyte_less:
  "pb_readbyte E st = (Some b, st') \<Longrightarrow> i_callback (snd st) = IcBuf \<Longrightarrow> bytes_left (snd st') < bytes_left (snd st)"
  using wrap_dec_le [of "bytes_left (snd st)"]
  by (auto simp: pb_readbyte_def i_none_def call_istream_def buf_read_def Let_def split: if_splits)

text \<open>Operations that read at least one byte when they return a value.\<close>
definition eats :: "'a option \<times> dst \<Rightarrow> dst \<Rightarrow> bool" where
  "eats r st \<longleftrightarrow> reads {} st (snd r) \<and> (fst r \<noteq> None \<longrightarrow> i_callback (snd st) = IcBuf \<longrightarrow> bytes_left (snd (snd r)) < bytes_left (snd st))"

lemma eats_reads [reads_intros]: "eats r st \<Longrightarrow> reads A st (snd r)"
  unfolding eats_def using reads_mono by blast

lemma eats_readbyte: "eats (pb_readbyte E st) st"
  using readbyte_reads [of "{}" st E] readbyte_less [of E st] by (cases "pb_readbyte E st") (auto simp: eats_def)

lemma eats_step:
  assumes "eats (r :: 'a option \<times> dst) st" and "r = (Some x, st')" and "eats k st' \<or> reads {} st' (snd k)"
  shows "eats k st"
proof -
  have "reads {} st st'" "reads {} st' (snd k)" using assms by (auto simp: eats_def)
  moreover from this have "bytes_left (snd (snd k)) < bytes_left (snd st)" if "i_callback (snd st) = IcBuf"
    using that assms(1,2) reads_buf reads_left by (fastforce simp: eats_def)
  ultimately show ?thesis using reads_trans by (auto simp: eats_def)
qed

lemma eats_varint32_loop: "eats (varint32_loop E bitpos result st) st"
proof (induction E bitpos result st rule: varint32_loop.induct)
  case (1 E bitpos result st)
  note e = eats_readbyte [of E st]
  obtain v st' where Pair: "pb_readbyte E st = (v, st')" by (rule prod.exhaust)
    show ?case
    proof (cases v)
      case None
      then show ?thesis using Pair e by (subst varint32_loop.simps) (simp add: eats_def)
    next
      case (Some b)
      have k: "eats k st" if "eats k st' \<or> reads {} st' (snd k)" for k :: "u32 option \<times> dst"
        using eats_step [OF e, of b st' k] Pair Some that by simp
      show ?thesis
        using Pair Some 1 [OF Pair [symmetric]]
        by (subst varint32_loop.simps) (auto intro!: k split: option.splits)
    qed
qed

lemma eats_varint32: "eats (pb_decode_varint32 E st) st"
proof -
  obtain v st' where Pair: "pb_readbyte E st = (v, st')" by (rule prod.exhaust)
  note e = eats_readbyte [of E st]
  show ?thesis
  proof (cases v)
    case None
    then show ?thesis using Pair e by (simp add: pb_decode_varint32_def eats_def)
  next
    case (Some b)
    have k: "eats k st" if "eats k st' \<or> reads {} st' (snd k)" for k :: "u32 option \<times> dst"
      using eats_step [OF e, of b st' k] Pair Some that by simp
    show ?thesis
      using Pair Some by (auto simp: pb_decode_varint32_def intro!: k eats_varint32_loop)
  qed
qed

lemma eats_varint_loop: "eats (varint_loop E bitpos result st) st"
proof (induction E bitpos result st rule: varint_loop.induct)
  case (1 E bitpos result st)
  note e = eats_readbyte [of E st]
  obtain v st' where Pair: "pb_readbyte E st = (v, st')" by (rule prod.exhaust)
    show ?case
    proof (cases v)
      case None
      then show ?thesis using Pair e by (subst varint_loop.simps) (simp add: eats_def)
    next
      case (Some b)
      have k: "eats k st" if "eats k st' \<or> reads {} st' (snd k)" for k :: "u64 option \<times> dst"
        using eats_step [OF e, of b st' k] Pair Some that by simp
      show ?thesis
        using Pair Some 1 [OF Pair [symmetric]]
        by (subst varint_loop.simps) (auto intro!: k simp: Let_def)
    qed
qed

lemma eats_varint: "eats (pb_decode_varint E st) st"
  unfolding pb_decode_varint_def by (rule eats_varint_loop)

text \<open>A tag takes at least one byte.\<close>
lemma tag_reads: "reads A st (snd (pb_decode_tag E st))"
proof (cases "i_callback (snd st) = IcBuf")
  case True
  obtain v m s where d: "pb_decode_varint32 E st = (v, m, s)" by (rule prod_cases3)
  have r: "reads A st (m, s)" using eats_reads [OF eats_varint32 [of E st], of A] d by simp
  then have "is_buf_read (i_callback s)" using reads_buf [OF r True] by (simp add: is_buf_read_def)
  then show ?thesis using r by (cases v) (simp_all add: pb_decode_tag_def d)
qed (simp add: reads_def)

lemma tag_less:
  "pb_decode_tag E st = (TagOk wt t, st') \<Longrightarrow> i_callback (snd st) = IcBuf \<Longrightarrow> bytes_left (snd st') < bytes_left (snd st)"
  using eats_varint32 [of E st] by (auto simp: pb_decode_tag_def eats_def split: if_splits prod.splits option.splits)

lemma tag_small: "pb_decode_tag E st = (TagOk wt t, st') \<Longrightarrow> t < 536870912"
proof -
  assume "pb_decode_tag E st = (TagOk wt t, st')"
  then obtain temp :: u32 where "t = unat (drop_bit 3 temp)" by (auto simp: pb_decode_tag_def split: if_splits prod.splits option.splits)
  then show "t < 536870912" using unsigned_less [of temp, where ?'a = nat] by (simp add: unat_drop_bit_u32 less_mult_imp_div_less)
qed

lemma skip_string_reads [reads_intros]: "reads A st (snd (pb_skip_string E st))"
  unfolding pb_skip_string_def by (intro reads_ibind reads_intros eats_varint32)

text \<open>An operation with a bound that has returned.\<close>
definition ran :: "addr set \<Rightarrow> dst \<Rightarrow> (bool \<times> dst) option \<Rightarrow> bool" where
  "ran A st r \<longleftrightarrow> (\<exists>b st'. r = Some (b, st') \<and> reads A st st')"

lemma ran_Some [simp]: "ran A st (Some r) \<longleftrightarrow> reads A st (snd r)"
  by (cases r) (simp add: ran_def)

lemma ran_mono: "ran A st r \<Longrightarrow> A \<subseteq> B \<Longrightarrow> ran B st r"
  unfolding ran_def by (elim exE conjE, intro exI conjI, assumption, rule reads_mono)

lemma skip_varint_ran:
  "i_callback (snd st) = IcBuf \<Longrightarrow> bytes_left (snd st) < n \<Longrightarrow> ran A st (pb_skip_varint n E st)"
proof (induction n arbitrary: st)
  case (Suc n)
  obtain v st' where d: "pb_read E 1 st = (v, st')" by (rule prod.exhaust)
  have r: "reads A st st'" using read_reads [of A st E 1] d by simp
  show ?case
  proof (cases v)
    case None
    then show ?thesis using d r by simp
  next
    case (Some bs)
    then have "bytes_left (snd st') + 1 = bytes_left (snd st)" using read_less d Suc.prems(1) by blast
    then have "ran A st' (pb_skip_varint n E st')" using Suc reads_buf [OF r] by simp
    then obtain b st2 where "pb_skip_varint n E st' = Some (b, st2)" "reads A st' st2" by (auto simp: ran_def)
    moreover from this have "reads A st st2" using reads_trans [OF r] by blast
    ultimately show ?thesis using d r Some by simp
  qed
qed simp

lemma skip_field_ran:
  "i_callback (snd st) = IcBuf \<Longrightarrow> bytes_left (snd st) < n \<Longrightarrow> ran A st (pb_skip_field n E wt st)"
  unfolding pb_skip_field_def using skip_varint_ran read_null_reads skip_string_reads by simp

section \<open>Single values\<close>

text \<open>The bytes of the entry the iterator points at.\<close>
definition slot :: "pb_field_iter \<Rightarrow> addr set" where
  "slot it = {pData it..<pData it + data_size it}"

definition sized :: "pb_field_iter \<Rightarrow> bool" where
  "sized it \<longleftrightarrow> \<not> PB_LTYPE_IS_SUBMSG (ftype it) \<and> (PB_LTYPE (ftype it) = PB_LTYPE_FIXED32 \<longrightarrow> data_size it = 4)
     \<and> (PB_LTYPE (ftype it) = PB_LTYPE_FIXED64 \<longrightarrow> data_size it = 8) \<and> (PB_LTYPE (ftype it) = PB_LTYPE_BOOL \<longrightarrow> 1 \<le> data_size it)"

lemma reads_upd: "a \<in> A \<Longrightarrow> reads A st ((fst st)(a := v), snd st)"
  by (auto simp: reads_def mem_frame_def)

lemma reads_memwrite:
  "{a..<a + length bs} \<subseteq> A \<Longrightarrow> reads A st (mem_write (fst st) a bs, snd st)"
  "{a..<a + length bs} \<subseteq> A \<Longrightarrow> reads A (m, s) (mem_write m a bs, s)"
  by (auto simp: reads_def)

lemma dec_bool_reads: "1 \<le> data_size it \<Longrightarrow> reads (slot it) st (snd (pb_dec_bool E it st))"
  unfolding pb_dec_bool_def pb_decode_bool_def case_prod_beta
  by (intro reads_ibind reads_intros eats_varint32) (auto intro!: reads_upd simp: slot_def)

lemma decode_fixed_reads:
  "{a..<a + 4} \<subseteq> A \<Longrightarrow> reads A st (snd (pb_decode_fixed32 E a st))" "{a..<a + 8} \<subseteq> A \<Longrightarrow> reads A st (snd (pb_decode_fixed64 E a st))"
  unfolding pb_decode_fixed32_def pb_decode_fixed64_def case_prod_beta
  by (intro reads_ibind read_reads, simp add: reads_memwrite)+

lemma store_reads: "{a..<a + n} \<subseteq> A \<Longrightarrow> reads A st (snd (store_clamped a n v c st))"
  unfolding store_clamped_def Let_def by (auto intro!: reads_memwrite)

lemma svarint_eats: "eats (pb_decode_svarint E st) st"
  using eats_varint [of E st] by (cases "pb_decode_varint E st") (auto simp: pb_decode_svarint_def eats_def)

lemma varint_map_eats: "eats (case pb_decode_varint E st of (v, st) \<Rightarrow> (map_option f v, st)) st"
  using eats_varint [of E st] by (cases "pb_decode_varint E st") (auto simp: eats_def)

lemma dec_varint_reads: "reads (slot it) st (snd (pb_dec_varint E it st))"
  unfolding pb_dec_varint_def Let_def slot_def
  by (auto intro!: reads_ibind eats_reads eats_varint svarint_eats varint_map_eats store_reads)

lemma dec_bytes_reads: "reads (slot it) st (snd (pb_dec_bytes E it st))"
proof -
  have "reads (slot it) st' (snd (pb_read_to E (pData it + 2) (unat sz) (mem_write (fst st') (pData it) (nat_le 2 (unat sz)), snd st')))"
    if "\<not> unat sz + 2 > data_size it" for sz :: u32 and st'
    by (rule reads_trans [OF reads_memwrite(1) read_to_reads]) (use that in \<open>auto simp: slot_def\<close>)
  then show ?thesis
    unfolding pb_dec_bytes_def by (intro reads_ibind eats_reads eats_varint32) auto
qed

lemma dec_string_reads: "reads (slot it) st (snd (pb_dec_string E it st))"
proof -
  have "reads (slot it) st' (snd (pb_read_to E (pData it) (unat sz) ((fst st')(pData it + unat sz := 0), snd st')))"
    if "\<not> unat sz + 1 > data_size it" for sz :: u32 and st'
    by (rule reads_trans [OF reads_upd read_to_reads]) (use that in \<open>auto simp: slot_def\<close>)
  then show ?thesis
    unfolding pb_dec_string_def by (intro reads_ibind eats_reads eats_varint32) auto
qed

lemma dec_fixed_length_reads: "reads (slot it) st (snd (pb_dec_fixed_length_bytes E it st))"
  unfolding pb_dec_fixed_length_bytes_def mem_set_def
  by (auto intro!: reads_ibind eats_reads eats_varint32 reads_memwrite read_to_reads simp: slot_def)

lemma basic_ran:
  assumes "sized it"
  shows "ran (slot it) st (decode_basic_field R E wt it st)"
proof -
  let ?t = "PB_LTYPE (ftype it)"
  have s: "?t \<noteq> PB_LTYPE_SUBMESSAGE" "?t \<noteq> PB_LTYPE_SUBMSG_W_CB" using assms by (auto simp: sized_def PB_LTYPE_IS_SUBMSG_def)
  have f: "?t = PB_LTYPE_FIXED32 \<Longrightarrow> reads (slot it) st (snd (pb_decode_fixed32 E (pData it) st))"
    "?t = PB_LTYPE_FIXED64 \<Longrightarrow> reads (slot it) st (snd (pb_decode_fixed64 E (pData it) st))"
    "?t = PB_LTYPE_BOOL \<Longrightarrow> reads (slot it) st (snd (pb_dec_bool E it st))"
    using assms by (auto simp: sized_def slot_def intro!: decode_fixed_reads dec_bool_reads [unfolded slot_def])
  show ?thesis
    unfolding decode_basic_field_def Let_def
    using s f dec_varint_reads dec_bytes_reads dec_string_reads dec_fixed_length_reads by simp
qed

text \<open>The scalar types that may be packed take at least one byte each.\<close>
lemma ibind_eats:
  assumes "eats r st" and "\<And>x st'. r = (Some x, st') \<Longrightarrow> bytes_left (snd (snd (k x st'))) = bytes_left (snd st')"
    and "ibind r k = (True, st2)" and "i_callback (snd st) = IcBuf"
  shows "bytes_left (snd st2) < bytes_left (snd st)"
proof -
  obtain v st' where r: "r = (v, st')" by (rule prod.exhaust)
  with assms(3) obtain x where v: "v = Some x" "k x st' = (True, st2)" by (cases v) (auto simp: ibind_def)
  then have "bytes_left (snd st2) = bytes_left (snd st')" using assms(2) [of x st'] r by simp
  then show ?thesis using assms(1,4) r v by (simp add: eats_def)
qed

lemma read_eats: "0 < n \<Longrightarrow> eats (pb_read E n st) st"
proof -
  assume n: "0 < n"
  obtain v st' where d: "pb_read E n st = (v, st')" by (rule prod.exhaust)
  have "reads {} st st'" using read_reads [of "{}" st E n] d by simp
  then show "eats (pb_read E n st) st" using read_less [of E n st _ st'] n d by (auto simp: eats_def)
qed

lemma packed_entry_less:
  assumes "PB_LTYPE (ftype it) \<le> PB_LTYPE_LAST_PACKABLE" and "decode_basic_field R E PB_WT_PACKED it st = Some (True, st')"
    and "i_callback (snd st) = IcBuf"
  shows "bytes_left (snd st') < bytes_left (snd st)"
proof -
  let ?t = "PB_LTYPE (ftype it)"
  have store: "bytes_left (snd (snd (store_clamped a n v c st))) = bytes_left (snd st)" for a n v c st
    by (simp add: store_clamped_def Let_def i_error_def i_set_error_def)
  have err: "bytes_left (snd (snd (i_error msg st))) = bytes_left (snd st)" for msg st
    by (simp add: i_error_def i_set_error_def)
  consider "?t = PB_LTYPE_BOOL" "pb_dec_bool E it st = (True, st')"
    | "pb_dec_varint E it st = (True, st')"
    | "pb_decode_fixed32 E (pData it) st = (True, st')" | "pb_decode_fixed64 E (pData it) st = (True, st')"
    using assms(1,2) by (auto simp: decode_basic_field_def Let_def i_error_def split: if_splits)
  then show ?thesis
  proof cases
    case 1
    then show ?thesis unfolding pb_dec_bool_def pb_decode_bool_def
      by (rule_tac ibind_eats [OF eats_varint32 _ _ assms(3)]) (auto split: prod.splits)
  next
    case 2
    then show ?thesis unfolding pb_dec_varint_def Let_def
      by (auto split: if_splits elim!: ibind_eats [OF eats_varint _ _ assms(3), rotated] ibind_eats [OF svarint_eats _ _ assms(3), rotated]
          ibind_eats [OF varint_map_eats _ _ assms(3), rotated] simp: store err)
  next
    case 3
    then show ?thesis unfolding pb_decode_fixed32_def
      by (rule_tac ibind_eats [OF read_eats _ _ assms(3)]) (auto split: prod.splits)
  next
    case 4
    then show ?thesis unfolding pb_decode_fixed64_def
      by (rule_tac ibind_eats [OF read_eats _ _ assms(3)]) (auto split: prod.splits)
  qed
qed

section \<open>Fields of a flat message\<close>

text \<open>
  An iterator at a field that lies inside \<open>A\<close> with all its entries and its counter: a static field that is
  neither a submessage nor an extension range.
\<close>
definition extent :: "pb_field_iter \<Rightarrow> addr set" where
  "extent it = {pField it..<pField it + data_size it * array_size it}"

definition flat_it :: "addr set \<Rightarrow> pb_field_iter \<Rightarrow> bool" where
  "flat_it A it \<longleftrightarrow>
     PB_ATYPE (ftype it) = PB_ATYPE_STATIC \<and> PB_LTYPE (ftype it) \<noteq> PB_LTYPE_EXTENSION \<and> sized it
     \<and> extent it \<subseteq> A \<and> 1 \<le> array_size it \<and> array_size it < 65536
     \<and> (PB_HTYPE (ftype it) \<noteq> PB_HTYPE_REPEATED \<longrightarrow> pData it = pField it)
     \<and> (case pSize it of
          PMem a \<Rightarrow> if PB_HTYPE (ftype it) = PB_HTYPE_OPTIONAL then a \<in> A else {a..<a + 2} \<subseteq> A \<and> {a..<a + 2} \<inter> extent it = {}
        | PNull \<Rightarrow> PB_HTYPE (ftype it) \<noteq> PB_HTYPE_REPEATED
        | PArraySize \<Rightarrow> PB_HTYPE (ftype it) = PB_HTYPE_REPEATED
        | PFixedCount \<Rightarrow> True)"

text \<open>What decoding a field may change of the iterator: its data pointer, in an array, and the counter \<open>fixed_count\<close>.\<close>
definition same_field :: "pb_field_iter \<Rightarrow> pb_field_iter \<Rightarrow> bool" where
  "same_field it it' \<longleftrightarrow> descriptor it' = descriptor it \<and> message it' = message it \<and> index it' = index it
     \<and> field_info_index it' = field_info_index it \<and> required_field_index it' = required_field_index it
     \<and> submessage_index it' = submessage_index it \<and> tag it' = tag it \<and> data_size it' = data_size it
     \<and> array_size it' = array_size it \<and> ftype it' = ftype it \<and> pField it' = pField it \<and> pSize it' = pSize it
     \<and> (PB_HTYPE (ftype it) \<noteq> PB_HTYPE_REPEATED \<longrightarrow> pData it' = pData it)"

lemma same_field_refl [simp]: "same_field it it"
  by (simp add: same_field_def)

lemma same_field_trans: "same_field a b \<Longrightarrow> same_field b c \<Longrightarrow> same_field a c"
  by (simp add: same_field_def)

lemma flat_same: "flat_it A it \<Longrightarrow> same_field it it' \<Longrightarrow> flat_it A it'"
proof -
  assume f: "flat_it A it" and s: "same_field it it'"
  then have "extent it' = extent it" "sized it' = sized it" by (simp_all add: same_field_def extent_def sized_def)
  with f s show "flat_it A it'" unfolding flat_it_def same_field_def by (cases "pSize it") (simp_all split: if_splits)
qed

lemma slot_extent:
  assumes "pData it = pField it + data_size it * c" and "c < array_size it"
  shows "slot it \<subseteq> extent it"
proof -
  have "data_size it * Suc c \<le> data_size it * array_size it" using assms(2) by (intro mult_le_mono2) simp
  then show ?thesis using assms(1) by (auto simp: slot_def extent_def)
qed

text \<open>The counter of an array is kept apart from the array.\<close>
lemma psize_set:
  assumes "flat_it A it" and "PB_HTYPE (ftype it) \<noteq> PB_HTYPE_OPTIONAL" and "pSize it \<noteq> PArraySize" and "v < 65536"
  obtains m' it' where "set_psize v ((m, s), it) = ((m', s), it')" "mem_frame A m m'" "same_field it it'" "pData it' = pData it"
    "PB_HTYPE (ftype it) = PB_HTYPE_REPEATED \<Longrightarrow> get_psize ((m', s), it') = v"
proof (cases "pSize it")
  case (PMem a)
  then have "{a..<a + 2} \<subseteq> A" using assms(1,2) by (simp add: flat_it_def)
  then have "mem_frame A m (mem_write m a (nat_le 2 v))" by (intro mem_frame_write) simp
  then show thesis using PMem assms(4)
    by (intro that [of "mem_write m a (nat_le 2 v)" it]) (simp_all add: set_psize_def write_psize_def get_psize_def read_psize_def le_nat_nat_le)
next
  case PNull
  then show thesis using assms(1) by (intro that [of m it]) (simp_all add: set_psize_def write_psize_def flat_it_def)
next
  case PFixedCount
  then show thesis
    by (intro that [of m "it\<lparr>fixed_count := v\<rparr>"]) (simp_all add: set_psize_def write_psize_def get_psize_def read_psize_def same_field_def)
qed (use assms(3) in simp)

lemma psize_keep:
  assumes "flat_it A it" and "PB_HTYPE (ftype it) = PB_HTYPE_REPEATED" and "mem_frame (extent it) m m'"
  shows "get_psize ((m', s'), it) = get_psize ((m, s), it)"
proof (cases "pSize it")
  case (PMem a)
  then have "{a..<a + 2} \<inter> extent it = {}" using assms(1,2) by (simp add: flat_it_def)
  then have "mem_read m' a 2 = mem_read m a 2" using mem_frame_read [OF assms(3)] by blast
  then show ?thesis using PMem by (simp add: get_psize_def read_psize_def)
qed (simp_all add: get_psize_def read_psize_def)

lemma get_psize_pData [simp]: "get_psize (st, it\<lparr>pData := a\<rparr>) = get_psize (st, it)"
  by (cases "pSize it") (simp_all add: get_psize_def read_psize_def)

text \<open>One entry of a packed array: the next one follows it, and the counter says how many there are.\<close>
lemma packed_step:
  assumes "flat_it A it" and "PB_HTYPE (ftype it) = PB_HTYPE_REPEATED" and "pSize it \<noteq> PArraySize"
    and "pData it = pField it + data_size it * get_psize (st, it)" and "get_psize (st, it) < array_size it"
    and "i_callback (snd st) = IcBuf" and "decode_basic_field R E wt it st = Some (b, st')"
    and "x = set_psize (wrap16 (get_psize (st', it) + 1)) (st', it)"
  shows "same_field it (advance_data (snd x))" and "snd (fst x) = snd st'"
    and "pData (advance_data (snd x)) = pField it + data_size it * get_psize (fst x, advance_data (snd x))"
    and "mem_frame A (fst st') (fst (fst x))"
proof -
  obtain m' s' where st': "st' = (m', s')" by (rule prod.exhaust)
  have ext: "slot it \<subseteq> extent it" "sized it" "array_size it < 65536"
    using slot_extent [OF assms(4,5)] assms(1) by (simp_all add: flat_it_def)
  have "reads (slot it) st st'" using basic_ran [OF ext(2), of st R E wt] assms(7) by (auto simp: ran_def)
  then have "mem_frame (extent it) (fst st) m'" using assms(6) st' mem_frame_mono [OF _ ext(1)] by (auto simp: reads_def)
  then have c: "get_psize (st', it) = get_psize (st, it)" using psize_keep [OF assms(1,2), of "fst st" m' s' "snd st"] st' by simp
  have lim: "wrap16 (get_psize (st', it) + 1) = get_psize (st, it) + 1" "get_psize (st, it) + 1 < 65536"
    using assms(5) ext(3) unfolding c by simp_all
  have "PB_HTYPE (ftype it) \<noteq> PB_HTYPE_OPTIONAL" using assms(2) by simp
  then obtain m2 it2 where w: "x = ((m2, s'), it2)" "same_field it it2" "pData it2 = pData it" "get_psize ((m2, s'), it2) = get_psize (st, it) + 1"
    "mem_frame A m' m2"
    using psize_set [OF assms(1) _ assms(3) lim(2), of m' s'] assms(2,8) unfolding st' [symmetric] lim(1) by metis
  show "same_field it (advance_data (snd x))" using w assms(2) by (simp add: same_field_def advance_data_def)
  show "snd (fst x) = snd st'" using w(1) st' by simp
  show "mem_frame A (fst st') (fst (fst x))" using w(1,5) st' by simp
  have "get_psize (fst x, advance_data (snd x)) = get_psize (st, it) + 1" using w by (simp add: advance_data_def)
  then show "pData (advance_data (snd x)) = pField it + data_size it * get_psize (fst x, advance_data (snd x))"
    using w assms(4) by (simp add: advance_data_def same_field_def)
qed

lemma packed_loop_ran:
  assumes "flat_it A it" and "PB_HTYPE (ftype it) = PB_HTYPE_REPEATED" and "PB_LTYPE (ftype it) \<le> PB_LTYPE_LAST_PACKABLE"
    and "pSize it \<noteq> PArraySize" and "pData it = pField it + data_size it * get_psize (st, it)"
    and "i_callback (snd st) = IcBuf" and "bytes_left (snd st) < n"
  shows "\<exists>b st' it'. packed_loop n R E (st, it) = Some (b, (st', it')) \<and> reads A st st' \<and> same_field it it'"
  using assms
proof (induction n arbitrary: st it)
  case (Suc n)
  show ?case
  proof (cases "bytes_left (snd st) > 0 \<and> get_psize (st, it) < array_size it")
    case False
    then show ?thesis by (intro exI [of _ True] exI [of _ st] exI [of _ it]) auto
  next
    case True
    have ext: "slot it \<subseteq> A" "sized it" using slot_extent [OF Suc.prems(5)] True Suc.prems(1) by (auto simp: flat_it_def)
    from basic_ran [OF ext(2), of st R E PB_WT_PACKED] obtain b st1 where
      d: "decode_basic_field R E PB_WT_PACKED it st = Some (b, st1)" "reads (slot it) st st1" by (auto simp: ran_def)
    have r: "reads A st st1" using reads_mono [OF d(2) ext(1)] .
    show ?thesis
    proof (cases b)
      case False
      then show ?thesis using True d(1) r by auto
    next
      case b: True
      define x where "x = set_psize (wrap16 (get_psize (st1, it) + 1)) (st1, it)"
      let ?it3 = "advance_data (snd x)"
      note ps = packed_step [OF Suc.prems(1,2,4,5) conjunct2 [OF True] Suc.prems(6) d(1) x_def]
      have "reads A st1 (fst x)" using reads_write [OF ps(4), of "snd st1"] ps(2) by (cases "fst x") simp
      then have r2: "reads A st (fst x)" using reads_trans [OF r] by blast
      have "bytes_left (snd (fst x)) < n"
        using packed_entry_less [OF Suc.prems(3) d(1) [unfolded eqTrueI [OF b]] Suc.prems(6)] Suc.prems(7) ps(2) by simp
      then have "\<exists>b st' it'. packed_loop n R E (fst x, ?it3) = Some (b, (st', it')) \<and> reads A (fst x) st' \<and> same_field ?it3 it'"
        using flat_same [OF Suc.prems(1) ps(1)] ps(1,3) Suc.prems(2-4) reads_buf [OF r2 Suc.prems(6)]
        by (intro Suc.IH) (simp_all add: same_field_def)
      moreover have "packed_loop (Suc n) R E (st, it) = packed_loop n R E (fst x, ?it3)"
        using True d(1) b by (simp add: x_def Let_def)
      ultimately show ?thesis using reads_trans [OF r2] same_field_trans [OF ps(1)] by (metis (no_types, lifting))
    qed
  qed
qed simp

text \<open>Substreams: the parent stream continues after them.\<close>
lemma substream_reads:
  assumes "pb_make_string_substream E st = (r, (m, s))" and "i_callback (snd st) = IcBuf"
  shows "reads {} st (m, s)"
    and "r = Some sub \<Longrightarrow> i_callback sub = IcBuf \<and> i_state sub = i_state s \<and> bytes_left sub + bytes_left s \<le> bytes_left (snd st)
      \<and> i_state s + bytes_left sub + bytes_left s \<le> i_state (snd st) + bytes_left (snd st) \<and> fst st = m"
proof -
  obtain v m1 s1 where d: "pb_decode_varint32 E st = (v, m1, s1)" by (rule prod_cases3)
  have r1: "reads {} st (m1, s1)" using eats_varint32 [of E st] d by (simp add: eats_def)
  then have m: "m1 = fst st" using assms(2) by (auto simp: reads_def mem_frame_def)
  show "reads {} st (m, s)" using assms d r1
    by (auto simp: pb_make_string_substream_def reads_def i_none_def i_error_def i_set_error_def split: option.splits if_splits)
  show "r = Some sub \<Longrightarrow> i_callback sub = IcBuf \<and> i_state sub = i_state s \<and> bytes_left sub + bytes_left s \<le> bytes_left (snd st)
      \<and> i_state s + bytes_left sub + bytes_left s \<le> i_state (snd st) + bytes_left (snd st) \<and> fst st = m"
    using assms d r1 m by (auto simp: pb_make_string_substream_def reads_def i_none_def split: option.splits if_splits)
qed

lemma close_reads:
  assumes "pb_close_string_substream E s sst = (b, (m', s'))" and "i_callback (snd sst) = IcBuf"
  shows "mem_frame {} (fst sst) m'" and "i_callback s' = i_callback s" and "bytes_left s' = bytes_left s"
    and "i_state s' = i_state s \<or> i_state (snd sst) \<le> i_state s' \<and> i_state s' \<le> i_state (snd sst) + bytes_left (snd sst)"
proof -
  define q where "q = (if bytes_left (snd sst) \<noteq> 0 then pb_read_null E (bytes_left (snd sst)) sst else (True, sst))"
  obtain ok1 m1 sub where d: "q = (ok1, m1, sub)" by (rule prod_cases3)
  have "reads {} sst (snd q)" using read_null_reads by (simp add: q_def)
  then have r: "mem_frame {} (fst sst) m1" "i_state (snd sst) \<le> i_state sub" "i_state sub \<le> i_state (snd sst) + bytes_left (snd sst)"
    using assms(2) d by (auto simp: reads_def)
  have e: "pb_close_string_substream E s sst = (if ok1 then (True, (m1, s\<lparr>i_state := i_state sub, i_errmsg := i_errmsg sub\<rparr>)) else (False, (m1, s)))"
    unfolding pb_close_string_substream_def q_def [symmetric] d by simp
  show "mem_frame {} (fst sst) m'" "i_callback s' = i_callback s" "bytes_left s' = bytes_left s"
    "i_state s' = i_state s \<or> i_state (snd sst) \<le> i_state s' \<and> i_state s' \<le> i_state (snd sst) + bytes_left (snd sst)"
    using assms(1) r unfolding e by (auto split: if_splits)
qed

text \<open>What the decoding of a field has to show: it returned, stayed inside, and is still at the same field.\<close>
definition field_ran :: "addr set \<Rightarrow> fst_it \<Rightarrow> (bool \<times> fst_it) option \<Rightarrow> bool" where
  "field_ran A x r \<longleftrightarrow> (\<exists>b st' it'. r = Some (b, (st', it')) \<and> reads A (fst x) st' \<and> same_field (snd x) it')"

lemma field_ran_with:
  assumes "reads A st0 st" and "same_field it0 it" and "ran A st r"
  shows "field_ran A (st0, it0) (with_iter it r)"
  using assms reads_trans [of A st0 st] by (fastforce simp: field_ran_def with_iter_def ran_def)

lemma array_end:
  assumes "PB_HTYPE (ftype it) = PB_HTYPE_REPEATED"
  shows "at_array_end (st, it) = (st, it\<lparr>pData := pField it + data_size it * get_psize (st, it)\<rparr>)"
    "same_field it (it\<lparr>pData := a\<rparr>)"
  using assms by (simp_all add: at_array_end_def same_field_def)

lemma packed_ran:
  assumes "flat_it A it" and "PB_HTYPE (ftype it) = PB_HTYPE_REPEATED" and "PB_LTYPE (ftype it) \<le> PB_LTYPE_LAST_PACKABLE"
    and "pSize it \<noteq> PArraySize" and "i_callback (snd st) = IcBuf" and "bytes_left (snd st) < n"
  shows "field_ran A (st, it) (decode_packed n R E (st, it))"
proof -
  let ?it = "it\<lparr>pData := pField it + data_size it * get_psize (st, it)\<rparr>"
  note ae = array_end [OF assms(2)]
  note sf = ae(2) [of "pField it + data_size it * get_psize (st, it)"]
  obtain r m s where d: "pb_make_string_substream E st = (r, (m, s))" by (rule prod_cases3)
  note sub = substream_reads [OF d assms(5)]
  have ms: "reads A st (m, s)" using reads_mono [OF sub(1)] by blast
  show ?thesis
  proof (cases r)
    case None
    then show ?thesis using d ms sf unfolding decode_packed_def ae(1) by (auto simp: field_ran_def)
  next
    case (Some u)
    note u = sub(2) [OF Some]
    have "get_psize ((m, u), ?it) = get_psize (st, it)"
      using u unfolding get_psize_pData by (simp add: get_psize_def)
    then have "\<exists>b st' it'. packed_loop n R E ((m, u), ?it) = Some (b, (st', it')) \<and> reads A (m, u) st' \<and> same_field ?it it'"
      using u assms flat_same [OF assms(1) sf] by (intro packed_loop_ran) simp_all
    then obtain status m2 u2 it2 where
      l: "packed_loop n R E ((m, u), ?it) = Some (status, ((m2, u2), it2))" "reads A (m, u) (m2, u2)" "same_field ?it it2" by auto
    have u2: "i_callback u2 = IcBuf" "i_state u \<le> i_state u2" "i_state u2 + bytes_left u2 \<le> i_state u + bytes_left u" "mem_frame A m m2"
      using l(2) u by (auto simp: reads_def)
    have m2: "reads A st (m2, s)"
      using ms u u2(4) assms(5) by (auto simp: reads_def intro: mem_frame_trans)
    have sf2: "same_field it it2" using same_field_trans [OF sf l(3)] .
    show ?thesis
    proof (cases "bytes_left u2 = 0")
      case False
      then show ?thesis using d Some l(1) m2 sf2 unfolding decode_packed_def ae(1)
        by (auto simp: field_ran_def with_iter_def i_error_def i_set_error_def reads_def)
    next
      case True
      obtain b m3 s3 where c: "pb_close_string_substream E s (m2, u2) = (b, (m3, s3))" by (rule prod_cases3)
      note cr = close_reads [OF c, simplified, OF u2(1)]
      have "mem_frame A m2 m3" using cr(1) by (rule mem_frame_mono) simp
      then have "reads A st (m3, s3)"
        using m2 cr(2-4) u u2 assms(5) True by (auto simp: reads_def intro: mem_frame_trans)
      then show ?thesis using d Some l(1) c sf2 True unfolding decode_packed_def ae(1) by (simp add: field_ran_def)
    qed
  qed
qed

lemma array_entry_ran:
  assumes "flat_it A it" and "PB_HTYPE (ftype it) = PB_HTYPE_REPEATED" and "pSize it \<noteq> PArraySize"
  shows "field_ran A (st, it) (decode_array_entry R E wt (st, it))"
proof -
  let ?c = "get_psize (st, it)"
  let ?it = "it\<lparr>pData := pField it + data_size it * ?c\<rparr>"
  note ae = array_end [OF assms(2)]
  note sf = ae(2) [of "pField it + data_size it * ?c"]
  have opt: "PB_HTYPE (ftype ?it) \<noteq> PB_HTYPE_OPTIONAL" "pSize ?it \<noteq> PArraySize" using assms(2,3) by simp_all
  have "wrap16 (?c + 1) < 65536" by simp
  then obtain m' it' where w: "set_psize (wrap16 (?c + 1)) ((fst st, snd st), ?it) = ((m', snd st), it')" "mem_frame A (fst st) m'"
    "same_field ?it it'" "pData it' = pData ?it"
    using psize_set [OF flat_same [OF assms(1) sf] opt, of "wrap16 (?c + 1)" "fst st" "snd st"] by metis
  have sf2: "same_field it it'" using same_field_trans [OF sf w(3)] .
  have r: "reads A st (m', snd st)" using reads_write [OF w(2), of "snd st"] by simp
  have "ran A (m', snd st) (if ?c \<ge> array_size it then Some (i_error ''array overflow'' (m', snd st)) else decode_basic_field R E wt it' (m', snd st))"
  proof (cases "?c \<ge> array_size it")
    case False
    have "slot it' \<subseteq> extent it'" using slot_extent [of it' ?c] w(4) sf2 False by (simp add: same_field_def)
    also have "\<dots> \<subseteq> A" using flat_same [OF assms(1) sf2] by (simp add: flat_it_def)
    finally have "slot it' \<subseteq> A" .
    moreover have "sized it'" using flat_same [OF assms(1) sf2] by (simp add: flat_it_def)
    ultimately show ?thesis using ran_mono [OF basic_ran] False by simp
  qed simp
  from field_ran_with [OF r sf2 this] show ?thesis
    using w(1) unfolding decode_array_entry_def ae(1) Let_def by (cases "?c \<ge> array_size it") simp_all
qed

lemma slot_flat: "flat_it A it \<Longrightarrow> PB_HTYPE (ftype it) \<noteq> PB_HTYPE_REPEATED \<Longrightarrow> slot it \<subseteq> A"
  using slot_extent [of it 0] by (auto simp: flat_it_def)

lemma basic_flat_ran:
  "flat_it A it \<Longrightarrow> PB_HTYPE (ftype it) \<noteq> PB_HTYPE_REPEATED \<Longrightarrow> ran A st (decode_basic_field R E wt it st)"
  using ran_mono [OF basic_ran slot_flat] by (simp add: flat_it_def)

lemma static_ran:
  assumes "flat_it A it" and "pSize it \<noteq> PArraySize" and "i_callback (snd st) = IcBuf" and "bytes_left (snd st) < n"
  shows "field_ran A (st, it) (decode_static_field n R E wt (st, it))"
proof -
  let ?h = "PB_HTYPE (ftype it)"
  consider "?h = PB_HTYPE_REQUIRED" | "?h = PB_HTYPE_OPTIONAL" | "?h = PB_HTYPE_REPEATED"
    | "?h \<noteq> PB_HTYPE_REQUIRED" "?h \<noteq> PB_HTYPE_OPTIONAL" "?h \<noteq> PB_HTYPE_REPEATED" by blast
  then show ?thesis
  proof cases
    case 1
    then show ?thesis
      using field_ran_with [OF reads_refl same_field_refl basic_flat_ran [OF assms(1)]] by (simp add: decode_static_field_def Let_def)
  next
    case 2
    obtain m' it' where w: "set_psize_bool True ((fst st, snd st), it) = ((m', snd st), it')" "mem_frame A (fst st) m'" "same_field it it'"
    proof (cases "pSize it")
      case (PMem a)
      then have "a \<in> A" using assms(1) 2 by (simp add: flat_it_def)
      then show thesis using PMem by (intro that [of "(fst st)(a := 1)" it]) (simp_all add: set_psize_bool_def write_psize_bool_def mem_frame_def case_prod_beta)
    next
      case PNull
      then show thesis by (intro that [of "fst st" it]) (simp_all add: set_psize_bool_def write_psize_bool_def case_prod_beta)
    next
      case PFixedCount
      then show thesis
        by (intro that [of "fst st" "it\<lparr>fixed_count := fixed_count it div 256 * 256 + 1\<rparr>"])
          (simp_all add: set_psize_bool_def write_psize_bool_def same_field_def case_prod_beta)
    qed (use assms(2) in simp)
    have "ran A (m', snd st) (decode_basic_field R E wt it' (m', snd st))"
      using basic_flat_ran [OF flat_same [OF assms(1) w(3)]] w(3) 2 by (simp add: same_field_def)
    from field_ran_with [OF _ w(3) this, of st] show ?thesis
      using w(1,2) reads_write [of A "fst st" m' "snd st"] 2 by (simp add: decode_static_field_def Let_def)
  next
    case 3
    then show ?thesis
      using packed_ran [OF assms(1) 3 _ assms(2-4)] array_entry_ran [OF assms(1) 3 assms(2)] by (simp add: decode_static_field_def Let_def)
  next
    case 4
    have clear: "clear_oneof R E it m = Some (True, m)" for m using assms(1) by (simp add: clear_oneof_def flat_it_def sized_def)
    obtain m' it' where w: "set_psize (tag it) ((fst st, snd st), it) = ((m', snd st), it')" "mem_frame A (fst st) m'" "same_field it it'"
    proof (cases "pSize it")
      case (PMem a)
      then have "{a..<a + 2} \<subseteq> A" using assms(1) 4 by (simp add: flat_it_def)
      then have "mem_frame A (fst st) (mem_write (fst st) a (nat_le 2 (tag it)))" by (intro mem_frame_write) simp
      then show thesis using PMem by (intro that [of "mem_write (fst st) a (nat_le 2 (tag it))" it]) (simp_all add: set_psize_def write_psize_def case_prod_beta)
    next
      case PNull
      then show thesis by (intro that [of "fst st" it]) (simp_all add: set_psize_def write_psize_def case_prod_beta)
    next
      case PFixedCount
      then show thesis
        by (intro that [of "fst st" "it\<lparr>fixed_count := tag it\<rparr>"])
          (simp_all add: set_psize_def write_psize_def same_field_def case_prod_beta)
    qed (use assms(2) in simp)
    have "ran A (m', snd st) (decode_basic_field R E wt it' (m', snd st))"
      using basic_flat_ran [OF flat_same [OF assms(1) w(3)]] w(3) 4 by (simp add: same_field_def)
    from field_ran_with [OF _ w(3) this, of st] show ?thesis
      using w(1,2) reads_write [of A "fst st" m' "snd st"] 4 clear by (simp add: decode_static_field_def Let_def)
  qed
qed

lemma field_ran:
  assumes "flat_it A it" and "pSize it \<noteq> PArraySize" and "i_callback (snd st) = IcBuf" and "bytes_left (snd st) < n"
  shows "field_ran A (st, it) (decode_field n R E wt (st, it))"
  using static_ran [OF assms] assms(1) by (simp add: decode_field_def flat_it_def Let_def)

section \<open>Flat messages\<close>

text \<open>The iterator at field \<open>k\<close> of the message at \<open>msg\<close>.\<close>
definition field_at :: "pb_msgdesc \<Rightarrow> addr \<Rightarrow> nat \<Rightarrow> pb_field_iter" where
  "field_at d msg k = snd (load_descriptor_values (\<lambda>_. 0)
     \<lparr>descriptor = d, message = msg, index = k, field_info_index = info_pos d k, required_field_index = req_pos d k,
      submessage_index = sub_pos d k, tag = 0, data_size = 0, array_size = 0, ftype = 0, pField = NULL, pData = NULL, pSize = PNull,
      submsg_desc = 0, fixed_count = 0\<rparr>)"

text \<open>A message type whose fields, laid out for a message at \<open>msg\<close>, all lie inside \<open>A\<close>.\<close>
definition flat_desc :: "addr set \<Rightarrow> pb_msgdesc \<Rightarrow> addr \<Rightarrow> bool" where
  "flat_desc A d msg \<longleftrightarrow> msg \<noteq> NULL \<and> 0 < field_count d \<and> desc_wf d \<and> default_value d = NULL
     \<and> (\<forall>k \<in> set [0..<field_count d]. flat_it A (field_at d msg k))"

lemma flat_cong:
  "ftype it' = ftype it \<Longrightarrow> data_size it' = data_size it \<Longrightarrow> array_size it' = array_size it \<Longrightarrow> pField it' = pField it \<Longrightarrow>
   pData it' = pData it \<Longrightarrow> pSize it' = pSize it \<Longrightarrow> flat_it A it' = flat_it A it"
  unfolding flat_it_def sized_def extent_def by (cases "pSize it") simp_all

lemma loaded_flat:
  assumes "flat_desc A d msg" and "loaded m d k it" and "message it = msg"
  shows "flat_it A it" "tag it = tag_at d k" "k < field_count d"
proof -
  have k: "k < field_count d" "descriptor it = d" "index it = k" "field_info_index it = info_pos d k" and l: "load_descriptor_values m it = (True, it)"
    using assms(2) by (auto simp: loaded_def positioned_def)
  then show "k < field_count d" "tag it = tag_at d k" using load_values(2) [of d k it m] assms(2) by (simp_all add: loaded_def)
  define p where "p = \<lparr>descriptor = d, message = msg, index = k, field_info_index = info_pos d k, required_field_index = req_pos d k,
      submessage_index = sub_pos d k, tag = 0, data_size = 0, array_size = 0, ftype = 0, pField = NULL, pData = NULL, pSize = PNull,
      submsg_desc = 0, fixed_count = 0\<rparr>"
  have p: "index p < field_count (descriptor p)" "descriptor p = d" "field_info_index p = info_pos d k" "message p = msg" using k by (simp_all add: p_def)
  have i: "index it < field_count (descriptor it)" using k by simp
  note v = load_vals(3-5,7-9) [OF i, of m, unfolded l snd_conv, unfolded k assms(3)]
    and w = load_vals(3-5,7-9) [OF p(1), of "\<lambda>_. 0", unfolded p]
  have f: "flat_it A (field_at d msg k)" using assms(1) k(1) by (simp add: flat_desc_def)
  then have s: "PB_ATYPE (type_of_word (entry (field_info d) (info_pos d k))) = PB_ATYPE_STATIC"
    using w(1) by (simp add: flat_it_def field_at_def p_def)
  have "msg \<noteq> NULL" using assms(1) by (simp add: flat_desc_def)
  then have "flat_it A it = flat_it A (snd (load_descriptor_values (\<lambda>_. 0) p))"
    using v w s by (intro flat_cong) simp_all
  then show "flat_it A it" using f by (simp add: field_at_def p_def)
qed

text \<open>The iterator of \<open>pb_decode_inner\<close> between fields.\<close>
definition at_flat :: "addr set \<Rightarrow> pb_msgdesc \<Rightarrow> addr \<Rightarrow> pb_field_iter \<Rightarrow> bool" where
  "at_flat A d msg it \<longleftrightarrow> (\<exists>k. positioned d k it) \<and> message it = msg \<and> flat_it A it"

lemma loaded_at_flat: "flat_desc A d msg \<Longrightarrow> loaded m d k it \<Longrightarrow> message it = msg \<Longrightarrow> at_flat A d msg it"
  using loaded_flat(1) by (auto simp: at_flat_def loaded_def)

lemma load_at_flat:
  assumes "flat_desc A d msg" and "positioned d k it" and "message it = msg"
  shows "at_flat A d msg (snd (load_descriptor_values m it))"
  using loaded_at_flat [OF assms(1) positioned_load [OF assms(2)]] assms(3) by simp

lemma find_loop_at_flat:
  assumes "flat_desc A d msg" and "positioned d k (advance_iterator it)" and "message it = msg"
  shows "at_flat A d msg (snd (find_loop (Suc n) m start t it))"
  using assms(2,3)
proof (induction n arbitrary: it k)
  case (0 it k)
  have a: "positioned d k (advance_iterator it)" "message (advance_iterator it) = msg" using 0 by (simp_all add: advance_iterator_def Let_def)
  have "positioned d k (snd (load_descriptor_values m (advance_iterator it)))" using positioned_load [OF a(1)] by (simp add: loaded_def)
  then show ?case using load_at_flat [OF assms(1)] a unfolding find_loop_step [OF 0(1)] by (simp add: Let_def)
next
  case (Suc n)
  have a: "positioned d k (advance_iterator it)" "message (advance_iterator it) = msg" using Suc.prems by (simp_all add: advance_iterator_def Let_def)
  define b where "b = (if drop_bit 2 (word_at d (info_pos d k)) AND 0x3F = of_nat t AND 0x3F
     then snd (load_descriptor_values m (advance_iterator it)) else advance_iterator it)"
  have b: "positioned d k b" "message b = msg" using a positioned_load [OF a(1), of m] by (simp_all add: b_def loaded_def)
  have wf: "desc_wf d" using assms(1) by (simp add: flat_desc_def)
  have "at_flat A d msg (snd (find_loop (Suc n) m start t b))"
    using Suc.IH [OF advance_positioned(1) [OF b(1) wf] b(2)] .
  then show ?case
    using load_at_flat [OF assms(1) a] load_at_flat [OF assms(1) b] unfolding find_loop_step [OF Suc.prems(1)] Let_def b_def [symmetric] by simp
qed

lemma find_at_flat:
  assumes "flat_desc A d msg" and "at_flat A d msg it"
  shows "at_flat A d msg (snd (pb_field_iter_find m t it))"
proof -
  obtain k where k: "positioned d k it" "message it = msg" using assms(2) by (auto simp: at_flat_def)
  have d: "desc_wf d" "0 < field_count d" "field_count d < 65535" using assms(1) by (simp_all add: flat_desc_def desc_wf_def)
  have r: "positioned d 0 (advance_iterator (it\<lparr>index := field_count d\<rparr>))"
    using advance_restart(1) [of "it\<lparr>index := field_count d\<rparr>" d] d k by (simp add: positioned_def)
  show ?thesis
    using assms(2) k find_loop_at_flat [OF assms(1) r] find_loop_at_flat [OF assms(1) advance_positioned(1) [OF k(1) d(1)]]
    by (auto simp: pb_field_iter_find_def positioned_def)
qed

lemma find_extension_at_flat:
  assumes "flat_desc A d msg" and "at_flat A d msg it"
  shows "\<not> fst (pb_field_iter_find_extension m it)" "at_flat A d msg (snd (pb_field_iter_find_extension m it))"
proof -
  have wf: "desc_wf d" using assms(1) by (simp add: flat_desc_def)
  have "\<not> fst (find_extension_loop n m start it) \<and> at_flat A d msg (snd (find_extension_loop n m start it))"
    if "positioned d k it" "message it = msg" for n start k it
    using that
  proof (induction n arbitrary: k it)
    case 0
    then show ?case using load_at_flat [OF assms(1)] by simp
  next
    case (Suc n)
    let ?a = "advance_iterator it" and ?k = "(k + 1) mod field_count d"
    have a: "positioned d ?k ?a" "message ?a = msg" using advance_positioned [OF Suc.prems(1) wf] Suc.prems(2) by simp_all
    have "flat_it A (snd (load_descriptor_values m ?a))" using load_at_flat [OF assms(1) a, of m] by (simp add: at_flat_def)
    then have "PB_LTYPE (ucast (drop_bit 8 (entry (field_info (descriptor ?a)) (field_info_index ?a)) AND 0xFF)) \<noteq> PB_LTYPE_EXTENSION"
      using load_vals(3) [of ?a m] a(1) by (simp add: flat_it_def positioned_def type_of_word_def)
    then show ?case using Suc.IH [OF a] load_at_flat [OF assms(1) a, of m] by (simp add: Let_def)
  qed
  moreover have "PB_LTYPE (ftype it) \<noteq> PB_LTYPE_EXTENSION" "\<exists>k. positioned d k it" "message it = msg"
    using assms(2) by (auto simp: at_flat_def flat_it_def)
  ultimately show "\<not> fst (pb_field_iter_find_extension m it)" "at_flat A d msg (snd (pb_field_iter_find_extension m it))"
    unfolding pb_field_iter_find_extension_def by (auto simp del: find_extension_loop.simps)
qed

text \<open>Setting a field to its default keeps the iterator's position and stays inside the field.\<close>
definition same_pos :: "pb_field_iter \<Rightarrow> pb_field_iter \<Rightarrow> bool" where
  "same_pos it it' \<longleftrightarrow> descriptor it' = descriptor it \<and> message it' = message it \<and> index it' = index it
     \<and> field_info_index it' = field_info_index it \<and> required_field_index it' = required_field_index it
     \<and> submessage_index it' = submessage_index it"

lemma same_pos_positioned: "positioned d k it \<Longrightarrow> same_pos it it' \<Longrightarrow> positioned d k it'"
  by (simp add: positioned_def same_pos_def)

lemma write_psize_pos:
  assumes "flat_it A it" and "PB_HTYPE (ftype it) \<noteq> PB_HTYPE_OPTIONAL"
  shows "mem_frame A m (fst (write_psize v m it))" "same_pos it (snd (write_psize v m it))"
proof -
  have "{a..<a + 2} \<subseteq> A" if "pSize it = PMem a" for a using assms that by (simp add: flat_it_def)
  then show "mem_frame A m (fst (write_psize v m it))"
    by (cases "pSize it") (auto simp: write_psize_def intro!: mem_frame_write elim!: subsetD)
  show "same_pos it (snd (write_psize v m it))"
    by (cases "pSize it") (simp_all add: write_psize_def same_pos_def)
qed

lemma write_psize_bool_pos:
  assumes "flat_it A it" and "PB_HTYPE (ftype it) = PB_HTYPE_OPTIONAL"
  shows "mem_frame A m (fst (write_psize_bool v m it))" "same_pos it (snd (write_psize_bool v m it))"
    "pData (snd (write_psize_bool v m it)) = pData it" "data_size (snd (write_psize_bool v m it)) = data_size it"
proof -
  have "a \<in> A" if "pSize it = PMem a" for a using assms that by (simp add: flat_it_def)
  then show "mem_frame A m (fst (write_psize_bool v m it))"
    by (cases "pSize it") (auto simp: write_psize_bool_def mem_frame_def)
  show "same_pos it (snd (write_psize_bool v m it))"
    by (cases "pSize it") (simp_all add: write_psize_bool_def same_pos_def)
  show "pData (snd (write_psize_bool v m it)) = pData it" "data_size (snd (write_psize_bool v m it)) = data_size it"
    by (cases "pSize it"; simp add: write_psize_bool_def)+
qed

lemma field_default_ran:
  assumes "flat_it A it"
  shows "\<exists>m' it'. pb_field_set_to_default n R E (m, it) = Some (True, (m', it')) \<and> mem_frame A m m' \<and> same_pos it it'"
proof -
  let ?h = "PB_HTYPE (ftype it)"
  have s: "PB_LTYPE (ftype it) \<noteq> PB_LTYPE_EXTENSION" "PB_ATYPE (ftype it) = PB_ATYPE_STATIC" "\<not> PB_LTYPE_IS_SUBMSG (ftype it)"
    using assms by (simp_all add: flat_it_def sized_def)
  have z: "mem_frame A m' (mem_set m' (pData it) 0 (data_size it))" if "?h \<noteq> PB_HTYPE_REPEATED" for m'
    using slot_flat [OF assms that] by (simp add: mem_set_def slot_def mem_frame_write)
  show ?thesis
  proof (cases "?h = PB_HTYPE_REPEATED \<or> ?h = PB_HTYPE_ONEOF")
    case True
    then have "?h \<noteq> PB_HTYPE_OPTIONAL" by auto
    from write_psize_pos [OF assms this, where m = m and v = 0] show ?thesis
      using s True by (cases "write_psize 0 m it") (auto simp: pb_field_set_to_default_def Let_def case_prod_beta)
  next
    case no: False
    show ?thesis
    proof (cases "?h = PB_HTYPE_OPTIONAL \<and> pSize it \<noteq> PNull")
      case True
      note w = write_psize_bool_pos [OF assms conjunct1 [OF True], where m = m and v = False]
      have "mem_frame A m (mem_set (fst (write_psize_bool False m it)) (pData it) 0 (data_size it))"
        using mem_frame_trans [OF w(1) z] no by blast
      then show ?thesis
        using s True no w(2-4) by (simp add: pb_field_set_to_default_def Let_def case_prod_beta)
    next
      case False
      then show ?thesis
        using s no z [of m] by (auto simp: pb_field_set_to_default_def Let_def case_prod_beta same_pos_def)
    qed
  qed
qed

lemma defaults_loop_ran:
  assumes "flat_desc A d msg" and "loaded m0 d k it" and "message it = msg" and "field_count d - k \<le> r"
  shows "\<exists>m' it'. defaults_loop r n R E (wt, 0) s (m, it) = Some (True, (m', it')) \<and> mem_frame A m m' \<and> at_flat A d msg it'"
  using assms(2-)
proof (induction r arbitrary: m0 m k it)
  case 0
  then show ?case by (simp add: loaded_def positioned_def)
next
  case (Suc r)
  note f = loaded_flat [OF assms(1) Suc.prems(1,2)]
  obtain m1 it1 where d: "pb_field_set_to_default n R E (m, it) = Some (True, (m1, it1))" "mem_frame A m m1" "same_pos it it1"
    using field_default_ran [OF f(1)] by metis
  have p: "positioned d k it1" "message it1 = msg" using Suc.prems(1,2) d(3) same_pos_positioned by (auto simp: loaded_def same_pos_def)
  have wf: "desc_wf d" using assms(1) by (simp add: flat_desc_def)
  note nx = next_loaded [OF p(1) wf, of m1]
  have sf: "set_field n R E (wt, 0) s (m, it) = Some (True, (wt, 0), s, (m1, it1))" by (simp add: set_field_def d(1))
  obtain more it2 where n: "pb_field_iter_next m1 it1 = (more, it2)" by (rule prod.exhaust)
  have l: "loaded m1 d ((k + 1) mod field_count d) it2" "message it2 = msg" "more \<longleftrightarrow> k + 1 < field_count d" using nx n p(2) by simp_all
  show ?case
  proof (cases more)
    case False
    then show ?thesis using sf n d(2) loaded_at_flat [OF assms(1) l(1,2)] by simp
  next
    case True
    then have "field_count d - (k + 1) mod field_count d \<le> r" using l(3) Suc.prems(3) by simp
    from Suc.IH [OF l(1,2) this, of m1] obtain m' it' where
      "defaults_loop r n R E (wt, 0) s (m1, it2) = Some (True, (m', it'))" "mem_frame A m1 m'" "at_flat A d msg it'" by blast
    then show ?thesis using sf n True mem_frame_trans [OF d(2)] by simp
  qed
qed

lemma defaults_ran:
  assumes "flat_desc A d msg" and "loaded m d 0 it" and "message it = msg"
  shows "\<exists>m' it'. set_to_defaults n R E (m, it) = Some (True, (m', it')) \<and> mem_frame A m m' \<and> at_flat A d msg it'"
proof -
  have "descriptor it = d" "default_value d = NULL" using assms(1,2) by (simp_all add: flat_desc_def loaded_def positioned_def)
  then show ?thesis
    using defaults_loop_ran [OF assms, of "field_count d" n R E PB_WT_VARINT PB_ISTREAM_EMPTY m] by (simp add: set_to_defaults_def)
qed

definition vars_flat :: "addr set \<Rightarrow> pb_msgdesc \<Rightarrow> addr \<Rightarrow> inner_vars \<Rightarrow> bool" where
  "vars_flat A d msg L \<longleftrightarrow> at_flat A d msg (iter L) \<and> extensions L = NULL \<and> extension_range_start L \<in> {0, 4294967295}"

text \<open>What a round of the loop has to show: it returned, stayed inside, and left the local variables in order.\<close>
definition round_ran :: "addr set \<Rightarrow> pb_msgdesc \<Rightarrow> addr \<Rightarrow> dst \<Rightarrow> (bool \<times> (inner_vars \<times> dst)) option \<Rightarrow> bool" where
  "round_ran A d msg st r \<longleftrightarrow> (\<exists>b L' st'. r = Some (b, (L', st')) \<and> reads A st st' \<and> vars_flat A d msg L')"

lemma round_ran_Some [simp]: "round_ran A d msg st (Some (b, (L, st'))) \<longleftrightarrow> reads A st st' \<and> vars_flat A d msg L"
  unfolding round_ran_def by blast

lemma unknown_ran:
  assumes "flat_desc A d msg" and "vars_flat A d msg L" and "t < 536870912" and "i_callback (snd st) = IcBuf" and "bytes_left (snd st) < n"
  shows "round_ran A d msg st (decode_unknown n R E wt t (L, st))"
proof -
  obtain found it where f: "pb_field_iter_find_extension (fst st) (iter L) = (found, it)" by (rule prod.exhaust)
  have it: "\<not> found" "at_flat A d msg it" using find_extension_at_flat [OF assms(1), of "iter L" "fst st"] assms(2) f by (simp_all add: vars_flat_def)
  obtain b st' where s: "pb_skip_field n E wt st = Some (b, st')" "reads A st st'" using skip_field_ran [OF assms(4,5), of A E wt] by (auto simp: ran_def)
  define L' where "L' = (if extension_range_start L = 0 then L\<lparr>iter := it, extension_range_start := 4294967295\<rparr> else L)"
  have L': "vars_flat A d msg L'" "extension_range_start L' = 4294967295" "extensions L' = NULL"
    using assms(2) it(2) by (auto simp: L'_def vars_flat_def)
  have "decode_unknown n R E wt t (L, st) = Some (b, (L', st'))"
    using assms(2,3) it(1) f s(1) unfolding decode_unknown_def L'_def by (auto simp: vars_flat_def Let_def)
  then show ?thesis using s(2) L'(1) by (simp add: round_ran_def)
qed

lemma track_flat:
  assumes "vars_flat A d msg L" and "track_fixed_count L = Some L'"
  shows "vars_flat A d msg L'" "pSize (iter L') \<noteq> PArraySize"
proof -
  let ?it = "iter L"
  have f: "flat_it A ?it" using assms(1) by (simp add: vars_flat_def at_flat_def)
  have pos: "\<exists>k. positioned d k (?it\<lparr>fixed_count := c, pSize := PFixedCount\<rparr>)" for c
    using assms(1) by (auto simp: vars_flat_def at_flat_def positioned_def)
  have fl: "flat_it A (?it\<lparr>fixed_count := c, pSize := PFixedCount\<rparr>)" for c
    using f by (simp add: flat_it_def sized_def extent_def)
  have e: "?it\<lparr>pSize := PFixedCount\<rparr> = ?it\<lparr>fixed_count := fixed_count ?it, pSize := PFixedCount\<rparr>" by simp
  have PA: "pSize ?it = PArraySize \<Longrightarrow> PB_HTYPE (ftype ?it) = PB_HTYPE_REPEATED" using f by (simp add: flat_it_def)
  have "vars_flat A d msg L' \<and> pSize (iter L') \<noteq> PArraySize"
  proof (cases "PB_HTYPE (ftype ?it) = PB_HTYPE_REPEATED \<and> pSize ?it = PArraySize")
    case True
    define c where "c = (if fixed_count_field L \<noteq> index ?it then 0 else fixed_count ?it)"
    have i: "iter L' = ?it\<lparr>fixed_count := c, pSize := PFixedCount\<rparr>"
        "extensions L' = extensions L" "extension_range_start L' = extension_range_start L"
      using assms(2) True e unfolding track_fixed_count_def Let_def c_def by (auto split: if_splits)
    then show ?thesis using pos fl assms(1) by (simp add: vars_flat_def at_flat_def)
  next
    case False
    then have "L' = L" using assms(2) by (simp add: track_fixed_count_def Let_def split: if_splits)
    then show ?thesis using assms(1) PA False by blast
  qed
  then show "vars_flat A d msg L'" "pSize (iter L') \<noteq> PArraySize" by simp_all
qed

lemma same_field_at_flat: "at_flat A d msg it \<Longrightarrow> same_field it it' \<Longrightarrow> at_flat A d msg it'"
  unfolding at_flat_def using flat_same by (auto simp: positioned_def same_field_def)

lemma mark_flat [simp]: "vars_flat A d msg (mark_required L) = vars_flat A d msg L" "iter (mark_required L) = iter L"
  by (simp_all add: mark_required_def vars_flat_def Let_def)

lemma known_ran:
  assumes "vars_flat A d msg L" and "i_callback (snd st) = IcBuf" and "bytes_left (snd st) < n"
  shows "round_ran A d msg st (decode_known n R E wt (L, st))"
proof (cases "track_fixed_count L")
  case None
  then show ?thesis using assms(1) by (simp add: decode_known_def i_error_def) (simp add: reads_def i_set_error_def)
next
  case (Some L1)
  note t = track_flat [OF assms(1) Some]
  define L2 where "L2 = mark_required L1"
  have L2: "vars_flat A d msg L2" "pSize (iter L2) \<noteq> PArraySize" using t by (simp_all add: L2_def)
  then have "field_ran A (st, iter L2) (decode_field n R E wt (st, iter L2))"
    using assms(2,3) by (intro field_ran) (simp_all add: vars_flat_def at_flat_def)
  then obtain b st' it' where f: "decode_field n R E wt (st, iter L2) = Some (b, (st', it'))" "reads A st st'" "same_field (iter L2) it'"
    by (auto simp: field_ran_def)
  have "vars_flat A d msg (L2\<lparr>iter := it'\<rparr>)" using same_field_at_flat [OF _ f(3)] L2(1) by (simp add: vars_flat_def)
  then show ?thesis using Some f(1,2) unfolding decode_known_def by (simp add: round_ran_def L2_def [symmetric])
qed

lemma inner_loop_ran:
  assumes "flat_desc A d msg"
    and "vars_flat A d msg L" and "i_callback (snd st) = IcBuf" and "bytes_left (snd st) < k" and "bytes_left (snd st) < n"
  shows "round_ran A d msg st (inner_loop k n R E flags (L, st))"
  using assms(2-)
proof (induction k arbitrary: L st)
  case (Suc k)
  obtain tr st1 where d: "pb_decode_tag E st = (tr, st1)" by (rule prod.exhaust)
  have r1: "reads A st st1" using tag_reads [of A st E] d by simp
  show ?case
  proof (cases tr)
    case (TagOk wt t)
    have less: "bytes_left (snd st1) < bytes_left (snd st)" "i_callback (snd st1) = IcBuf" "t < 536870912"
      using tag_less tag_small reads_buf [OF r1] d TagOk Suc.prems(2) by (blast+)
    obtain found it where f: "pb_field_iter_find (fst st1) t (iter L) = (found, it)" by (rule prod.exhaust)
    have L1: "vars_flat A d msg (L\<lparr>iter := it\<rparr>)"
      using find_at_flat [OF assms(1), of "iter L" "fst st1" t] f Suc.prems(1) by (simp add: vars_flat_def)
    define r where "r = (if \<not> found \<or> PB_LTYPE (ftype it) = PB_LTYPE_EXTENSION
        then decode_unknown n R E wt t (L\<lparr>iter := it\<rparr>, st1) else decode_known n R E wt (L\<lparr>iter := it\<rparr>, st1))"
    have "bytes_left (snd st1) < n" using less(1) Suc.prems(4) by simp
    then have "round_ran A d msg st1 r"
      using unknown_ran [OF assms(1) L1 less(3,2)] known_ran [OF L1 less(2)] by (simp add: r_def)
    then obtain b L2 st2 where r: "r = Some (b, (L2, st2))" "reads A st1 st2" "vars_flat A d msg L2" by (auto simp: round_ran_def)
    have r2: "reads A st st2" using reads_trans [OF r1 r(2)] .
    show ?thesis
    proof (cases "t = 0")
      case True
      then show ?thesis using d TagOk r1 Suc.prems(1) by (simp add: i_error_def) (simp add: reads_def i_set_error_def)
    next
      case False
      have step: "inner_loop (Suc k) n R E flags (L, st) = seqo r (inner_loop k n R E flags)"
        using d TagOk False f by (simp add: r_def)
      show ?thesis
      proof (cases b)
        case b: False
        then show ?thesis unfolding step r(1) using r(3) r2 by (simp add: seqo_def)
      next
        case b: True
        have "round_ran A d msg st2 (inner_loop k n R E flags (L2, st2))"
        proof (rule Suc.IH [OF r(3)])
          show "i_callback (snd st2) = IcBuf" using reads_buf [OF r(2) less(2)] .
          show "bytes_left (snd st2) < k" "bytes_left (snd st2) < n"
            using reads_left [OF r(2) less(2)] less(1) Suc.prems(3,4) by simp_all
        qed
        then show ?thesis unfolding step r(1) using b reads_trans [OF r2] by (fastforce simp: seqo_def round_ran_def)
      qed
    qed
  qed (use d r1 Suc.prems(1) in \<open>auto simp: round_ran_def\<close>)
qed simp

lemma decode_inner_ran:
  assumes "flat_desc A d dest" and "i_callback (snd st) = IcBuf" and "bytes_left (snd st) < n"
  shows "ran A st (decode_inner n (decoder E (Suc q)) E d dest flags st)"
proof -
  let ?b = "pb_field_iter_begin (fst st) d dest" and ?R = "decoder E (Suc q)"
  have "0 < field_count d" using assms(1) by (simp add: flat_desc_def)
  note b = begin_loaded [OF this, of "fst st" dest]
  obtain it where it: "?b = (True, it)" "loaded (fst st) d 0 it" "message it = dest" using b by (cases ?b) simp
  define r where "r = (if flags AND PB_DECODE_NOINIT = 0 then defaults ?R (fst st, it) else Some (True, (fst st, it)))"
  have "\<exists>m1 it1. r = Some (True, (m1, it1)) \<and> mem_frame A (fst st) m1 \<and> at_flat A d dest it1"
    using defaults_ran [OF assms(1) it(2,3), of q "decoder E q" E] loaded_at_flat [OF assms(1) it(2,3)]
    by (auto simp: r_def)
  then obtain m1 it1 where r: "r = Some (True, (m1, it1))" "mem_frame A (fst st) m1" "at_flat A d dest it1" by blast
  let ?L = "\<lparr>iter = it1, extension_range_start = 0, extensions = NULL, fixed_count_field = PB_SIZE_MAX,
                fixed_count_total_size = 0, fields_seen = [0, 0]\<rparr>"
  have "vars_flat A d dest ?L" using r(3) by (simp add: vars_flat_def)
  then have "round_ran A d dest (m1, snd st) (inner_loop n n ?R E flags (?L, (m1, snd st)))"
    using assms(2,3) by (intro inner_loop_ran [OF assms(1)]) simp_all
  then obtain ok2 L2 st2 where l: "inner_loop n n ?R E flags (?L, (m1, snd st)) = Some (ok2, (L2, st2))" "reads A (m1, snd st) st2"
    by (auto simp: round_ran_def)
  have "reads A st (m1, snd st)" using r(2) by (simp add: reads_def)
  then have "reads A st st2" using l(2) reads_trans by blast
  then show ?thesis
    using l(1) r(1) it(1) unfolding decode_inner_def r_def [symmetric] by (cases ok2) (simp_all add: r_def)
qed

lemma pb_decode_ran:
  assumes "flat_desc {dest..<dest + sz} d dest" and "len + 3 \<le> n"
  shows "\<exists>success m' s'. pb_decode n E d dest (m, pb_istream_from_buffer buf len) = Some (success, (m', s'))
    \<and> mem_frame {dest..<dest + sz} m m' \<and> buf \<le> i_state s' \<and> i_state s' + bytes_left s' \<le> buf + len"
proof -
  define q where "q = n - 2"
  have n: "n = Suc (Suc q)" using assms(2) by (simp add: q_def)
  have "ran {dest..<dest + sz} (m, pb_istream_from_buffer buf len)
      (decode_inner (Suc q) (decoder E (Suc q)) E d dest 0 (m, pb_istream_from_buffer buf len))"
    using assms(2) n by (intro decode_inner_ran [OF assms(1)]) (simp_all add: pb_istream_from_buffer_def)
  then show ?thesis
    by (auto simp: ran_def n pb_decode_def pb_decode_ex_def pb_decode_inner_def reads_def pb_istream_from_buffer_def)
qed

end
