(* ===== verification/Pb_Decode_Local.thy ===== *)
theory Pb_Decode_Local
  imports Pb_Decode_Safe
begin

unbundle bit_operations_syntax

text \<open>
  What the decoder depends on: for the message types of \<^verbatim>\<open>Pb_Decode_Safe\<close>, nothing but the input and the
  struct. A run in any other memory that has the same bytes there does the same, so no byte outside is read.
\<close>

section \<open>Changing the memory outside a region\<close>

text \<open>The memory \<open>m\<close> on the addresses \<open>Q\<close> and \<open>z\<close> everywhere else; and the same for a state of the decoder.\<close>
definition patch :: "addr set \<Rightarrow> mem \<Rightarrow> mem \<Rightarrow> mem" where
  "patch Q z m = (\<lambda>a. if a \<in> Q then m a else z a)"

definition patched :: "addr set \<Rightarrow> mem \<Rightarrow> dst \<Rightarrow> dst" where
  "patched Q z st = (patch Q z (fst st), snd st)"

lemma patched_pair [simp]: "patched Q z (m, s) = (patch Q z m, s)" "snd (patched Q z st) = snd st" "fst (patched Q z st) = patch Q z (fst st)"
  by (simp_all add: patched_def)

lemma patch_agree: "(\<And>a. a \<in> Q \<Longrightarrow> z a = m a) \<Longrightarrow> patch Q z m = z"
  by (rule ext) (simp add: patch_def)

lemma patch_upd: "a \<in> Q \<Longrightarrow> (patch Q z m)(a := v) = patch Q z (m(a := v))"
  by (rule ext) (auto simp: patch_def)

lemma patch_write: "{a..<a + length bs} \<subseteq> Q \<Longrightarrow> mem_write (patch Q z m) a bs = patch Q z (mem_write m a bs)"
  by (rule ext) (auto simp: patch_def mem_write_def subset_iff)

lemma patch_set: "{a..<a + n} \<subseteq> Q \<Longrightarrow> mem_set (patch Q z m) a v n = patch Q z (mem_set m a v n)"
  unfolding mem_set_def by (rule patch_write) simp

lemma patch_read: "{a..<a + n} \<subseteq> Q \<Longrightarrow> mem_read (patch Q z m) a n = mem_read m a n"
  by (rule mem_read_cong) (auto simp: patch_def subset_iff)

text \<open>A stream over memory whose remaining input lies in the region.\<close>
definition in_view :: "addr set \<Rightarrow> dst \<Rightarrow> bool" where
  "in_view Q st \<longleftrightarrow> i_callback (snd st) = IcBuf \<and> {i_state (snd st)..<i_state (snd st) + bytes_left (snd st)} \<subseteq> Q"

lemma in_view_reads: "in_view Q st \<Longrightarrow> reads A st st' \<Longrightarrow> in_view Q st'"
  unfolding in_view_def reads_def by (auto simp: subset_iff)

lemma in_view_buf: "in_view Q st \<Longrightarrow> i_callback (snd st) = IcBuf"
  by (simp add: in_view_def)

lemma in_view_mem [simp]: "in_view Q (m, snd st) = in_view Q st" "in_view Q (patched Q' z st) = in_view Q st"
  by (simp_all add: in_view_def)

lemma error_patched: "i_error msg (patched Q z st) = apsnd (patched Q z) (i_error msg st)"
  "i_none msg (patched Q z st) = apsnd (patched Q z) (i_none msg st)"
  by (simp_all add: i_error_def i_none_def)

lemma ibind_patched:
  assumes "r' = apsnd (patched Q z) r" and "\<And>x st. r = (Some x, st) \<Longrightarrow> k' x (patched Q z st) = apsnd (patched Q z) (k x st)"
  shows "ibind r' k' = apsnd (patched Q z) (ibind r k)"
  using assms by (cases r; cases "fst r") (auto simp: ibind_def)

section \<open>Reading\<close>

lemma read_raw_patched:
  assumes "in_view Q st"
  shows "pb_read_raw E n (patched Q z st) = apsnd (apsnd (patched Q z)) (pb_read_raw E n st)"
proof -
  have "mem_read (patch Q z (fst st)) (i_state (snd st)) n = mem_read (fst st) (i_state (snd st)) n" if "n \<le> bytes_left (snd st)"
    using assms that by (intro patch_read) (auto simp: in_view_def subset_iff)
  then show ?thesis
    using assms by (simp add: pb_read_raw_def call_istream_def buf_read_def in_view_def Let_def error_patched not_less)
qed

lemma read_patched: "in_view Q st \<Longrightarrow> pb_read E n (patched Q z st) = apsnd (patched Q z) (pb_read E n st)"
  by (simp add: pb_read_def read_raw_patched split: prod.splits)

lemma read_to_patched:
  assumes "in_view Q st" and "{a..<a + n} \<subseteq> Q"
  shows "pb_read_to E a n (patched Q z st) = apsnd (patched Q z) (pb_read_to E a n st)"
proof -
  obtain b bs m s where r: "pb_read_raw E n st = (b, bs, m, s)" by (rule prod_cases4)
  have "length bs \<le> n" using read_raw_reads(2) [OF r in_view_buf [OF assms(1)]] .
  then have "{a..<a + length bs} \<subseteq> Q" using assms(2) by (auto simp: subset_iff)
  then show ?thesis by (simp add: pb_read_to_def read_raw_patched [OF assms(1)] r patch_write)
qed

lemma read_null_patched: "in_view Q st \<Longrightarrow> pb_read_null E n (patched Q z st) = apsnd (patched Q z) (pb_read_null E n st)"
  unfolding pb_read_null_def by (auto simp: is_buf_read_def in_view_buf intro!: ibind_patched read_patched)

lemma readbyte_patched:
  assumes "in_view Q st"
  shows "pb_readbyte E (patched Q z st) = apsnd (patched Q z) (pb_readbyte E st)"
proof -
  have "mem_read (patch Q z (fst st)) (i_state (snd st)) 1 = mem_read (fst st) (i_state (snd st)) 1" if "bytes_left (snd st) \<noteq> 0"
    using assms that by (intro patch_read) (auto simp: in_view_def subset_iff)
  then show ?thesis
    using assms by (simp add: pb_readbyte_def call_istream_def buf_read_def in_view_def Let_def error_patched)
qed

lemma readbyte_view: "in_view Q st \<Longrightarrow> pb_readbyte E st = (v, st') \<Longrightarrow> in_view Q st'"
  using in_view_reads [OF _ readbyte_reads [of "{}" st E]] by simp

lemma varint32_loop_patched:
  "in_view Q st \<Longrightarrow> varint32_loop E bitpos result (patched Q z st) = apsnd (patched Q z) (varint32_loop E bitpos result st)"
proof (induction E bitpos result st rule: varint32_loop.induct)
  case (1 E bitpos result st)
  obtain v st' where d: "pb_readbyte E st = (v, st')" by (rule prod.exhaust)
  have e: "pb_readbyte E (patched Q z st) = (v, patched Q z st')" using readbyte_patched [OF 1(2)] d by simp
  have v: "in_view Q st'" using readbyte_view [OF 1(2) d] .
  show ?case
    using 1(1) [OF d [symmetric] _ _ _ v]
    by (subst (1 2) varint32_loop.simps) (auto simp: d e error_patched split: option.splits)
qed

lemma varint32_patched: "in_view Q st \<Longrightarrow> pb_decode_varint32 E (patched Q z st) = apsnd (patched Q z) (pb_decode_varint32 E st)"
proof -
  assume q: "in_view Q st"
  obtain v st' where d: "pb_readbyte E st = (v, st')" by (rule prod.exhaust)
  show ?thesis
    using readbyte_patched [OF q] varint32_loop_patched [OF readbyte_view [OF q d]] d
    by (simp add: pb_decode_varint32_def split: option.splits)
qed

lemma varint_loop_patched:
  "in_view Q st \<Longrightarrow> varint_loop E bitpos result (patched Q z st) = apsnd (patched Q z) (varint_loop E bitpos result st)"
proof (induction E bitpos result st rule: varint_loop.induct)
  case (1 E bitpos result st)
  obtain v st' where d: "pb_readbyte E st = (v, st')" by (rule prod.exhaust)
  have e: "pb_readbyte E (patched Q z st) = (v, patched Q z st')" using readbyte_patched [OF 1(2)] d by simp
  have v: "in_view Q st'" using readbyte_view [OF 1(2) d] .
  show ?case
    using 1(1) [OF d [symmetric] _ _ _ _ v]
    by (subst (1 2) varint_loop.simps) (auto simp: d e error_patched Let_def split: option.splits)
qed

lemma varint_patched: "in_view Q st \<Longrightarrow> pb_decode_varint E (patched Q z st) = apsnd (patched Q z) (pb_decode_varint E st)"
  unfolding pb_decode_varint_def by (rule varint_loop_patched)

lemma tag_patched: "in_view Q st \<Longrightarrow> pb_decode_tag E (patched Q z st) = apsnd (patched Q z) (pb_decode_tag E st)"
proof -
  assume q: "in_view Q st"
  obtain v m s where d: "pb_decode_varint32 E st = (v, m, s)" by (rule prod_cases3)
  have "in_view Q (m, s)" using in_view_reads [OF q eats_reads [OF eats_varint32 [of E st], of "{}"]] d by simp
  then have "is_buf_read (i_callback s)" by (simp add: in_view_def is_buf_read_def)
  then show ?thesis using varint32_patched [OF q] d by (simp add: pb_decode_tag_def split: option.splits)
qed

lemma skip_string_patched: "in_view Q st \<Longrightarrow> pb_skip_string E (patched Q z st) = apsnd (patched Q z) (pb_skip_string E st)"
  unfolding pb_skip_string_def
  by (intro ibind_patched varint32_patched read_null_patched; assumption?)
    (metis eats_reads eats_varint32 in_view_reads snd_conv)

lemma skip_varint_patched:
  "in_view Q st \<Longrightarrow> pb_skip_varint n E (patched Q z st) = map_option (apsnd (patched Q z)) (pb_skip_varint n E st)"
proof (induction n arbitrary: st)
  case (Suc n)
  obtain v st' where d: "pb_read E 1 st = (v, st')" by (rule prod.exhaust)
  have "in_view Q st'" using in_view_reads [OF Suc.prems read_reads [of "{}" st E 1]] d by simp
  then show ?case using read_patched [OF Suc.prems, of E 1 z] Suc.IH d by (simp split: option.splits)
qed simp

lemma skip_field_patched:
  "in_view Q st \<Longrightarrow> pb_skip_field n E wt (patched Q z st) = map_option (apsnd (patched Q z)) (pb_skip_field n E wt st)"
  unfolding pb_skip_field_def by (simp add: skip_varint_patched read_null_patched skip_string_patched error_patched)

section \<open>Single values\<close>

lemma varint32_view: "in_view Q st \<Longrightarrow> pb_decode_varint32 E st = (v, st') \<Longrightarrow> in_view Q st'"
  using in_view_reads [OF _ eats_reads [OF eats_varint32 [of E st], of "{}"]] by simp

lemma dec_bool_patched:
  assumes "in_view Q st" and "pData it \<in> Q"
  shows "pb_dec_bool E it (patched Q z st) = apsnd (patched Q z) (pb_dec_bool E it st)"
  unfolding pb_dec_bool_def pb_decode_bool_def
  by (intro ibind_patched varint32_patched assms) (auto simp: patch_upd [OF assms(2)])

lemma fixed32_patched:
  assumes "in_view Q st" and "{a..<a + 4} \<subseteq> Q"
  shows "pb_decode_fixed32 E a (patched Q z st) = apsnd (patched Q z) (pb_decode_fixed32 E a st)"
  unfolding pb_decode_fixed32_def
  by (intro ibind_patched read_patched assms) (use assms(2) in \<open>auto simp: patch_write\<close>)

lemma fixed64_patched:
  assumes "in_view Q st" and "{a..<a + 8} \<subseteq> Q"
  shows "pb_decode_fixed64 E a (patched Q z st) = apsnd (patched Q z) (pb_decode_fixed64 E a st)"
  unfolding pb_decode_fixed64_def
  by (intro ibind_patched read_patched assms) (use assms(2) in \<open>auto simp: patch_write\<close>)

lemma store_patched:
  "{a..<a + n} \<subseteq> Q \<Longrightarrow> store_clamped a n v c (patched Q z st) = apsnd (patched Q z) (store_clamped a n v c st)"
  by (simp add: store_clamped_def Let_def patch_write i_error_def)

lemma svarint_patched: "in_view Q st \<Longrightarrow> pb_decode_svarint E (patched Q z st) = apsnd (patched Q z) (pb_decode_svarint E st)"
  by (simp add: pb_decode_svarint_def varint_patched split: prod.splits)

lemma dec_varint_patched:
  assumes "in_view Q st" and "slot it \<subseteq> Q"
  shows "pb_dec_varint E it (patched Q z st) = apsnd (patched Q z) (pb_dec_varint E it st)"
proof -
  have s: "{pData it..<pData it + data_size it} \<subseteq> Q" using assms(2) by (simp add: slot_def)
  have m: "(case pb_decode_varint E (patched Q z st) of (v, st) \<Rightarrow> (map_option f v, st))
      = apsnd (patched Q z) (case pb_decode_varint E st of (v, st) \<Rightarrow> (map_option f v, st))" for f :: "u64 \<Rightarrow> u64"
    by (simp add: varint_patched [OF assms(1)] split: prod.splits)
  have k: "(if data_size it \<notin> {1, 2, 4, 8} then i_error msg (patched Q z st') else store_clamped (pData it) (data_size it) v c (patched Q z st'))
      = apsnd (patched Q z) (if data_size it \<notin> {1, 2, 4, 8} then i_error msg st' else store_clamped (pData it) (data_size it) v c st')" for msg v c st'
    by (simp only: error_patched store_patched [OF s] if_distrib [of "apsnd (patched Q z)"])
  have i: "ibind r' k' = apsnd (patched Q z) (ibind r k)"
    if "r' = apsnd (patched Q z) r" "\<And>x st. k' x (patched Q z st) = apsnd (patched Q z) (k x st)" for r r' :: "u64 option \<times> dst" and k k'
    using that by (rule ibind_patched)
  show ?thesis
    unfolding pb_dec_varint_def Let_def if_distrib [of "apsnd (patched Q z)"]
    by (intro if_cong refl i k varint_patched assms(1)) (simp add: m svarint_patched [OF assms(1)])
qed

lemma dec_bytes_patched:
  assumes "in_view Q st" and "slot it \<subseteq> Q"
  shows "pb_dec_bytes E it (patched Q z st) = apsnd (patched Q z) (pb_dec_bytes E it st)"
proof -
  have "pb_read_to E (pData it + 2) n (mem_write (patch Q z (fst st')) (pData it) (nat_le 2 n), snd st')
      = apsnd (patched Q z) (pb_read_to E (pData it + 2) n (mem_write (fst st') (pData it) (nat_le 2 n), snd st'))"
    if "in_view Q st'" "n + 2 \<le> data_size it" for n st'
  proof -
    have i: "{pData it..<pData it + 2} \<subseteq> Q" "{pData it + 2..<pData it + 2 + n} \<subseteq> Q" using assms(2) that(2) by (auto simp: slot_def subset_iff)
    have "in_view Q (mem_write (fst st') (pData it) (nat_le 2 n), snd st')" using that(1) by simp
    from read_to_patched [OF this i(2), of E z] show ?thesis using i(1) by (simp add: patch_write)
  qed
  then show ?thesis
    unfolding pb_dec_bytes_def
    by (intro ibind_patched varint32_patched assms) (auto simp: error_patched not_less dest!: varint32_view [OF assms(1)])
qed

lemma dec_string_patched:
  assumes "in_view Q st" and "slot it \<subseteq> Q"
  shows "pb_dec_string E it (patched Q z st) = apsnd (patched Q z) (pb_dec_string E it st)"
proof -
  have "pb_read_to E (pData it) n ((patch Q z (fst st'))(pData it + n := 0), snd st')
      = apsnd (patched Q z) (pb_read_to E (pData it) n ((fst st')(pData it + n := 0), snd st'))"
    if "in_view Q st'" "n + 1 \<le> data_size it" for n st'
  proof -
    have i: "pData it + n \<in> Q" "{pData it..<pData it + n} \<subseteq> Q" using assms(2) that(2) by (auto simp: slot_def subset_iff)
    have "in_view Q ((fst st')(pData it + n := 0), snd st')" using that(1) by simp
    from read_to_patched [OF this i(2), of E z] show ?thesis using i(1) by (simp add: patch_upd)
  qed
  then show ?thesis
    unfolding pb_dec_string_def
    by (intro ibind_patched varint32_patched assms) (auto simp: error_patched not_less dest!: varint32_view [OF assms(1)])
qed

lemma dec_fixed_length_patched:
  assumes "in_view Q st" and "slot it \<subseteq> Q"
  shows "pb_dec_fixed_length_bytes E it (patched Q z st) = apsnd (patched Q z) (pb_dec_fixed_length_bytes E it st)"
  unfolding pb_dec_fixed_length_bytes_def
  using assms(2) unfolding slot_def
  by (intro ibind_patched varint32_patched assms(1))
    (auto simp: error_patched patch_set intro!: read_to_patched dest!: varint32_view [OF assms(1)])

lemma basic_patched:
  assumes "sized it" and "in_view Q st" and "slot it \<subseteq> Q"
  shows "decode_basic_field R E wt it (patched Q z st) = map_option (apsnd (patched Q z)) (decode_basic_field R E wt it st)"
proof -
  let ?t = "PB_LTYPE (ftype it)"
  have s: "?t \<noteq> PB_LTYPE_SUBMESSAGE" "?t \<noteq> PB_LTYPE_SUBMSG_W_CB" using assms by (auto simp: sized_def PB_LTYPE_IS_SUBMSG_def)
  have f: "?t = PB_LTYPE_FIXED32 \<Longrightarrow> {pData it..<pData it + 4} \<subseteq> Q" "?t = PB_LTYPE_FIXED64 \<Longrightarrow> {pData it..<pData it + 8} \<subseteq> Q"
    "?t = PB_LTYPE_BOOL \<Longrightarrow> pData it \<in> Q"
    using assms(1,3) by (auto simp: sized_def slot_def)
  show ?thesis
    unfolding decode_basic_field_def Let_def
    using s f assms(2,3)
    by (simp add: error_patched dec_bool_patched fixed32_patched fixed64_patched dec_varint_patched dec_bytes_patched
        dec_string_patched dec_fixed_length_patched)
qed

section \<open>Fields\<close>

text \<open>The same change of the state in what the operations on fields return.\<close>
abbreviation (input) patched_it :: "addr set \<Rightarrow> mem \<Rightarrow> bool \<times> fst_it \<Rightarrow> bool \<times> fst_it" where
  "patched_it Q z \<equiv> apsnd (apfst (patched Q z))"

lemma with_iter_patched:
  "with_iter it (map_option (apsnd (patched Q z)) r) = map_option (patched_it Q z) (with_iter it r)"
  by (cases r) (auto simp: with_iter_def)

lemma counter_patched:
  assumes "flat_it A it" and "A \<subseteq> Q" and "PB_HTYPE (ftype it) \<noteq> PB_HTYPE_OPTIONAL"
  shows "get_psize (patched Q z st, it) = get_psize (st, it)"
    and "set_psize v (patched Q z st, it) = apfst (patched Q z) (set_psize v (st, it))"
proof -
  have a: "{a..<a + 2} \<subseteq> Q" if "pSize it = PMem a" for a using assms that by (auto simp: flat_it_def)
  have w: "mem_write (patch Q z m) a (nat_le 2 v) = patch Q z (mem_write m a (nat_le 2 v))" if "pSize it = PMem a" for a m
    using a [OF that] by (simp add: patch_write)
  show "get_psize (patched Q z st, it) = get_psize (st, it)"
    by (cases "pSize it") (simp_all add: get_psize_def read_psize_def patch_read [OF a])
  show "set_psize v (patched Q z st, it) = apfst (patched Q z) (set_psize v (st, it))"
    by (cases "pSize it"; cases st) (simp_all add: set_psize_def write_psize_def w)
qed

lemma counter_bool_patched:
  assumes "flat_it A it" and "A \<subseteq> Q" and "PB_HTYPE (ftype it) = PB_HTYPE_OPTIONAL"
  shows "set_psize_bool v (patched Q z st, it) = apfst (patched Q z) (set_psize_bool v (st, it))"
proof -
  have a: "a \<in> Q" if "pSize it = PMem a" for a using assms that by (auto simp: flat_it_def)
  show ?thesis by (cases "pSize it"; cases st) (simp_all add: set_psize_bool_def write_psize_bool_def patch_upd a)
qed

text \<open>Storing a counter moves neither the stream nor the field.\<close>
lemma set_psize_stays:
  "pSize it \<noteq> PArraySize \<Longrightarrow> snd (fst (set_psize v (st, it))) = snd st \<and> same_field it (snd (set_psize v (st, it)))
    \<and> pData (snd (set_psize v (st, it))) = pData it"
  "pSize it \<noteq> PArraySize \<Longrightarrow> snd (fst (set_psize_bool b (st, it))) = snd st \<and> same_field it (snd (set_psize_bool b (st, it)))
    \<and> pData (snd (set_psize_bool b (st, it))) = pData it"
  by (cases "pSize it"; cases st; simp add: set_psize_def write_psize_def set_psize_bool_def write_psize_bool_def same_field_def)+

lemma in_view_snd: "in_view Q st \<Longrightarrow> snd st' = snd st \<Longrightarrow> in_view Q st'"
  by (simp add: in_view_def)

lemma basic_view:
  assumes "sized it" and "in_view Q st" and "decode_basic_field R E wt it st = Some (b, st')"
  shows "in_view Q st'"
  using basic_ran [OF assms(1), of st R E wt] in_view_reads [OF assms(2)] assms(3) by (auto simp: ran_def)

lemma packed_loop_patched:
  assumes "flat_it A it" and "A \<subseteq> Q" and "PB_HTYPE (ftype it) = PB_HTYPE_REPEATED" and "pSize it \<noteq> PArraySize"
    and "pData it = pField it + data_size it * get_psize (st, it)" and "in_view Q st"
  shows "packed_loop n R E (patched Q z st, it) = map_option (patched_it Q z) (packed_loop n R E (st, it))"
  using assms
proof (induction n arbitrary: st it)
  case (Suc n)
  have opt: "PB_HTYPE (ftype it) \<noteq> PB_HTYPE_OPTIONAL" using Suc.prems(3) by simp
  note cp = counter_patched [OF Suc.prems(1,2) opt]
  show ?case
  proof (cases "bytes_left (snd st) > 0 \<and> get_psize (st, it) < array_size it")
    case False
    then show ?thesis by (auto simp: cp(1))
  next
    case True
    have ext: "slot it \<subseteq> Q" "sized it" using slot_extent [OF Suc.prems(5)] True Suc.prems(1,2) by (auto simp: flat_it_def)
    note bp = basic_patched [OF ext(2) Suc.prems(6) ext(1), of R E PB_WT_PACKED z]
    show ?thesis
    proof (cases "decode_basic_field R E PB_WT_PACKED it st")
      case None
      then show ?thesis using True bp by (simp add: cp(1))
    next
      case (Some r)
      obtain b st' where r: "r = (b, st')" by (rule prod.exhaust)
      define x where "x = set_psize (wrap16 (get_psize (st', it) + 1)) (st', it)"
      note ps = packed_step [OF Suc.prems(1,3-5) conjunct2 [OF True] in_view_buf [OF Suc.prems(6)] Some [unfolded r] x_def]
      have v: "in_view Q (fst x)" using in_view_snd [OF basic_view [OF ext(2) Suc.prems(6) Some [unfolded r]] ps(2)] .
      have "packed_loop n R E (patched Q z (fst x), advance_data (snd x)) = map_option (patched_it Q z) (packed_loop n R E (fst x, advance_data (snd x)))"
        using flat_same [OF Suc.prems(1) ps(1)] ps(1,3) Suc.prems(2-4) v by (intro Suc.IH) (simp_all add: same_field_def)
      moreover have "set_psize (wrap16 (get_psize (patched Q z st', it) + 1)) (patched Q z st', it) = apfst (patched Q z) x"
        by (simp only: cp x_def)
      moreover have "set_psize (wrap16 (Suc (get_psize (st', it)))) (st', it) = x" by (simp add: x_def)
      ultimately show ?thesis using True bp Some r by (simp add: cp(1) Let_def split: bool.splits)
    qed
  qed
qed simp

lemma substream_patched:
  assumes "in_view Q st"
  shows "pb_make_string_substream E (patched Q z st) = apsnd (patched Q z) (pb_make_string_substream E st)"
    and "pb_make_string_substream E st = (Some sub, (m, s)) \<Longrightarrow> in_view Q (m, sub)"
    and "pb_make_string_substream E st = (Some sub, (m, s)) \<Longrightarrow> m = fst st"
proof -
  obtain v m1 s1 where d: "pb_decode_varint32 E st = (v, m1, s1)" by (rule prod_cases3)
  show "pb_make_string_substream E (patched Q z st) = apsnd (patched Q z) (pb_make_string_substream E st)"
    using varint32_patched [OF assms, of E z] d
    by (simp add: pb_make_string_substream_def i_none_def i_error_def split: option.splits)
  show "pb_make_string_substream E st = (Some sub, (m, s)) \<Longrightarrow> m = fst st"
    using substream_reads(2) [OF _ in_view_buf [OF assms] refl] by simp
  show "pb_make_string_substream E st = (Some sub, (m, s)) \<Longrightarrow> in_view Q (m, sub)"
    using varint32_view [OF assms d] d
    by (auto simp: pb_make_string_substream_def in_view_def i_none_def subset_iff split: option.splits if_splits)
qed

lemma close_patched:
  assumes "in_view Q sst"
  shows "pb_close_string_substream E s (patched Q z sst) = apsnd (patched Q z) (pb_close_string_substream E s sst)"
proof -
  define q where "q = (if bytes_left (snd sst) \<noteq> 0 then pb_read_null E (bytes_left (snd sst)) sst else (True, sst))"
  have q: "(if bytes_left (snd (patched Q z sst)) \<noteq> 0 then pb_read_null E (bytes_left (snd (patched Q z sst))) (patched Q z sst)
      else (True, patched Q z sst)) = apsnd (patched Q z) q"
    by (simp add: q_def read_null_patched [OF assms])
  show ?thesis
    unfolding pb_close_string_substream_def q q_def [symmetric] by (cases q) (auto split: bool.splits)
qed

lemma packed_patched:
  assumes "flat_it A it" and "A \<subseteq> Q" and "PB_HTYPE (ftype it) = PB_HTYPE_REPEATED" and "pSize it \<noteq> PArraySize" and "in_view Q st"
    and "PB_LTYPE (ftype it) \<le> PB_LTYPE_LAST_PACKABLE" and "bytes_left (snd st) < n"
  shows "decode_packed n R E (patched Q z st, it) = map_option (patched_it Q z) (decode_packed n R E (st, it))"
proof -
  define it1 where "it1 = it\<lparr>pData := pField it + data_size it * get_psize (st, it)\<rparr>"
  have opt: "PB_HTYPE (ftype it) \<noteq> PB_HTYPE_OPTIONAL" using assms(3) by simp
  have ae: "at_array_end (patched Q z st, it) = (patched Q z st, it1)" "at_array_end (st, it) = (st, it1)"
    by (simp_all add: at_array_end_def it1_def counter_patched(1) [OF assms(1,2) opt])
  have sf: "same_field it it1" using array_end(2) [OF assms(3)] by (simp add: it1_def)
  have it1: "flat_it A it1" "PB_HTYPE (ftype it1) = PB_HTYPE_REPEATED" "pSize it1 \<noteq> PArraySize"
    using flat_same [OF assms(1) sf] assms(3,4) by (simp_all add: it1_def)
  obtain r m s where d: "pb_make_string_substream E st = (r, (m, s))" by (rule prod_cases3)
  have d': "pb_make_string_substream E (patched Q z st) = (r, (patch Q z m, s))" using substream_patched(1) [OF assms(5)] d by simp
  show ?thesis
  proof (cases r)
    case None
    then show ?thesis using d d' by (simp add: decode_packed_def ae Let_def)
  next
    case (Some sub)
    note v = substream_patched(2,3) [OF assms(5) d [unfolded Some]]
    have p: "pData it1 = pField it1 + data_size it1 * get_psize ((m, sub), it1)"
      by (simp add: it1_def v(2) get_psize_def [of "((fst st, sub), it)"] get_psize_def [of "(st, it)"])
    note pl = packed_loop_patched [OF it1(1) assms(2) it1(2,3) p v(1), of n R E z]
    show ?thesis
    proof (cases "packed_loop n R E ((m, sub), it1)")
      case None
      then show ?thesis using d d' pl Some by (simp add: decode_packed_def ae Let_def)
    next
      case l: (Some r2)
      obtain ok sst it2 where r2: "r2 = (ok, (sst, it2))" by (metis prod.exhaust)
      have "bytes_left (snd (m, sub)) < n" "PB_LTYPE (ftype it1) \<le> PB_LTYPE_LAST_PACKABLE"
        using substream_reads(2) [OF d in_view_buf [OF assms(5)] Some] assms(6,7) by (simp_all add: it1_def)
      from packed_loop_ran [OF it1(1,2) this(2) it1(3) p in_view_buf [OF v(1)] this(1), of R E] have "in_view Q sst"
        using l r2 in_view_reads [OF v(1), of A sst] by auto
      note c = close_patched [OF this, of E s z]
      obtain b st3 where c2: "pb_close_string_substream E s sst = (b, st3)" by (rule prod.exhaust)
      show ?thesis
        using d d' pl Some l r2 c c2 by (simp add: decode_packed_def ae Let_def with_iter_def i_error_def)
    qed
  qed
qed

lemma array_entry_patched:
  assumes "flat_it A it" and "A \<subseteq> Q" and "PB_HTYPE (ftype it) = PB_HTYPE_REPEATED" and "pSize it \<noteq> PArraySize" and "in_view Q st"
  shows "decode_array_entry R E wt (patched Q z st, it) = map_option (patched_it Q z) (decode_array_entry R E wt (st, it))"
proof -
  let ?c = "get_psize (st, it)"
  define it1 where "it1 = it\<lparr>pData := pField it + data_size it * ?c\<rparr>"
  have opt: "PB_HTYPE (ftype it) \<noteq> PB_HTYPE_OPTIONAL" using assms(3) by simp
  have ae: "at_array_end (patched Q z st, it) = (patched Q z st, it1)" "at_array_end (st, it) = (st, it1)"
    by (simp_all add: at_array_end_def it1_def counter_patched(1) [OF assms(1,2) opt])
  have sf: "same_field it it1" using array_end(2) [OF assms(3)] by (simp add: it1_def)
  have it1: "flat_it A it1" "PB_HTYPE (ftype it1) \<noteq> PB_HTYPE_OPTIONAL" "pSize it1 \<noteq> PArraySize" "get_psize (st, it1) = ?c"
    using flat_same [OF assms(1) sf] opt assms(4) by (simp_all add: it1_def)
  note cp = counter_patched [OF it1(1) assms(2) it1(2)]
  define x where "x = set_psize (wrap16 (?c + 1)) (st, it1)"
  have x: "snd (fst x) = snd st" "same_field it1 (snd x)" "pData (snd x) = pData it1"
    using set_psize_stays(1) [OF it1(3)] by (simp_all add: x_def)
  have sf2: "same_field it (snd x)" using same_field_trans [OF sf x(2)] .
  have fl: "flat_it A (snd x)" using flat_same [OF assms(1) sf2] .
  have "decode_basic_field R E wt (snd x) (patched Q z (fst x)) = map_option (apsnd (patched Q z)) (decode_basic_field R E wt (snd x) (fst x))"
    if "?c < array_size it1"
  proof (rule basic_patched)
    show "sized (snd x)" using fl by (simp add: flat_it_def)
    show "in_view Q (fst x)" using in_view_snd [OF assms(5) x(1)] .
    have "slot (snd x) \<subseteq> extent (snd x)"
      using slot_extent [of "snd x" ?c] x(2,3) that by (simp add: it1_def same_field_def)
    then show "slot (snd x) \<subseteq> Q" using fl assms(2) by (auto simp: flat_it_def)
  qed
  then show ?thesis
    by (simp add: decode_array_entry_def ae Let_def cp it1(4) x_def [symmetric, simplified] error_patched with_iter_patched [symmetric] not_le)
qed

lemma static_patched:
  assumes "flat_it A it" and "A \<subseteq> Q" and "pSize it \<noteq> PArraySize" and "in_view Q st" and "bytes_left (snd st) < n"
  shows "decode_static_field n R E wt (patched Q z st, it) = map_option (patched_it Q z) (decode_static_field n R E wt (st, it))"
proof -
  let ?h = "PB_HTYPE (ftype it)"
  have basic: "decode_basic_field R E wt (snd x) (patched Q z (fst x)) = map_option (apsnd (patched Q z)) (decode_basic_field R E wt (snd x) (fst x))"
    if "same_field it (snd x)" "snd (fst x) = snd st" "?h \<noteq> PB_HTYPE_REPEATED" for x
  proof (rule basic_patched)
    have fl: "flat_it A (snd x)" "PB_HTYPE (ftype (snd x)) \<noteq> PB_HTYPE_REPEATED"
      using flat_same [OF assms(1) that(1)] that(1,3) by (simp_all add: same_field_def)
    show "sized (snd x)" using fl(1) by (simp add: flat_it_def)
    show "slot (snd x) \<subseteq> Q" using slot_flat [OF fl] assms(2) by blast
    show "in_view Q (fst x)" using in_view_snd [OF assms(4) that(2)] .
  qed
  consider "?h = PB_HTYPE_REQUIRED" | "?h = PB_HTYPE_OPTIONAL" | "?h = PB_HTYPE_REPEATED"
    | "?h \<noteq> PB_HTYPE_REQUIRED" "?h \<noteq> PB_HTYPE_OPTIONAL" "?h \<noteq> PB_HTYPE_REPEATED" by blast
  then show ?thesis
  proof cases
    case 1
    then show ?thesis using basic [of "(st, it)"] by (simp add: decode_static_field_def Let_def with_iter_patched)
  next
    case 2
    then show ?thesis
      using basic [of "set_psize_bool True (st, it)"] set_psize_stays(2) [OF assms(3), of True st]
      by (simp add: decode_static_field_def Let_def with_iter_patched counter_bool_patched [OF assms(1,2) 2])
  next
    case 3
    then show ?thesis
      using packed_patched [OF assms(1,2) 3 assms(3,4) _ assms(5)] array_entry_patched [OF assms(1,2) 3 assms(3,4)]
      by (simp add: decode_static_field_def Let_def)
  next
    case 4
    have clear: "clear_oneof R E it m = Some (True, m)" for m using assms(1) by (simp add: clear_oneof_def flat_it_def sized_def)
    have sp: "set_psize v ((patch Q z (fst st), snd st), it) = apfst (patched Q z) (set_psize v (st, it))" for v
      using counter_patched(2) [OF assms(1,2) 4(2), of v z st] by (simp add: patched_def)
    show ?thesis
      using basic [of "set_psize (tag it) (st, it)"] set_psize_stays(1) [OF assms(3), of "tag it" st] 4
      by (simp add: decode_static_field_def Let_def with_iter_patched clear sp)
  qed
qed

lemma field_patched:
  assumes "flat_it A it" and "A \<subseteq> Q" and "pSize it \<noteq> PArraySize" and "in_view Q st" and "bytes_left (snd st) < n"
  shows "decode_field n R E wt (patched Q z st, it) = map_option (patched_it Q z) (decode_field n R E wt (st, it))"
  using static_patched [OF assms] assms(1) by (simp add: decode_field_def flat_it_def Let_def)

section \<open>The iterator\<close>

text \<open>The descriptor of a flat message is read from constant data, and the iterator from no memory at all.\<close>
lemma load_patched:
  assumes "flat_desc A d msg" and "positioned d k it" and "message it = msg"
  shows "load_descriptor_values m' it = load_descriptor_values m it"
proof -
  have i: "index it < field_count (descriptor it)" using assms(2) by (simp add: positioned_def)
  have "flat_it A (snd (load_descriptor_values m it))" using load_at_flat [OF assms] by (simp add: at_flat_def)
  then have "PB_ATYPE (type_of_iter it) \<noteq> PB_ATYPE_POINTER" using load_vals(3) [OF i, of m] by (simp add: flat_it_def)
  then show ?thesis
    using i by (simp add: load_descriptor_values_def Let_def load_pointers_def type_of_word_def)
qed

lemma begin_patched: "flat_desc A d msg \<Longrightarrow> pb_field_iter_begin m' d msg = pb_field_iter_begin m d msg"
  unfolding pb_field_iter_begin_def by (rule load_patched [of A d msg 0]) (simp_all add: flat_desc_def positioned_def)

lemma next_patched:
  assumes "flat_desc A d msg" and "positioned d k it" and "message it = msg"
  shows "pb_field_iter_next m' it = pb_field_iter_next m it"
proof -
  have wf: "desc_wf d" using assms(1) by (simp add: flat_desc_def)
  have a: "positioned d ((k + 1) mod field_count d) (advance_iterator it)" "message (advance_iterator it) = msg"
    using advance_positioned [OF assms(2) wf] assms(3) by simp_all
  show ?thesis using load_patched [OF assms(1) a, of m' m] by (simp add: pb_field_iter_next_def)
qed

lemma find_loop_patched:
  assumes "flat_desc A d msg" and "positioned d k (advance_iterator it)" and "message it = msg"
  shows "find_loop (Suc n) m' start t it = find_loop (Suc n) m start t it"
  using assms(2,3)
proof (induction n arbitrary: it k)
  case (0 it k)
  have a: "positioned d k (advance_iterator it)" "message (advance_iterator it) = msg" using 0 by (simp_all add: advance_iterator_def Let_def)
  note b = positioned_load [OF a(1), of m, unfolded loaded_def]
  show ?case
    using load_patched [OF assms(1) a, of m' m] load_patched [OF assms(1) conjunct1 [OF b], of m' m] a(2)
    unfolding find_loop_step [OF 0(1)] by (simp add: Let_def)
next
  case (Suc n)
  have a: "positioned d k (advance_iterator it)" "message (advance_iterator it) = msg" using Suc.prems by (simp_all add: advance_iterator_def Let_def)
  define b where "b = (if drop_bit 2 (word_at d (info_pos d k)) AND 0x3F = of_nat t AND 0x3F
     then snd (load_descriptor_values m (advance_iterator it)) else advance_iterator it)"
  have b: "positioned d k b" "message b = msg" using a positioned_load [OF a(1), of m] by (simp_all add: b_def loaded_def)
  have wf: "desc_wf d" using assms(1) by (simp add: flat_desc_def)
  have "find_loop (Suc n) m' start t b = find_loop (Suc n) m start t b"
    using Suc.IH [OF advance_positioned(1) [OF b(1) wf] b(2)] .
  then show ?case
    using load_patched [OF assms(1) b, of m' m] load_patched [OF assms(1) a, of m' m]
    unfolding find_loop_step [OF Suc.prems(1)] Let_def by (simp only: b_def [symmetric])
qed

lemma find_patched:
  assumes "flat_desc A d msg" and "at_flat A d msg it"
  shows "pb_field_iter_find m' t it = pb_field_iter_find m t it"
proof -
  obtain k where k: "positioned d k it" "message it = msg" using assms(2) by (auto simp: at_flat_def)
  have d: "desc_wf d" "0 < field_count d" "field_count d < 65535" using assms(1) by (simp_all add: flat_desc_def desc_wf_def)
  have r: "positioned d 0 (advance_iterator (it\<lparr>index := field_count d\<rparr>))"
    using advance_restart(1) [of "it\<lparr>index := field_count d\<rparr>" d] d k by (simp add: positioned_def)
  show ?thesis
    using k find_loop_patched [OF assms(1) r] find_loop_patched [OF assms(1) advance_positioned(1) [OF k(1) d(1)]]
    by (auto simp: pb_field_iter_find_def positioned_def)
qed

lemma find_extension_patched:
  assumes "flat_desc A d msg" and "at_flat A d msg it"
  shows "pb_field_iter_find_extension m' it = pb_field_iter_find_extension m it"
proof -
  have wf: "desc_wf d" using assms(1) by (simp add: flat_desc_def)
  have "find_extension_loop n m' start it = find_extension_loop n m start it"
    if "positioned d k it" "message it = msg" for n start k it
    using that
  proof (induction n arbitrary: k it)
    case 0
    from load_patched [OF assms(1) 0, of m' m] show ?case by simp
  next
    case (Suc n)
    let ?a = "advance_iterator it"
    have a: "positioned d ((k + 1) mod field_count d) ?a" "message ?a = msg" using advance_positioned [OF Suc.prems(1) wf] Suc.prems(2) by simp_all
    then show ?case using Suc.IH [OF a] load_patched [OF assms(1) a, of m' m] by (simp add: Let_def)
  qed
  then show ?thesis
    using assms(2) unfolding pb_field_iter_find_extension_def by (auto simp: at_flat_def simp del: find_extension_loop.simps)
qed

section \<open>Default values\<close>

lemma field_default_patched:
  assumes "flat_it A it" and "A \<subseteq> Q"
  shows "pb_field_set_to_default n R E (patch Q z m, it) = map_option (apsnd (apfst (patch Q z))) (pb_field_set_to_default n R E (m, it))"
proof -
  let ?h = "PB_HTYPE (ftype it)"
  have s: "PB_LTYPE (ftype it) \<noteq> PB_LTYPE_EXTENSION" "PB_ATYPE (ftype it) = PB_ATYPE_STATIC" "\<not> PB_LTYPE_IS_SUBMSG (ftype it)"
    using assms by (simp_all add: flat_it_def sized_def)
  have z: "mem_set (patch Q z m') (pData it) 0 (data_size it) = patch Q z (mem_set m' (pData it) 0 (data_size it))"
    if "?h \<noteq> PB_HTYPE_REPEATED" for m'
    using slot_flat [OF assms(1) that] assms(2) by (intro patch_set) (auto simp: slot_def)
  have b: "write_psize_bool False (patch Q z m) it = apfst (patch Q z) (write_psize_bool False m it)" if "?h = PB_HTYPE_OPTIONAL"
    using counter_bool_patched [OF assms that, of False z "(m, undefined)"] unfolding set_psize_bool_def
    by (auto split: prod.splits)
  have w: "write_psize 0 (patch Q z m) it = apfst (patch Q z) (write_psize 0 m it)" if "?h \<noteq> PB_HTYPE_OPTIONAL"
    using counter_patched(2) [OF assms that, of 0 z "(m, undefined)"] unfolding set_psize_def
    by (auto split: prod.splits)
  show ?thesis
  proof (cases "?h = PB_HTYPE_REPEATED \<or> ?h = PB_HTYPE_ONEOF")
    case True
    then have "?h \<noteq> PB_HTYPE_OPTIONAL" by auto
    then show ?thesis using s True w by (cases "write_psize 0 m it") (auto simp: pb_field_set_to_default_def Let_def case_prod_beta)
  next
    case no: False
    show ?thesis
    proof (cases "?h = PB_HTYPE_OPTIONAL \<and> pSize it \<noteq> PNull")
      case True
      note p = write_psize_bool_pos(3,4) [OF assms(1) conjunct1 [OF True], where m = m and v = False]
      show ?thesis using s True no b p z by (simp add: pb_field_set_to_default_def Let_def case_prod_beta)
    next
      case False
      then show ?thesis using s no z by (auto simp: pb_field_set_to_default_def Let_def case_prod_beta)
    qed
  qed
qed

lemma defaults_loop_patched:
  assumes "flat_desc A d msg" and "A \<subseteq> Q" and "loaded m0 d k it" and "message it = msg"
  shows "defaults_loop r n R E (wt, 0) s (patch Q z m, it) = map_option (apsnd (apfst (patch Q z))) (defaults_loop r n R E (wt, 0) s (m, it))"
  using assms(3-)
proof (induction r arbitrary: m0 m k it)
  case (Suc r)
  note f = loaded_flat(1) [OF assms(1) Suc.prems]
  obtain m1 it1 where d: "pb_field_set_to_default n R E (m, it) = Some (True, (m1, it1))" "same_pos it it1"
    using field_default_ran [OF f] by metis
  have p: "positioned d k it1" "message it1 = msg" using Suc.prems d(2) same_pos_positioned by (auto simp: loaded_def same_pos_def)
  have wf: "desc_wf d" using assms(1) by (simp add: flat_desc_def)
  have sf: "set_field n R E (wt, 0) s (m, it) = Some (True, (wt, 0), s, (m1, it1))"
    "set_field n R E (wt, 0) s (patch Q z m, it) = Some (True, (wt, 0), s, (patch Q z m1, it1))"
    using field_default_patched [OF f assms(2), of n R E z m] by (simp_all add: set_field_def d(1))
  obtain more it2 where n: "pb_field_iter_next m1 it1 = (more, it2)" by (rule prod.exhaust)
  have l: "loaded m1 d ((k + 1) mod field_count d) it2" "message it2 = msg" using next_loaded [OF p(1) wf, of m1] n p(2) by simp_all
  have n': "pb_field_iter_next (patch Q z m1) it1 = (more, it2)" using next_patched [OF assms(1) p, of "patch Q z m1" m1] n by simp
  show ?case using sf n n' Suc.IH [OF l, of m1] by (simp split: bool.splits)
qed simp

lemma defaults_patched:
  assumes "flat_desc A d msg" and "A \<subseteq> Q" and "loaded m0 d 0 it" and "message it = msg"
  shows "set_to_defaults n R E (patch Q z m, it) = map_option (apsnd (apfst (patch Q z))) (set_to_defaults n R E (m, it))"
proof -
  have "descriptor it = d" "default_value d = NULL" using assms(1,3) by (simp_all add: flat_desc_def loaded_def positioned_def)
  then show ?thesis using defaults_loop_patched [OF assms] by (simp add: set_to_defaults_def)
qed

section \<open>Messages\<close>

text \<open>The same change of the state where it comes with the local variables of \<open>pb_decode_inner\<close>.\<close>
abbreviation (input) patched_vars :: "addr set \<Rightarrow> mem \<Rightarrow> bool \<times> inner_vars \<times> dst \<Rightarrow> bool \<times> inner_vars \<times> dst" where
  "patched_vars Q z \<equiv> apsnd (apsnd (patched Q z))"

lemma unknown_patched:
  assumes "flat_desc A d msg" and "vars_flat A d msg L" and "t < 536870912" and "in_view Q st"
  shows "decode_unknown n R E wt t (L, patched Q z st) = map_option (patched_vars Q z) (decode_unknown n R E wt t (L, st))"
proof -
  obtain found it where f: "pb_field_iter_find_extension (fst st) (iter L) = (found, it)" by (rule prod.exhaust)
  have at: "at_flat A d msg (iter L)" using assms(2) by (simp add: vars_flat_def)
  have it: "\<not> found" using find_extension_at_flat(1) [OF assms(1) at, of "fst st"] f by simp
  have f': "pb_field_iter_find_extension (patch Q z (fst st)) (iter L) = (found, it)" using find_extension_patched [OF assms(1) at] f by metis
  show ?thesis
    using assms(2,3) it f f' skip_field_patched [OF assms(4), of n E wt z]
    by (auto simp: decode_unknown_def vars_flat_def Let_def option.map_comp comp_def case_prod_beta intro!: option.map_cong)
qed

lemma known_patched:
  assumes "vars_flat A d msg L" and "A \<subseteq> Q" and "in_view Q st" and "bytes_left (snd st) < n"
  shows "decode_known n R E wt (L, patched Q z st) = map_option (patched_vars Q z) (decode_known n R E wt (L, st))"
proof (cases "track_fixed_count L")
  case None
  then show ?thesis by (simp add: decode_known_def i_error_def)
next
  case (Some L1)
  note t = track_flat [OF assms(1) Some]
  define L2 where "L2 = mark_required L1"
  have L2: "flat_it A (iter L2)" "pSize (iter L2) \<noteq> PArraySize" using t by (simp_all add: L2_def vars_flat_def at_flat_def)
  show ?thesis
    using Some field_patched [OF L2(1) assms(2) L2(2) assms(3,4), of R E wt z]
    by (auto simp: decode_known_def L2_def [symmetric] option.map_comp comp_def case_prod_beta intro!: option.map_cong)
qed

lemma inner_loop_patched:
  assumes "flat_desc A d msg" and "A \<subseteq> Q"
    and "vars_flat A d msg L" and "in_view Q st" and "bytes_left (snd st) < n"
  shows "inner_loop k n R E flags (L, patched Q z st) = map_option (patched_vars Q z) (inner_loop k n R E flags (L, st))"
  using assms(3-)
proof (induction k arbitrary: L st)
  case (Suc k)
  obtain tr st1 where d: "pb_decode_tag E st = (tr, st1)" by (rule prod.exhaust)
  have d': "pb_decode_tag E (patched Q z st) = (tr, patched Q z st1)" using tag_patched [OF Suc.prems(2)] d by simp
  show ?case
  proof (cases tr)
    case (TagOk wt t)
    note b = in_view_buf [OF Suc.prems(2)]
    have r1: "reads {} st st1" using tag_reads [of "{}" st E] d by simp
    have "bytes_left (snd st1) < bytes_left (snd st)" using tag_less [OF d [unfolded TagOk] b] .
    then have less: "bytes_left (snd st1) < n" "in_view Q st1" "t < 536870912"
      using tag_small [OF d [unfolded TagOk]] Suc.prems(3) in_view_reads [OF Suc.prems(2) r1] by simp_all
    obtain found it where f: "pb_field_iter_find (fst st1) t (iter L) = (found, it)" by (rule prod.exhaust)
    have at: "at_flat A d msg (iter L)" using Suc.prems(1) by (simp add: vars_flat_def)
    have f': "pb_field_iter_find (patch Q z (fst st1)) t (iter L) = (found, it)" using find_patched [OF assms(1) at] f by metis
    have L1: "vars_flat A d msg (L\<lparr>iter := it\<rparr>)" using find_at_flat [OF assms(1) at, of "fst st1" t] f Suc.prems(1) by (simp add: vars_flat_def)
    define r where "r = (\<lambda>st. if \<not> found \<or> PB_LTYPE (ftype it) = PB_LTYPE_EXTENSION
        then decode_unknown n R E wt t (L\<lparr>iter := it\<rparr>, st) else decode_known n R E wt (L\<lparr>iter := it\<rparr>, st))"
    have rp: "r (patched Q z st1) = map_option (patched_vars Q z) (r st1)"
      using unknown_patched [OF assms(1) L1 less(3,2)] known_patched [OF L1 assms(2) less(2,1)] by (simp add: r_def)
    have "round_ran A d msg st1 (r st1)"
      using unknown_ran [OF assms(1) L1 less(3) in_view_buf [OF less(2)] less(1)] known_ran [OF L1 in_view_buf [OF less(2)] less(1)]
      by (simp add: r_def)
    then obtain ok L2 st2 where r: "r st1 = Some (ok, (L2, st2))" "reads A st1 st2" "vars_flat A d msg L2" by (auto simp: round_ran_def)
    have step: "inner_loop (Suc k) n R E flags (L, patched Q z st) = seqo (r (patched Q z st1)) (inner_loop k n R E flags)"
      "inner_loop (Suc k) n R E flags (L, st) = seqo (r st1) (inner_loop k n R E flags)" if "t \<noteq> 0"
      using d d' TagOk that f f' by (simp_all add: r_def)
    show ?thesis
    proof (cases "t = 0")
      case True
      then show ?thesis using d d' TagOk by (simp add: i_error_def)
    next
      case False
      have "bytes_left (snd st2) < n" using reads_left [OF r(2) in_view_buf [OF less(2)]] less(1) by simp
      note ih = Suc.IH [OF r(3) in_view_reads [OF less(2) r(2)] this]
      show ?thesis unfolding step [OF False] rp using r(1) ih by (simp add: seqo_def split: bool.splits)
    qed
  qed (use d d' in simp_all)
qed simp

lemma decode_inner_patched:
  assumes "flat_desc A d dest" and "A \<subseteq> Q" and "in_view Q st" and "bytes_left (snd st) < n"
  shows "decode_inner n (decoder E (Suc q)) E d dest flags (patched Q z st)
    = map_option (apsnd (patched Q z)) (decode_inner n (decoder E (Suc q)) E d dest flags st)"
proof -
  define R where "R = decoder E (Suc q)"
  have "0 < field_count d" using assms(1) by (simp add: flat_desc_def)
  note b = begin_loaded [OF this]
  obtain it where it: "pb_field_iter_begin (fst st) d dest = (True, it)" "loaded (fst st) d 0 it" "message it = dest"
    using b [of "fst st" dest] by (cases "pb_field_iter_begin (fst st) d dest") simp
  have it': "pb_field_iter_begin (patch Q z (fst st)) d dest = (True, it)"
    using begin_patched [OF assms(1), of _ "fst st"] it(1) by simp
  define r where "r = (\<lambda>m. if flags AND PB_DECODE_NOINIT = 0 then set_to_defaults q (decoder E q) E (m, it) else Some (True, (m, it)))"
  have rp: "r (patch Q z (fst st)) = map_option (apsnd (apfst (patch Q z))) (r (fst st))"
    using defaults_patched [OF assms(1,2) it(2,3), of q "decoder E q" E z "fst st"] by (simp add: r_def)
  have "\<exists>m1 it1. r (fst st) = Some (True, (m1, it1)) \<and> at_flat A d dest it1"
    using defaults_ran [OF assms(1) it(2,3), of q "decoder E q" E] loaded_at_flat [OF assms(1) it(2,3)] by (auto simp: r_def)
  then obtain m1 it1 where r: "r (fst st) = Some (True, (m1, it1))" "at_flat A d dest it1" by blast
  define L where "L = \<lparr>iter = it1, extension_range_start = 0, extensions = NULL, fixed_count_field = PB_SIZE_MAX,
                fixed_count_total_size = 0, fields_seen = [0, 0]\<rparr>"
  have "vars_flat A d dest L" using r(2) by (simp add: L_def vars_flat_def)
  then have l: "inner_loop n n R E flags (L, (patch Q z m1, snd st)) = map_option (patched_vars Q z) (inner_loop n n R E flags (L, (m1, snd st)))"
    using inner_loop_patched [OF assms(1,2), of L "(m1, snd st)" n] assms(3,4) by simp
  have R: "(if True \<and> flags AND PB_DECODE_NOINIT = 0 then defaults R (m, it) else Some (True, (m, it))) = r m" for m
    by (simp add: r_def R_def)
  obtain l2 where l2: "inner_loop n n R E flags (L, (m1, snd st)) = l2" by blast
  show ?thesis
    unfolding R_def [symmetric] decode_inner_def patched_pair it(1) it' Let_def prod.case R rp r(1) option.map prod.case apsnd_conv apfst_conv bool.case option.case
      L_def [symmetric] l l2
    by (cases l2) (auto simp: i_error_def split: bool.splits)
qed

lemma pb_decode_patched:
  assumes "flat_desc A d dest" and "A \<subseteq> Q" and "{buf..<buf + len} \<subseteq> Q" and "len + 3 \<le> n"
  shows "pb_decode n E d dest (patch Q z m, pb_istream_from_buffer buf len)
    = map_option (apsnd (patched Q z)) (pb_decode n E d dest (m, pb_istream_from_buffer buf len))"
proof -
  define q where "q = n - 2"
  have n: "n = Suc (Suc q)" using assms(4) by (simp add: q_def)
  have "in_view Q (m, pb_istream_from_buffer buf len)" using assms(3) by (simp add: in_view_def pb_istream_from_buffer_def)
  from decode_inner_patched [OF assms(1,2) this, of "Suc q" E q 0 z] show ?thesis
    using assms(4) by (simp add: n pb_decode_def pb_decode_ex_def pb_decode_inner_def pb_istream_from_buffer_def)
qed

text \<open>
  C7. Decoding is safe for every input: when all fields of a message type without submessages, extensions,
  pointers, callbacks and default values of its own lie inside a struct of \<open>sz\<close> bytes at \<open>dest\<close>, then for any \<open>len\<close> bytes at \<open>buf\<close>
  \<open>pb_decode\<close> returns (depth and rounds bounded by the length of the input), has changed nothing but the
  struct, and its read position is still inside the input, whether it succeeds or fails. It reads only the input and
  the struct: in every memory \<open>z\<close> with the same bytes there it does the same.
\<close>
theorem pb_decode_safe:
  assumes "flat_desc {dest..<dest + sz} d dest" and "len + 3 \<le> n"
  shows "\<exists>success m' s'. pb_decode n E d dest (m, pb_istream_from_buffer buf len) = Some (success, (m', s'))
    \<and> mem_frame {dest..<dest + sz} m m' \<and> buf \<le> i_state s' \<and> i_state s' + bytes_left s' \<le> buf + len
    \<and> (\<forall>z. (\<forall>a \<in> {dest..<dest + sz} \<union> {buf..<buf + len}. z a = m a) \<longrightarrow>
         pb_decode n E d dest (z, pb_istream_from_buffer buf len)
           = Some (success, (\<lambda>a. if a \<in> {dest..<dest + sz} then m' a else z a, s')))"
proof -
  let ?A = "{dest..<dest + sz}" and ?s = "pb_istream_from_buffer buf len"
  let ?Q = "?A \<union> {buf..<buf + len}"
  obtain success m' s' where r: "pb_decode n E d dest (m, ?s) = Some (success, (m', s'))" "mem_frame ?A m m'"
    "buf \<le> i_state s'" "i_state s' + bytes_left s' \<le> buf + len"
    using pb_decode_ran [OF assms] by blast
  have "pb_decode n E d dest (z, ?s) = Some (success, (\<lambda>a. if a \<in> ?A then m' a else z a, s'))" if z: "\<forall>a \<in> ?Q. z a = m a" for z
  proof -
    have "patch ?Q z m = z" using z by (intro patch_agree) simp
    moreover have "patch ?Q z m' = (\<lambda>a. if a \<in> ?A then m' a else z a)"
      using z r(2) by (auto simp: patch_def mem_frame_def)
    ultimately show ?thesis
      using pb_decode_patched [OF assms(1) _ _ assms(2), of ?Q buf E z m] r(1) by simp
  qed
  then show ?thesis using r by blast
qed

theorem pb_decode_safe_witness:
  "\<exists>success m' s'. pb_decode 8 plain_dec one_field_desc 64 (\<lambda>a. of_nat a, pb_istream_from_buffer 200 5) = Some (success, (m', s'))
    \<and> mem_frame {64..<72} (\<lambda>a. of_nat a) m' \<and> 200 \<le> i_state s' \<and> i_state s' + bytes_left s' \<le> 205
    \<and> pb_decode 8 plain_dec one_field_desc 64 (\<lambda>a. if a < 64 then 0 else of_nat a, pb_istream_from_buffer 200 5)
        = Some (success, (\<lambda>a. if a \<in> {64..<72} then m' a else if a < 64 then 0 else of_nat a, s'))"
proof -
  have "flat_desc {64..<64 + 8} one_field_desc 64"
  proof -
    have "desc_wf one_field_desc" by (simp add: desc_wf_def one_field_desc_def tag_at_def unpack_words_def entry_def PB_FIELDINFO_1_def)
    moreover have "flat_it {64..<64 + 8} (field_at one_field_desc 64 0)"
      by (simp add: field_at_def load_descriptor_values_def one_field_desc_def Let_def entry_def load_pointers_def unpack_words_def
          PB_FIELDINFO_1_def PB_HTYPE_def PB_ATYPE_def PB_LTYPE_def PB_LTYPE_IS_SUBMSG_def flat_it_def sized_def extent_def)
    ultimately show ?thesis by (simp add: flat_desc_def) (simp add: one_field_desc_def)
  qed
  from pb_decode_safe [OF this, of 5 8 plain_dec "\<lambda>a. of_nat a" 200]
  obtain success m' s' where r: "pb_decode 8 plain_dec one_field_desc 64 (\<lambda>a. of_nat a, pb_istream_from_buffer 200 5) = Some (success, (m', s'))"
    "mem_frame {64..<72} (\<lambda>a. of_nat a) m'" "200 \<le> i_state s'" "i_state s' + bytes_left s' \<le> 205"
    and z: "\<And>z. (\<forall>a \<in> {64..<72} \<union> {200..<205}. z a = of_nat a) \<Longrightarrow>
      pb_decode 8 plain_dec one_field_desc 64 (z, pb_istream_from_buffer 200 5) = Some (success, (\<lambda>a. if a \<in> {64..<72} then m' a else z a, s'))"
    by auto
  have "pb_decode 8 plain_dec one_field_desc 64 (\<lambda>a. if a < 64 then 0 else of_nat a, pb_istream_from_buffer 200 5)
      = Some (success, (\<lambda>a. if a \<in> {64..<72} then m' a else if a < 64 then 0 else of_nat a, s'))"
    by (rule z) auto
  then show ?thesis using r by blast
qed

end
