(* ===== verification/Mqtt_Init.thy ===== *)
theory Mqtt_Init
  imports Mqtt_Client
begin

text \<open>
  Creating, configuring and destroying the MQTT client (\<^verbatim>\<open>espressif__mqtt/mqtt_client.c\<close>, \<open>lib/platform_esp32_idf.c\<close>).
  Of the memory the model keeps whether an allocation succeeds and whether freed buffers are freed again.
\<close>

section \<open>Strings\<close>

definition hex_digit :: "bool \<Rightarrow> nat \<Rightarrow> byte" where
  "hex_digit upper n = of_nat (if n < 10 then 48 + n else if upper then 55 + n else 87 + n)"

definition hex_byte :: "bool \<Rightarrow> byte \<Rightarrow> bytes" where
  "hex_byte upper b = [hex_digit upper (unat b div 16), hex_digit upper (unat b mod 16)]"

text \<open>Steps that may fail: the flag is false when the step went to the error label.\<close>
type_synonym 'w step = "'w client \<Rightarrow> fault + bool \<times> 'w client"

primrec steps :: "'w step list \<Rightarrow> 'w step" where
  "steps [] s = Inr (True, s)"
| "steps (f # fs) s = bnd (f s) (\<lambda>good s. if good then steps fs s else Inr (False, s))"

text \<open>One allocation.\<close>
definition has_memory :: "'w platform \<Rightarrow> 'w step" where
  "has_memory P s = (case mem_ok P (world s) of (good, w) \<Rightarrow> Inr (good, s\<lparr>world := w\<rparr>))"

definition platform_create_id_string :: "'w platform \<Rightarrow> 'w client \<Rightarrow> fault + bytes option \<times> 'w client" where
  "platform_create_id_string P s =
     bnd (has_memory P s) (\<lambda>good s.
       if \<not> good then Inr (None, s)
       else if length (read_mac P) < 6 then Inl Overrun
       else Inr (Some (lit ''ESP32_'' @ hex_byte False (read_mac P ! 3) @ hex_byte True (read_mac P ! 4) @ hex_byte True (read_mac P ! 5)), s))"

definition create_string :: "'w platform \<Rightarrow> bytes \<Rightarrow> nat \<times> nat \<Rightarrow> 'w client \<Rightarrow> fault + bytes option \<times> 'w client" where
  "create_string P text r s =
     (case r of (off, n) \<Rightarrow>
        if n = 0 then Inr (None, s)
        else bnd (has_memory P s) (\<lambda>good s.
          if \<not> good then Inr (None, s)
          else if length text < off + n then Inl Overrun
          else Inr (Some (take n (drop off text)), s)))"

definition strdup :: "'w platform \<Rightarrow> bytes \<Rightarrow> 'w client \<Rightarrow> fault + bytes option \<times> 'w client" where
  "strdup P text s = bnd (has_memory P s) (\<lambda>good s. Inr (if good then Some text else None, s))"

text \<open>\<open>put\<close> stores the new string, or null when there is no memory for it.\<close>
definition esp_mqtt_set_if_config :: "'w platform \<Rightarrow> bytes option \<Rightarrow> (bytes option \<Rightarrow> 'w client \<Rightarrow> 'w client) \<Rightarrow> 'w step" where
  "esp_mqtt_set_if_config P x put s =
     (case x of None \<Rightarrow> Inr (True, s)
      | Some text \<Rightarrow> bnd (strdup P text s) (\<lambda>copy s. Inr (copy \<noteq> None, put copy s)))"

definition put_config :: "(mqtt_config \<Rightarrow> mqtt_config) \<Rightarrow> 'w client \<Rightarrow> 'w client" where
  "put_config f s = s\<lparr>config := f (config s)\<rparr>"

definition put_info :: "(mqtt_connect_info \<Rightarrow> mqtt_connect_info) \<Rightarrow> 'w client \<Rightarrow> 'w client" where
  "put_info f s = s\<lparr>information := f (information s)\<rparr>"

text \<open>\<open>strtol\<close> in base 10 at a position where the first character is no space and no sign; \<open>long\<close> has 32 bits.\<close>
primrec digits :: "bytes \<Rightarrow> int \<Rightarrow> int" where
  "digits [] v = v"
| "digits (c # cs) v = (if 48 \<le> c \<and> c \<le> 57 then digits cs (min 2147483647 (10 * v + int (unat c - 48))) else v)"

definition strtol10 :: "bytes \<Rightarrow> int" where
  "strtol10 text = digits text 0"

section \<open>The URI\<close>

text \<open>What \<open>http_parser_parse_url\<close> finds: offset and length of the fields, with length 0 for a field that is not there.\<close>
record url_fields =
  uf_schema :: "nat \<times> nat"
  uf_host :: "nat \<times> nat"
  uf_port :: "nat \<times> nat"
  uf_path :: "nat \<times> nat"
  uf_query :: "nat \<times> nat"
  uf_userinfo :: "nat \<times> nat"

definition field_text :: "bytes \<Rightarrow> nat \<times> nat \<Rightarrow> bytes" where
  "field_text text r = take (snd r) (drop (fst r) text)"

text \<open>Path and query in one string, printed by \<open>asprintf\<close>.\<close>
definition uri_path :: "bytes \<Rightarrow> url_fields \<Rightarrow> bytes" where
  "uri_path text u =
     (if snd (uf_query u) = 0 then field_text text (uf_path u)
      else if snd (uf_path u) = 0 then lit ''/?'' @ field_text text (uf_query u)
      else field_text text (uf_path u) @ lit ''?'' @ field_text text (uf_query u))"

definition set_path :: "'w platform \<Rightarrow> bytes \<Rightarrow> url_fields \<Rightarrow> 'w step" where
  "set_path P text u s =
     (if snd (uf_path u) \<noteq> 0 \<or> snd (uf_query u) \<noteq> 0 then
        bnd (strdup P (uri_path text u) s) (\<lambda>copy s. Inr (copy \<noteq> None, put_config (path_update (\<lambda>_. copy)) s))
      else Inr (True, s))"

text \<open>User name and password from the part before the host, separated by the first colon.\<close>
definition set_user_info :: "'w platform \<Rightarrow> bytes \<Rightarrow> url_fields \<Rightarrow> 'w client \<Rightarrow> fault + unit \<times> 'w client" where
  "set_user_info P text u s =
     bnd (create_string P text (uf_userinfo u) s) (\<lambda>info s.
       case info of
         None \<Rightarrow> Inr ((), s)
       | Some b \<Rightarrow>
           (let name = takeWhile (\<lambda>c. c \<noteq> 58) b in
            bnd (if 58 \<in> set b
                 then bnd (strdup P (drop (length name + 1) b) s) (\<lambda>copy s. Inr ((), put_info (password_update (\<lambda>_. copy)) s))
                 else Inr ((), s))
              (\<lambda>_ s. bnd (strdup P name s) (\<lambda>copy s. Inr ((), put_info (username_update (\<lambda>_. copy)) s)))))"

definition esp_mqtt_client_set_uri :: "'w platform \<Rightarrow> (bytes \<Rightarrow> url_fields option) \<Rightarrow> bytes \<Rightarrow> 'w client \<Rightarrow> fault + esp_err \<times> 'w client" where
  "esp_mqtt_client_set_uri P parse_url text s =
     (case parse_url text of
        None \<Rightarrow> Inr (ESP_FAIL, s)
      | Some u \<Rightarrow>
          if \<not> configured s then Inl Null_Pointer
          else
            bnd (create_string P text (uf_schema u) s) (\<lambda>copy s.
            bnd (create_string P text (uf_host u) (put_config (scheme_update (\<lambda>_. copy)) s)) (\<lambda>copy s.
            bnd (set_path P text u (put_config (\<lambda>c. c\<lparr>host := copy, path := None\<rparr>) s)) (\<lambda>good s.
              if \<not> good then Inr (ESP_ERR_NO_MEM, s)
              else
                bnd (set_user_info P text u
                       (if snd (uf_port u) \<noteq> 0 then put_config (port_update (\<lambda>_. strtol10 (drop (fst (uf_port u)) text))) s else s))
                  (\<lambda>_ s. Inr (ESP_OK, s))))))"

section \<open>Configuration\<close>

definition empty_info :: mqtt_connect_info where
  "empty_info =
     \<lparr>client_id = None, username = None, password = None, will_topic = None, will_message = None, keepalive = 0, will_length = 0,
      will_qos = 0, will_retain = 0, clean_session = 0, protocol_ver = MQTT_PROTOCOL_UNDEFINED\<rparr>"

text \<open>The buffers are freed, but the pointers to them stay; the array of protocols is walked without a look at its pointer.\<close>
definition esp_mqtt_destroy_config :: "'w client \<Rightarrow> fault + unit \<times> 'w client" where
  "esp_mqtt_destroy_config s =
     (if \<not> configured s then Inr ((), s)
      else if num_alpn_protos (config s) > 0 \<and> alpn_protos (config s) = None then Inl Null_Pointer
      else Inr ((), s\<lparr>information := empty_info, config := empty_config, configured := False, buffers_freed := True\<rparr>))"

text \<open>The label \<open>_mqtt_set_config_failed\<close>.\<close>
definition failed :: "esp_err \<Rightarrow> 'w client \<Rightarrow> fault + esp_err \<times> 'w client" where
  "failed e s = bnd (esp_mqtt_destroy_config s) (\<lambda>_ s. Inr (e, s))"

definition set_buffers :: "'w platform \<Rightarrow> esp_mqtt_client_config \<Rightarrow> 'w step" where
  "set_buffers P u s =
     (if buffers_freed s then Inl Double_Free
      else
        (let buffer_size = (if u_size u \<le> 0 then 1024 else u_size u);
             out_buffer_size = (if u_out_size u > 0 then u_out_size u else buffer_size) in
         bnd (has_memory P s) (\<lambda>good s.
           (let (good, c) = mqtt_msg_buffer_init good (connection s) out_buffer_size;
                s = s\<lparr>connection := c, out_item := None\<rparr>
            in if \<not> good then Inr (False, s)
               else case allocate P (sz buffer_size) (world s) of
                 ((_, None), w) \<Rightarrow> Inr (False, s\<lparr>in_buffer := [], world := w\<rparr>)
               | ((_, Some raw), w) \<Rightarrow> Inr (True, s\<lparr>in_buffer := raw, in_buffer_length := buffer_size, world := w\<rparr>)))))"

definition set_basic :: "esp_mqtt_client_config \<Rightarrow> mqtt_config \<Rightarrow> mqtt_config" where
  "set_basic u c =
     c\<lparr>message_retransmit_timeout := (if u_message_retransmit_timeout u \<le> 0 then 1000 else u_message_retransmit_timeout u),
       task_prio := (if u_priority u \<le> 0 then 5 else u_priority u),
       task_stack := (if u_stack_size u \<le> 0 then 6144 else u_stack_size u),
       port := (if u_port u \<noteq> 0 then sint (u_port u) else port c),
       tcp_keep_alive_cfg := (if keep_alive_enable (u_tcp_keep_alive_cfg u) then u_tcp_keep_alive_cfg u else tcp_keep_alive_cfg c)\<rparr>"

definition set_client_id :: "'w platform \<Rightarrow> esp_mqtt_client_config \<Rightarrow> 'w step" where
  "set_client_id P u s =
     (if u_set_null_client_id u then Inr (True, s)
      else if u_client_id u \<noteq> None then esp_mqtt_set_if_config P (u_client_id u) (\<lambda>x. put_info (client_id_update (\<lambda>_. x))) s
      else if client_id (information s) = None then
        bnd (platform_create_id_string P s) (\<lambda>x s. Inr (x \<noteq> None, put_info (client_id_update (\<lambda>_. x)) s))
      else Inr (True, s))"

definition set_will :: "'w platform \<Rightarrow> esp_mqtt_client_config \<Rightarrow> 'w step" where
  "set_will P u s =
     (case u_will_msg u of
        None \<Rightarrow> Inr (True, s)
      | Some b \<Rightarrow>
          lft (if u_will_msg_len u \<noteq> 0 then Inr (u_will_msg_len u) else data_strlen b) (\<lambda>n.
            bnd (has_memory P s) (\<lambda>good s.
              if \<not> good then Inr (False, put_info (will_message_update (\<lambda>_. None)) s)
              else if length b < sz n then Inl Overrun
              else Inr (True, put_info (\<lambda>i. i\<lparr>will_message := Some (take (sz n) b), will_length := n\<rparr>) s))))"

definition set_session :: "esp_mqtt_client_config \<Rightarrow> mqtt_connect_info \<Rightarrow> mqtt_connect_info" where
  "set_session u i =
     (let i = i\<lparr>will_qos := (if u_will_qos u \<noteq> 0 then u_will_qos u else will_qos i),
                will_retain := (if u_will_retain u \<noteq> 0 then u_will_retain u else will_retain i)\<rparr>;
          i = (if (if u_disable_clean_session u then 1 else 0) = clean_session i
               then i\<lparr>clean_session := (if u_disable_clean_session u then 0 else 1)\<rparr> else i);
          i = (if u_keepalive u \<noteq> 0 then i\<lparr>keepalive := u_keepalive u\<rparr> else i);
          i = (if keepalive i = 0 then i\<lparr>keepalive := 120\<rparr> else i);
          i = (if u_disable_keepalive u then i\<lparr>keepalive := 0\<rparr> else i)
      in if u_protocol_ver u \<noteq> MQTT_PROTOCOL_UNDEFINED then i\<lparr>protocol_ver := u_protocol_ver u\<rparr> else i)"

text \<open>The build has protocol 3.1.1 and not 5.\<close>
definition set_protocol :: "'w step" where
  "set_protocol s =
     (case protocol_ver (information s) of
        MQTT_PROTOCOL_UNDEFINED \<Rightarrow> Inr (True, put_info (\<lambda>i. i\<lparr>protocol_ver := MQTT_PROTOCOL_V_3_1_1\<rparr>) s)
      | MQTT_PROTOCOL_V_5 \<Rightarrow> Inr (False, s)
      | _ \<Rightarrow> Inr (True, s))"

definition set_network :: "esp_mqtt_client_config \<Rightarrow> mqtt_config \<Rightarrow> mqtt_config" where
  "set_network u c =
     c\<lparr>network_timeout_ms := (if u_timeout_ms u \<le> 0 then 10000 else u_timeout_ms u),
       refresh_connection_after_ms := (if u_refresh_connection_after_ms u \<noteq> 0 then u_refresh_connection_after_ms u else refresh_connection_after_ms c),
       auto_reconnect := \<not> u_disable_auto_reconnect u,
       reconnect_timeout_ms := (if u_reconnect_timeout_ms u \<noteq> 0 then u_reconnect_timeout_ms u else 10000),
       own_transport := u_own_transport u\<rparr>"

definition set_if_name :: "'w platform \<Rightarrow> esp_mqtt_client_config \<Rightarrow> 'w step" where
  "set_if_name P u s =
     (case u_if_name u of None \<Rightarrow> Inr (True, s)
      | Some b \<Rightarrow> bnd (strdup P b s) (\<lambda>copy s. Inr (copy \<noteq> None, put_config (if_name_update (\<lambda>_. copy)) s)))"

text \<open>The array of the protocols, then one copy after the other; what is copied before a failure stays.\<close>
primrec copy_strings :: "'w platform \<Rightarrow> bytes list \<Rightarrow> bytes list \<Rightarrow> 'w step" where
  "copy_strings P [] acc s = Inr (True, put_config (alpn_protos_update (\<lambda>_. Some acc)) s)"
| "copy_strings P (x # xs) acc s =
     bnd (strdup P x s) (\<lambda>copy s.
       case copy of
         None \<Rightarrow> Inr (False, put_config (alpn_protos_update (\<lambda>_. Some acc)) s)
       | Some b \<Rightarrow> copy_strings P xs (acc @ [b]) s)"

definition set_alpn :: "'w platform \<Rightarrow> esp_mqtt_client_config \<Rightarrow> 'w step" where
  "set_alpn P u s =
     (case u_alpn_protos u of None \<Rightarrow> Inr (True, s)
      | Some ps \<Rightarrow>
          bnd (has_memory P (put_config (num_alpn_protos_update (\<lambda>_. length ps)) s)) (\<lambda>good s.
            if \<not> good then Inr (False, put_config (alpn_protos_update (\<lambda>_. None)) s) else copy_strings P ps [] s))"

definition set_tls :: "esp_mqtt_client_config \<Rightarrow> mqtt_config \<Rightarrow> mqtt_config" where
  "set_tls u c =
     c\<lparr>use_global_ca_store := u_use_global_ca_store u, cacert_buf := u_certificate u, cacert_bytes := u_certificate_len u,
       psk_hint_key := u_psk_hint_key u, crt_bundle_attach := u_crt_bundle_attach u, ciphersuites_list := u_ciphersuites_list u,
       clientcert_buf := u_auth_certificate u, clientcert_bytes := u_auth_certificate_len u, clientkey_buf := u_key u,
       clientkey_bytes := u_key_len u, skip_cert_common_name_check := u_skip_cert_common_name_check u, common_name := u_common_name u,
       use_secure_element := u_use_secure_element u, ds_data := u_ds_data u, use_ecdsa_peripheral := u_use_ecdsa_peripheral u,
       ecdsa_key_efuse_blk := u_ecdsa_key_efuse_blk u\<rparr>"

definition set_key_password :: "'w platform \<Rightarrow> esp_mqtt_client_config \<Rightarrow> 'w step" where
  "set_key_password P u s =
     (case u_key_password u of
        None \<Rightarrow> Inr (True, s)
      | Some b \<Rightarrow>
          if u_key_password_len u = 0 then Inr (True, s)
          else
            bnd (has_memory P (put_config (clientkey_password_len_update (\<lambda>_. u_key_password_len u)) s)) (\<lambda>good s.
              if \<not> good then Inr (False, put_config (clientkey_password_update (\<lambda>_. None)) s)
              else if length b < sz (u_key_password_len u) then Inl Overrun
              else Inr (True, put_config (clientkey_password_update (\<lambda>_. Some (take (sz (u_key_password_len u)) b))) s)))"

definition scheme_text :: "esp_mqtt_transport \<Rightarrow> bytes" where
  "scheme_text t =
     (case t of MQTT_TRANSPORT_UNKNOWN \<Rightarrow> [] | MQTT_TRANSPORT_OVER_TCP \<Rightarrow> lit ''mqtt'' | MQTT_TRANSPORT_OVER_SSL \<Rightarrow> lit ''mqtts''
      | MQTT_TRANSPORT_OVER_WS \<Rightarrow> lit ''ws'' | MQTT_TRANSPORT_OVER_WSS \<Rightarrow> lit ''wss'')"

definition set_scheme :: "'w platform \<Rightarrow> esp_mqtt_client_config \<Rightarrow> 'w step" where
  "set_scheme P u s =
     (if u_transport u = MQTT_TRANSPORT_UNKNOWN then Inr (True, s)
      else bnd (create_string P (scheme_text (u_transport u)) (0, length (scheme_text (u_transport u))) s) (\<lambda>copy s.
        Inr (copy \<noteq> None, put_config (scheme_update (\<lambda>_. copy)) s)))"

text \<open>The steps for which the error label returns \<open>ESP_ERR_NO_MEM\<close>.\<close>
definition field_steps :: "'w platform \<Rightarrow> esp_mqtt_client_config \<Rightarrow> 'w step list" where
  "field_steps P u =
       [\<lambda>s. Inr (True, put_config (set_basic u) s),
        esp_mqtt_set_if_config P (u_hostname u) (\<lambda>x. put_config (host_update (\<lambda>_. x))),
        esp_mqtt_set_if_config P (u_path u) (\<lambda>x. put_config (path_update (\<lambda>_. x))),
        esp_mqtt_set_if_config P (u_username u) (\<lambda>x. put_info (username_update (\<lambda>_. x))),
        esp_mqtt_set_if_config P (u_password u) (\<lambda>x. put_info (password_update (\<lambda>_. x))),
        set_client_id P u,
        esp_mqtt_set_if_config P (u_uri u) (\<lambda>x. put_config (uri_update (\<lambda>_. x))),
        esp_mqtt_set_if_config P (u_will_topic u) (\<lambda>x. put_info (will_topic_update (\<lambda>_. x))),
        set_will P u,
        \<lambda>s. Inr (True, put_info (set_session u) s),
        set_protocol,
        \<lambda>s. Inr (True, put_config (set_network u) s),
        set_if_name P u,
        set_alpn P u,
        \<lambda>s. Inr (True, put_config (set_tls u) s),
        set_key_password P u,
        set_scheme P u]"

definition set_fields :: "'w platform \<Rightarrow> esp_mqtt_client_config \<Rightarrow> 'w step" where
  "set_fields P u = steps (field_steps P u)"

text \<open>A failure in \<open>set_buffers\<close> reaches the label with \<open>err = ESP_OK\<close>, as in the code.\<close>
definition esp_mqtt_set_config ::
  "'w platform \<Rightarrow> (bytes \<Rightarrow> url_fields option) \<Rightarrow> esp_mqtt_client_config \<Rightarrow> 'w client \<Rightarrow> fault + esp_err \<times> 'w client" where
  "esp_mqtt_set_config P parse_url u s =
     bnd (if configured s then Inr (True, s)
          else bnd (has_memory P s) (\<lambda>good s. Inr (good, if good then s\<lparr>configured := True, config := empty_config\<rparr> else s))) (\<lambda>good s.
       if \<not> good then Inr (ESP_ERR_NO_MEM, s)
       else bnd (set_buffers P u s) (\<lambda>good s.
         if \<not> good then failed ESP_OK s
         else bnd (set_fields P u s) (\<lambda>good s.
           if \<not> good then failed ESP_ERR_NO_MEM s
           else bnd (case (u_uri u, uri (config s)) of
                       (Some _, Some text) \<Rightarrow> esp_mqtt_client_set_uri P parse_url text s
                     | _ \<Rightarrow> Inr (ESP_OK, s)) (\<lambda>r s.
             if r \<noteq> ESP_OK then failed ESP_FAIL s
             else (let s = put_config (outbox_limit_update (\<lambda>_. u_limit u)) s in Inr (esp_mqtt_check_cfg_conflict (config s) u, s))))))"

section \<open>Creation and destruction\<close>

definition empty_event :: mqtt_event where
  "empty_event =
     \<lparr>event_id = MQTT_EVENT_ERROR, ev_data = None, data_len = 0, total_data_len = 0, current_data_offset = 0, ev_topic = None,
      topic_len = 0, ev_msg_id = 0, session_present = 0, error_type = MQTT_ERROR_TYPE_NONE, connect_return_code = 0, ev_retain = False,
      ev_qos = 0, ev_dup = False\<rparr>"

text \<open>The zeroed struct. How message ids are made is a build option, the entropy is that of the platform.\<close>
definition empty_client :: "bool \<Rightarrow> nat list \<Rightarrow> 'w \<Rightarrow> 'w client" where
  "empty_client incremental random w =
     \<lparr>configured = False, buffers_freed = False, config = empty_config, transport_list = None, in_buffer = [], in_buffer_length = 0,
      message_length = 0, in_buffer_read_len = 0,
      connection = \<lparr>outbound = \<lparr>m_data = 0, m_length = 0, m_frag_total = 0, m_frag_offset = 0\<rparr>, id_incremental = incremental, last_message_id = 0,
        entropy = random, cbuffer = [], cbuffer_length = 0\<rparr>,
      information = empty_info, out_item = None, pending_msg_id = 0, pending_msg_type = 0, pending_publish_qos = 0,
      state = MQTT_STATE_INIT, refresh_connection_tick = 0, keepalive_tick = 0, reconnect_tick = 0, wait_timeout_ms = 0,
      event = empty_event, run = False, wait_for_ping_resp = False, outbox_of = \<lparr>size_of = 0, items = []\<rparr>, stopped_bit = False,
      reconnect_bit = False, disconnect_bit = False, last_retransmit = 0, world = w\<rparr>"

text \<open>The error handle, the lock, the outbox with its list head, and the event group.\<close>
definition create_client_data :: "'w platform \<Rightarrow> 'w step" where
  "create_client_data P =
     steps [has_memory P, has_memory P,
       \<lambda>s. bnd (has_memory P s) (\<lambda>good s. if \<not> good then Inr (False, s) else bnd (has_memory P s) (\<lambda>list_good s.
         case outbox_init good list_good of None \<Rightarrow> Inr (False, s) | Some ob \<Rightarrow> Inr (True, s\<lparr>outbox_of := ob\<rparr>))),
       has_memory P]"

text \<open>The value is the world afterwards.\<close>
definition esp_mqtt_client_destroy :: "'w platform \<Rightarrow> 'w client \<Rightarrow> fault + esp_err \<times> 'w" where
  "esp_mqtt_client_destroy P s =
     (case if run s then esp_mqtt_client_stop P False s else Inr (ESP_OK, s) of
        Inl f \<Rightarrow> Inl f
      | Inr (_, s) \<Rightarrow> (case esp_mqtt_destroy_config s of Inl f \<Rightarrow> Inl f | Inr (_, s) \<Rightarrow> Inr (ESP_OK, world s)))"

definition init_ticks :: "'w platform \<Rightarrow> 'w client \<Rightarrow> 'w client" where
  "init_ticks P s =
     (let (t1, s) = get_tick P s; (t2, s) = get_tick P s; (t3, s) = get_tick P s
      in s\<lparr>keepalive_tick := t1, reconnect_tick := t2, refresh_connection_tick := t3, wait_for_ping_resp := False\<rparr>)"

text \<open>
  \<open>esp_event_loop_create\<close> gets the address of the first member of the configuration and makes the loop there. Without a configuration that address
  is null, which it rejects; the result is not looked at.
\<close>
definition esp_mqtt_client_init ::
  "bool \<Rightarrow> nat list \<Rightarrow> 'w platform \<Rightarrow> (bytes \<Rightarrow> url_fields option) \<Rightarrow> esp_mqtt_client_config \<Rightarrow> 'w \<Rightarrow> fault + 'w client option \<times> 'w" where
  "esp_mqtt_client_init incremental random P parse_url u w =
     (case mem_ok P w of
        (False, w) \<Rightarrow> Inr (None, w)
      | (True, w) \<Rightarrow>
          (case create_client_data P (empty_client incremental random w) of
             Inl f \<Rightarrow> Inl f
           | Inr (False, s) \<Rightarrow> (case esp_mqtt_client_destroy P s of Inl f \<Rightarrow> Inl f | Inr (_, w) \<Rightarrow> Inr (None, w))
           | Inr (True, s) \<Rightarrow>
               (case esp_mqtt_set_config P parse_url u s of
                  Inl f \<Rightarrow> Inl f
                | Inr (r, s) \<Rightarrow>
                    if r \<noteq> ESP_OK then (case esp_mqtt_client_destroy P s of Inl f \<Rightarrow> Inl f | Inr (_, w) \<Rightarrow> Inr (None, w))
                    else (let s = init_ticks P (if configured s then put_config (event_loop_handle_update (\<lambda>_. True)) s else s)
                          in Inr (Some s, world s)))))"

text \<open>The handle is read from the configuration; \<open>register\<close> is the function of the event library.\<close>
definition esp_mqtt_client_register_event :: "(bool \<Rightarrow> esp_err) \<Rightarrow> 'w client \<Rightarrow> fault + esp_err" where
  "esp_mqtt_client_register_event register s =
     (if \<not> configured s then Inl Null_Pointer else Inr (register (event_loop_handle (config s))))"

end
