(* ===== verification/Mqtt_Init_Correct.thy ===== *)
theory Mqtt_Init_Correct
  imports Mqtt_Init Mqtt_Publish
begin

text \<open>
  What a configured client looks like, and what happens when the memory runs out while it is configured.
\<close>

section \<open>What the steps keep\<close>

text \<open>A step of the configuration that only touches the settings.\<close>
definition only_settings :: "'w client \<Rightarrow> 'w client \<Rightarrow> bool" where
  "only_settings s s' \<longleftrightarrow> s' = s\<lparr>config := config s', information := information s', world := world s'\<rparr>"

lemma only_settings_refl [simp]: "only_settings s s"
  by (simp add: only_settings_def)

lemma only_settings_put [simp]: "only_settings s (put_config f s)" "only_settings s (put_info g s)" "only_settings s (s\<lparr>world := w\<rparr>)"
  by (simp_all add: only_settings_def put_config_def put_info_def)

lemma only_settings_trans: "only_settings s t \<Longrightarrow> only_settings t u \<Longrightarrow> only_settings s u"
  unfolding only_settings_def by (cases s; cases t; cases u) simp

lemma only_settings_put_trans [simp]: "only_settings s t \<Longrightarrow> only_settings s (put_config f t)" "only_settings s t \<Longrightarrow> only_settings s (put_info g t)"
  by (auto intro: only_settings_trans)

lemma only_settings_sel:
  assumes "only_settings s t"
  shows "connection t = connection s" "in_buffer t = in_buffer s" "in_buffer_length t = in_buffer_length s" "configured t = configured s"
    "buffers_freed t = buffers_freed s" "state t = state s" "run t = run s" "outbox_of t = outbox_of s"
  by (subst assms [unfolded only_settings_def], simp)+

lemma only_settings_moves: "only_settings s t \<Longrightarrow> moves only_settings t r \<Longrightarrow> moves only_settings s r"
  by (auto simp: moves_def ok_def intro: only_settings_trans)

text \<open>A step that also leaves the timeouts and the protocol alone.\<close>
definition only_texts :: "'w client \<Rightarrow> 'w client \<Rightarrow> bool" where
  "only_texts s s' \<longleftrightarrow> only_settings s s' \<and> network_timeout_ms (config s') = network_timeout_ms (config s)
     \<and> message_retransmit_timeout (config s') = message_retransmit_timeout (config s)
     \<and> reconnect_timeout_ms (config s') = reconnect_timeout_ms (config s) \<and> protocol_ver (information s') = protocol_ver (information s)"

lemma only_texts_refl [simp]: "only_texts s s"
  and only_texts_world [simp]: "only_texts s (s\<lparr>world := w\<rparr>)"
  by (simp_all add: only_texts_def)

lemma only_texts_trans: "only_texts s t \<Longrightarrow> only_texts t u \<Longrightarrow> only_texts s u"
  by (auto simp: only_texts_def intro: only_settings_trans)

lemma put_sel [simp]: "config (put_config f s) = f (config s)" "information (put_config f s) = information s"
  "information (put_info g s) = g (information s)" "config (put_info g s) = config s"
  by (simp_all add: put_config_def put_info_def)

lemma only_texts_put:
  "only_texts s t \<Longrightarrow> network_timeout_ms (f (config t)) = network_timeout_ms (config t) \<Longrightarrow>
     message_retransmit_timeout (f (config t)) = message_retransmit_timeout (config t) \<Longrightarrow>
     reconnect_timeout_ms (f (config t)) = reconnect_timeout_ms (config t) \<Longrightarrow> only_texts s (put_config f t)"
  "only_texts s t \<Longrightarrow> protocol_ver (g (information t)) = protocol_ver (information t) \<Longrightarrow> only_texts s (put_info g t)"
  by (auto simp: only_texts_def intro: only_settings_trans)

lemma only_texts_moves: "only_texts s t \<Longrightarrow> moves only_texts t r \<Longrightarrow> moves only_texts s r"
  by (auto simp: moves_def ok_def intro: only_texts_trans)

lemma texts_settings: "moves only_texts s r \<Longrightarrow> moves only_settings s r"
  by (auto simp: moves_def ok_def only_texts_def)

lemma moves_memory: "moves only_texts s (has_memory P s)"
  by (auto simp: has_memory_def split: prod.splits)

lemma moves_strdup: "moves only_texts s (strdup P x s)"
  unfolding strdup_def by (auto intro!: moves_bnd [OF moves_memory])

lemma moves_create_string: "moves only_texts s (create_string P x r s)"
  unfolding create_string_def by (auto intro!: moves_bnd [OF moves_memory] split: prod.splits)

lemma moves_id_string: "moves only_texts s (platform_create_id_string P s)"
  unfolding platform_create_id_string_def by (auto intro!: moves_bnd [OF moves_memory])

lemmas moves_text = moves_bnd [OF moves_strdup] moves_bnd [OF moves_create_string] moves_bnd [OF moves_id_string] moves_bnd [OF moves_memory]

lemma moves_if_config:
  assumes "\<And>c t. only_texts t (put c t)"
  shows "moves only_texts s (esp_mqtt_set_if_config P x put s)"
  unfolding esp_mqtt_set_if_config_def by (auto intro!: moves_text intro: only_texts_trans [OF _ assms] split: option.splits)

lemma moves_client_id: "moves only_texts s (set_client_id P u s)"
  unfolding set_client_id_def by (auto intro!: moves_text moves_if_config only_texts_put)

lemma moves_will: "moves only_texts s (set_will P u s)"
  unfolding set_will_def by (auto intro!: moves_text moves_lft only_texts_put split: option.splits)

lemma moves_copies: "moves only_texts s (copy_strings P xs acc s)"
proof (induction xs arbitrary: acc s)
  case (Cons x xs)
  show ?case by (auto intro!: moves_text only_texts_moves [OF _ Cons.IH] only_texts_put split: option.splits)
qed (auto intro!: only_texts_put)

lemma moves_alpn: "moves only_texts s (set_alpn P u s)"
  unfolding set_alpn_def
  by (auto intro!: moves_bnd [OF only_texts_moves [OF _ moves_memory]] only_texts_moves [OF _ moves_copies] only_texts_put split: option.splits)

lemma moves_key_password: "moves only_texts s (set_key_password P u s)"
  unfolding set_key_password_def
  by (auto intro!: moves_bnd [OF only_texts_moves [OF _ moves_memory]] only_texts_put split: option.splits)

lemma moves_set_path: "moves only_texts s (set_path P x u s)"
  unfolding set_path_def by (auto intro!: moves_text only_texts_put)

lemma moves_user_info: "moves only_texts s (set_user_info P x u s)"
  unfolding set_user_info_def Let_def
  by (auto intro!: moves_text moves_bnd only_texts_moves [OF _ moves_strdup] only_texts_put split: option.splits)

lemma moves_set_uri: "moves only_texts s (esp_mqtt_client_set_uri P pu x s)"
  unfolding esp_mqtt_client_set_uri_def
  by (auto intro!: moves_text moves_bnd [OF only_texts_moves [OF _ moves_create_string]] moves_bnd [OF only_texts_moves [OF _ moves_set_path]]
      moves_bnd [OF only_texts_moves [OF _ moves_user_info]] only_texts_put split: option.splits)

text \<open>The steps that only copy texts.\<close>
definition text_step :: "'w step \<Rightarrow> bool" where
  "text_step f \<longleftrightarrow> (\<forall>s. moves only_texts s (f s))"

lemma text_steps:
  "text_step (esp_mqtt_set_if_config P x (\<lambda>x. put_config (host_update (\<lambda>_. x))))"
  "text_step (esp_mqtt_set_if_config P x (\<lambda>x. put_config (path_update (\<lambda>_. x))))"
  "text_step (esp_mqtt_set_if_config P x (\<lambda>x. put_config (uri_update (\<lambda>_. x))))"
  "text_step (esp_mqtt_set_if_config P x (\<lambda>x. put_info (username_update (\<lambda>_. x))))"
  "text_step (esp_mqtt_set_if_config P x (\<lambda>x. put_info (password_update (\<lambda>_. x))))"
  "text_step (esp_mqtt_set_if_config P x (\<lambda>x. put_info (will_topic_update (\<lambda>_. x))))"
  "text_step (set_client_id P u)" "text_step (set_will P u)" "text_step (set_alpn P u)" "text_step (set_key_password P u)"
  "text_step (set_if_name P u)" "text_step (set_scheme P u)" "text_step (\<lambda>s. Inr (True, put_config (set_tls u) s))"
  by (auto simp: text_step_def set_if_name_def set_scheme_def set_tls_def intro!: moves_if_config moves_client_id moves_will moves_alpn
      moves_key_password moves_text only_texts_put split: option.splits)

lemma text_step_sel: "text_step f \<Longrightarrow> f s = Inr (b, s') \<Longrightarrow> only_texts s s'"
  unfolding text_step_def moves_def ok_def by blast

lemmas text_sels = text_steps [THEN text_step_sel]

lemma text_step_settings: "text_step f \<Longrightarrow> moves only_settings s (f s)"
  by (simp add: text_step_def texts_settings)

lemma moves_steps: "(\<And>f s. f \<in> set fs \<Longrightarrow> moves only_settings s (f s)) \<Longrightarrow> moves only_settings s (steps fs s)"
proof (induction fs arbitrary: s)
  case (Cons f fs)
  have rec: "moves only_settings s (steps fs t)" if "only_settings s t" for t
    using Cons that by (intro only_settings_moves [OF that]) auto
  show ?case using Cons.prems by (auto intro!: moves_bnd rec)
qed simp

lemma moves_fields: "moves only_settings s (set_fields P u s)"
  unfolding set_fields_def field_steps_def
  by (rule moves_steps)
    (auto intro: text_steps [THEN text_step_settings] simp: set_protocol_def split: protocol_ver.splits)

section \<open>A configured client\<close>

text \<open>The settings on which the task relies.\<close>
definition settings_wf :: "'w client \<Rightarrow> bool" where
  "settings_wf s \<longleftrightarrow> 0 < network_timeout_ms (config s) \<and> 0 < message_retransmit_timeout (config s) \<and> reconnect_timeout_ms (config s) \<noteq> 0
     \<and> protocol_ver (information s) \<in> {MQTT_PROTOCOL_V_3_1, MQTT_PROTOCOL_V_3_1_1}"

lemma steps_append: "steps (fs @ gs) s = bnd (steps fs s) (\<lambda>good s. if good then steps gs s else Inr (False, s))"
  by (induction fs arbitrary: s) (auto simp: bnd_def split: sum.splits)

text \<open>A property that the steps of a list keep.\<close>
lemma steps_keep:
  assumes "\<And>f s s'. f \<in> set fs \<Longrightarrow> I s \<Longrightarrow> f s = Inr (True, s') \<Longrightarrow> I s'" and "I s" and "steps fs s = Inr (True, s')"
  shows "I s'"
  using assms by (induction fs arbitrary: s) (auto simp: bnd_def split: sum.splits if_splits prod.splits)

lemma steps_after:
  "steps (fs @ f # gs) s = Inr (True, s') \<Longrightarrow> \<exists>t t'. f t = Inr (True, t') \<and> steps gs t' = Inr (True, s')"
  by (induction fs arbitrary: s) (auto simp: bnd_def split: sum.splits if_splits prod.splits)

text \<open>What one step establishes and the later ones keep.\<close>
lemma fields_establish:
  assumes "set_fields P u s = Inr (True, s')" and "n < length (field_steps P u)"
    and "\<And>t t'. (field_steps P u ! n) t = Inr (True, t') \<Longrightarrow> I t'"
    and "\<And>g t t'. g \<in> set (drop (Suc n) (field_steps P u)) \<Longrightarrow> I t \<Longrightarrow> g t = Inr (True, t') \<Longrightarrow> I t'"
  shows "I s'"
proof -
  have "steps (take n (field_steps P u) @ field_steps P u ! n # drop (Suc n) (field_steps P u)) s = Inr (True, s')"
    using assms(1) id_take_nth_drop [OF assms(2)] by (simp add: set_fields_def)
  from steps_after [OF this] obtain t t' where
    "(field_steps P u ! n) t = Inr (True, t')" "steps (drop (Suc n) (field_steps P u)) t' = Inr (True, s')" by blast
  then show ?thesis using steps_keep [of "drop (Suc n) (field_steps P u)" I t' s'] assms(3,4) by blast
qed

lemma set_protocol_sel:
  assumes "set_protocol s = Inr (True, s')"
  shows "protocol_ver (information s') \<in> {MQTT_PROTOCOL_V_3_1, MQTT_PROTOCOL_V_3_1_1}" and "config s' = config s"
  using assms by (auto simp: set_protocol_def split: protocol_ver.splits)

lemma fields_retransmit:
  assumes "set_fields P u s = Inr (True, s')"
  shows "0 < message_retransmit_timeout (config s')"
  by (rule fields_establish [OF assms, of 0])
    (auto simp: field_steps_def set_basic_def set_network_def set_tls_def only_texts_def set_protocol_sel dest!: text_sels)

lemma fields_protocol:
  assumes "set_fields P u s = Inr (True, s')"
  shows "protocol_ver (information s') \<in> {MQTT_PROTOCOL_V_3_1, MQTT_PROTOCOL_V_3_1_1}"
  by (rule fields_establish [OF assms, of 10])
    (auto simp: field_steps_def only_texts_def dest: set_protocol_sel(1) dest!: text_sels)

lemma fields_network:
  assumes "set_fields P u s = Inr (True, s')"
  shows "0 < network_timeout_ms (config s') \<and> reconnect_timeout_ms (config s') \<noteq> 0"
  by (rule fields_establish [OF assms, of 11])
    (auto simp: field_steps_def set_network_def set_tls_def only_texts_def dest!: text_sels)

text \<open>The allocator returns blocks of the size asked for.\<close>
definition blocks_sized :: "'w platform \<Rightarrow> bool" where
  "blocks_sized P \<longleftrightarrow> (\<forall>n w h raw w'. allocate P n w = ((h, Some raw), w') \<longrightarrow> length raw = n)"

text \<open>Buffer sizes that are left to the default, or within the range of the remaining length.\<close>
definition sizes_ok :: "esp_mqtt_client_config \<Rightarrow> bool" where
  "sizes_ok u \<longleftrightarrow> (u_size u \<le> 0 \<or> u_size u \<in> {5..268435456}) \<and> (u_out_size u \<le> 0 \<or> u_out_size u \<in> {5..268435456})"

definition client_wf :: "'w client \<Rightarrow> bool" where
  "client_wf s \<longleftrightarrow> conn_wf (connection s) \<and> in_wf s \<and> settings_wf s \<and> m_frag_offset (outbound (connection s)) = 0"

lemma buffers_wf:
  assumes "set_buffers P u s = Inr (True, s')" and "sizes_ok u" and "blocks_sized P"
  shows "conn_wf (connection s') \<and> in_wf s' \<and> m_frag_offset (outbound (connection s')) = 0"
proof -
  define n where "n = (if u_size u \<le> 0 then 1024 else u_size u)"
  define k where "k = (if u_out_size u > 0 then u_out_size u else n)"
  have r: "5 \<le> n" "n \<le> 268435456" "5 \<le> k" "k \<le> 268435456" using assms(2) by (auto simp: sizes_ok_def n_def k_def)
  then have z: "sz n = nat n" "sz k = nat k" by (simp_all add: sz_def)
  have raw: "length x = nat n" if "allocate P (nat n) w = ((h, Some x), w')" for h x w w' using assms(3) that unfolding blocks_sized_def by blast
  show ?thesis
    using assms(1) r z unfolding set_buffers_def n_def [symmetric] Let_def k_def [symmetric]
    by (auto simp: bnd_def has_memory_def mqtt_msg_buffer_init_def Let_def conn_wf_def in_wf_def dest!: raw split: if_splits prod.splits option.splits)
qed

lemma only_settings_wf:
  assumes "only_settings s t"
  shows "conn_wf (connection t) = conn_wf (connection s)" and "in_wf t = in_wf s"
    and "m_frag_offset (outbound (connection t)) = m_frag_offset (outbound (connection s))"
  using only_settings_sel [OF assms] by (simp_all add: in_wf_def)

lemma failed_not_configured: "failed e s = Inr (r, s') \<Longrightarrow> \<not> configured s'"
  by (auto simp: failed_def esp_mqtt_destroy_config_def bnd_def split: if_splits)

text \<open>
  C36. A client that \<open>esp_mqtt_set_config\<close> has configured is well-formed, when each buffer size given by the user is either not positive (the default)
  or from 5 to 2^28 (\<open>sizes_ok\<close>): both buffers have the length that is
  recorded for them, the network and the retransmission timeout are positive, the reconnection timeout is not zero, the protocol is 3.1 or 3.1.1
  and no fragment is pending; the operations of the client rely on exactly this.
\<close>
theorem set_config_wf:
  assumes "esp_mqtt_set_config P parse_url u s = Inr (ESP_OK, s')" and "configured s'" and "sizes_ok u" and "blocks_sized P"
  shows "client_wf s'"
proof -
  obtain s0 s1 s2 s3 where
    b: "set_buffers P u s0 = Inr (True, s1)" and f: "set_fields P u s1 = Inr (True, s2)"
    and r: "(case (u_uri u, uri (config s2)) of (Some _, Some text) \<Rightarrow> esp_mqtt_client_set_uri P parse_url text s2 | _ \<Rightarrow> Inr (ESP_OK, s2)) = Inr (ESP_OK, s3)"
    and s': "s' = put_config (outbox_limit_update (\<lambda>_. u_limit u)) s3"
    using assms(1,2)
    by (auto simp: esp_mqtt_set_config_def bnd_def Let_def dest: failed_not_configured split: sum.splits prod.splits if_splits)
  have o: "only_settings s1 s2" using moves_fields [of s1 P u] f by simp
  have t: "only_texts s2 s3"
    using r moves_set_uri [of s2 P parse_url] by (auto simp: moves_def ok_def split: option.splits)
  have "only_settings s1 s'" using o t by (auto simp: s' only_texts_def intro: only_settings_trans)
  note w = only_settings_wf [OF this]
  have "settings_wf s'"
    using fields_retransmit [OF f] fields_network [OF f] fields_protocol [OF f] t by (simp add: settings_wf_def s' only_texts_def)
  then show ?thesis using buffers_wf [OF b assms(3,4)] by (simp add: client_wf_def w)
qed

section \<open>Out of memory\<close>

lemma has_memory_run: "fst (mem_ok P (world s)) \<Longrightarrow> has_memory P s = Inr (True, s\<lparr>world := snd (mem_ok P (world s))\<rparr>)"
  by (cases "mem_ok P (world s)") (simp add: has_memory_def)

lemma has_memory_fails: "\<not> fst (mem_ok P (world s)) \<Longrightarrow> has_memory P s = Inr (False, s\<lparr>world := snd (mem_ok P (world s))\<rparr>)"
  by (cases "mem_ok P (world s)") (simp add: has_memory_def)

lemma bnd_run [simp]: "bnd (Inr (a, s)) k = k a s" "bnd (Inl f) k = Inl f"
  by (simp_all add: bnd_def)

lemma client_data_run:
  assumes "\<And>w. fst (mem_ok P w)"
  shows "\<exists>w'. create_client_data P (empty_client incremental random w) = Inr (True, empty_client incremental random w')"
  using assms by (simp add: create_client_data_def has_memory_run outbox_init_def empty_client_def)

text \<open>The ticks leave the configuration alone.\<close>
lemma init_ticks_configured [simp]: "configured (init_ticks P s) = configured s"
  by (simp add: init_ticks_def get_tick_def case_prod_beta Let_def)

text \<open>
  When there is memory for everything but the receive buffer, the failure gets lost: \<open>esp_mqtt_set_config\<close> destroys the configuration but
  returns \<open>ESP_OK\<close>, because \<open>err\<close> has not been set yet when it jumps to its error label, and
  \<open>esp_mqtt_client_init\<close> returns a client without a configuration instead of null.
\<close>
lemma init_out_of_memory_unconfigured:
  assumes "\<And>w. fst (mem_ok P w)" and "\<And>n w. snd (fst (allocate P n w)) = None"
  shows "\<exists>s w'. esp_mqtt_client_init incremental random P parse_url u w = Inr (Some s, w') \<and> \<not> configured s"
proof -
  obtain w1 where w1: "mem_ok P w = (True, w1)" using assms(1) [of w] by (cases "mem_ok P w") auto
  obtain w2 where w2: "create_client_data P (empty_client incremental random w1) = Inr (True, empty_client incremental random w2)"
    using client_data_run [OF assms(1)] by blast
  have no: "\<exists>h w'. allocate P n w = ((h, None), w')" for n w using assms(2) [of n w] by (cases "allocate P n w") (auto simp: prod_eq_iff)
  define s where "s = (empty_client incremental random w2)\<lparr>configured := True, world := snd (mem_ok P w2)\<rparr>"
  have "configured s" "\<not> buffers_freed s" "num_alpn_protos (config s) = 0" by (simp_all add: s_def empty_client_def empty_config_def)
  obtain h w3 where "allocate P (sz (if u_size u \<le> 0 then 1024 else u_size u)) (snd (mem_ok P (world s))) = ((h, None), w3)" using no by blast
  then have "\<exists>t. set_buffers P u s = Inr (False, t) \<and> configured t \<and> num_alpn_protos (config t) = 0"
    using \<open>configured s\<close> \<open>\<not> buffers_freed s\<close> \<open>num_alpn_protos (config s) = 0\<close> assms(1)
    by (simp add: set_buffers_def has_memory_run mqtt_msg_buffer_init_def Let_def)
  then obtain t where t: "set_buffers P u s = Inr (False, t)" "configured t" "num_alpn_protos (config t) = 0" by blast
  have "esp_mqtt_set_config P parse_url u (empty_client incremental random w2) = bnd (set_buffers P u s) (\<lambda>good s.
      if \<not> good then failed ESP_OK s else bnd (set_fields P u s) (\<lambda>good s. if \<not> good then failed ESP_ERR_NO_MEM s else
        bnd (case (u_uri u, uri (config s)) of (Some _, Some text) \<Rightarrow> esp_mqtt_client_set_uri P parse_url text s | _ \<Rightarrow> Inr (ESP_OK, s)) (\<lambda>r s.
          if r \<noteq> ESP_OK then failed ESP_FAIL s
          else (let s = put_config (outbox_limit_update (\<lambda>_. u_limit u)) s in Inr (esp_mqtt_check_cfg_conflict (config s) u, s)))))"
    using assms(1) by (simp add: esp_mqtt_set_config_def has_memory_run s_def empty_client_def)
  then have "\<exists>s'. esp_mqtt_set_config P parse_url u (empty_client incremental random w2) = Inr (ESP_OK, s') \<and> \<not> configured s'"
    using t by (simp add: failed_def esp_mqtt_destroy_config_def)
  then show ?thesis by (auto simp: esp_mqtt_client_init_def w1 w2 Let_def)
qed

text \<open>
  After a failed \<open>esp_mqtt_set_config\<close> the client still points to the buffers that its error label freed. The next call, which would
  configure it anew, frees them a second time.
\<close>
lemma set_config_again_double_free:
  assumes "failed e s = Inr (r, s')" and "configured s" and "fst (mem_ok P (world s'))"
  shows "esp_mqtt_set_config P parse_url u s' = Inl Double_Free"
proof -
  have "\<not> configured s'" "buffers_freed s'" using assms(1,2) by (auto simp: failed_def esp_mqtt_destroy_config_def split: if_splits)
  then show ?thesis using assms(3) by (simp add: esp_mqtt_set_config_def has_memory_run set_buffers_def)
qed

lemma set_config_again_double_free_witness:
  "\<exists>s'. failed ESP_ERR_NO_MEM (sample_client 16 MQTT_STATE_INIT ()) = Inr (ESP_ERR_NO_MEM, s')
     \<and> esp_mqtt_set_config quiet_platform (\<lambda>_. None) empty_user_config s' = Inl Double_Free"
proof -
  obtain s' where s: "failed ESP_ERR_NO_MEM (sample_client 16 MQTT_STATE_INIT ()) = Inr (ESP_ERR_NO_MEM, s')"
    by (simp add: failed_def esp_mqtt_destroy_config_def sample_client_def empty_config_def)
  have "configured (sample_client 16 MQTT_STATE_INIT ())" by (simp add: sample_client_def)
  from set_config_again_double_free [OF s this, of quiet_platform "\<lambda>_. None" empty_user_config] s show ?thesis by (simp add: quiet_platform_def)
qed

text \<open>
  When the array for the ALPN protocols cannot be allocated, their number has been stored already, and the cleanup walks over the null
  pointer.
\<close>
lemma alpn_out_of_memory_crashes:
  assumes "u_alpn_protos u = Some ps" and "ps \<noteq> []" and "configured s" and "\<not> fst (mem_ok P (world s))"
  shows "\<exists>s'. set_alpn P u s = Inr (False, s') \<and> failed ESP_ERR_NO_MEM s' = Inl Null_Pointer"
  using assms by (simp add: set_alpn_def has_memory_fails put_config_def failed_def esp_mqtt_destroy_config_def)

lemma alpn_out_of_memory_crashes_witness:
  "\<exists>s'. set_alpn (quiet_platform\<lparr>mem_ok := \<lambda>w. (False, w)\<rparr>) (empty_user_config\<lparr>u_alpn_protos := Some [lit ''mqtt'']\<rparr>) (sample_client 16 MQTT_STATE_INIT ())
      = Inr (False, s') \<and> failed ESP_ERR_NO_MEM s' = Inl Null_Pointer"
  by (rule alpn_out_of_memory_crashes [where ps = "[lit ''mqtt'']"]) (simp_all add: sample_client_def)

end
