(* ===== verification/Edge_Boot.thy ===== *)
theory Edge_Boot
  imports Edge_Node Mqtt_Init_Correct
begin

text \<open>
  The construction of \<open>MqttManager\<close> (\<^verbatim>\<open>components/mqtt_manager/mqtt_manager.cpp\<close>): what the client of the sensor node is configured
  with, and that it is ready for the first record.
\<close>

section \<open>The configuration of the node\<close>

definition manager_config :: "bytes \<Rightarrow> bytes \<Rightarrow> esp_mqtt_client_config" where
  "manager_config broker ca_cert =
     empty_user_config\<lparr>u_uri := Some (c_str broker), u_certificate := Some ca_cert, u_skip_cert_common_name_check := True, u_stack_size := 8192\<rparr>"

text \<open>
  The constructor: it creates the client and registers the event handler with it. Without a client every later call on the null handle returns
  an error; what the registration returns is ignored.
\<close>
definition manager_new ::
  "bool \<Rightarrow> nat list \<Rightarrow> ('n \<times> mqtt_manager) platform \<Rightarrow> (bytes \<Rightarrow> url_fields option) \<Rightarrow> bytes \<Rightarrow> bytes \<Rightarrow> 'n
     \<Rightarrow> fault + ('n \<times> mqtt_manager) client option \<times> ('n \<times> mqtt_manager)" where
  "manager_new incremental random P parse_url broker ca_cert w =
     (case esp_mqtt_client_init incremental random P parse_url (manager_config broker ca_cert) (w, mqtt_manager_init) of
        Inr (Some s, w) \<Rightarrow> (case esp_mqtt_client_register_event (\<lambda>_. ESP_OK) s of Inl f \<Rightarrow> Inl f | Inr _ \<Rightarrow> Inr (Some s, w))
      | r \<Rightarrow> r)"

section \<open>Ready for the first record\<close>

text \<open>What a parser finds in a URI that has a scheme, a host and a port: three texts inside the URI.\<close>
definition plain_uri :: "bytes \<Rightarrow> url_fields \<Rightarrow> bool" where
  "plain_uri text v \<longleftrightarrow> 0 < snd (uf_schema v) \<and> fst (uf_schema v) + snd (uf_schema v) \<le> length text
     \<and> 0 < snd (uf_host v) \<and> fst (uf_host v) + snd (uf_host v) \<le> length text
     \<and> 0 < snd (uf_port v) \<and> snd (uf_path v) = 0 \<and> snd (uf_query v) = 0 \<and> snd (uf_userinfo v) = 0"

text \<open>The client of the node after its construction, for a broker with the given URI and a certificate in text form.\<close>
definition node_configured :: "bytes \<Rightarrow> url_fields \<Rightarrow> bytes \<Rightarrow> ('n \<times> mqtt_manager) client \<Rightarrow> bool" where
  "node_configured text v ca s \<longleftrightarrow>
     ready_to_publish s 76 \<and> node_booted \<lparr>pc = Idle, mqtt = s, counter = 0\<rparr>
     \<and> scheme (config s) = Some (field_text text (uf_schema v)) \<and> host (config s) = Some (field_text text (uf_host v))
     \<and> port (config s) = strtol10 (drop (fst (uf_port v)) text)
     \<and> (\<forall>B. transport_settings B (config s) = Inr [Cert_Key MQTT_SSL_DATA_API_CA_CERT True (Some ca) (int (length (c_str ca))), Skip_Common_Name])"

lemma create_string_run:
  assumes "\<And>w. fst (mem_ok P w)" and "fst r + snd r \<le> length text" and "0 < snd r"
  shows "create_string P text r s = Inr (Some (field_text text r), s\<lparr>world := snd (mem_ok P (world s))\<rparr>)"
  using assms by (cases r) (simp add: create_string_def has_memory_run field_text_def)

lemma strdup_run: "fst (mem_ok P (world s)) \<Longrightarrow> strdup P x s = Inr (Some x, s\<lparr>world := snd (mem_ok P (world s))\<rparr>)"
  by (simp add: strdup_def has_memory_run)

definition has_all_memory :: "'n platform \<Rightarrow> bool" where
  "has_all_memory P \<longleftrightarrow> (\<forall>w. fst (mem_ok P w))"

text \<open>The manager is not touched by allocation and time.\<close>
lemma node_memory:
  assumes "has_all_memory Q"
  shows "fst (mem_ok (node_platform Q) w)" and "snd (snd (mem_ok (node_platform Q) w)) = snd w"
  using assms by (simp_all add: has_all_memory_def node_platform_def case_prod_beta)

lemma node_tick: "get_tick (node_platform Q) s = (t, s') \<Longrightarrow> s' = s\<lparr>world := world s'\<rparr> \<and> snd (world s') = snd (world s)"
  by (auto simp: get_tick_def platform_tick_get_ms_def node_platform_def case_prod_beta)

text \<open>The fields of the node's configuration, and what they make of a zeroed client.\<close>
definition node_settings :: "bytes \<Rightarrow> bytes \<Rightarrow> mqtt_config" where
  "node_settings text ca =
     empty_config\<lparr>message_retransmit_timeout := 1000, task_prio := 5, task_stack := 8192, uri := Some text, network_timeout_ms := 10000,
       auto_reconnect := True, reconnect_timeout_ms := 10000, cacert_buf := Some ca, skip_cert_common_name_check := True\<rparr>"

lemma manager_fields:
  assumes "has_all_memory Q" and "6 \<le> length (read_mac Q)" and "config s = empty_config" and "information s = empty_info"
  shows "\<exists>s'. set_fields (node_platform Q) (manager_config broker ca) s = Inr (True, s') \<and> config s' = node_settings (c_str broker) ca
    \<and> snd (world s') = snd (world s) \<and> only_settings s s'"
proof -
  have "6 \<le> length (read_mac (node_platform Q))" using assms(2) by (simp add: node_platform_def)
  then show ?thesis
    using assms(3,4) node_memory [OF assms(1)]
    by (simp add: set_fields_def field_steps_def manager_config_def empty_user_config_def node_settings_def empty_config_def empty_info_def
        esp_mqtt_set_if_config_def set_client_id_def platform_create_id_string_def has_memory_run strdup_run set_will_def set_session_def
        set_protocol_def set_network_def set_if_name_def set_alpn_def set_tls_def set_key_password_def set_scheme_def set_basic_def
        no_keep_alive_def only_settings_def put_config_def put_info_def)
qed

lemma manager_uri:
  assumes "has_all_memory Q" and "plain_uri text v" and "parse_url text = Some v" and "configured s"
  shows "\<exists>s'. esp_mqtt_client_set_uri (node_platform Q) parse_url text s = Inr (ESP_OK, s') \<and> snd (world s') = snd (world s)
    \<and> config s' = (config s)\<lparr>scheme := Some (field_text text (uf_schema v)), host := Some (field_text text (uf_host v)), path := None,
        port := strtol10 (drop (fst (uf_port v)) text)\<rparr> \<and> only_settings s s'"
proof -
  note c = create_string_run [of "node_platform Q", OF node_memory(1) [OF assms(1)]]
  have none: "create_string (node_platform Q) text (uf_userinfo v) t = Inr (None, t)" for t
    using assms(2) by (simp add: create_string_def plain_uri_def case_prod_beta)
  show ?thesis
    using assms(2-4) node_memory(2) [OF assms(1)]
    by (simp add: esp_mqtt_client_set_uri_def c plain_uri_def set_path_def set_user_info_def none only_settings_def put_config_def)
qed

text \<open>A zero-terminated certificate that is not the word NULL.\<close>
definition text_certificate :: "bytes \<Rightarrow> bool" where
  "text_certificate ca \<longleftrightarrow> 0 \<in> set ca \<and> data_equals ca ''NULL'' = Inr False"

lemma node_tls:
  assumes "text_certificate ca"
  shows "transport_settings B ((node_settings text ca)\<lparr>scheme := a, host := b, path := None, port := p, outbox_limit := 0, event_loop_handle := True\<rparr>)
    = Inr [Cert_Key MQTT_SSL_DATA_API_CA_CERT True (Some ca) (int (length (c_str ca))), Skip_Common_Name]"
  using assms
  by (simp add: text_certificate_def transport_settings_def esp_mqtt_set_ssl_transport_properties_def node_settings_def empty_config_def
      cert_key_step_def esp_mqtt_set_cert_key_data_def data_strlen_def c_str_def optional_step_def flag_def no_keep_alive_def)

text \<open>Everything up to the ticks: a configured client with buffers of 1024 bytes.\<close>
lemma manager_set_config:
  assumes "has_all_memory Q" and "allocates Q" and "6 \<le> length (read_mac Q)" and "plain_uri (c_str broker) v" and "parse_url (c_str broker) = Some v"
    and "is_scheme (field_text (c_str broker) (uf_schema v)) ''mqtts''"
  shows "\<exists>s'. esp_mqtt_set_config (node_platform Q) parse_url (manager_config broker ca) (empty_client incremental random w) = Inr (ESP_OK, s')
    \<and> config s' = (node_settings (c_str broker) ca)\<lparr>scheme := Some (field_text (c_str broker) (uf_schema v)),
          host := Some (field_text (c_str broker) (uf_host v)), path := None, port := strtol10 (drop (fst (uf_port v)) (c_str broker)), outbox_limit := 0\<rparr>
    \<and> snd (world s') = snd w \<and> configured s' \<and> state s' = MQTT_STATE_INIT \<and> run s' = False
    \<and> connection s' = (connection (empty_client incremental random w))\<lparr>cbuffer := replicate 1024 0, cbuffer_length := 1024\<rparr>
    \<and> in_buffer_length s' = 1024 \<and> length (in_buffer s') = 1024"
proof -
  let ?P = "node_platform Q" and ?u = "manager_config broker ca"
  define s where "s = (empty_client incremental random w)\<lparr>configured := True, world := snd (mem_ok ?P w)\<rparr>"
  note mem = node_memory [OF assms(1)]
  obtain h raw w1 where al: "allocate Q 1024 (fst (snd (mem_ok ?P (world s)))) = ((Some h, Some raw), w1)" "length raw = 1024"
    using assms(2) unfolding allocates_def by blast
  have al': "allocate ?P 1024 (snd (mem_ok ?P (world s))) = ((Some h, Some raw), (w1, snd (snd (mem_ok ?P (world s)))))"
    using al(1) by (simp add: node_platform_def case_prod_beta)
  define s1 where "s1 = s\<lparr>connection := (connection s)\<lparr>cbuffer := replicate 1024 0, cbuffer_length := 1024\<rparr>, in_buffer := raw, in_buffer_length := 1024,
    world := (w1, snd (snd (mem_ok ?P (world s))))\<rparr>"
  have b: "set_buffers ?P ?u s = Inr (True, s1)"
    using al' mem(1) by (simp add: set_buffers_def manager_config_def empty_user_config_def has_memory_run mqtt_msg_buffer_init_def sz_def s1_def s_def empty_client_def)
  have "config s1 = empty_config" "information s1 = empty_info" by (simp_all add: s1_def s_def empty_client_def)
  from manager_fields [OF assms(1,3) this, of broker ca] obtain s2 where f: "set_fields ?P ?u s1 = Inr (True, s2)" "config s2 = node_settings (c_str broker) ca"
    "snd (world s2) = snd (world s1)" "only_settings s1 s2" by blast
  have "configured s2" using only_settings_sel [OF f(4)] by (simp add: s1_def s_def)
  from manager_uri [where parse_url = parse_url, OF assms(1,4,5) this] obtain s3 where g: "esp_mqtt_client_set_uri ?P parse_url (c_str broker) s2 = Inr (ESP_OK, s3)"
    "snd (world s3) = snd (world s2)" "config s3 = (config s2)\<lparr>scheme := Some (field_text (c_str broker) (uf_schema v)),
      host := Some (field_text (c_str broker) (uf_host v)), path := None, port := strtol10 (drop (fst (uf_port v)) (c_str broker))\<rparr>" "only_settings s2 s3" by blast
  have o: "only_settings s1 s3" using only_settings_trans [OF f(4) g(4)] .
  have c: "esp_mqtt_check_cfg_conflict (config (put_config (outbox_limit_update (\<lambda>_. u_limit ?u)) s3)) ?u = ESP_OK"
    using assms(6) by (simp add: esp_mqtt_check_cfg_conflict_def g(3) manager_config_def empty_user_config_def)
  have "esp_mqtt_set_config ?P parse_url ?u (empty_client incremental random w) = Inr (ESP_OK, put_config (outbox_limit_update (\<lambda>_. 0)) s3)"
  proof -
    have "u_uri ?u = Some (c_str broker)" "u_limit ?u = 0" "uri (config s2) = Some (c_str broker)"
      by (simp_all add: manager_config_def empty_user_config_def f(2) node_settings_def)
    moreover have "\<not> configured (empty_client incremental random w)" "world (empty_client incremental random w) = w" by (simp_all add: empty_client_def)
    moreover have "(empty_client incremental random w)\<lparr>world := snd (mem_ok ?P w), configured := True, config := empty_config\<rparr> = s"
      by (simp add: s_def empty_client_def)
    ultimately show ?thesis using b f(1) g(1) c mem(1) by (simp add: esp_mqtt_set_config_def has_memory_run Let_def)
  qed
  moreover have "snd (world s1) = snd w" using mem(2) by (simp add: s1_def s_def)
  ultimately show ?thesis
    using f(2,3) g(2,3) only_settings_sel [OF o] al(2)
    by (intro exI [of _ "put_config (outbox_limit_update (\<lambda>_. 0)) s3"]) (simp add: put_config_def s1_def s_def empty_client_def)
qed

lemma ticks_run:
  "\<exists>t1 t2 t3 w. init_ticks (node_platform Q) s
     = s\<lparr>keepalive_tick := t1, reconnect_tick := t2, refresh_connection_tick := t3, wait_for_ping_resp := False, world := w\<rparr> \<and> snd w = snd (world s)"
proof -
  obtain t1 s1 where 1: "get_tick (node_platform Q) s = (t1, s1)" by (rule prod.exhaust)
  obtain t2 s2 where 2: "get_tick (node_platform Q) s1 = (t2, s2)" by (rule prod.exhaust)
  obtain t3 s3 where 3: "get_tick (node_platform Q) s2 = (t3, s3)" by (rule prod.exhaust)
  have w: "s3 = s\<lparr>world := world s3\<rparr>" "snd (world s3) = snd (world s)"
    using node_tick [OF 1] node_tick [OF 2] node_tick [OF 3] by (cases s; cases s1; cases s2; cases s3; simp)+
  have "s3\<lparr>keepalive_tick := t1, reconnect_tick := t2, refresh_connection_tick := t3, wait_for_ping_resp := False\<rparr>
    = s\<lparr>keepalive_tick := t1, reconnect_tick := t2, refresh_connection_tick := t3, wait_for_ping_resp := False, world := world s3\<rparr>"
    by (subst w(1)) simp
  then show ?thesis
    using w(2) by (intro exI [of _ t1] exI [of _ t2] exI [of _ t3] exI [of _ "world s3"]) (simp add: init_ticks_def 1 2 3)
qed

lemma client_data_node:
  assumes "has_all_memory Q"
  shows "\<exists>w'. create_client_data (node_platform Q) (empty_client incremental random w) = Inr (True, empty_client incremental random w') \<and> snd w' = snd w"
  using node_memory [OF assms] by (simp add: create_client_data_def has_memory_run outbox_init_def empty_client_def)

text \<open>
  C6. The constructor of the manager, when there is memory and the parser finds scheme \<open>mqtts\<close>, a host and a port in the URI: it gets a
  client in its initial state, with broker and port from the URI, that is ready to publish every record of the application
  at QoS 1, and whose task will set exactly the given CA certificate on the TLS transport before it connects, and switch
  the check of the server name off.
\<close>
theorem node_boots:
  assumes "has_all_memory Q" and "allocates Q" and "6 \<le> length (read_mac Q)" and "plain_uri (c_str broker) v" and "parse_url (c_str broker) = Some v"
    and "is_scheme (field_text (c_str broker) (uf_schema v)) ''mqtts''" and "text_certificate ca" and "incremental \<or> (\<exists>r \<in> set random. r mod 65535 \<noteq> 0)"
  shows "\<exists>s w'. manager_new incremental random (node_platform Q) parse_url broker ca w = Inr (Some s, w') \<and> node_configured (c_str broker) v ca s"
proof -
  let ?P = "node_platform Q" and ?u = "manager_config broker ca"
  obtain w1 where w1: "mem_ok ?P (w, mqtt_manager_init) = (True, w1)" "snd w1 = mqtt_manager_init"
    using node_memory [OF assms(1), of "(w, mqtt_manager_init)"] by (cases "mem_ok ?P (w, mqtt_manager_init)") auto
  obtain w2 where w2: "create_client_data ?P (empty_client incremental random w1) = Inr (True, empty_client incremental random w2)" "snd w2 = mqtt_manager_init"
    using client_data_node [OF assms(1), of incremental random w1] w1(2) by auto
  from manager_set_config [where parse_url = parse_url, OF assms(1-6), of ca incremental random w2] obtain s' where
    c: "esp_mqtt_set_config ?P parse_url ?u (empty_client incremental random w2) = Inr (ESP_OK, s')"
    "config s' = (node_settings (c_str broker) ca)\<lparr>scheme := Some (field_text (c_str broker) (uf_schema v)),
          host := Some (field_text (c_str broker) (uf_host v)), path := None, port := strtol10 (drop (fst (uf_port v)) (c_str broker)), outbox_limit := 0\<rparr>"
    and t: "snd (world s') = mqtt_manager_init" "configured s'" "state s' = MQTT_STATE_INIT" "run s' = False"
    "connection s' = (connection (empty_client incremental random w2))\<lparr>cbuffer := replicate 1024 0, cbuffer_length := 1024\<rparr>"
    "in_buffer_length s' = 1024" "length (in_buffer s') = 1024" using w2(2) by auto
  define s0 where "s0 = put_config (event_loop_handle_update (\<lambda>_. True)) s'"
  obtain t1 t2 t3 w3 where k: "init_ticks ?P s0 = s0\<lparr>keepalive_tick := t1, reconnect_tick := t2, refresh_connection_tick := t3, wait_for_ping_resp := False, world := w3\<rparr>"
    "snd w3 = snd (world s0)" using ticks_run [of Q s0] by blast
  define s where "s = init_ticks ?P s0"
  have "manager_new incremental random ?P parse_url broker ca w = Inr (Some s, world s)"
    using w1(1) w2(1) c(1) t(2) by (simp add: manager_new_def esp_mqtt_client_init_def esp_mqtt_client_register_event_def s_def s0_def put_config_def Let_def)
  moreover
  have s: "connection s = connection s'" "in_buffer s = in_buffer s'" "in_buffer_length s = in_buffer_length s'" "state s = state s'"
    "snd (world s) = snd (world s')" "config s = (config s')\<lparr>event_loop_handle := True\<rparr>"
    unfolding s_def k(1) using k(2) by (simp_all add: s0_def put_config_def)
  have "ready_to_publish s 76"
    using assms(8) t(5-7) c(2)
    by (auto simp: s ready_to_publish_def conn_wf_def in_wf_def ids_available_def empty_client_def empty_config_def s32_def node_settings_def)
  moreover have "node_booted \<lparr>pc = Idle, mqtt = s, counter = 0\<rparr>"
    using t(1,3) by (simp add: node_booted_def s)
  moreover have "scheme (config s) = Some (field_text (c_str broker) (uf_schema v))" "host (config s) = Some (field_text (c_str broker) (uf_host v))"
    "port (config s) = strtol10 (drop (fst (uf_port v)) (c_str broker))"
    by (simp_all add: s c(2))
  moreover have "transport_settings B (config s) = Inr [Cert_Key MQTT_SSL_DATA_API_CA_CERT True (Some ca) (int (length (c_str ca))), Skip_Common_Name]" for B
    using node_tls [OF assms(7)] by (simp add: s c(2))
  ultimately show ?thesis by (simp add: node_configured_def)
qed

text \<open>The broker of the node, and where the parser finds its parts.\<close>
definition broker_uri :: bytes where
  "broker_uri = lit ''mqtts://192.168.68.104:8883''"

definition broker_fields :: url_fields where
  "broker_fields = \<lparr>uf_schema = (0, 5), uf_host = (8, 14), uf_port = (23, 4), uf_path = (0, 0), uf_query = (0, 0), uf_userinfo = (0, 0)\<rparr>"

lemma broker_text: "c_str broker_uri = broker_uri" "length broker_uri = 27" "field_text broker_uri (0, 5) = lit ''mqtts''"
  "field_text broker_uri (8, 14) = lit ''192.168.68.104''" "strtol10 (drop 23 broker_uri) = 8883" "is_scheme (lit ''mqtts'') ''mqtts''"
  by (simp_all add: broker_uri_def lit_def c_str_def field_text_def strtol10_def is_scheme_def to_lower_def)

theorem node_boots_witness:
  "\<exists>s w'. manager_new True [] (node_platform quiet_platform) (\<lambda>_. Some broker_fields) broker_uri (lit ''-----'' @ [0]) () = Inr (Some s, w')
     \<and> node_configured broker_uri broker_fields (lit ''-----'' @ [0]) s \<and> host (config s) = Some (lit ''192.168.68.104'') \<and> port (config s) = 8883"
proof -
  have "has_all_memory quiet_platform" "allocates quiet_platform" "6 \<le> length (read_mac quiet_platform)"
    by (simp_all add: has_all_memory_def allocates_def quiet_platform_def)
  moreover have "plain_uri (c_str broker_uri) broker_fields" "is_scheme (field_text (c_str broker_uri) (uf_schema broker_fields)) ''mqtts''"
    by (simp_all add: plain_uri_def broker_fields_def broker_text)
  moreover have "text_certificate (lit ''-----'' @ [0])" by (simp add: text_certificate_def data_equals_def lit_def)
  ultimately obtain s w' where "manager_new True [] (node_platform quiet_platform) (\<lambda>_. Some broker_fields) broker_uri (lit ''-----'' @ [0]) () = Inr (Some s, w')"
    "node_configured (c_str broker_uri) broker_fields (lit ''-----'' @ [0]) s"
    using node_boots [of quiet_platform broker_uri broker_fields "\<lambda>_. Some broker_fields" "lit ''-----'' @ [0]" True "[]" "()"] by blast
  then show ?thesis by (intro exI [of _ s] exI [of _ w']) (simp add: node_configured_def broker_text broker_fields_def)
qed

text \<open>
  C37. When there is memory for everything but the receive buffer of the client, \<open>esp_mqtt_client_init\<close> returns a client without a configuration
  instead of null, and the node fails while it boots: the constructor of the manager registers its event handler through the null pointer that is left.
\<close>
theorem manager_out_of_memory_crashes:
  assumes "\<And>w. fst (mem_ok P w)" and "\<And>n w. snd (fst (allocate P n w)) = None"
  shows "(\<exists>s w'. esp_mqtt_client_init incremental random P parse_url (manager_config broker ca) (w, mqtt_manager_init) = Inr (Some s, w') \<and> \<not> configured s)
    \<and> manager_new incremental random P parse_url broker ca w = Inl Null_Pointer"
proof -
  obtain s w' where s: "esp_mqtt_client_init incremental random P parse_url (manager_config broker ca) (w, mqtt_manager_init) = Inr (Some s, w')" "\<not> configured s"
    using init_out_of_memory_unconfigured [of P incremental random parse_url "manager_config broker ca" "(w, mqtt_manager_init)"] assms by blast
  then show ?thesis by (simp add: manager_new_def esp_mqtt_client_register_event_def)
qed

theorem manager_out_of_memory_crashes_witness:
  "manager_new True [] (node_platform (quiet_platform\<lparr>allocate := \<lambda>n w. ((None, None), w)\<rparr>)) (\<lambda>_. Some broker_fields) broker_uri (lit ''-----'' @ [0]) () = Inl Null_Pointer"
  by (rule conjunct2 [OF manager_out_of_memory_crashes]) (simp_all add: node_platform_def quiet_platform_def case_prod_beta)

theorem set_config_wf_witness:
  "\<exists>s'. esp_mqtt_set_config (node_platform quiet_platform) (\<lambda>_. Some broker_fields) (manager_config broker_uri (lit ''-----'' @ [0]))
       (empty_client True [] ((), mqtt_manager_init)) = Inr (ESP_OK, s') \<and> configured s' \<and> client_wf s'"
proof -
  have "has_all_memory quiet_platform" "allocates quiet_platform" "6 \<le> length (read_mac quiet_platform)"
    by (simp_all add: has_all_memory_def allocates_def quiet_platform_def)
  moreover have "plain_uri (c_str broker_uri) broker_fields" "is_scheme (field_text (c_str broker_uri) (uf_schema broker_fields)) ''mqtts''"
    by (simp_all add: plain_uri_def broker_fields_def broker_text)
  ultimately obtain s' where "esp_mqtt_set_config (node_platform quiet_platform) (\<lambda>_. Some broker_fields) (manager_config broker_uri (lit ''-----'' @ [0]))
       (empty_client True [] ((), mqtt_manager_init)) = Inr (ESP_OK, s')" "configured s'"
    using manager_set_config [of quiet_platform broker_uri broker_fields "\<lambda>_. Some broker_fields" "lit ''-----'' @ [0]" True "[]" "((), mqtt_manager_init)"] by blast
  moreover have "sizes_ok (manager_config broker_uri (lit ''-----'' @ [0]))" by (simp add: sizes_ok_def manager_config_def empty_user_config_def)
  moreover have "blocks_sized (node_platform quiet_platform)" by (auto simp: blocks_sized_def node_platform_def quiet_platform_def)
  ultimately show ?thesis
    using set_config_wf [of "node_platform quiet_platform" "\<lambda>_. Some broker_fields" "manager_config broker_uri (lit ''-----'' @ [0])"] by blast
qed

end
