(* ===== verification/Telemetry.thy ===== *)
theory Telemetry
  imports Gateway_Service Edge_Boot
begin

text \<open>
  Both tiers together: the records of a sensor node (\<^verbatim>\<open>esp32-sensor-node/main/main.cpp\<close>) on their way through a broker to the
  worker of the gateway daemon (\<^verbatim>\<open>gateway-service/src/main.cpp\<close>). What the node publishes is taken from what its transport accepted or
  its outbox kept. The broker and the protobuf library of the
  gateway are not part of the repository: of the broker it is only used that it hands on the payloads of packets that it was sent, in whatever
  order and number; of \<open>ParseFromString\<close> that it inverts the proto3 encoding. That the decoder of nanopb is such a parser is shown here.
\<close>

section \<open>What a node publishes\<close>

text \<open>
  The topic and the payload of a PUBLISH packet, with the readers of \<^verbatim>\<open>mqtt_msg.c\<close> (which share nothing with its builders): what a
  receiver that follows the protocol finds in the bytes.
\<close>
definition read_publish :: "bytes \<Rightarrow> (bytes \<times> bytes) option" where
  "read_publish pkt =
     (case (mqtt_get_type pkt, mqtt_get_publish_topic pkt (length pkt), mqtt_get_publish_data pkt (length pkt)) of
        (Inr ty, Inr (Some (i, m)), Inr (Some (j, n))) \<Rightarrow>
          if ty = 3 then Some (take m (drop i pkt), take n (drop j pkt)) else None
      | _ \<Rightarrow> None)"

text \<open>
  The packet of a round of the application with the counter of the round. When the round was accepted, it is what the transport took
  during the round; when the write failed, the last packet in the outbox, which the client sends again after it has reconnected. A round that
  finds the manager not connected publishes nothing.
\<close>
definition published :: "('q \<times> bytes) node \<Rightarrow> bool \<Rightarrow> ('q \<times> bytes) node \<Rightarrow> (u32 \<times> bytes) list" where
  "published y b z =
     (if is_connected (snd (world (mqtt y)))
      then [(counter y, if b then drop (length (snd (fst (world (mqtt y))))) (snd (fst (world (mqtt z))))
                        else snd (snd (last (outbox_view (outbox_of (mqtt z))))))]
      else [])"

text \<open>
  A run of the node with the history of what it published. The rounds of the application are the steps that change the counter; those
  that find the node connected fit the client's buffers. Everything else may happen between them.
\<close>
inductive node_run :: "'q platform \<Rightarrow> ('q \<times> bytes) node \<Rightarrow> (u32 \<times> bytes) list \<Rightarrow> ('q \<times> bytes) node \<Rightarrow> bool" for Q where
  run_none: "node_run Q x [] x"
| run_other: "node_run Q x h y \<Longrightarrow> node_step (recorded Q) y z \<Longrightarrow> counter z = counter y \<Longrightarrow> node_run Q x h z"
| run_round: "node_run Q x h y \<Longrightarrow> is_connected (snd (world (mqtt y))) \<longrightarrow> run (mqtt y) \<and> ready_to_publish (mqtt y) 76
    \<Longrightarrow> describes_sensor d \<Longrightarrow> msg \<noteq> NULL \<Longrightarrow> msg + 44 \<le> buf \<or> buf + 128 \<le> msg \<Longrightarrow> 2 \<le> depth
    \<Longrightarrow> app_round depth E d msg buf m (node_platform (recorded Q)) y = Some (Inr (b, z))
    \<Longrightarrow> node_run Q x (h @ published y b z) z"

lemma node_run_inv: "node_run Q x h y \<Longrightarrow> node_inv x \<Longrightarrow> node_inv y"
  by (induction rule: node_run.induct) (auto intro: node_inv_step node_step.app)

lemma read_telemetry_packet:
  assumes "0 < i" and "i < 65536"
  shows "read_publish (publish_packet 1 0 telemetry_topic i (wire_sensor (telemetry_record n))) = Some (telemetry_topic, wire_sensor (telemetry_record n))"
proof -
  let ?w = "wire_sensor (telemetry_record n)"
  let ?p = "publish_packet 1 0 telemetry_topic i ?w"
  have w: "?w \<noteq> []" "length ?w \<le> 49" using telemetry_length [of n] by auto
  then have b: "length (publish_body 1 telemetry_topic i ?w) < 268435456" by (simp add: publish_body_def telemetry_topic_text)
  obtain k where k: "mqtt_get_publish_topic ?p (length ?p) = Inr (Some (k, length telemetry_topic))" "take (length telemetry_topic) (drop k ?p) = telemetry_topic"
    using publish_get_topic [of telemetry_topic 1 0 i ?w] by (auto simp: telemetry_topic_text)
  obtain j where j: "mqtt_get_publish_data ?p (length ?p) = Inr (Some (j, length ?w))" "take (length ?w) (drop j ?p) = ?w"
    using publish_get_data [OF _ w(1) telemetry_topic_text(2) _ _ b, of 0] by (auto simp: telemetry_topic_text)
  have "mqtt_get_type ?p = Inr 3" by (rule publish_get_qos(2)) simp_all
  with k j show ?thesis by (simp add: read_publish_def)
qed

text \<open>What a round publishes is a packet on the telemetry topic with the record of the round.\<close>
lemma published_packet:
  assumes "node_inv y" and "allocates Q" and "is_connected (snd (world (mqtt y))) \<longrightarrow> run (mqtt y) \<and> ready_to_publish (mqtt y) 76"
    and "describes_sensor d" and "msg \<noteq> NULL" and "msg + 44 \<le> buf \<or> buf + 128 \<le> msg" and "2 \<le> depth"
    and "app_round depth E d msg buf m (node_platform (recorded Q)) y = Some (Inr (b, z))" and "(n, pkt) \<in> set (published y b z)"
  shows "read_publish pkt = Some (telemetry_topic, wire_sensor (telemetry_record n))"
proof -
  have c: "is_connected (snd (world (mqtt y)))" using assms(9) by (auto simp: published_def split: if_splits)
  with assms(3) have "run (mqtt y)" "ready_to_publish (mqtt y) 76" by simp_all
  from app_round_sends [OF assms(1) this(1) c this(2) assms(2,4-7), of E m] obtain b' z' i where
    r: "app_round depth E d msg buf m (node_platform (recorded Q)) y = Some (Inr (b', z'))" "0 < i" "i < 65536"
    "outbox_view (outbox_of (mqtt z')) = outbox_view (outbox_of (mqtt y))
      @ [(int i, 3, publish_packet 1 0 telemetry_topic i (wire_sensor (telemetry_record (counter y))))]"
    "if b' then snd (fst (world (mqtt z'))) = snd (fst (world (mqtt y))) @ publish_packet 1 0 telemetry_topic i (wire_sensor (telemetry_record (counter y)))
      else state (mqtt z') = MQTT_STATE_WAIT_RECONNECT" .
  from r(1) assms(8) have "b' = b" "z' = z" by simp_all
  with r(4,5) c assms(9) have "(n, pkt) = (counter y, publish_packet 1 0 telemetry_topic i (wire_sensor (telemetry_record (counter y))))"
    by (cases b) (simp_all add: published_def)
  with read_telemetry_packet [OF r(2,3)] show ?thesis by simp
qed

lemma node_run_published:
  assumes "node_run Q x h y" and "node_inv x" and "allocates Q" and "(n, pkt) \<in> set h"
  shows "read_publish pkt = Some (telemetry_topic, wire_sensor (telemetry_record n))"
  using assms
proof (induction rule: node_run.induct)
  case (run_round x h y d msg buf depth E m b z)
  from run_round.prems(3) consider "(n, pkt) \<in> set h" | "(n, pkt) \<in> set (published y b z)" by auto
  then show ?case
  proof cases
    case 1
    with run_round.IH run_round.prems(1,2) show ?thesis by blast
  next
    case 2
    from published_packet [OF node_run_inv [OF run_round.hyps(1) run_round.prems(1)] run_round.prems(2) run_round.hyps(2-7) 2] show ?thesis .
  qed
qed simp_all

section \<open>The decoder of nanopb as a parser\<close>

definition read_struct :: "mem \<Rightarrow> addr \<Rightarrow> sensor_data" where
  "read_struct m a = \<lparr>device_id = c_str (mem_read m a 32), temperature = of_nat (le_nat (mem_read m (a + 32) 4)),
     humidity = of_nat (le_nat (mem_read m (a + 36) 4)), uptime_ms = of_nat (le_nat (mem_read m (a + 40) 4))\<rparr>"

lemma read_struct_holds:
  assumes "struct_holds m a r"
  shows "read_struct m a = r"
proof -
  have l: "length (device_id r) \<le> 31" "0 \<notin> set (device_id r)" "mem_read m a (length (device_id r)) = device_id r"
    "m (a + length (device_id r)) = 0" using assms by (simp_all add: struct_holds_def)
  have "mem_read m a (length (device_id r) + Suc (31 - length (device_id r)))
      = device_id r @ 0 # mem_read m (a + length (device_id r) + 1) (31 - length (device_id r))"
    using l(3,4) by (simp only: mem_read_add mem_read_Suc) simp
  moreover have "c_str (xs @ 0 # ys) = xs" if "0 \<notin> set xs" for xs ys
    using that by (induction xs) (auto simp: c_str_def)
  ultimately have "c_str (mem_read m a 32) = device_id r" using l(1,2) by (simp add: Suc_diff_le)
  moreover have "of_nat (le_nat (nat_le 4 (unat v))) = (v :: u32)" for v
  proof -
    have "unat v < 4294967296" using unsigned_less [where 'a = nat, of v] by simp
    then show ?thesis by (simp add: le_nat_nat_le)
  qed
  ultimately show ?thesis
    using assms by (simp add: read_struct_def struct_holds_def)
qed

text \<open>The payload at address 100, the struct at address 4000.\<close>
definition nanopb_parse :: "bytes \<Rightarrow> sensor_data option" where
  "nanopb_parse raw =
     (case pb_decode 6 plain_dec sensor_desc 4000 (mem_write (\<lambda>_. 0) 100 raw, pb_istream_from_buffer 100 (length raw)) of
        Some (True, (m, _)) \<Rightarrow> Some (read_struct m 4000)
      | _ \<Rightarrow> None)"

lemma nanopb_parses: "nanopb_parse (wire_sensor (telemetry_record n)) = Some (telemetry_record n)"
proof -
  let ?w = "wire_sensor (telemetry_record n)"
  have "mem_read (mem_write (\<lambda>_. 0) 100 ?w) 100 (length ?w) = ?w" by (simp add: mem_read_write_same)
  moreover have "100 + length ?w \<le> (4000 :: nat)" using telemetry_length(2) [of n] by simp
  ultimately obtain m s where
    "pb_decode 6 plain_dec sensor_desc 4000 (mem_write (\<lambda>_. 0) 100 ?w, pb_istream_from_buffer 100 (length ?w)) = Some (True, (m, s))"
    "struct_holds m 4000 (telemetry_record n)"
    using telemetry_decodes [OF sensor_desc_describes, of n] unfolding decodes_to_def by (metis numeral_neq_zero)
  then show ?thesis by (simp add: nanopb_parse_def read_struct_holds)
qed

section \<open>The worker takes what has arrived\<close>

lemma telemetry_fields: "device_id (telemetry_record n) = node_name" "temperature (telemetry_record n) = 0x41CB3333"
  by (simp_all add: telemetry_record_def record_of_def node_name_def lit_def c_str_def)

lemma ingest_telemetry:
  assumes "\<And>r. r \<in> set rs \<Longrightarrow> \<exists>n. parse r = Some (telemetry_record n)"
  shows "concat (map (ingest parse) rs) = replicate (length rs) (node_name, 0x41CB3333)"
  using assms by (induction rs) (fastforce simp: ingest_def telemetry_fields)+

lemma worker_exits_late: "gw_reachable P parse c0 s \<Longrightarrow> worker s = WExit \<Longrightarrow> \<not> running s"
proof (induction rule: gw_reachable.induct)
  case (gw_reach_step s l s')
  have inv: "gw_inv parse s" by (rule gw_reachable_inv [OF gw_reach_step(1)])
  from gw_reach_step(2) gw_reach_step(3,4) show ?case
  proof (cases rule: gw_step.cases)
    case (gw_w_null q)
    then have "aborted (telemetry_queue s)" by (auto simp: pop_def split: if_splits)
    with inv gw_w_null show ?thesis by (auto simp: gw_inv_def)
  qed (auto split: if_splits)
qed (simp add: gw_init_def)

lemma gw_run_append: "gw_run P parse s ls t \<Longrightarrow> gw_run P parse t ls' u \<Longrightarrow> gw_run P parse s (ls @ ls') u"
  by (induction rule: gw_run.induct) (auto intro: gw_run_cons)

lemma worker_drains:
  assumes "running s" and "worker s \<noteq> WExit"
  shows "\<exists>k s'. gw_run P parse s (replicate k Internal) s' \<and> taken s' = taken s @ queue (telemetry_queue s)
    \<and> ingested s' = ingested s @ concat (map (ingest parse) (queue (telemetry_queue s)))"
  using assms
proof (induction "queue (telemetry_queue s)" arbitrary: s)
  case Nil
  then show ?case by (intro exI [of _ 0] exI [of _ s]) (auto simp: gw_run_Nil_iff)
next
  case (Cons r rs)
  obtain k1 s1 where s1: "gw_run P parse s (replicate k1 Internal) s1" "worker s1 = WPop" "s1 = s\<lparr>worker := WPop\<rparr>"
  proof (cases "worker s")
    case WLoop
    from gw_w_test [OF this, of P parse] Cons.prems(1) show thesis
      by (intro that [of 1 "s\<lparr>worker := WPop\<rparr>"]) (simp_all add: gw_run_Cons_iff gw_run_Nil_iff)
  next
    case WPop
    then show thesis by (intro that [of 0 s]) (simp_all add: gw_run_Nil_iff)
  qed (use Cons.prems in simp)
  let ?s2 = "s1\<lparr>telemetry_queue := (telemetry_queue s)\<lparr>queue := rs\<rparr>, worker := WLoop, taken := taken s @ [r],
    ingested := ingested s @ ingest parse r\<rparr>"
  have "pop (telemetry_queue s1) = Some (Some r, (telemetry_queue s)\<lparr>queue := rs\<rparr>)"
    using s1(3) Cons.hyps(2) [symmetric] by (simp add: pop_def wait_pred_def)
  from gw_w_item [OF s1(2) this, of P parse] have s2: "gw_step P parse s1 Internal ?s2" by (simp add: s1(3))
  from Cons.hyps(1) [of ?s2] Cons.prems(1) s1(3) obtain k s' where
    s': "gw_run P parse ?s2 (replicate k Internal) s'" "taken s' = taken s @ r # rs"
    "ingested s' = ingested s @ ingest parse r @ concat (map (ingest parse) rs)" by auto
  have "gw_run P parse s (replicate (k1 + Suc k) Internal) s'"
    using gw_run_append [OF s1(1) gw_run_cons [OF s2 s'(1)]] by (simp add: replicate_add replicate_app_Cons_same)
  with s'(2,3) Cons.hyps(2) [symmetric] show ?case by (intro exI [of _ "k1 + Suc k"] exI [of _ s']) simp
qed

section \<open>From the sensor to the worker\<close>

text \<open>
  C1. Telemetry reaches the gateway. Take any run of the node whose rounds fit its buffers and find memory (its rounds, the steps of its MQTT
  task, whatever the network does). Every packet that it published, as its transport took it or its outbox kept it, is a PUBLISH
  on the telemetry topic whose payload parses to the record of the round. Take any reachable
  state of the daemon to whose callback the broker has delivered nothing but payloads of these packets. Then every payload
  that arrived parses to the record of the round that published it, every record that the worker took was ingested, none is dropped as
  unparsable, and as long as the daemon is not stopped its worker can go on alone until all that arrived is ingested.
\<close>
theorem telemetry_reaches_gateway:
  assumes "node_inv x" and "allocates Q" and "node_run Q x h y" and "gw_reachable P parse c0 s"
    and "\<forall>raw \<in> set (arrived s). \<exists>n pkt t. (n, pkt) \<in> set h \<and> read_publish pkt = Some (t, raw)"
    and "\<forall>n. parse (wire_sensor (telemetry_record n)) = Some (telemetry_record n)"
  shows "(\<forall>n pkt. (n, pkt) \<in> set h \<longrightarrow> (\<exists>raw. read_publish pkt = Some (telemetry_topic, raw) \<and> parse raw = Some (telemetry_record n)))
    \<and> (\<forall>raw \<in> set (arrived s). \<exists>n pkt. (n, pkt) \<in> set h \<and> read_publish pkt = Some (telemetry_topic, raw) \<and> parse raw = Some (telemetry_record n))
    \<and> ingested s = replicate (length (taken s)) (node_name, 0x41CB3333)
    \<and> (running s \<longrightarrow> (\<exists>k s'. gw_run P parse s (replicate k Internal) s' \<and> taken s' = arrived s
         \<and> ingested s' = replicate (length (arrived s)) (node_name, 0x41CB3333)))"
proof -
  have sent: "read_publish pkt = Some (telemetry_topic, wire_sensor (telemetry_record n)) \<and> parse (wire_sensor (telemetry_record n)) = Some (telemetry_record n)"
    if "(n, pkt) \<in> set h" for n pkt using node_run_published [OF assms(3,1,2) that] assms(6) by simp
  have a: "\<exists>n pkt. (n, pkt) \<in> set h \<and> read_publish pkt = Some (telemetry_topic, raw) \<and> parse raw = Some (telemetry_record n)"
    if raw: "raw \<in> set (arrived s)" for raw
  proof -
    obtain n pkt t where n: "(n, pkt) \<in> set h" "read_publish pkt = Some (t, raw)" using raw assms(5) by blast
    with sent [OF n(1)] show ?thesis by (intro exI [of _ n] exI [of _ pkt]) simp
  qed
  then have parses: "\<exists>n. parse raw = Some (telemetry_record n)" if "raw \<in> set (arrived s)" for raw using that by metis
  have inv: "arrived s = taken s @ queue (telemetry_queue s)" "ingested s = concat (map (ingest parse) (taken s))"
    using gw_reachable_inv [OF assms(4)] by (simp_all add: gw_inv_def)
  have sub: "set (taken s) \<subseteq> set (arrived s)" "set (queue (telemetry_queue s)) \<subseteq> set (arrived s)" unfolding inv(1) by auto
  have i: "ingested s = replicate (length (taken s)) (node_name, 0x41CB3333)"
    unfolding inv(2) by (rule ingest_telemetry, rule parses, rule subsetD [OF sub(1)])
  have q: "concat (map (ingest parse) (queue (telemetry_queue s))) = replicate (length (queue (telemetry_queue s))) (node_name, 0x41CB3333)"
    by (rule ingest_telemetry, rule parses, rule subsetD [OF sub(2)])
  show ?thesis
  proof (intro conjI ballI a i allI impI)
    show "\<exists>raw. read_publish pkt = Some (telemetry_topic, raw) \<and> parse raw = Some (telemetry_record n)" if "(n, pkt) \<in> set h" for n pkt
      using sent [OF that] by blast
  next
    assume r: "running s"
    then have "worker s \<noteq> WExit" using worker_exits_late [OF assms(4)] by blast
    from worker_drains [OF r this, of P parse] show "\<exists>k s'. gw_run P parse s (replicate k Internal) s' \<and> taken s' = arrived s
         \<and> ingested s' = replicate (length (arrived s)) (node_name, 0x41CB3333)"
      unfolding q i inv(1) by (simp add: replicate_add)
  qed
qed

lemma telemetry_round_ok:
  assumes "node_inv x" and "run (mqtt x)" and "is_connected (snd (world (mqtt x)))" and "ready_to_publish (mqtt x) 76" and "allocates Q"
    and "describes_sensor d" and "msg \<noteq> NULL" and "msg + 44 \<le> buf \<or> buf + 128 \<le> msg" and "2 \<le> depth"
  shows "\<exists>b y. app_round depth E d msg buf m (node_platform (recorded Q)) x = Some (Inr (b, y))"
  using app_round_sends [OF assms] by metis

lemma sample_node_round:
  obtains b y pkt where "app_round 2 plain_env sensor_desc 1000 2000 (\<lambda>_. 0) (node_platform (recorded quiet_platform))
      (sample_node Head MQTT_STATE_CONNECTED True ((), [])) = Some (Inr (b, y))"
    and "published (sample_node Head MQTT_STATE_CONNECTED True ((), [])) b y = [(0, pkt)]"
    and "node_run quiet_platform (sample_node Head MQTT_STATE_CONNECTED True ((), [])) [(0, pkt)] y"
proof -
  let ?x = "sample_node Head MQTT_STATE_CONNECTED True ((), [] :: bytes)"
  have x: "node_inv ?x" "run (mqtt ?x)" "is_connected (snd (world (mqtt ?x)))" "counter ?x = 0"
    by (simp_all add: node_inv_def manager.link_def sample_node_def sample_client_def)
  have r: "ready_to_publish (mqtt ?x) 76"
    by (simp add: ready_to_publish_def sample_node_def sample_client_def empty_config_def conn_wf_def in_wf_def ids_available_def s32_def)
  have "allocates quiet_platform" by (simp add: allocates_def quiet_platform_def)
  from telemetry_round_ok [OF x(1-3) r this sensor_desc_describes, of 1000 2000 2 plain_env "\<lambda>_. 0"] obtain b y where
    y: "app_round 2 plain_env sensor_desc 1000 2000 (\<lambda>_. 0) (node_platform (recorded quiet_platform)) ?x = Some (Inr (b, y))"
    by auto
  then obtain pkt where "published ?x b y = [(0, pkt)]" using x(3,4) by (auto simp: published_def)
  with run_round [OF run_none _ sensor_desc_describes _ _ _ y] x r that [OF y] show thesis by simp
qed

text \<open>The node of \<open>sample_node\<close> publishes its first record, the broker delivers it to a daemon that has just started.\<close>
theorem telemetry_reaches_gateway_witness:
  "\<exists>y pkt raw s. node_run quiet_platform (sample_node Head MQTT_STATE_CONNECTED True ((), [])) [(0, pkt)] y
    \<and> read_publish pkt = Some (telemetry_topic, raw) \<and> nanopb_parse raw = Some (telemetry_record 0)
    \<and> gw_reachable demo_paho nanopb_parse False s \<and> arrived s = [raw]
    \<and> (\<exists>k s'. gw_run demo_paho nanopb_parse s (replicate k Internal) s' \<and> ingested s' = [(node_name, 0x41CB3333)])"
proof -
  let ?x = "sample_node Head MQTT_STATE_CONNECTED True ((), [] :: bytes)" and ?s = "\<lambda>raw. (gw_init False)\<lparr>telemetry_queue := message_arrived raw sq_init, arrived := [raw]\<rparr>"
  obtain y pkt where run: "node_run quiet_platform ?x [(0, pkt)] y" using sample_node_round by metis
  have x: "node_inv ?x" by (simp add: node_inv_def manager.link_def sample_node_def sample_client_def)
  have al: "allocates quiet_platform" by (simp add: allocates_def quiet_platform_def)
  have "gw_step demo_paho nanopb_parse (gw_init False) (Arrive raw) (?s raw)" for raw
    by (rule gw_step_eq [OF gw_arrive]) (simp_all add: gw_init_def)
  from gw_reach_step [OF gw_reach_init this] have s: "gw_reachable demo_paho nanopb_parse False (?s raw)" for raw .
  note t = telemetry_reaches_gateway [OF x al run _ _ allI [OF nanopb_parses]]
  from t [OF gw_reach_init, of False demo_paho] obtain raw where raw: "read_publish pkt = Some (telemetry_topic, raw)" "nanopb_parse raw = Some (telemetry_record 0)"
    by (auto simp: gw_init_def)
  from t [OF s [of raw]] raw(1) have "\<exists>k s'. gw_run demo_paho nanopb_parse (?s raw) (replicate k Internal) s' \<and> ingested s' = [(node_name, 0x41CB3333)]"
    by (auto simp: gw_init_def)
  with run raw s [of raw] show ?thesis by (intro exI [of _ y] exI [of _ pkt] exI [of _ raw] exI [of _ "?s raw"]) simp
qed

end
