(* ===== verification/Custom_Outbox.thy ===== *)
theory Custom_Outbox
  imports Mqtt_Outbox
begin

text \<open>
  The outbox in C++ that the MQTT component offers as a replacement of \<^verbatim>\<open>lib/mqtt_outbox.c\<close>
  (\<^verbatim>\<open>espressif__mqtt/examples/custom_outbox/main/custom_outbox.cpp\<close>): a deque of items over a chain of memory resources. A handle is
  the address of an item of the deque; it is modelled as the item's position and is meant until the next operation that erases.
  Whether the allocations of an operation succeed is an argument. It is compared with the model of the C outbox in \<open>Mqtt_Outbox\<close>.
\<close>

section \<open>Items and deque\<close>

record custom_item =
  ci_message :: bytes
  ci_id :: int
  ci_type :: int
  ci_qos :: int
  ci_tick :: int
  ci_state :: pending_state

record custom_outbox =
  co_total_size :: u32
  co_queue :: "custom_item list"

text \<open>\<open>std::ranges::find_if\<close>, and \<open>erase\<close> at what it found.\<close>
primrec find_if :: "('a \<Rightarrow> bool) \<Rightarrow> 'a list \<Rightarrow> nat option" where
  "find_if P [] = None"
| "find_if P (x # xs) = (if P x then Some 0 else map_option Suc (find_if P xs))"

definition erase_at :: "nat \<Rightarrow> 'a list \<Rightarrow> 'a list" where
  "erase_at i xs = take i xs @ drop (Suc i) xs"

definition custom_erase :: "nat \<Rightarrow> custom_outbox \<Rightarrow> custom_outbox" where
  "custom_erase i co =
     co\<lparr>co_total_size := co_total_size co - of_nat (length (ci_message (co_queue co ! i))), co_queue := erase_at i (co_queue co)\<rparr>"

definition custom_erase_if :: "nat option \<Rightarrow> custom_outbox \<Rightarrow> esp_err \<times> custom_outbox" where
  "custom_erase_if found co = (case found of Some i \<Rightarrow> (ESP_OK, custom_erase i co) | None \<Rightarrow> (ESP_FAIL, co))"

definition custom_expired :: "int \<Rightarrow> int \<Rightarrow> custom_item \<Rightarrow> bool" where
  "custom_expired now timeout it \<longleftrightarrow> now - ci_tick it > timeout"

section \<open>Operations\<close>

definition custom_init :: "bool \<Rightarrow> custom_outbox option" where
  "custom_init ok = (if ok then Some \<lparr>co_total_size = 0, co_queue = []\<rparr> else None)"

text \<open>A negative length makes the constructor of the vector throw. The result says whether a handle is returned.\<close>
definition custom_enqueue :: "bool \<Rightarrow> custom_outbox \<Rightarrow> outbox_message \<Rightarrow> int \<Rightarrow> bool \<times> custom_outbox" where
  "custom_enqueue ok co msg t =
     (if ok \<and> 0 \<le> om_len msg then
        (let it = \<lparr>ci_message = take (nat (om_len msg)) (om_data msg), ci_id = om_msg_id msg, ci_type = om_msg_type msg,
                   ci_qos = om_msg_qos msg, ci_tick = t, ci_state = QUEUED\<rparr>
         in (True, co\<lparr>co_queue := co_queue co @ [it], co_total_size := co_total_size co + of_nat (length (ci_message it))\<rparr>))
      else (False, co))"

definition custom_get :: "custom_outbox \<Rightarrow> int \<Rightarrow> nat option" where
  "custom_get co i = find_if (\<lambda>it. ci_id it = i) (co_queue co)"

text \<open>The tick that is stored through the caller's pointer is that of the item.\<close>
definition custom_dequeue :: "custom_outbox \<Rightarrow> pending_state \<Rightarrow> nat option" where
  "custom_dequeue co p = find_if (\<lambda>it. ci_state it = p) (co_queue co)"

definition custom_item_get_data :: "custom_outbox \<Rightarrow> nat option \<Rightarrow> (bytes \<times> u32 \<times> u16 \<times> int \<times> int) option" where
  "custom_item_get_data co h =
     (case h of
        None \<Rightarrow> None
      | Some i \<Rightarrow> (let it = co_queue co ! i in
          Some (ci_message it, of_nat (length (ci_message it)), of_int (ci_id it), ci_type it, ci_qos it)))"

definition custom_delete_item :: "custom_outbox \<Rightarrow> nat \<Rightarrow> esp_err \<times> custom_outbox" where
  "custom_delete_item co h = custom_erase_if (if h < length (co_queue co) then Some h else None) co"

definition custom_delete :: "custom_outbox \<Rightarrow> int \<Rightarrow> int \<Rightarrow> esp_err \<times> custom_outbox" where
  "custom_delete co i ty = custom_erase_if (find_if (\<lambda>it. ci_id it = i \<and> ci_type it = ty) (co_queue co)) co"

definition custom_delete_single_expired :: "custom_outbox \<Rightarrow> int \<Rightarrow> int \<Rightarrow> int \<times> custom_outbox" where
  "custom_delete_single_expired co now timeout =
     (case find_if (custom_expired now timeout) (co_queue co) of
        Some i \<Rightarrow> (ci_id (co_queue co ! i), custom_erase i co)
      | None \<Rightarrow> (- 1, co))"

definition custom_delete_expired :: "custom_outbox \<Rightarrow> int \<Rightarrow> int \<Rightarrow> int \<times> custom_outbox" where
  "custom_delete_expired co now timeout =
     (let gone = filter (custom_expired now timeout) (co_queue co) in
      (int (length gone),
       co\<lparr>co_queue := filter (\<lambda>it. \<not> custom_expired now timeout it) (co_queue co),
          co_total_size := co_total_size co - of_nat (sum_list (map (length \<circ> ci_message) gone))\<rparr>))"

definition custom_set_pending :: "custom_outbox \<Rightarrow> int \<Rightarrow> pending_state \<Rightarrow> esp_err \<times> custom_outbox" where
  "custom_set_pending co i p =
     (case custom_get co i of
        Some k \<Rightarrow> (ESP_OK, co\<lparr>co_queue := (co_queue co)[k := (co_queue co ! k)\<lparr>ci_state := p\<rparr>]\<rparr>)
      | None \<Rightarrow> (ESP_FAIL, co))"

definition custom_item_get_pending :: "custom_outbox \<Rightarrow> nat option \<Rightarrow> pending_state" where
  "custom_item_get_pending co h = (case h of Some i \<Rightarrow> ci_state (co_queue co ! i) | None \<Rightarrow> QUEUED)"

definition custom_set_tick :: "custom_outbox \<Rightarrow> int \<Rightarrow> int \<Rightarrow> esp_err \<times> custom_outbox" where
  "custom_set_tick co i t =
     (case custom_get co i of
        Some k \<Rightarrow> (ESP_OK, co\<lparr>co_queue := (co_queue co)[k := (co_queue co ! k)\<lparr>ci_tick := t\<rparr>]\<rparr>)
      | None \<Rightarrow> (ESP_FAIL, co))"

definition custom_get_size :: "custom_outbox \<Rightarrow> u64" where
  "custom_get_size co = ucast (co_total_size co)"

definition custom_delete_all_items :: "custom_outbox \<Rightarrow> custom_outbox" where
  "custom_delete_all_items co = co\<lparr>co_queue := []\<rparr>"

section \<open>Memory resources\<close>

text \<open>\<open>trace_resource\<close>: its count after an allocation, which throws when the one upstream does, and after a deallocation.\<close>
definition trace_do_allocate :: "bool \<Rightarrow> nat \<Rightarrow> u32 \<Rightarrow> u32 option" where
  "trace_do_allocate upstream_ok n used = (if upstream_ok then Some (used + of_nat n) else None)"

definition trace_do_deallocate :: "nat \<Rightarrow> u32 \<Rightarrow> u32" where
  "trace_do_deallocate n used = used"

text \<open>What \<open>outbox_init\<close> creates, and the resources that a destructor gives memory back to: a pool to its upstream, the deque to the pool.\<close>
datatype resource = Monotonic | Trace_Monotonic | Pool_Resource | Trace_Pool | Outbox_Object

fun gives_back_to :: "resource \<Rightarrow> resource set" where
  "gives_back_to Pool_Resource = {Trace_Monotonic, Monotonic}"
| "gives_back_to Outbox_Object = {Trace_Pool, Pool_Resource}"
| "gives_back_to _ = {}"

text \<open>\<open>delete\<close> on one of them, with the ones that are alive; \<open>None\<close> when its destructor uses one that is not.\<close>
definition delete_resource :: "resource \<Rightarrow> resource set \<Rightarrow> resource set option" where
  "delete_resource r alive = (if r \<in> alive \<and> gives_back_to r \<subseteq> alive then Some (alive - {r}) else None)"

fun delete_resources :: "resource list \<Rightarrow> resource set \<Rightarrow> resource set option" where
  "delete_resources [] alive = Some alive"
| "delete_resources (r # rs) alive = (case delete_resource r alive of None \<Rightarrow> None | Some a \<Rightarrow> delete_resources rs a)"

definition custom_destroy :: "resource set \<Rightarrow> resource set option" where
  "custom_destroy alive = delete_resources [Monotonic, Trace_Monotonic, Pool_Resource, Trace_Pool, Outbox_Object] alive"

lemma custom_destroy_uses_deleted: "custom_destroy {Monotonic, Trace_Monotonic, Pool_Resource, Trace_Pool, Outbox_Object} = None"
  by (simp add: custom_destroy_def delete_resource_def)

lemma destroy_in_reverse:
  "delete_resources [Outbox_Object, Trace_Pool, Pool_Resource, Trace_Monotonic, Monotonic]
     {Monotonic, Trace_Monotonic, Pool_Resource, Trace_Pool, Outbox_Object} = Some {}"
  by (auto simp: delete_resource_def)

section \<open>Searching and erasing\<close>

lemma find_if_None: "find_if P xs = None \<longleftrightarrow> (\<forall>x \<in> set xs. \<not> P x)"
  by (induction xs) auto

lemma find_if_Some: "find_if P xs = Some i \<Longrightarrow> \<exists>ys x zs. xs = ys @ x # zs \<and> length ys = i \<and> P x \<and> (\<forall>y \<in> set ys. \<not> P y)"
proof (induction xs arbitrary: i)
  case (Cons x xs)
  show ?case
  proof (cases "P x")
    case True
    with Cons.prems show ?thesis by (intro exI [of _ "[]"] exI [of _ x] exI [of _ xs]) simp
  next
    case False
    with Cons.prems obtain j where j: "find_if P xs = Some j" "i = Suc j" by auto
    from Cons.IH [OF j(1)] obtain ys y zs where "xs = ys @ y # zs" "length ys = j" "P y" "\<forall>u \<in> set ys. \<not> P u" by blast
    with False j(2) show ?thesis by (intro exI [of _ "x # ys"] exI [of _ y] exI [of _ zs]) auto
  qed
qed simp

lemma erase_at_split [simp]: "erase_at (length ys) (ys @ x # zs) = ys @ zs"
  by (simp add: erase_at_def)

lemma find_if_map: "find_if P (map f xs) = find_if (P \<circ> f) xs"
  by (induction xs) auto

lemma find_via_find_if: "find P xs = map_option (\<lambda>i. xs ! i) (find_if P xs)"
  by (induction xs) (auto simp: option.map_comp o_def)

section \<open>The interface the client relies on\<close>

definition custom_view :: "custom_outbox \<Rightarrow> entry list" where
  "custom_view co = map (\<lambda>it. (ci_id it, ci_type it, ci_message it)) (co_queue co)"

lemma custom_set_pending_view: "custom_view (snd (custom_set_pending co i p)) = custom_view co"
  by (auto simp: custom_set_pending_def custom_view_def custom_get_def list_update_append dest!: find_if_Some split: option.splits)

lemma custom_set_pending_ok: "fst (custom_set_pending co i p) = ESP_OK \<longleftrightarrow> i \<in> fst ` set (custom_view co)"
  by (auto simp: custom_set_pending_def custom_view_def custom_get_def image_image find_if_None dest!: find_if_Some split: option.splits)

lemma custom_delete_view: "custom_view (snd (custom_delete co i ty)) = remove_first (matches i ty) (custom_view co)"
proof (cases "find_if (\<lambda>it. ci_id it = i \<and> ci_type it = ty) (co_queue co)")
  case None
  then have "\<forall>e \<in> set (custom_view co). \<not> matches i ty e" by (auto simp: find_if_None custom_view_def matches_def)
  with None show ?thesis by (simp add: custom_delete_def custom_erase_if_def remove_first_none)
next
  case (Some k)
  with find_if_Some [OF Some] show ?thesis
    by (auto simp: custom_delete_def custom_erase_if_def custom_erase_def custom_view_def matches_def remove_first_append)
qed

lemma custom_delete_ok: "fst (custom_delete co i ty) = ESP_OK \<longleftrightarrow> (\<exists>e \<in> set (custom_view co). matches i ty e)"
  by (auto simp: custom_delete_def custom_erase_if_def custom_view_def matches_def find_if_None dest!: find_if_Some split: option.splits)

interpretation co: message_store "\<lambda>_. True" custom_view custom_set_pending custom_delete
  by unfold_locales (simp_all add: custom_set_pending_view custom_set_pending_ok custom_delete_view custom_delete_ok)

section \<open>Both implementations side by side\<close>

text \<open>What the client does with its outbox, and what it learns. \<open>Take\<close> deletes the item that \<open>outbox_dequeue\<close> has just found.\<close>
datatype store_op =
    Put addr bytes outbox_message int
  | Look pending_state
  | Take pending_state
  | Remove int int
  | Mark int pending_state
  | Touch int int
  | Expire_One int int
  | Expire int int

datatype store_answer =
    Stored bool
  | Found "((bytes \<times> u32 \<times> u16 \<times> int \<times> int) \<times> int \<times> pending_state) option"
  | Error esp_err
  | Number int

fun c_store :: "store_op \<Rightarrow> outbox \<Rightarrow> store_answer \<times> outbox" where
  "c_store (Put a blk msg t) ob = (case outbox_enqueue (Some a) (Some blk) ob msg t of (h, ob) \<Rightarrow> (Stored (h \<noteq> None), ob))"
| "c_store (Look p) ob =
     (Found (case outbox_dequeue ob p of
        None \<Rightarrow> None
      | Some it \<Rightarrow> map_option (\<lambda>d. (d, tick it, outbox_item_get_pending (Some it))) (outbox_item_get_data (Some it))), ob)"
| "c_store (Take p) ob =
     (case outbox_dequeue ob p of
        None \<Rightarrow> (Error ESP_FAIL, ob)
      | Some it \<Rightarrow> (case outbox_delete_item ob (self it) of (e, ob) \<Rightarrow> (Error e, ob)))"
| "c_store (Remove i ty) ob = (case outbox_delete ob i ty of (e, ob) \<Rightarrow> (Error e, ob))"
| "c_store (Mark i p) ob = (case outbox_set_pending ob i p of (e, ob) \<Rightarrow> (Error e, ob))"
| "c_store (Touch i t) ob = (case outbox_set_tick ob i t of (e, ob) \<Rightarrow> (Error e, ob))"
| "c_store (Expire_One now timeout) ob = (case outbox_delete_single_expired ob now timeout of (n, ob) \<Rightarrow> (Number n, ob))"
| "c_store (Expire now timeout) ob = (case outbox_delete_expired ob now timeout of (n, ob) \<Rightarrow> (Number n, ob))"

fun cpp_store :: "store_op \<Rightarrow> custom_outbox \<Rightarrow> store_answer \<times> custom_outbox" where
  "cpp_store (Put a blk msg t) co = (case custom_enqueue True co msg t of (h, co) \<Rightarrow> (Stored h, co))"
| "cpp_store (Look p) co =
     (Found (case custom_dequeue co p of
        None \<Rightarrow> None
      | Some i \<Rightarrow> map_option (\<lambda>d. (d, ci_tick (co_queue co ! i), custom_item_get_pending co (Some i))) (custom_item_get_data co (Some i))), co)"
| "cpp_store (Take p) co =
     (case custom_dequeue co p of
        None \<Rightarrow> (Error ESP_FAIL, co)
      | Some i \<Rightarrow> (case custom_delete_item co i of (e, co) \<Rightarrow> (Error e, co)))"
| "cpp_store (Remove i ty) co = (case custom_delete co i ty of (e, co) \<Rightarrow> (Error e, co))"
| "cpp_store (Mark i p) co = (case custom_set_pending co i p of (e, co) \<Rightarrow> (Error e, co))"
| "cpp_store (Touch i t) co = (case custom_set_tick co i t of (e, co) \<Rightarrow> (Error e, co))"
| "cpp_store (Expire_One now timeout) co = (case custom_delete_single_expired co now timeout of (n, co) \<Rightarrow> (Number n, co))"
| "cpp_store (Expire now timeout) co = (case custom_delete_expired co now timeout of (n, co) \<Rightarrow> (Number n, co))"

text \<open>The answers of a sequence of operations and the state after it.\<close>
fun answers :: "(store_op \<Rightarrow> 's \<Rightarrow> store_answer \<times> 's) \<Rightarrow> store_op list \<Rightarrow> 's \<Rightarrow> store_answer list \<times> 's" where
  "answers f [] s = ([], s)"
| "answers f (op # ops) s = (case f op s of (a, s) \<Rightarrow> case answers f ops s of (as, s) \<Rightarrow> (a # as, s))"

text \<open>
  Messages in one piece with a type of one byte. The allocator of the C outbox returns no address that is in use, and a block of the size
  asked for.
\<close>
fun whole_message :: "store_op \<Rightarrow> bool" where
  "whole_message (Put a blk msg t) \<longleftrightarrow> om_remaining_data msg = None \<and> om_remaining_len msg = 0 \<and> int (length (om_data msg)) = om_len msg
     \<and> 0 \<le> om_msg_type msg \<and> om_msg_type msg < 256"
| "whole_message _ \<longleftrightarrow> True"

fun new_address :: "store_op \<Rightarrow> outbox \<Rightarrow> bool" where
  "new_address (Put a blk msg t) ob \<longleftrightarrow> a \<notin> self ` set (items ob) \<and> int (length blk) = om_len msg + om_remaining_len msg"
| "new_address _ ob \<longleftrightarrow> True"

primrec new_addresses :: "store_op list \<Rightarrow> outbox \<Rightarrow> bool" where
  "new_addresses [] ob \<longleftrightarrow> True"
| "new_addresses (op # ops) ob \<longleftrightarrow> new_address op ob \<and> new_addresses ops (snd (c_store op ob))"

definition custom_of :: "outbox_item \<Rightarrow> custom_item" where
  "custom_of it = \<lparr>ci_message = buffer it, ci_id = msg_id it, ci_type = msg_type it, ci_qos = msg_qos it, ci_tick = tick it, ci_state = pending it\<rparr>"

definition item_ok :: "outbox_item \<Rightarrow> bool" where
  "item_ok it \<longleftrightarrow> int (length (buffer it)) = len it \<and> 0 \<le> msg_type it \<and> msg_type it < 256"

definition mirrors :: "outbox \<Rightarrow> custom_outbox \<Rightarrow> bool" where
  "mirrors ob co \<longleftrightarrow> outbox_wf ob \<and> (\<forall>it \<in> set (items ob). item_ok it) \<and> co_queue co = map custom_of (items ob)
     \<and> co_total_size co = of_int (sum_list (map len (items ob)))"

lemma custom_of_simps [simp]: "ci_message (custom_of it) = buffer it" "ci_id (custom_of it) = msg_id it" "ci_type (custom_of it) = msg_type it"
  "ci_qos (custom_of it) = msg_qos it" "ci_tick (custom_of it) = tick it" "ci_state (custom_of it) = pending it"
  by (simp_all add: custom_of_def)

lemma custom_expired_of: "custom_expired now timeout \<circ> custom_of = expired now timeout"
  by (auto simp: custom_expired_def expired_def)

text \<open>A search finds the same item in both.\<close>
lemma mirrors_search:
  assumes "mirrors ob co" and "\<And>it. it \<in> set (items ob) \<Longrightarrow> P (custom_of it) = R it"
  obtains "find_if P (co_queue co) = None" "find R (items ob) = None"
  | ys it zs where "find_if P (co_queue co) = Some (length ys)" "find R (items ob) = Some it" "items ob = ys @ it # zs" "R it"
      "co_queue co ! length ys = custom_of it" "length ys < length (co_queue co)" "\<forall>y \<in> set ys. \<not> R y"
proof -
  have q: "co_queue co = map custom_of (items ob)" using assms(1) by (simp add: mirrors_def)
  have "find_if (P \<circ> custom_of) xs = find_if R xs" if "set xs \<subseteq> set (items ob)" for xs
    using that assms(2) by (induction xs) auto
  then have f: "find_if P (co_queue co) = find_if R (items ob)" by (simp add: q find_if_map)
  show thesis
  proof (cases "find_if R (items ob)")
    case None
    then show thesis using that(1) f by (simp add: find_via_find_if)
  next
    case (Some k)
    from find_if_Some [OF Some] obtain ys it zs where "items ob = ys @ it # zs" "length ys = k" "R it" "\<forall>y \<in> set ys. \<not> R y" by blast
    with Some f show thesis by (intro that(2) [of ys it zs]) (auto simp: find_via_find_if q nth_append)
  qed
qed

lemma mirrors_erase:
  assumes "mirrors ob co" and "items ob = ys @ it # zs"
  shows "mirrors (outbox_unlink ob it) (custom_erase (length ys) co)"
proof -
  note u = outbox_unlink_split [OF assms(2)]
  have "int (length (buffer it)) = len it" using assms by (simp add: mirrors_def item_ok_def)
  then have "(of_nat (length (buffer it)) :: u32) = of_int (len it)" by (metis of_int_of_nat_eq)
  moreover have "erase_at (length ys) (map custom_of (ys @ it # zs)) = map custom_of (ys @ zs)"
    using erase_at_split [of "map custom_of ys"] by simp
  ultimately show ?thesis
    using assms u unfolding mirrors_def custom_erase_def by (auto simp: nth_append)
qed

lemma mirrors_update:
  assumes "mirrors ob co" and "items ob = ys @ it # zs" and "\<And>x. self (f x) = self x" "\<And>x. len (f x) = len x" "\<And>x. item_ok (f x) = item_ok x"
    and "custom_of (f it) = g (custom_of it)"
  shows "mirrors (update_item (self it) f ob) (co\<lparr>co_queue := (co_queue co)[length ys := g (custom_of it)]\<rparr>)"
proof -
  have d: "distinct (map self (ys @ it # zs))" using assms(1,2) by (simp add: mirrors_def outbox_wf_def)
  then have "map (\<lambda>x. if self x = self it then f x else x) (ys @ it # zs) = ys @ f it # zs"
    by (auto intro!: map_idI) (metis image_eqI)+
  then have i: "items (update_item (self it) f ob) = ys @ f it # zs" by (simp add: update_item_def assms(2))
  show ?thesis
    using assms(1,2,4-6) wf_update_item [of ob f "self it"] assms(3) unfolding mirrors_def i
    by (auto simp: list_update_append)
qed

lemmas mirror_defs = outbox_dequeue_def custom_dequeue_def outbox_delete_def custom_delete_def outbox_get_def custom_get_def
  outbox_set_pending_def custom_set_pending_def outbox_set_tick_def custom_set_tick_def outbox_delete_single_expired_def
  custom_delete_single_expired_def custom_erase_if_def

lemma mirrors_put:
  assumes "mirrors ob co" and "whole_message (Put a blk msg t)" and "new_address (Put a blk msg t) ob"
  shows "fst (c_store (Put a blk msg t) ob) = fst (cpp_store (Put a blk msg t) co) \<and> mirrors (snd (c_store (Put a blk msg t) ob)) (snd (cpp_store (Put a blk msg t) co))"
proof -
  have n: "0 \<le> om_len msg" "nat (om_len msg) = length (om_data msg)" "om_remaining_data msg = None" "om_remaining_len msg = 0"
    "int (length (om_data msg)) = om_len msg" "0 \<le> om_msg_type msg" "om_msg_type msg < 256" using assms(2) by auto
  have b: "length blk = length (om_data msg)" using assms(3) n by simp
  have w: "(of_nat (length (om_data msg)) :: u32) = of_int (om_len msg)" using n(5) by (metis of_int_of_nat_eq)
  show ?thesis
    using assms(1,3) n b w wf_enqueue [of ob "Some a" "Some blk" msg t]
    by (auto simp: outbox_enqueue_def custom_enqueue_def Let_def mirrors_def item_ok_def custom_of_def)
qed

lemma mirrors_expire:
  assumes "mirrors ob co"
  shows "fst (c_store (Expire now timeout) ob) = fst (cpp_store (Expire now timeout) co)
    \<and> mirrors (snd (c_store (Expire now timeout) ob)) (snd (cpp_store (Expire now timeout) co))"
proof -
  let ?x = "expired now timeout"
  have wf: "outbox_wf ob" and q: "co_queue co = map custom_of (items ob)" "\<forall>it \<in> set (items ob). item_ok it"
    "co_total_size co = of_int (sum_list (map len (items ob)))" using assms by (simp_all add: mirrors_def)
  obtain ob' where ob': "outbox_delete_expired ob now timeout = (int (length (filter ?x (items ob))), ob')"
    "items ob' = filter (\<lambda>it. \<not> ?x it) (items ob)" "outbox_wf ob'"
    using delete_expired_walk_spec [OF wf, of "[]" "items ob" now timeout 0] by (auto simp: outbox_delete_expired_def)
  have "int (sum_list (map (length \<circ> buffer) (filter ?x xs))) + sum_list (map len (filter (\<lambda>it. \<not> ?x it) xs)) = sum_list (map len xs)"
    if "\<forall>it \<in> set xs. item_ok it" for xs using that by (induction xs) (auto simp: item_ok_def)
  from arg_cong [OF this [OF q(2)], of "of_int :: int \<Rightarrow> u32"]
  have "co_total_size co - of_nat (sum_list (map (length \<circ> buffer) (filter ?x (items ob)))) = of_int (sum_list (map len (items ob')))"
    unfolding q(3) ob'(2) by (simp add: algebra_simps)
  moreover have "filter (custom_expired now timeout) (map custom_of (items ob)) = map custom_of (filter ?x (items ob))"
    "filter (\<lambda>it. \<not> custom_expired now timeout it) (map custom_of (items ob)) = map custom_of (filter (\<lambda>it. \<not> ?x it) (items ob))"
    unfolding filter_map custom_expired_of by (simp_all add: o_def custom_expired_def expired_def)
  ultimately show ?thesis
    using ob' q by (simp add: custom_delete_expired_def Let_def mirrors_def o_def)
qed

lemma mirrors_found:
  assumes "mirrors ob co"
  shows "fst (c_store (Look p) ob) = fst (cpp_store (Look p) co) \<and> mirrors (snd (c_store (Look p) ob)) (snd (cpp_store (Look p) co))"
proof (cases rule: mirrors_search [OF assms, of "\<lambda>it. ci_state it = p" "\<lambda>it. pending it = p"])
  case (3 ys it zs)
  then have "int (length (buffer it)) = len it" using assms by (simp add: mirrors_def item_ok_def)
  then have "(of_nat (length (buffer it)) :: u32) = of_int (len it)" by (metis of_int_of_nat_eq)
  with 3 assms show ?thesis
    by (simp add: mirror_defs outbox_item_get_data_def custom_item_get_data_def outbox_item_get_pending_def custom_item_get_pending_def Let_def)
qed (use assms in \<open>simp_all add: mirror_defs\<close>)

lemma mirrors_take:
  assumes "mirrors ob co"
  shows "fst (c_store (Take p) ob) = fst (cpp_store (Take p) co) \<and> mirrors (snd (c_store (Take p) ob)) (snd (cpp_store (Take p) co))"
proof (cases rule: mirrors_search [OF assms, of "\<lambda>it. ci_state it = p" "\<lambda>it. pending it = p"])
  case (3 ys it zs)
  have "distinct (map self (ys @ it # zs))" using assms 3(3) by (simp add: mirrors_def outbox_wf_def)
  then have "find (\<lambda>x. self x = self it) (ys @ it # zs) = Some it" by (induction ys) auto
  with 3 mirrors_erase [OF assms 3(3)] show ?thesis
    by (simp add: mirror_defs outbox_delete_item_def custom_delete_item_def)
qed (use assms in \<open>simp_all add: mirror_defs\<close>)

lemma mirrors_step:
  assumes "mirrors ob co" and "whole_message op" and "new_address op ob"
  shows "fst (c_store op ob) = fst (cpp_store op co) \<and> mirrors (snd (c_store op ob)) (snd (cpp_store op co))"
proof (cases op)
  case (Remove i ty)
  show ?thesis
  proof (cases rule: mirrors_search [OF assms(1), of "\<lambda>it. ci_id it = i \<and> ci_type it = ty" "\<lambda>it. msg_id it = i \<and> msg_type it mod 256 = ty"])
    case (1 it)
    then show ?case using assms(1) by (simp add: mirrors_def item_ok_def)
  next
    case (3 ys it zs)
    with mirrors_erase [OF assms(1) 3(3)] show ?thesis by (simp add: Remove mirror_defs)
  qed (use assms(1) in \<open>simp add: Remove mirror_defs\<close>)
next
  case (Mark i p)
  show ?thesis
  proof (cases rule: mirrors_search [OF assms(1), of "\<lambda>it. ci_id it = i" "\<lambda>it. msg_id it = i"])
    case (3 ys it zs)
    with mirrors_update [OF assms(1) 3(3), of "\<lambda>x. x\<lparr>pending := p\<rparr>" "\<lambda>x. x\<lparr>ci_state := p\<rparr>"] show ?thesis
      by (simp add: Mark mirror_defs item_ok_def custom_of_def)
  qed (use assms(1) in \<open>simp_all add: Mark mirror_defs\<close>)
next
  case (Touch i t)
  show ?thesis
  proof (cases rule: mirrors_search [OF assms(1), of "\<lambda>it. ci_id it = i" "\<lambda>it. msg_id it = i"])
    case (3 ys it zs)
    with mirrors_update [OF assms(1) 3(3), of "\<lambda>x. x\<lparr>tick := t\<rparr>" "\<lambda>x. x\<lparr>ci_tick := t\<rparr>"] show ?thesis
      by (simp add: Touch mirror_defs item_ok_def custom_of_def)
  qed (use assms(1) in \<open>simp_all add: Touch mirror_defs\<close>)
next
  case (Expire_One now timeout)
  show ?thesis
  proof (cases rule: mirrors_search [OF assms(1), of "custom_expired now timeout" "expired now timeout"])
    case (1 it)
    then show ?case by (simp add: custom_expired_def expired_def)
  next
    case (3 ys it zs)
    with mirrors_erase [OF assms(1) 3(3)] show ?thesis by (simp add: Expire_One mirror_defs)
  qed (use assms(1) in \<open>simp add: Expire_One mirror_defs\<close>)
qed (use assms in \<open>simp_all only: mirrors_put mirrors_found mirrors_take mirrors_expire\<close>)

lemma mirrors_run:
  assumes "mirrors ob co" and "\<forall>op \<in> set ops. whole_message op" and "new_addresses ops ob"
  shows "fst (answers c_store ops ob) = fst (answers cpp_store ops co) \<and> mirrors (snd (answers c_store ops ob)) (snd (answers cpp_store ops co))"
  using assms
proof (induction ops arbitrary: ob co)
  case (Cons op ops)
  from mirrors_step [OF Cons.prems(1), of op] Cons.prems have s: "fst (c_store op ob) = fst (cpp_store op co)"
    "mirrors (snd (c_store op ob)) (snd (cpp_store op co))" by auto
  from Cons.IH [OF s(2)] Cons.prems s(1) show ?case by (auto split: prod.splits)
qed simp

lemma ucast_of_int_down: "(ucast (of_int n :: u64) :: u32) = of_int n"
  by (simp add: unsigned_of_int word_of_int_eq_iff take_bit_take_bit)


definition store_demo :: "store_op list" where
  "store_demo = [Put 100 [0, 0] \<lparr>om_data = [1, 2], om_len = 2, om_msg_id = 7, om_msg_qos = 1, om_msg_type = 3, om_remaining_data = None, om_remaining_len = 0\<rparr> 10,
     Put 200 [0] \<lparr>om_data = [9], om_len = 1, om_msg_id = 8, om_msg_qos = 1, om_msg_type = 3, om_remaining_data = None, om_remaining_len = 0\<rparr> 50,
     Mark 7 TRANSMITTED, Look TRANSMITTED, Remove 7 3, Expire 60 20, Take QUEUED]"


section \<open>Where it differs\<close>

text \<open>
  A message in two pieces: the C outbox joins them, the C++ outbox keeps the first one only, so that the packet it sends again has lost the
  rest of its payload.
\<close>
lemma custom_outbox_drops_remaining:
  assumes "length (om_data msg) = nat (om_len msg)" and "0 \<le> om_len msg" and "0 \<le> om_remaining_len msg"
    and "om_remaining_data msg = Some r" and "length r = nat (om_remaining_len msg)"
  shows "map buffer (items (snd (outbox_enqueue (Some a) (Some blk) ob msg t))) = map buffer (items ob) @ [om_data msg @ r]
    \<and> map ci_message (co_queue (snd (custom_enqueue True co msg t))) = map ci_message (co_queue co) @ [om_data msg]"
  using outbox_enqueue_item [OF assms, of a blk ob t] assms(1,2) by (auto simp: custom_enqueue_def Let_def)

text \<open>\<open>outbox_delete_all_items\<close> leaves the size as it was.\<close>
lemma custom_size_after_clear:
  "co_queue (custom_delete_all_items co) = [] \<and> custom_get_size (custom_delete_all_items co) = custom_get_size co"
  by (simp add: custom_delete_all_items_def custom_get_size_def)

end
