(* ===== verification/Mqtt5_Msg.thy ===== *)
theory Mqtt5_Msg
  imports Mqtt_Msg
begin

unbundle bit_operations_syntax

text \<open>
  The MQTT 5 packet builder and readers (\<^verbatim>\<open>espressif__mqtt/lib/mqtt5_msg.c\<close>, \<^verbatim>\<open>lib/include/mqtt5_msg.h\<close>,
  the property structs of \<^verbatim>\<open>include/mqtt5_client.h\<close>), with the conventions of \<open>Mqtt_Msg\<close>. A list of user
  properties is \<open>None\<close> for the null handle. The results of \<open>calloc\<close> are a function: \<open>mem i\<close> says whether the
  \<open>i\<close>-th call succeeds, and the functions that allocate count the calls.
\<close>

section \<open>Data\<close>

type_synonym user_properties = "(bytes \<times> bytes) list option"

abbreviation (input) MQTT5_PROPERTY_PAYLOAD_FORMAT_INDICATOR :: byte where "MQTT5_PROPERTY_PAYLOAD_FORMAT_INDICATOR \<equiv> 0x01"
abbreviation (input) MQTT5_PROPERTY_MESSAGE_EXPIRY_INTERVAL :: byte where "MQTT5_PROPERTY_MESSAGE_EXPIRY_INTERVAL \<equiv> 0x02"
abbreviation (input) MQTT5_PROPERTY_CONTENT_TYPE :: byte where "MQTT5_PROPERTY_CONTENT_TYPE \<equiv> 0x03"
abbreviation (input) MQTT5_PROPERTY_RESPONSE_TOPIC :: byte where "MQTT5_PROPERTY_RESPONSE_TOPIC \<equiv> 0x08"
abbreviation (input) MQTT5_PROPERTY_CORRELATION_DATA :: byte where "MQTT5_PROPERTY_CORRELATION_DATA \<equiv> 0x09"
abbreviation (input) MQTT5_PROPERTY_SUBSCRIBE_IDENTIFIER :: byte where "MQTT5_PROPERTY_SUBSCRIBE_IDENTIFIER \<equiv> 0x0B"
abbreviation (input) MQTT5_PROPERTY_SESSION_EXPIRY_INTERVAL :: byte where "MQTT5_PROPERTY_SESSION_EXPIRY_INTERVAL \<equiv> 0x11"
abbreviation (input) MQTT5_PROPERTY_ASSIGNED_CLIENT_IDENTIFIER :: byte where "MQTT5_PROPERTY_ASSIGNED_CLIENT_IDENTIFIER \<equiv> 0x12"
abbreviation (input) MQTT5_PROPERTY_SERVER_KEEP_ALIVE :: byte where "MQTT5_PROPERTY_SERVER_KEEP_ALIVE \<equiv> 0x13"
abbreviation (input) MQTT5_PROPERTY_AUTHENTICATION_METHOD :: byte where "MQTT5_PROPERTY_AUTHENTICATION_METHOD \<equiv> 0x15"
abbreviation (input) MQTT5_PROPERTY_AUTHENTICATION_DATA :: byte where "MQTT5_PROPERTY_AUTHENTICATION_DATA \<equiv> 0x16"
abbreviation (input) MQTT5_PROPERTY_REQUEST_PROBLEM_INFO :: byte where "MQTT5_PROPERTY_REQUEST_PROBLEM_INFO \<equiv> 0x17"
abbreviation (input) MQTT5_PROPERTY_WILL_DELAY_INTERVAL :: byte where "MQTT5_PROPERTY_WILL_DELAY_INTERVAL \<equiv> 0x18"
abbreviation (input) MQTT5_PROPERTY_REQUEST_RESP_INFO :: byte where "MQTT5_PROPERTY_REQUEST_RESP_INFO \<equiv> 0x19"
abbreviation (input) MQTT5_PROPERTY_RESP_INFO :: byte where "MQTT5_PROPERTY_RESP_INFO \<equiv> 0x1A"
abbreviation (input) MQTT5_PROPERTY_SERVER_REFERENCE :: byte where "MQTT5_PROPERTY_SERVER_REFERENCE \<equiv> 0x1C"
abbreviation (input) MQTT5_PROPERTY_REASON_STRING :: byte where "MQTT5_PROPERTY_REASON_STRING \<equiv> 0x1F"
abbreviation (input) MQTT5_PROPERTY_RECEIVE_MAXIMUM :: byte where "MQTT5_PROPERTY_RECEIVE_MAXIMUM \<equiv> 0x21"
abbreviation (input) MQTT5_PROPERTY_TOPIC_ALIAS_MAXIMIM :: byte where "MQTT5_PROPERTY_TOPIC_ALIAS_MAXIMIM \<equiv> 0x22"
abbreviation (input) MQTT5_PROPERTY_TOPIC_ALIAS :: byte where "MQTT5_PROPERTY_TOPIC_ALIAS \<equiv> 0x23"
abbreviation (input) MQTT5_PROPERTY_MAXIMUM_QOS :: byte where "MQTT5_PROPERTY_MAXIMUM_QOS \<equiv> 0x24"
abbreviation (input) MQTT5_PROPERTY_RETAIN_AVAILABLE :: byte where "MQTT5_PROPERTY_RETAIN_AVAILABLE \<equiv> 0x25"
abbreviation (input) MQTT5_PROPERTY_USER_PROPERTY :: byte where "MQTT5_PROPERTY_USER_PROPERTY \<equiv> 0x26"
abbreviation (input) MQTT5_PROPERTY_MAXIMUM_PACKET_SIZE :: byte where "MQTT5_PROPERTY_MAXIMUM_PACKET_SIZE \<equiv> 0x27"
abbreviation (input) MQTT5_PROPERTY_WILDCARD_SUBSCR_AVAILABLE :: byte where "MQTT5_PROPERTY_WILDCARD_SUBSCR_AVAILABLE \<equiv> 0x28"
abbreviation (input) MQTT5_PROPERTY_SUBSCR_IDENTIFIER_AVAILABLE :: byte where "MQTT5_PROPERTY_SUBSCR_IDENTIFIER_AVAILABLE \<equiv> 0x29"
abbreviation (input) MQTT5_PROPERTY_SHARED_SUBSCR_AVAILABLE :: byte where "MQTT5_PROPERTY_SHARED_SUBSCR_AVAILABLE \<equiv> 0x2A"

text \<open>\<open>esp_mqtt5_connection_property_storage_t\<close>.\<close>
record connection_property =
  cp_session_expiry_interval :: u32
  cp_maximum_packet_size :: u32
  cp_receive_maximum :: u16
  cp_topic_alias_maximum :: u16
  cp_request_resp_info :: bool
  cp_request_problem_info :: bool
  cp_user_property :: user_properties

text \<open>\<open>esp_mqtt5_connection_will_property_storage_t\<close>.\<close>
record will_property =
  wp_will_delay_interval :: u32
  wp_message_expiry_interval :: u32
  wp_payload_format_indicator :: bool
  wp_content_type :: "bytes option"
  wp_response_topic :: "bytes option"
  wp_correlation_data :: "bytes option"
  wp_correlation_data_len :: u16
  wp_user_property :: user_properties

text \<open>\<open>esp_mqtt5_connection_server_resp_property_t\<close>.\<close>
record server_resp_property =
  sr_maximum_packet_size :: u32
  sr_receive_maximum :: u16
  sr_topic_alias_maximum :: u16
  sr_max_qos :: byte
  sr_retain_available :: bool
  sr_wildcard_subscribe_available :: bool
  sr_subscribe_identifiers_available :: bool
  sr_shared_subscribe_available :: bool
  sr_response_info :: "bytes option"

text \<open>\<open>esp_mqtt5_publish_property_config_t\<close>.\<close>
record publish_property =
  pp_payload_format_indicator :: bool
  pp_message_expiry_interval :: u32
  pp_topic_alias :: u16
  pp_response_topic :: "bytes option"
  pp_correlation_data :: "bytes option"
  pp_correlation_data_len :: u16
  pp_content_type :: "bytes option"
  pp_user_property :: user_properties

text \<open>\<open>esp_mqtt5_subscribe_property_config_t\<close>, \<open>esp_mqtt5_unsubscribe_property_config_t\<close>, \<open>esp_mqtt5_disconnect_property_config_t\<close>.\<close>
record subscribe_property =
  sp_subscribe_id :: u16
  sp_no_local_flag :: bool
  sp_retain_as_published_flag :: bool
  sp_retain_handle :: byte
  sp_is_share_subscribe :: bool
  sp_share_name :: "bytes option"
  sp_user_property :: user_properties

record unsubscribe_property =
  up_is_share_subscribe :: bool
  up_share_name :: "bytes option"
  up_user_property :: user_properties

record disconnect_property =
  dp_session_expiry_interval :: u32
  dp_disconnect_reason :: byte
  dp_user_property :: user_properties

text \<open>\<open>esp_mqtt5_publish_resp_property_t\<close>; a pointer is its offset in the buffer.\<close>
record publish_resp =
  rp_payload_format_indicator :: bool
  rp_message_expiry_interval :: u32
  rp_topic_alias :: u16
  rp_response_topic :: "nat option"
  rp_response_topic_len :: int
  rp_correlation_data :: "nat option"
  rp_correlation_data_len :: u16
  rp_content_type :: "nat option"
  rp_content_type_len :: int
  rp_subscribe_id :: u16

definition empty_publish_resp :: publish_resp where
  "empty_publish_resp = \<lparr>rp_payload_format_indicator = False, rp_message_expiry_interval = 0, rp_topic_alias = 0, rp_response_topic = None,
     rp_response_topic_len = 0, rp_correlation_data = None, rp_correlation_data_len = 0, rp_content_type = None, rp_content_type_len = 0,
     rp_subscribe_id = 0\<rparr>"

section \<open>Variable-length integers\<close>

text \<open>The \<open>do\<close> loop of \<open>generate_variable_len\<close>; every caller stores the result in an array of four bytes.\<close>
fun generate_variable_len :: "nat \<Rightarrow> bytes" where
  "generate_variable_len n =
     (if n div 128 > 0 then (of_nat (n mod 128) OR 0x80) # generate_variable_len (n div 128) else [of_nat (n mod 128)])"

declare generate_variable_len.simps [simp del]

text \<open>The loop from \<open>i\<close> on: the sum, and the number of bytes from \<open>off\<close> to the end of the loop.\<close>
function variable_scan :: "bytes \<Rightarrow> nat \<Rightarrow> nat \<Rightarrow> nat \<Rightarrow> u32 \<Rightarrow> fault + u32 \<times> nat" where
  "variable_scan b n off i tot =
     (if i < n then
        case rd b i of
          Inl f \<Rightarrow> Inl f
        | Inr x \<Rightarrow>
            if 7 * (i - off) \<ge> 32 then Inl Overrun
            else (let tot' = tot + push_bit (7 * (i - off)) (ucast (x AND 0x7f))
                  in if x AND 0x80 = 0 then Inr (tot', i + 1 - off) else variable_scan b n off (i + 1) tot')
      else Inr (tot, i - off))"
  by pat_completeness auto
termination by (relation "measure (\<lambda>(b, n, off, i, tot). n - i)") auto

declare variable_scan.simps [simp del]

definition get_variable_len :: "bytes \<Rightarrow> nat \<Rightarrow> nat \<Rightarrow> fault + nat \<times> nat" where
  "get_variable_len b off n = lft (variable_scan b n off off 0) (\<lambda>(len, k). Inr (unat len, k))"

section \<open>Writing\<close>

text \<open>
  The result is the number of bytes appended, -1 when they do not fit. The length takes \<open>occ\<close> bytes, or as many as
  it needs when \<open>occ\<close> is 0.
\<close>
definition be_bytes :: "nat \<Rightarrow> nat \<Rightarrow> bytes" where
  "be_bytes occ n = map (\<lambda>i. of_nat (n div 2 ^ (8 * (occ - i)))) [1..<occ + 1]"

definition append_property :: "mqtt_connection \<Rightarrow> byte \<Rightarrow> nat \<Rightarrow> bytes option \<Rightarrow> nat \<Rightarrow> fault + int \<times> mqtt_connection" where
  "append_property c ty occ d n =
     (if wrap32 (out_length c + occ + (if d \<noteq> None then n else 0) + (if ty \<noteq> 0 then 1 else 0)) > cbuffer_length c then Inr (- 1, c)
      else
        (let lens = (if occ = 0 then generate_variable_len n else be_bytes occ n);
             hd_bytes = (if ty \<noteq> 0 then [ty] else []) @ lens
         in if length lens > 4 then Inl Overrun
            else lft (buf_put (out_length c) hd_bytes c) (\<lambda>c1.
              (case d of
                 None \<Rightarrow> Inr (int (length hd_bytes), set_length (wrap32 (out_length c + length hd_bytes)) c1)
               | Some b \<Rightarrow>
                   lft (buf_memcpy (out_length c + length hd_bytes) b n c1) (\<lambda>c2.
                     Inr (int (length hd_bytes + n), set_length (wrap32 (out_length c + length hd_bytes + n)) c2))))))"

text \<open>\<open>po\<close> is the place of the length byte, which is there already: longer lengths move the properties up.\<close>
definition update_property_len_value :: "mqtt_connection \<Rightarrow> nat \<Rightarrow> nat \<Rightarrow> fault + int \<times> mqtt_connection" where
  "update_property_len_value c n po =
     (let lens = generate_variable_len n; offset = length lens - 1; c1 = set_length (wrap32 (out_length c + offset)) c in
      if length lens > 4 then Inl Overrun
      else if out_length c1 > cbuffer_length c1 then Inr (- 1, c1)
      else if offset > 0 then
        (if po + 1 + n \<le> length (cbuffer c1)
         then lft (buf_put (po + 1 + offset) (take n (drop (po + 1) (cbuffer c1))) c1) (\<lambda>c2.
                lft (buf_put po lens c2) (\<lambda>c3. Inr (int offset, c3)))
         else Inl Overrun)
      else lft (buf_put po lens c1) (\<lambda>c2. Inr (int offset, c2)))"

definition append_message_id5 :: "mqtt_connection \<Rightarrow> nat \<Rightarrow> fault + nat \<times> mqtt_connection" where
  "append_message_id5 c mid =
     (case (if mid = 0 then next_message_id c else Some (mid, c)) of
        None \<Rightarrow> Inl NoEntropy
      | Some (i, c1) \<Rightarrow>
          (if wrap32 (out_length c1 + 2) > cbuffer_length c1 then Inr (0, c1)
           else lft (buf_put (out_length c1) [of_nat (i div 256), of_nat (i mod 256)] c1) (\<lambda>c2.
             Inr (i, set_length (wrap32 (out_length c1 + 2)) c2))))"

definition init_message :: "mqtt_connection \<Rightarrow> mqtt_connection" where
  "init_message c = set_length 5 c"

definition fail_message5 :: "mqtt_connection \<Rightarrow> mqtt_connection" where
  "fail_message5 c = c\<lparr>outbound := (outbound c)\<lparr>m_data := 0, m_length := 0\<rparr>\<rparr>"

definition fini_message5 :: "mqtt_connection \<Rightarrow> int \<Rightarrow> int \<Rightarrow> int \<Rightarrow> int \<Rightarrow> fault + mqtt_connection" where
  "fini_message5 c ty dup qos retain =
     (let o' = outbound c;
          message_length = s32 (int (m_length o') - 5);
          total_length = (if m_frag_total o' \<noteq> 0 then s32 (int (m_frag_total o') - 5) else message_length);
          lens = generate_variable_len (sz total_length)
      in if length lens > 4 then Inl Overrun
         else if length lens + 1 > 5 then Inr (fail_message5 c)
         else
           (let offs = 4 - length lens;
                o2 = o'\<lparr>m_length := sz (message_length + int (length lens) + 1), m_data := offs,
                        m_frag_offset := sz (int (m_frag_offset o') - int offs)\<rparr>
            in buf_put offs (type_byte ty dup qos retain # lens) (c\<lparr>outbound := o2\<rparr>)))"

text \<open>\<open>APPEND_CHECK\<close>: on -1 the message fails, otherwise \<open>k\<close> is the rest of the function.\<close>
definition append_check :: "fault + int \<times> mqtt_connection \<Rightarrow> (mqtt_connection \<Rightarrow> fault + mqtt_connection) \<Rightarrow> fault + mqtt_connection" where
  "append_check r k = lft r (\<lambda>(v, c). if v = - 1 then Inr (fail_message5 c) else k c)"

text \<open>A property that is written under a condition.\<close>
definition append_if ::
  "bool \<Rightarrow> byte \<Rightarrow> nat \<Rightarrow> bytes option \<Rightarrow> nat \<Rightarrow> (mqtt_connection \<Rightarrow> fault + mqtt_connection) \<Rightarrow> mqtt_connection \<Rightarrow> fault + mqtt_connection" where
  "append_if b ty occ d n k c = (if b then append_check (append_property c ty occ d n) k else k c)"

text \<open>A C string that may be null.\<close>
definition append_string_if :: "byte \<Rightarrow> bytes option \<Rightarrow> (mqtt_connection \<Rightarrow> fault + mqtt_connection) \<Rightarrow> mqtt_connection \<Rightarrow> fault + mqtt_connection" where
  "append_string_if ty s k c = append_if (s \<noteq> None) ty 2 s (case s of None \<Rightarrow> 0 | Some b \<Rightarrow> length b) k c"

text \<open>The \<open>STAILQ_FOREACH\<close> over the user properties.\<close>
primrec append_user_items :: "(bytes \<times> bytes) list \<Rightarrow> (mqtt_connection \<Rightarrow> fault + mqtt_connection) \<Rightarrow> mqtt_connection \<Rightarrow> fault + mqtt_connection" where
  "append_user_items [] k c = k c"
| "append_user_items (it # its) k c =
     append_check (append_property c MQTT5_PROPERTY_USER_PROPERTY 2 (Some (fst it)) (length (fst it))) (\<lambda>c.
     append_check (append_property c 0 2 (Some (snd it)) (length (snd it))) (append_user_items its k))"

definition append_user_properties :: "user_properties \<Rightarrow> (mqtt_connection \<Rightarrow> fault + mqtt_connection) \<Rightarrow> mqtt_connection \<Rightarrow> fault + mqtt_connection" where
  "append_user_properties u k c = (case u of None \<Rightarrow> k c | Some its \<Rightarrow> append_user_items its k c)"

text \<open>
  A property section: the place of its length byte is left free, \<open>f\<close> appends the properties, and then
  the length is set.
\<close>
definition with_properties ::
  "((mqtt_connection \<Rightarrow> fault + mqtt_connection) \<Rightarrow> mqtt_connection \<Rightarrow> fault + mqtt_connection)
    \<Rightarrow> (mqtt_connection \<Rightarrow> fault + mqtt_connection) \<Rightarrow> mqtt_connection \<Rightarrow> fault + mqtt_connection" where
  "with_properties f k c =
     (let po = out_length c in
      f (\<lambda>c. append_check (update_property_len_value c (wrap32 (out_length c + 4294967296 - po - 1)) po) k)
        (set_length (wrap32 (po + 1)) c))"

section \<open>Packets\<close>

definition connect_properties ::
  "connection_property \<Rightarrow> (mqtt_connection \<Rightarrow> fault + mqtt_connection) \<Rightarrow> mqtt_connection \<Rightarrow> fault + mqtt_connection" where
  "connect_properties p k =
     append_if (cp_session_expiry_interval p \<noteq> 0) MQTT5_PROPERTY_SESSION_EXPIRY_INTERVAL 4 None (unat (cp_session_expiry_interval p))
     (append_if (cp_maximum_packet_size p \<noteq> 0) MQTT5_PROPERTY_MAXIMUM_PACKET_SIZE 4 None (unat (cp_maximum_packet_size p))
     (append_if (cp_receive_maximum p \<noteq> 0) MQTT5_PROPERTY_RECEIVE_MAXIMUM 2 None (unat (cp_receive_maximum p))
     (append_if (cp_topic_alias_maximum p \<noteq> 0) MQTT5_PROPERTY_TOPIC_ALIAS_MAXIMIM 2 None (unat (cp_topic_alias_maximum p))
     (append_if (cp_request_resp_info p) MQTT5_PROPERTY_REQUEST_RESP_INFO 1 None 1
     (append_if (cp_request_problem_info p) MQTT5_PROPERTY_REQUEST_PROBLEM_INFO 1 None 1
     (append_user_properties (cp_user_property p) k))))))"

text \<open>Correlation data is written when both the pointer and the length are set.\<close>
definition append_correlation ::
  "bytes option \<Rightarrow> u16 \<Rightarrow> (mqtt_connection \<Rightarrow> fault + mqtt_connection) \<Rightarrow> mqtt_connection \<Rightarrow> fault + mqtt_connection" where
  "append_correlation d n = append_if (d \<noteq> None \<and> n \<noteq> 0) MQTT5_PROPERTY_CORRELATION_DATA 2 d (unat n)"

definition will_properties ::
  "will_property \<Rightarrow> (mqtt_connection \<Rightarrow> fault + mqtt_connection) \<Rightarrow> mqtt_connection \<Rightarrow> fault + mqtt_connection" where
  "will_properties p k =
     append_if (wp_will_delay_interval p \<noteq> 0) MQTT5_PROPERTY_WILL_DELAY_INTERVAL 4 None (unat (wp_will_delay_interval p))
     (append_if (wp_payload_format_indicator p) MQTT5_PROPERTY_PAYLOAD_FORMAT_INDICATOR 1 None 1
     (append_if (wp_message_expiry_interval p \<noteq> 0) MQTT5_PROPERTY_MESSAGE_EXPIRY_INTERVAL 4 None (unat (wp_message_expiry_interval p))
     (append_string_if MQTT5_PROPERTY_CONTENT_TYPE (wp_content_type p)
     (append_string_if MQTT5_PROPERTY_RESPONSE_TOPIC (wp_response_topic p)
     (append_correlation (wp_correlation_data p) (wp_correlation_data_len p)
     (append_user_properties (wp_user_property p) k))))))"

text \<open>A string without a type byte, as in the payload of CONNECT.\<close>
definition append_payload_string :: "bytes \<Rightarrow> (mqtt_connection \<Rightarrow> fault + mqtt_connection) \<Rightarrow> mqtt_connection \<Rightarrow> fault + mqtt_connection" where
  "append_payload_string t k c = append_check (append_property c 0 2 (Some t) (length t)) k"

definition connect5_will ::
  "mqtt_connect_info \<Rightarrow> will_property \<Rightarrow> nat \<Rightarrow> (mqtt_connection \<Rightarrow> fault + mqtt_connection) \<Rightarrow> mqtt_connection \<Rightarrow> fault + mqtt_connection" where
  "connect5_will info wp flags k c =
     (case will_topic info of
        Some t \<Rightarrow>
          (if t \<noteq> [] then
             with_properties (will_properties wp)
             (append_payload_string t
             (\<lambda>c. append_check (append_property c 0 2 (will_message info) (sz (will_length info))) (\<lambda>c.
               (let c3 = or_byte flags 0x04 c;
                    c4 = (if will_retain info \<noteq> 0 then or_byte flags 0x20 c3 else c3)
                in k (or_byte flags (of_int (push_bit 3 (will_qos info AND 3))) c4))))) c
           else k c)
      | None \<Rightarrow> k c)"

definition connect5_username ::
  "mqtt_connect_info \<Rightarrow> nat \<Rightarrow> (mqtt_connection \<Rightarrow> fault + mqtt_connection) \<Rightarrow> mqtt_connection \<Rightarrow> fault + mqtt_connection" where
  "connect5_username info flags k c =
     (case username info of
        Some u \<Rightarrow> (if u \<noteq> [] then append_payload_string u (\<lambda>c. k (or_byte flags 0x80 c)) c else k c)
      | None \<Rightarrow> k c)"

definition connect5_password ::
  "mqtt_connect_info \<Rightarrow> nat \<Rightarrow> (mqtt_connection \<Rightarrow> fault + mqtt_connection) \<Rightarrow> mqtt_connection \<Rightarrow> fault + mqtt_connection" where
  "connect5_password info flags k c =
     (case password info of
        Some p \<Rightarrow>
          (if p \<noteq> [] then
             (let rest = append_payload_string p (\<lambda>c. k (or_byte flags 0x40 c))
              in if \<not> nonempty (username info)
                 then append_check (append_property c 0 2 None 0) (\<lambda>c. rest (or_byte flags 0x80 c))
                 else rest c)
           else k c)
      | None \<Rightarrow> k c)"

text \<open>The first ten bytes are written without a check of the buffer's length; the flags are at index 12.\<close>
definition mqtt5_msg_connect :: "mqtt_connection \<Rightarrow> mqtt_connect_info \<Rightarrow> connection_property \<Rightarrow> will_property \<Rightarrow> fault + mqtt_connection" where
  "mqtt5_msg_connect c info p wp =
     lft (buf_put 5 ([0, 4] @ map (of_nat \<circ> of_char) ''MQTT'' @ [5, 0, of_int (keepalive info div 256), of_int (keepalive info mod 256)])
            (init_message c)) (\<lambda>c1.
       (let c2 = set_length 15 c1; c3 = (if clean_session info \<noteq> 0 then or_byte 12 0x02 c2 else c2) in
        with_properties (connect_properties p)
        ((if nonempty (client_id info) then append_payload_string (the (client_id info))
          else (\<lambda>k c. append_check (append_property c 0 2 None 0) k))
        (connect5_will info wp 12
        (connect5_username info 12
        (connect5_password info 12
        (\<lambda>c. fini_message5 c MQTT_MSG_TYPE_CONNECT 0 0 0))))) c3))"

text \<open>
  The response topic with the broker's response information: \<open>snprintf\<close> into a block that has no room for the
  terminating zero besides all the characters.
\<close>
definition response_topic_with :: "bytes \<Rightarrow> bytes \<Rightarrow> bytes" where
  "response_topic_with rt ri =
     (let size = (length rt + length ri + 1) mod 65536
      in if size = 0 then [] else take (size - 1) (rt @ 0x2F # ri) @ [0])"

definition publish_response_topic ::
  "bool \<Rightarrow> bytes option \<Rightarrow> bytes option \<Rightarrow> (mqtt_connection \<Rightarrow> fault + mqtt_connection) \<Rightarrow> mqtt_connection \<Rightarrow> fault + mqtt_connection" where
  "publish_response_topic calloc_ok rt resp_info k c =
     (case rt of
        None \<Rightarrow> k c
      | Some t \<Rightarrow>
          (if nonempty resp_info then
             (if \<not> calloc_ok then Inr (fail_message5 c)
              else (let s = response_topic_with t (the resp_info)
                    in append_check (append_property c MQTT5_PROPERTY_RESPONSE_TOPIC 2 (Some s) (length s)) k))
           else append_check (append_property c MQTT5_PROPERTY_RESPONSE_TOPIC 2 (Some t) (length t)) k))"

definition publish_properties ::
  "bool \<Rightarrow> publish_property option \<Rightarrow> bytes option \<Rightarrow> (mqtt_connection \<Rightarrow> fault + mqtt_connection) \<Rightarrow> mqtt_connection \<Rightarrow> fault + mqtt_connection" where
  "publish_properties calloc_ok pr resp_info k =
     (case pr of
        None \<Rightarrow> k
      | Some p \<Rightarrow>
          append_if (pp_payload_format_indicator p) MQTT5_PROPERTY_PAYLOAD_FORMAT_INDICATOR 1 None 1
          (append_if (pp_message_expiry_interval p \<noteq> 0) MQTT5_PROPERTY_MESSAGE_EXPIRY_INTERVAL 4 None (unat (pp_message_expiry_interval p))
          (append_if (pp_topic_alias p \<noteq> 0) MQTT5_PROPERTY_TOPIC_ALIAS 2 None (unat (pp_topic_alias p))
          (publish_response_topic calloc_ok (pp_response_topic p) resp_info
          (append_correlation (pp_correlation_data p) (pp_correlation_data_len p)
          (append_user_properties (pp_user_property p)
          (append_string_if MQTT5_PROPERTY_CONTENT_TYPE (pp_content_type p) k)))))))"

text \<open>The payload, as in \<open>publish_payload\<close>; a null pointer is only read when the payload does not fit.\<close>
definition publish_payload5 :: "mqtt_connection \<Rightarrow> bytes option \<Rightarrow> int \<Rightarrow> fault + mqtt_connection" where
  "publish_payload5 c d data_length =
     (if wrap32 (out_length c + sz data_length) > cbuffer_length c then
        (let n = sz (int (cbuffer_length c) - int (out_length c)) in
         lft (case d of None \<Rightarrow> if n = 0 then Inr c else Inl Null_Pointer | Some b \<Rightarrow> buf_memcpy (out_length c) b n c) (\<lambda>c1.
           Inr (c1\<lparr>outbound := (outbound c1)\<lparr>m_frag_offset := out_length c, m_length := cbuffer_length c,
                                      m_frag_total := wrap32 (sz data_length + out_length c)\<rparr>\<rparr>)))
      else
        (case d of
           None \<Rightarrow> Inr (c\<lparr>outbound := (outbound c)\<lparr>m_frag_total := 0\<rparr>\<rparr>)
         | Some b \<Rightarrow>
             lft (buf_memcpy (out_length c) b (sz data_length) c) (\<lambda>c1.
               Inr (c1\<lparr>outbound := (outbound c1)\<lparr>m_length := wrap32 (out_length c + sz data_length), m_frag_total := 0\<rparr>\<rparr>))))"

definition mqtt5_msg_publish ::
  "bool \<Rightarrow> mqtt_connection \<Rightarrow> bytes option \<Rightarrow> bytes option \<Rightarrow> int \<Rightarrow> int \<Rightarrow> int \<Rightarrow> nat \<Rightarrow> publish_property option \<Rightarrow> bytes option
    \<Rightarrow> fault + mqtt_connection \<times> nat" where
  "mqtt5_msg_publish calloc_ok c topic data data_length qos retain mid0 pr resp_info =
     (let c0 = init_message c; no_alias = (case pr of None \<Rightarrow> True | Some p \<Rightarrow> pp_topic_alias p = 0) in
      if \<not> nonempty topic \<and> no_alias then Inr (fail_message5 c0, mid0)
      else
        lft (append_property c0 0 2 topic (case topic of None \<Rightarrow> 0 | Some t \<Rightarrow> length t)) (\<lambda>(v, c1).
          if v = - 1 then Inr (fail_message5 c1, mid0)
          else if data = None \<and> data_length > 0 then Inr (fail_message5 c1, mid0)
          else
            lft (if qos > 0 then append_message_id5 c1 0 else Inr (0, c1)) (\<lambda>(mid, c2).
              if qos > 0 \<and> mid = 0 then Inr (fail_message5 c2, mid)
              else
                lft (with_properties (publish_properties calloc_ok pr resp_info)
                       (\<lambda>c. lft (publish_payload5 c data data_length) (\<lambda>c. fini_message5 c MQTT_MSG_TYPE_PUBLISH 0 qos retain)) c2)
                  (\<lambda>c3. Inr (c3, mid)))))"

text \<open>\<open>$share/%s/%s\<close> into a block of the given size.\<close>
definition shared_topic :: "bytes \<Rightarrow> bytes \<Rightarrow> bytes" where
  "shared_topic name topic =
     take ((length topic + 12 + length name) mod 65536 - 1) (map (of_nat \<circ> of_char) ''$share/'' @ name @ [0x2F] @ topic)"

text \<open>
  A topic filter, under its shared name if there is one. When the allocation fails the message is marked as failed, but the
  function goes on and writes through the null pointer; a block of size zero is not terminated.
\<close>
definition append_filter ::
  "bool \<Rightarrow> bytes option option \<Rightarrow> bytes \<Rightarrow> (mqtt_connection \<Rightarrow> fault + mqtt_connection) \<Rightarrow> mqtt_connection \<Rightarrow> fault + mqtt_connection" where
  "append_filter calloc_ok shared topic k c =
     (case shared of
        None \<Rightarrow> append_payload_string topic k c
      | Some None \<Rightarrow> Inl Null_Pointer
      | Some (Some name) \<Rightarrow>
          (if \<not> calloc_ok then Inl Null_Pointer
           else if (length topic + 12 + length name) mod 65536 = 0 then Inl Overrun
           else append_payload_string (shared_topic name topic) k c))"

definition subscribe_options :: "subscribe_property option \<Rightarrow> int \<Rightarrow> byte" where
  "subscribe_options pr q =
     (case pr of
        None \<Rightarrow> 0
      | Some p \<Rightarrow>
          (if sp_retain_handle p > 0 \<and> sp_retain_handle p < 3 then push_bit 4 (sp_retain_handle p AND 3) else 0)
          OR (if sp_no_local_flag p then 4 else 0) OR (if sp_retain_as_published_flag p then 8 else 0)) OR of_int (q AND 3)"

text \<open>The loop over the topics, of which \<open>n\<close> are left; \<open>oks\<close> are the results of the allocations.\<close>
fun subscribe5_topics ::
  "(nat \<Rightarrow> bool) \<Rightarrow> subscribe_property option \<Rightarrow> (bytes \<times> int) list \<Rightarrow> nat \<Rightarrow> (mqtt_connection \<Rightarrow> fault + mqtt_connection)
    \<Rightarrow> mqtt_connection \<Rightarrow> fault + mqtt_connection" where
  "subscribe5_topics mem pr ts 0 k c = k c"
| "subscribe5_topics mem pr [] (Suc n) k c = Inl Overrun"
| "subscribe5_topics mem pr ((t, q) # ts) (Suc n) k c =
     (if t = [] then Inr (fail_message5 c)
      else append_filter (mem n) (case pr of None \<Rightarrow> None | Some p \<Rightarrow> if sp_is_share_subscribe p then Some (sp_share_name p) else None) t
        (\<lambda>c1. if wrap32 (out_length c1 + 1) > cbuffer_length c1 then Inr (fail_message5 c1)
              else lft (buf_put (out_length c1) [subscribe_options pr q] c1) (\<lambda>c2.
                subscribe5_topics mem pr ts n k (set_length (wrap32 (out_length c1 + 1)) c2))) c)"

definition subscribe_properties ::
  "subscribe_property option \<Rightarrow> (mqtt_connection \<Rightarrow> fault + mqtt_connection) \<Rightarrow> mqtt_connection \<Rightarrow> fault + mqtt_connection" where
  "subscribe_properties pr k =
     (case pr of
        None \<Rightarrow> k
      | Some p \<Rightarrow>
          append_if (sp_subscribe_id p \<noteq> 0) MQTT5_PROPERTY_SUBSCRIBE_IDENTIFIER 0 None (unat (sp_subscribe_id p))
          (append_user_properties (sp_user_property p) k))"

definition mqtt5_msg_subscribe ::
  "(nat \<Rightarrow> bool) \<Rightarrow> mqtt_connection \<Rightarrow> (bytes \<times> int) list \<Rightarrow> int \<Rightarrow> subscribe_property option \<Rightarrow> fault + mqtt_connection \<times> nat" where
  "mqtt5_msg_subscribe mem c topics n_topics pr =
     lft (append_message_id5 (init_message c) 0) (\<lambda>(mid, c1).
       if mid = 0 then Inr (fail_message5 c1, mid)
       else
         lft (with_properties (subscribe_properties pr)
                (subscribe5_topics mem pr topics (nat n_topics) (\<lambda>c. fini_message5 c MQTT_MSG_TYPE_SUBSCRIBE 0 1 0)) c1)
           (\<lambda>c2. Inr (c2, mid)))"

definition mqtt5_msg_unsubscribe :: "bool \<Rightarrow> mqtt_connection \<Rightarrow> bytes option \<Rightarrow> nat \<Rightarrow> unsubscribe_property option \<Rightarrow> fault + mqtt_connection \<times> nat" where
  "mqtt5_msg_unsubscribe calloc_ok c topic mid0 pr =
     (let c0 = init_message c in
      if \<not> nonempty topic then Inr (fail_message5 c0, mid0)
      else
        lft (append_message_id5 c0 0) (\<lambda>(mid, c1).
          if mid = 0 then Inr (fail_message5 c1, mid)
          else
            lft (with_properties (\<lambda>k. case pr of None \<Rightarrow> k | Some p \<Rightarrow> append_user_properties (up_user_property p) k)
                   (append_filter calloc_ok (case pr of None \<Rightarrow> None | Some p \<Rightarrow> if up_is_share_subscribe p then Some (up_share_name p) else None)
                      (the topic) (\<lambda>c. fini_message5 c MQTT_MSG_TYPE_UNSUBSCRIBE 0 1 0)) c1)
              (\<lambda>c2. Inr (c2, mid))))"

text \<open>The reason code is at index 5, written before and after the properties.\<close>
definition mqtt5_msg_disconnect :: "mqtt_connection \<Rightarrow> disconnect_property option \<Rightarrow> fault + mqtt_connection" where
  "mqtt5_msg_disconnect c pr =
     lft (buf_put 5 [0] (init_message c)) (\<lambda>c1.
       with_properties (\<lambda>k. case pr of
           None \<Rightarrow> k
         | Some p \<Rightarrow>
             append_if (dp_session_expiry_interval p \<noteq> 0) MQTT5_PROPERTY_SESSION_EXPIRY_INTERVAL 4 None (unat (dp_session_expiry_interval p))
             (append_user_properties (dp_user_property p)
             (\<lambda>c. lft (if dp_disconnect_reason p \<noteq> 0 then buf_put 5 [dp_disconnect_reason p] c else Inr c) k)))
         (\<lambda>c. fini_message5 c MQTT_MSG_TYPE_DISCONNECT 0 0 0) (set_length 6 c1))"

text \<open>The acknowledgements: the message id, a success code and no properties.\<close>
definition mqtt5_msg_ack :: "int \<Rightarrow> int \<Rightarrow> mqtt_connection \<Rightarrow> nat \<Rightarrow> fault + mqtt_connection" where
  "mqtt5_msg_ack ty qos c mid =
     lft (append_message_id5 (init_message c) mid) (\<lambda>(i, c1).
       if i = 0 then Inr (fail_message5 c1)
       else lft (buf_put (out_length c1) [0] c1) (\<lambda>c2.
         with_properties (\<lambda>k. k) (\<lambda>c. fini_message5 c ty 0 qos 0) (set_length (wrap32 (out_length c1 + 1)) c2)))"

definition mqtt5_msg_puback :: "mqtt_connection \<Rightarrow> nat \<Rightarrow> fault + mqtt_connection" where
  "mqtt5_msg_puback c mid = mqtt5_msg_ack MQTT_MSG_TYPE_PUBACK 0 c mid"
definition mqtt5_msg_pubrec :: "mqtt_connection \<Rightarrow> nat \<Rightarrow> fault + mqtt_connection" where
  "mqtt5_msg_pubrec c mid = mqtt5_msg_ack MQTT_MSG_TYPE_PUBREC 0 c mid"
definition mqtt5_msg_pubrel :: "mqtt_connection \<Rightarrow> nat \<Rightarrow> fault + mqtt_connection" where
  "mqtt5_msg_pubrel c mid = mqtt5_msg_ack MQTT_MSG_TYPE_PUBREL 1 c mid"
definition mqtt5_msg_pubcomp :: "mqtt_connection \<Rightarrow> nat \<Rightarrow> fault + mqtt_connection" where
  "mqtt5_msg_pubcomp c mid = mqtt5_msg_ack MQTT_MSG_TYPE_PUBCOMP 0 c mid"

section \<open>Reading properties\<close>

text \<open>
  \<open>property[property_offset ++]\<close> with \<open>property = buffer + base\<close>: the offset is a \<open>uint16_t\<close> and wraps around.
\<close>
definition po_add :: "nat \<Rightarrow> nat \<Rightarrow> nat" where
  "po_add po n = (po + n) mod 65536"

definition prop_rd1 :: "bytes \<Rightarrow> nat \<Rightarrow> nat \<Rightarrow> fault + byte \<times> nat" where
  "prop_rd1 b base po = lft (rd b (base + po)) (\<lambda>x. Inr (x, po_add po 1))"

definition prop_rd2 :: "bytes \<Rightarrow> nat \<Rightarrow> nat \<Rightarrow> fault + nat \<times> nat" where
  "prop_rd2 b base po =
     lft (prop_rd1 b base po) (\<lambda>(x, po). lft (prop_rd1 b base po) (\<lambda>(y, po). Inr (unat x * 256 + unat y, po)))"

definition prop_rd4 :: "bytes \<Rightarrow> nat \<Rightarrow> nat \<Rightarrow> fault + nat \<times> nat" where
  "prop_rd4 b base po =
     lft (prop_rd2 b base po) (\<lambda>(x, po). lft (prop_rd2 b base po) (\<lambda>(y, po). Inr (x * 65536 + y, po)))"

text \<open>A string that is passed over; and one whose place and length are kept.\<close>
definition prop_skip :: "bytes \<Rightarrow> nat \<Rightarrow> nat \<Rightarrow> fault + nat" where
  "prop_skip b base po = lft (prop_rd2 b base po) (\<lambda>(n, po). Inr (po_add po n))"

definition prop_string :: "bytes \<Rightarrow> nat \<Rightarrow> nat \<Rightarrow> fault + nat \<times> nat \<times> nat" where
  "prop_string b base po = lft (prop_rd2 b base po) (\<lambda>(n, po). Inr (base + po, n, po_add po n))"

text \<open>\<open>memcpy\<close> out of the buffer.\<close>
definition copy_out :: "bytes \<Rightarrow> nat \<Rightarrow> nat \<Rightarrow> fault + bytes" where
  "copy_out b i n = (if n = 0 then Inr [] else if i + n \<le> length b then Inr (take n (drop i b)) else Inl Overrun)"

text \<open>A block that ends with a zero, as the C string that the rest of the code takes it for.\<close>
definition c_string :: "bytes \<Rightarrow> bytes" where
  "c_string b = takeWhile (\<lambda>x. x \<noteq> 0) b"

text \<open>The list grows by a copy of key and value; \<open>False\<close> is \<open>ESP_FAIL\<close>. \<open>j\<close> counts the allocations.\<close>
definition mqtt5_msg_set_user_property ::
  "(nat \<Rightarrow> bool) \<Rightarrow> bytes \<Rightarrow> nat \<times> nat \<Rightarrow> nat \<times> nat \<Rightarrow> user_properties \<times> nat \<Rightarrow> fault + bool \<times> user_properties \<times> nat" where
  "mqtt5_msg_set_user_property mem b key val u =
     (case u of (l, j) \<Rightarrow>
        (let fresh = (l = None); j1 = (if fresh then j + 1 else j); its = (case l of None \<Rightarrow> [] | Some its \<Rightarrow> its) in
         if fresh \<and> \<not> mem j then Inr (False, None, j1)
         else if \<not> mem j1 then Inr (False, Some its, j1 + 1)
         else if \<not> mem (j1 + 1) then Inr (False, Some its, j1 + 2)
         else lft (copy_out b (fst key) (snd key)) (\<lambda>k.
           if \<not> mem (j1 + 2) then Inr (False, Some its, j1 + 3)
           else lft (copy_out b (fst val) (snd val)) (\<lambda>v. Inr (True, Some (its @ [(c_string k, c_string v)]), j1 + 3)))))"

text \<open>The case \<open>MQTT5_PROPERTY_USER_PROPERTY\<close> of the three readers.\<close>
definition read_user_property ::
  "(nat \<Rightarrow> bool) \<Rightarrow> bytes \<Rightarrow> nat \<Rightarrow> nat \<Rightarrow> user_properties \<times> nat \<Rightarrow> fault + bool \<times> nat \<times> user_properties \<times> nat" where
  "read_user_property mem b base po u =
     lft (prop_string b base po) (\<lambda>(k, kn, po).
     lft (prop_string b base po) (\<lambda>(v, vn, po).
     lft (mqtt5_msg_set_user_property mem b (k, kn) (v, vn) u) (\<lambda>(ok, u). Inr (ok, po, u))))"

text \<open>
  The \<open>while\<close> loop over the properties. A step gives the next offset and state, and whether to go on; a loop
  that does not end is \<open>None\<close>.
\<close>
partial_function (option) property_loop ::
  "(nat \<Rightarrow> 's \<Rightarrow> fault + bool \<times> nat \<times> 's) \<Rightarrow> nat \<Rightarrow> nat \<Rightarrow> 's \<Rightarrow> (fault + bool \<times> nat \<times> 's) option" where
  "property_loop step n po s =
     (if po < n then
        (case step po s of
           Inl f \<Rightarrow> Some (Inl f)
         | Inr (go, po', s') \<Rightarrow> if go then property_loop step n po' s' else Some (Inr (False, po', s')))
      else Some (Inr (True, po, s)))"

definition olift :: "fault + 'a \<Rightarrow> ('a \<Rightarrow> (fault + 'b) option) \<Rightarrow> (fault + 'b) option" where
  "olift r k = (case r of Inl f \<Rightarrow> Some (Inl f) | Inr a \<Rightarrow> k a)"

definition user_property_step ::
  "(nat \<Rightarrow> bool) \<Rightarrow> bytes \<Rightarrow> nat \<Rightarrow> nat \<Rightarrow> user_properties \<times> nat \<Rightarrow> fault + bool \<times> nat \<times> user_properties \<times> nat" where
  "user_property_step mem b base po u =
     lft (prop_rd1 b base po) (\<lambda>(pid, po).
       if pid = MQTT5_PROPERTY_REASON_STRING then lft (prop_skip b base po) (\<lambda>po. Inr (True, po, u))
       else if pid = MQTT5_PROPERTY_USER_PROPERTY then read_user_property mem b base po u
       else Inr (False, po, u))"

text \<open>On an error the list is deleted.\<close>
definition mqtt5_msg_get_user_property :: "(nat \<Rightarrow> bool) \<Rightarrow> bytes \<Rightarrow> nat \<Rightarrow> nat \<Rightarrow> nat \<Rightarrow> (fault + user_properties \<times> nat) option" where
  "mqtt5_msg_get_user_property mem b base n j =
     (case property_loop (user_property_step mem b base) n 0 (None, j) of
        None \<Rightarrow> None
      | Some r \<Rightarrow> olift r (\<lambda>(ok, po, u, j). Some (Inr (if ok then u else None, j))))"

definition mqtt5_get_id :: "bytes \<Rightarrow> nat \<Rightarrow> fault + nat" where
  "mqtt5_get_id b n =
     lft (get_variable_len b 1 n) (\<lambda>(len, k).
       (let offset = 1 + k in
        if offset + 2 > n then Inr 0
        else lft (mqtt_get_type b) (\<lambda>ty.
          if ty = MQTT_MSG_TYPE_PUBLISH then
            lft (rd16 b offset) (\<lambda>tl.
              (let offset = offset + 2 + tl in
               if offset + 2 > n then Inr 0
               else lft (mqtt_get_qos b) (\<lambda>q. if q = 0 then Inr 0 else rd16 b offset)))
          else if ty \<in> {MQTT_MSG_TYPE_PUBACK, MQTT_MSG_TYPE_PUBREC, MQTT_MSG_TYPE_PUBREL, MQTT_MSG_TYPE_PUBCOMP, MQTT_MSG_TYPE_SUBACK,
                        MQTT_MSG_TYPE_UNSUBACK, MQTT_MSG_TYPE_SUBSCRIBE, MQTT_MSG_TYPE_UNSUBSCRIBE}
          then rd16 b offset
          else Inr 0)))"

text \<open>One round of the loop of \<open>mqtt5_get_publish_property_payload\<close>; the identifier's bytes are looked for up to \<open>n\<close>.\<close>
definition publish_property_step ::
  "(nat \<Rightarrow> bool) \<Rightarrow> bytes \<Rightarrow> nat \<Rightarrow> nat \<Rightarrow> nat \<Rightarrow> publish_resp \<times> user_properties \<times> nat
    \<Rightarrow> fault + bool \<times> nat \<times> publish_resp \<times> user_properties \<times> nat" where
  "publish_property_step mem b base n po s =
     (case s of (r, u) \<Rightarrow>
        lft (prop_rd1 b base po) (\<lambda>(pid, po).
          if pid = MQTT5_PROPERTY_PAYLOAD_FORMAT_INDICATOR then
            lft (prop_rd1 b base po) (\<lambda>(x, po). Inr (True, po, r\<lparr>rp_payload_format_indicator := x \<noteq> 0\<rparr>, u))
          else if pid = MQTT5_PROPERTY_MESSAGE_EXPIRY_INTERVAL then
            lft (prop_rd4 b base po) (\<lambda>(x, po). Inr (True, po, r\<lparr>rp_message_expiry_interval := of_nat x\<rparr>, u))
          else if pid = MQTT5_PROPERTY_TOPIC_ALIAS then
            lft (prop_rd2 b base po) (\<lambda>(x, po). Inr (True, po, r\<lparr>rp_topic_alias := of_nat x\<rparr>, u))
          else if pid = MQTT5_PROPERTY_RESPONSE_TOPIC then
            lft (prop_string b base po) (\<lambda>(i, k, po). Inr (True, po, r\<lparr>rp_response_topic := Some i, rp_response_topic_len := int k\<rparr>, u))
          else if pid = MQTT5_PROPERTY_CORRELATION_DATA then
            lft (prop_string b base po) (\<lambda>(i, k, po). Inr (True, po, r\<lparr>rp_correlation_data := Some i, rp_correlation_data_len := of_nat k\<rparr>, u))
          else if pid = MQTT5_PROPERTY_SUBSCRIBE_IDENTIFIER then
            lft (get_variable_len (drop base b) po n) (\<lambda>(x, k). Inr (True, po_add po k, r\<lparr>rp_subscribe_id := of_nat x\<rparr>, u))
          else if pid = MQTT5_PROPERTY_CONTENT_TYPE then
            lft (prop_string b base po) (\<lambda>(i, k, po). Inr (True, po, r\<lparr>rp_content_type := Some i, rp_content_type_len := int k\<rparr>, u))
          else if pid = MQTT5_PROPERTY_USER_PROPERTY then
            lft (read_user_property mem b base po u) (\<lambda>(ok, po, u). Inr (ok, po, r, if ok then u else (None, snd u)))
          else if pid = MQTT5_PROPERTY_REASON_STRING then
            lft (prop_skip b base po) (\<lambda>po. Inr (True, po, r, u))
          else Inr (False, po, r, u)))"

text \<open>What the reader returns through its pointers, besides the user properties.\<close>
record publish_data =
  pd_topic :: nat
  pd_topic_len :: nat
  pd_resp :: publish_resp
  pd_property_len :: nat
  pd_payload :: nat
  pd_payload_len :: nat

text \<open>The property length is cut to 16 bits. \<open>totlen - offset\<close> and \<open>buffer_length - offset\<close> are \<open>size_t\<close>.\<close>
definition publish_properties_payload ::
  "(nat \<Rightarrow> bool) \<Rightarrow> bytes \<Rightarrow> nat \<Rightarrow> nat \<Rightarrow> nat \<times> nat \<Rightarrow> nat \<Rightarrow> nat \<Rightarrow> (fault + publish_data option \<times> user_properties \<times> nat) option" where
  "publish_properties_payload mem b n totlen topic offset j =
     olift (get_variable_len b offset n) (\<lambda>(pl, k).
       (let plen = pl mod 65536; base = offset + k in
        case property_loop (publish_property_step mem b base n) plen 0 (empty_publish_resp, None, j) of
          None \<Rightarrow> None
        | Some r \<Rightarrow> olift r (\<lambda>(ok, po, resp, u, j).
            Some (Inr (if ok then
                         Some \<lparr>pd_topic = fst topic, pd_topic_len = snd topic, pd_resp = resp, pd_property_len = plen, pd_payload = base + po,
                               pd_payload_len = sz (int (if totlen \<le> n then totlen else n) - int (base + po))\<rparr>
                       else None, u, j)))))"

definition mqtt5_get_publish_property_payload ::
  "(nat \<Rightarrow> bool) \<Rightarrow> bytes \<Rightarrow> nat \<Rightarrow> nat \<Rightarrow> (fault + publish_data option \<times> user_properties \<times> nat) option" where
  "mqtt5_get_publish_property_payload mem b n j =
     olift (get_variable_len b 1 n) (\<lambda>(len, k).
     olift (rd16 b (1 + k)) (\<lambda>tl.
       (let totlen = wrap32 (len + 1 + k); topic = 1 + k + 2; offset = topic + tl in
        if offset \<ge> n then Some (Inr (None, None, j))
        else olift (mqtt_get_qos b) (\<lambda>q.
          if q > 0 then
            (if offset + 2 \<ge> n then Some (Inr (None, None, j))
             else publish_properties_payload mem b n totlen (topic, tl) (offset + 2) j)
          else publish_properties_payload mem b n totlen (topic, tl) offset j))))"

text \<open>The reason codes of a SUBACK or UNSUBACK: offset and length.\<close>
definition mqtt5_get_suback_data :: "(nat \<Rightarrow> bool) \<Rightarrow> bytes \<Rightarrow> nat \<Rightarrow> nat \<Rightarrow> (fault + (nat \<times> nat) option \<times> user_properties \<times> nat) option" where
  "mqtt5_get_suback_data mem b n j =
     olift (get_variable_len b 1 n) (\<lambda>(len, k).
       (let totlen = wrap32 (len + 1 + k); offset = 1 + k + 2 in
        if totlen > n then Some (Inr (None, None, j))
        else if offset < totlen then
          olift (get_variable_len b offset totlen) (\<lambda>(pl, k2).
            (case mqtt5_msg_get_user_property mem b (offset + k2) pl j of
               None \<Rightarrow> None
             | Some r \<Rightarrow> olift r (\<lambda>(u, j).
                 (let offset = offset + k2 + pl in
                  Some (Inr (if offset < totlen then (Some (offset, totlen - offset), u, j) else (None, None, j)))))))
        else Some (Inr (None, None, j))))"

text \<open>The reason code of an acknowledgement; \<open>u\<close> are the properties that the caller has already.\<close>
definition mqtt5_get_puback_data ::
  "(nat \<Rightarrow> bool) \<Rightarrow> bytes \<Rightarrow> nat \<Rightarrow> user_properties \<times> nat \<Rightarrow> (fault + (nat \<times> nat) option \<times> user_properties \<times> nat) option" where
  "mqtt5_get_puback_data mem b n u =
     olift (get_variable_len b 1 n) (\<lambda>(len, k).
       (let totlen = wrap32 (len + 1 + k); offset = 1 + k + 2 in
        if offset < totlen then
          (if offset + 1 < totlen then
             olift (get_variable_len b (offset + 1) totlen) (\<lambda>(pl, k2).
               (case mqtt5_msg_get_user_property mem b (offset + 1 + k2) pl (snd u) of
                  None \<Rightarrow> None
                | Some r \<Rightarrow> olift r (\<lambda>u. Some (Inr (Some (offset, 1), u)))))
           else Some (Inr (Some (offset, 1), u)))
        else Some (Inr (None, u))))"

text \<open>-1 when the reason code is absent or the packet has none.\<close>
definition mqtt5_msg_get_reason_code :: "bytes \<Rightarrow> nat \<Rightarrow> fault + int" where
  "mqtt5_msg_get_reason_code b n =
     lft (get_variable_len b 1 n) (\<lambda>(len, k).
     lft (mqtt_get_type b) (\<lambda>ty.
       (let offset = 1 + k; at = (\<lambda>i. if i \<ge> n then Inr (- 1) else lft (rd b i) (\<lambda>x. Inr (uint x))) in
        if ty \<in> {MQTT_MSG_TYPE_PUBACK, MQTT_MSG_TYPE_PUBREC, MQTT_MSG_TYPE_PUBREL, MQTT_MSG_TYPE_PUBCOMP} then
          (if len = 2 then Inr 0 else at (offset + 2))
        else if ty \<in> {MQTT_MSG_TYPE_SUBACK, MQTT_MSG_TYPE_UNSUBACK} then
          (if offset + 2 \<ge> n then Inr (- 1)
           else lft (get_variable_len b (offset + 2) n) (\<lambda>(pl, k2). at (wrap32 (offset + 2 + k2 + pl))))
        else if ty = MQTT_MSG_TYPE_DISCONNECT then at offset
        else Inr (- 1))))"

section \<open>The CONNACK\<close>

record connack_state =
  ck_info :: mqtt_connect_info
  ck_connection :: connection_property
  ck_resp :: server_resp_property
  ck_user :: user_properties
  ck_allocs :: nat

text \<open>A string of the packet in a new block; \<open>None\<close> when there is no memory.\<close>
definition read_string :: "(nat \<Rightarrow> bool) \<Rightarrow> bytes \<Rightarrow> nat \<Rightarrow> nat \<Rightarrow> nat \<Rightarrow> fault + bytes option \<times> nat" where
  "read_string mem b base po j =
     lft (prop_string b base po) (\<lambda>(i, k, po').
       if \<not> mem j then Inr (None, po) else lft (copy_out b i k) (\<lambda>s. Inr (Some (c_string s), po')))"

definition connack_property_step :: "(nat \<Rightarrow> bool) \<Rightarrow> bytes \<Rightarrow> nat \<Rightarrow> nat \<Rightarrow> connack_state \<Rightarrow> fault + bool \<times> nat \<times> connack_state" where
  "connack_property_step mem b base po s =
     (let r = ck_resp s in
      lft (prop_rd1 b base po) (\<lambda>(pid, po).
        if pid = MQTT5_PROPERTY_SESSION_EXPIRY_INTERVAL then
          lft (prop_rd4 b base po) (\<lambda>(x, po). Inr (True, po, s\<lparr>ck_connection := (ck_connection s)\<lparr>cp_session_expiry_interval := of_nat x\<rparr>\<rparr>))
        else if pid = MQTT5_PROPERTY_RECEIVE_MAXIMUM then
          lft (prop_rd2 b base po) (\<lambda>(x, po). Inr (True, po, s\<lparr>ck_resp := r\<lparr>sr_receive_maximum := of_nat x\<rparr>\<rparr>))
        else if pid = MQTT5_PROPERTY_MAXIMUM_QOS then
          lft (prop_rd1 b base po) (\<lambda>(x, po). Inr (True, po, s\<lparr>ck_resp := r\<lparr>sr_max_qos := x\<rparr>\<rparr>))
        else if pid = MQTT5_PROPERTY_RETAIN_AVAILABLE then
          lft (prop_rd1 b base po) (\<lambda>(x, po). Inr (True, po, s\<lparr>ck_resp := r\<lparr>sr_retain_available := x \<noteq> 0\<rparr>\<rparr>))
        else if pid = MQTT5_PROPERTY_MAXIMUM_PACKET_SIZE then
          lft (prop_rd4 b base po) (\<lambda>(x, po). Inr (True, po, s\<lparr>ck_resp := r\<lparr>sr_maximum_packet_size := of_nat x\<rparr>\<rparr>))
        else if pid = MQTT5_PROPERTY_ASSIGNED_CLIENT_IDENTIFIER then
          lft (read_string mem b base po (ck_allocs s)) (\<lambda>(t, po).
            Inr (t \<noteq> None, po, s\<lparr>ck_info := (ck_info s)\<lparr>client_id := t\<rparr>, ck_allocs := ck_allocs s + 1\<rparr>))
        else if pid = MQTT5_PROPERTY_TOPIC_ALIAS_MAXIMIM then
          lft (prop_rd2 b base po) (\<lambda>(x, po). Inr (True, po, s\<lparr>ck_resp := r\<lparr>sr_topic_alias_maximum := of_nat x\<rparr>\<rparr>))
        else if pid = MQTT5_PROPERTY_USER_PROPERTY then
          lft (read_user_property mem b base po (ck_user s, ck_allocs s)) (\<lambda>(ok, po, u, j).
            Inr (ok, po, s\<lparr>ck_user := (if ok then u else None), ck_allocs := j\<rparr>))
        else if pid = MQTT5_PROPERTY_WILDCARD_SUBSCR_AVAILABLE then
          lft (prop_rd1 b base po) (\<lambda>(x, po). Inr (True, po, s\<lparr>ck_resp := r\<lparr>sr_wildcard_subscribe_available := x \<noteq> 0\<rparr>\<rparr>))
        else if pid = MQTT5_PROPERTY_SUBSCR_IDENTIFIER_AVAILABLE then
          lft (prop_rd1 b base po) (\<lambda>(x, po). Inr (True, po, s\<lparr>ck_resp := r\<lparr>sr_subscribe_identifiers_available := x \<noteq> 0\<rparr>\<rparr>))
        else if pid = MQTT5_PROPERTY_SHARED_SUBSCR_AVAILABLE then
          lft (prop_rd1 b base po) (\<lambda>(x, po). Inr (True, po, s\<lparr>ck_resp := r\<lparr>sr_shared_subscribe_available := x \<noteq> 0\<rparr>\<rparr>))
        else if pid = MQTT5_PROPERTY_SERVER_KEEP_ALIVE then
          lft (prop_rd2 b base po) (\<lambda>(x, po). Inr (True, po, s\<lparr>ck_info := (ck_info s)\<lparr>keepalive := int x\<rparr>\<rparr>))
        else if pid = MQTT5_PROPERTY_RESP_INFO then
          lft (read_string mem b base po (ck_allocs s)) (\<lambda>(t, po).
            Inr (t \<noteq> None, po, s\<lparr>ck_resp := r\<lparr>sr_response_info := t\<rparr>, ck_allocs := ck_allocs s + 1\<rparr>))
        else if pid \<in> {MQTT5_PROPERTY_REASON_STRING, MQTT5_PROPERTY_SERVER_REFERENCE, MQTT5_PROPERTY_AUTHENTICATION_METHOD,
                       MQTT5_PROPERTY_AUTHENTICATION_DATA} then
          lft (prop_skip b base po) (\<lambda>po. Inr (True, po, s))
        else Inr (False, po, s)))"

text \<open>Whether the packet could be read, the reason code, the acknowledge flags and the new state.\<close>
definition mqtt5_msg_parse_connack_property ::
  "(nat \<Rightarrow> bool) \<Rightarrow> bytes \<Rightarrow> nat \<Rightarrow> connack_state \<Rightarrow> (fault + bool \<times> byte \<times> byte \<times> connack_state) option" where
  "mqtt5_msg_parse_connack_property mem b n s =
     olift (get_variable_len b 1 n) (\<lambda>(len, k).
       if wrap32 (len + 1 + k) > n then Some (Inr (False, 0, 0, s\<lparr>ck_user := None\<rparr>))
       else
         olift (rd b (1 + k)) (\<lambda>flag. olift (rd b (2 + k)) (\<lambda>code. olift (get_variable_len b (3 + k) n) (\<lambda>(pl, k2).
           (case property_loop (connack_property_step mem b (3 + k + k2)) pl 0 (s\<lparr>ck_user := None\<rparr>) of
              None \<Rightarrow> None
            | Some r \<Rightarrow> olift r (\<lambda>(ok, po, s). Some (Inr (ok, code, flag, s))))))))"

end
