(* ===== verification/Mqtt5_Client.thy ===== *)
theory Mqtt5_Client
  imports Mqtt5_Msg Mqtt_Outbox
begin

unbundle bit_operations_syntax

text \<open>
  The MQTT 5 part of the client (\<^verbatim>\<open>espressif__mqtt/mqtt5_client.c\<close>, \<^verbatim>\<open>lib/include/mqtt5_client_priv.h\<close>): the
  properties the application sets, the topic aliases of the broker, the checks before a publish or a subscribe and
  the packets that are read. The record \<open>mqtt5_client\<close> has the fields of the client struct that this file uses, \<open>mem\<close> says
  which of the allocations succeed, and \<open>m5_allocs\<close> counts them. A block that is freed or was never allocated is \<open>None\<close>;
  using it is a fault. The client handle is not null, and the arguments of \<open>ESP_LOGD\<close> are not evaluated (the default log level).
  A configuration that the client keeps by its address is taken not to change.
\<close>

section \<open>State\<close>

text \<open>\<open>esp_mqtt5_connection_property_config_t\<close>.\<close>
record connection_property_config =
  cc_session_expiry_interval :: u32
  cc_maximum_packet_size :: u32
  cc_receive_maximum :: u16
  cc_topic_alias_maximum :: u16
  cc_request_resp_info :: bool
  cc_request_problem_info :: bool
  cc_user_property :: user_properties
  cc_will_delay_interval :: u32
  cc_message_expiry_interval :: u32
  cc_payload_format_indicator :: bool
  cc_content_type :: "bytes option"
  cc_response_topic :: "bytes option"
  cc_correlation_data :: "bytes option"
  cc_correlation_data_len :: u16
  cc_will_user_property :: user_properties

text \<open>\<open>esp_mqtt5_event_property_t\<close>; a pointer is its offset in the input buffer.\<close>
record event_property =
  ep_payload_format_indicator :: bool
  ep_response_topic :: "nat option"
  ep_response_topic_len :: int
  ep_correlation_data :: "nat option"
  ep_correlation_data_len :: u16
  ep_content_type :: "nat option"
  ep_content_type_len :: int
  ep_subscribe_id :: u16
  ep_user_property :: user_properties

text \<open>\<open>mqtt5_topic_alias_t\<close>.\<close>
record topic_alias =
  ta_topic :: "bytes option"
  ta_topic_len :: u16
  ta_alias :: u16

text \<open>\<open>mqtt5_config_storage_t\<close>.\<close>
record mqtt5_config =
  connect_property_info :: connection_property
  will_property_info :: will_property
  server_resp_property_info :: server_resp_property
  disconnect_property_info :: disconnect_property
  publish_property_info :: "publish_property option"
  subscribe_property_info :: "subscribe_property option"
  unsubscribe_property_info :: "unsubscribe_property option"
  peer_topic_alias :: "topic_alias list option"

record mqtt5_client =
  m5_connection :: mqtt_connection
  m5_info :: mqtt_connect_info
  m5_in_buffer :: bytes
  m5_in_buffer_length :: int
  m5_in_buffer_read_len :: nat
  m5_config :: "mqtt5_config option"
  m5_send_publish_packet_count :: u16
  m5_event_data :: "nat option"
  m5_event_data_len :: int
  m5_event_total_data_len :: int
  m5_event_current_data_offset :: int
  m5_event_session_present :: int
  m5_event_property :: "event_property option"
  m5_allocs :: nat

abbreviation v5 :: "mqtt5_client \<Rightarrow> bool" where
  "v5 s \<equiv> protocol_ver (m5_info s) = MQTT_PROTOCOL_V_5"

text \<open>What follows a step that needs a block.\<close>
definition deref :: "'a option \<Rightarrow> ('a \<Rightarrow> fault + 'b) \<Rightarrow> fault + 'b" where
  "deref p k = (case p of None \<Rightarrow> Inl Null_Pointer | Some a \<Rightarrow> k a)"

definition zero_event_property :: event_property where
  "zero_event_property =
     \<lparr>ep_payload_format_indicator = False, ep_response_topic = None, ep_response_topic_len = 0, ep_correlation_data = None,
      ep_correlation_data_len = 0, ep_content_type = None, ep_content_type_len = 0, ep_subscribe_id = 0, ep_user_property = None\<rparr>"

definition default_config :: mqtt5_config where
  "default_config =
     \<lparr>connect_property_info = \<lparr>cp_session_expiry_interval = 0, cp_maximum_packet_size = 0, cp_receive_maximum = 0, cp_topic_alias_maximum = 0,
        cp_request_resp_info = False, cp_request_problem_info = False, cp_user_property = None\<rparr>,
      will_property_info = \<lparr>wp_will_delay_interval = 0, wp_message_expiry_interval = 0, wp_payload_format_indicator = False, wp_content_type = None,
        wp_response_topic = None, wp_correlation_data = None, wp_correlation_data_len = 0, wp_user_property = None\<rparr>,
      server_resp_property_info = \<lparr>sr_maximum_packet_size = 0, sr_receive_maximum = 65535, sr_topic_alias_maximum = 0, sr_max_qos = 2,
        sr_retain_available = True, sr_wildcard_subscribe_available = True, sr_subscribe_identifiers_available = True,
        sr_shared_subscribe_available = True, sr_response_info = None\<rparr>,
      disconnect_property_info = \<lparr>dp_session_expiry_interval = 0, dp_disconnect_reason = 0, dp_user_property = None\<rparr>,
      publish_property_info = None, subscribe_property_info = None, unsubscribe_property_info = None, peer_topic_alias = None\<rparr>"

definition esp_mqtt5_create_default_config :: "(nat \<Rightarrow> bool) \<Rightarrow> mqtt5_client \<Rightarrow> esp_err \<times> mqtt5_client" where
  "esp_mqtt5_create_default_config mem s =
     (if v5 s then
        (let j = m5_allocs s in
         if \<not> mem j then (ESP_FAIL, s\<lparr>m5_event_property := None, m5_allocs := j + 1\<rparr>)
         else if \<not> mem (j + 1) then
           (ESP_FAIL, s\<lparr>m5_event_property := Some zero_event_property, m5_config := None, m5_allocs := j + 2\<rparr>)
         else (ESP_OK, s\<lparr>m5_event_property := Some zero_event_property, m5_config := Some default_config, m5_allocs := j + 2\<rparr>))
      else (ESP_OK, s))"

text \<open>Everything that belongs to the configuration is freed.\<close>
definition esp_mqtt5_client_destory :: "mqtt5_client \<Rightarrow> mqtt5_client" where
  "esp_mqtt5_client_destory s = (if v5 s then s\<lparr>m5_config := None, m5_event_property := None\<rparr> else s)"

section \<open>Flow control and checks\<close>

definition esp_mqtt5_increment_packet_counter :: "mqtt5_client \<Rightarrow> fault + mqtt5_client" where
  "esp_mqtt5_increment_packet_counter s =
     lft (rd (cbuffer (m5_connection s)) (m_data (outbound (m5_connection s)))) (\<lambda>x.
       Inr (if dup_of x = 0 then s\<lparr>m5_send_publish_packet_count := m5_send_publish_packet_count s + 1\<rparr> else s))"

definition esp_mqtt5_decrement_packet_counter :: "mqtt5_client \<Rightarrow> mqtt5_client" where
  "esp_mqtt5_decrement_packet_counter s =
     (if m5_send_publish_packet_count s > 0 then s\<lparr>m5_send_publish_packet_count := m5_send_publish_packet_count s - 1\<rparr> else s)"

definition esp_mqtt5_client_subscribe_check :: "mqtt5_client \<Rightarrow> int \<Rightarrow> fault + esp_err" where
  "esp_mqtt5_client_subscribe_check s qos =
     deref (m5_config s) (\<lambda>m. Inr (if uint (sr_max_qos (server_resp_property_info m)) < qos then ESP_FAIL else ESP_OK))"

definition esp_mqtt5_client_publish_check :: "mqtt5_client \<Rightarrow> int \<Rightarrow> int \<Rightarrow> fault + esp_err" where
  "esp_mqtt5_client_publish_check s qos retain =
     deref (m5_config s) (\<lambda>m.
       (let r = server_resp_property_info m in
        Inr (if uint (sr_max_qos r) < qos then ESP_FAIL
             else if \<not> sr_retain_available r \<and> retain \<noteq> 0 then ESP_FAIL
             else if m5_send_publish_packet_count s > sr_receive_maximum r then ESP_FAIL
             else ESP_OK)))"

section \<open>Topic aliases\<close>

text \<open>\<open>strncmp (x, y, n) == 0\<close>.\<close>
fun same_prefix :: "nat \<Rightarrow> bytes \<Rightarrow> bytes \<Rightarrow> fault + bool" where
  "same_prefix 0 xs ys = Inr True"
| "same_prefix (Suc n) (x # xs) (y # ys) = (if x \<noteq> y then Inr False else if x = 0 then Inr True else same_prefix n xs ys)"
| "same_prefix (Suc n) xs ys = Inl Overrun"

text \<open>
  The search and what is done with its result: the item found gets the topic, or a new one is appended. An item
  that was found keeps its length when there is no memory for the topic.
\<close>
fun esp_mqtt5_client_update_topic_alias ::
  "(nat \<Rightarrow> bool) \<Rightarrow> nat \<Rightarrow> topic_alias list \<Rightarrow> u16 \<Rightarrow> bytes \<Rightarrow> fault + bool \<times> topic_alias list \<times> nat" where
  "esp_mqtt5_client_update_topic_alias mem j [] a t =
     Inr (if \<not> mem j then (False, [], j + 1)
          else if \<not> mem (j + 1) then (False, [], j + 2)
          else (True, [\<lparr>ta_topic = Some t, ta_topic_len = of_nat (length t), ta_alias = a\<rparr>], j + 2))"
| "esp_mqtt5_client_update_topic_alias mem j (it # l) a t =
     (if ta_alias it = a then
        lft (if unat (ta_topic_len it) \<noteq> length t then Inr False
             else if length t = 0 then Inr True
             else deref (ta_topic it) (\<lambda>u. same_prefix (length t) t u)) (\<lambda>same.
          Inr (if same then (True, it # l, j)
               else if \<not> mem j then (False, it\<lparr>ta_topic := None\<rparr> # l, j + 1)
               else (True, it\<lparr>ta_topic := Some t, ta_topic_len := of_nat (length t)\<rparr> # l, j + 1)))
      else lft (esp_mqtt5_client_update_topic_alias mem j l a t) (\<lambda>(ok, l, j). Inr (ok, it # l, j)))"

text \<open>The topic and its length.\<close>
fun esp_mqtt5_client_get_topic_alias :: "topic_alias list \<Rightarrow> u16 \<Rightarrow> bytes option \<times> nat" where
  "esp_mqtt5_client_get_topic_alias [] a = (None, 0)"
| "esp_mqtt5_client_get_topic_alias (it # l) a =
     (if ta_alias it = a then (ta_topic it, unat (ta_topic_len it)) else esp_mqtt5_client_get_topic_alias l a)"

section \<open>Packets that are read\<close>

text \<open>What \<open>puback\<close> and \<open>unsuback\<close> do with the result of their reader.\<close>
definition set_event_data :: "(nat \<times> nat) option \<times> user_properties \<times> nat \<Rightarrow> event_property \<Rightarrow> mqtt5_client \<Rightarrow> mqtt5_client" where
  "set_event_data r ep s =
     (case r of (d, u, j) \<Rightarrow>
        s\<lparr>m5_event_data := map_option fst d, m5_event_data_len := (case d of None \<Rightarrow> 0 | Some x \<Rightarrow> s32 (int (snd x))),
          m5_event_total_data_len := (case d of None \<Rightarrow> 0 | Some x \<Rightarrow> s32 (int (snd x))), m5_event_current_data_offset := 0,
          m5_event_property := Some (ep\<lparr>ep_user_property := u\<rparr>), m5_allocs := j\<rparr>)"

definition esp_mqtt5_parse_puback :: "(nat \<Rightarrow> bool) \<Rightarrow> mqtt5_client \<Rightarrow> (fault + mqtt5_client) option" where
  "esp_mqtt5_parse_puback mem s =
     (if v5 s then
        (case m5_event_property s of
           None \<Rightarrow> Some (Inl Null_Pointer)
         | Some ep \<Rightarrow>
             (case mqtt5_get_puback_data mem (m5_in_buffer s) (m5_in_buffer_read_len s) (ep_user_property ep, m5_allocs s) of
                None \<Rightarrow> None
              | Some r \<Rightarrow> olift r (\<lambda>r. Some (Inr (set_event_data r ep s)))))
      else Some (Inr s))"

definition esp_mqtt5_parse_pubcomp :: "(nat \<Rightarrow> bool) \<Rightarrow> mqtt5_client \<Rightarrow> (fault + mqtt5_client) option" where
  "esp_mqtt5_parse_pubcomp mem s = esp_mqtt5_parse_puback mem s"

definition esp_mqtt5_parse_unsuback :: "(nat \<Rightarrow> bool) \<Rightarrow> mqtt5_client \<Rightarrow> (fault + mqtt5_client) option" where
  "esp_mqtt5_parse_unsuback mem s =
     (if v5 s then
        (case m5_event_property s of
           None \<Rightarrow> Some (Inl Null_Pointer)
         | Some ep \<Rightarrow>
             (case mqtt5_get_suback_data mem (m5_in_buffer s) (m5_in_buffer_read_len s) (m5_allocs s) of
                None \<Rightarrow> None
              | Some r \<Rightarrow> olift r (\<lambda>r. Some (Inr (set_event_data r ep s)))))
      else Some (Inr s))"

definition esp_mqtt5_parse_disconnect :: "mqtt5_client \<Rightarrow> int \<Rightarrow> fault + int" where
  "esp_mqtt5_parse_disconnect s code =
     (if v5 s then mqtt5_msg_get_reason_code (m5_in_buffer s) (m5_in_buffer_read_len s) else Inr code)"

text \<open>The result, the reason code of the CONNACK and the client.\<close>
definition esp_mqtt5_parse_connack :: "(nat \<Rightarrow> bool) \<Rightarrow> mqtt5_client \<Rightarrow> (fault + esp_err \<times> int \<times> mqtt5_client) option" where
  "esp_mqtt5_parse_connack mem s =
     (case (m5_config s, m5_event_property s) of
        (Some m, Some ep) \<Rightarrow>
          (case mqtt5_msg_parse_connack_property mem (m5_in_buffer s) (m5_in_buffer_read_len s)
                  \<lparr>ck_info = m5_info s, ck_connection = connect_property_info m, ck_resp = server_resp_property_info m,
                   ck_user = ep_user_property ep, ck_allocs = m5_allocs s\<rparr> of
             None \<Rightarrow> None
           | Some r \<Rightarrow> olift r (\<lambda>(ok, code, flag, k).
               (let s = s\<lparr>m5_in_buffer_read_len := 0, m5_info := ck_info k, m5_allocs := ck_allocs k,
                          m5_config := Some (m\<lparr>connect_property_info := ck_connection k, server_resp_property_info := ck_resp k\<rparr>),
                          m5_event_property := Some (ep\<lparr>ep_user_property := ck_user k\<rparr>)\<rparr>
                in Some (Inr (if \<not> ok then (ESP_FAIL, uint code, s)
                              else if code = 0 then (ESP_OK, 0, s\<lparr>m5_event_session_present := uint (flag AND 1)\<rparr>)
                              else (ESP_FAIL, uint code, s))))))
      | _ \<Rightarrow> Some (Inl Null_Pointer))"

text \<open>The topic and the place and length of the payload.\<close>
record publish_out =
  po_topic :: bytes
  po_data :: nat
  po_data_len :: nat

definition store_properties :: "publish_resp \<Rightarrow> event_property \<Rightarrow> event_property" where
  "store_properties r ep =
     ep\<lparr>ep_payload_format_indicator := rp_payload_format_indicator r, ep_response_topic := rp_response_topic r,
        ep_response_topic_len := rp_response_topic_len r, ep_correlation_data := rp_correlation_data r,
        ep_correlation_data_len := rp_correlation_data_len r, ep_content_type := rp_content_type r,
        ep_content_type_len := rp_content_type_len r, ep_subscribe_id := rp_subscribe_id r\<rparr>"

text \<open>The topic of the packet, or the one that its alias stands for; \<open>None\<close> is the failure.\<close>
definition resolve_topic ::
  "(nat \<Rightarrow> bool) \<Rightarrow> nat \<Rightarrow> mqtt5_config \<Rightarrow> u16 \<Rightarrow> bytes \<Rightarrow> fault + bytes option \<times> mqtt5_config \<times> nat" where
  "resolve_topic mem j m a t =
     (if a > cp_topic_alias_maximum (connect_property_info m) then Inr (None, m, j)
      else if a = 0 then Inr (Some t, m, j)
      else deref (peer_topic_alias m) (\<lambda>l.
        if t = [] then
          (case esp_mqtt5_client_get_topic_alias l a of
             (None, n) \<Rightarrow> Inr (None, m, j)
           | (Some u, n) \<Rightarrow> lft (copy_out u 0 n) (\<lambda>u. Inr (Some u, m, j)))
        else
          lft (esp_mqtt5_client_update_topic_alias mem j l a t) (\<lambda>(ok, l, j).
            Inr (if ok then Some t else None, m\<lparr>peer_topic_alias := Some l\<rparr>, j))))"

definition esp_mqtt5_get_publish_data ::
  "(nat \<Rightarrow> bool) \<Rightarrow> mqtt5_client \<Rightarrow> bytes \<Rightarrow> nat \<Rightarrow> (fault + publish_out option \<times> mqtt5_client) option" where
  "esp_mqtt5_get_publish_data mem s b n =
     (case m5_event_property s of
        None \<Rightarrow> Some (Inl Null_Pointer)
      | Some ep \<Rightarrow>
          (case mqtt5_get_publish_property_payload mem b n (m5_allocs s) of
             None \<Rightarrow> None
           | Some r \<Rightarrow> olift r (\<lambda>(d, u, j).
               (let ep1 = ep\<lparr>ep_user_property := u\<rparr>; s1 = s\<lparr>m5_event_property := Some ep1, m5_allocs := j\<rparr> in
                case d of
                  None \<Rightarrow> Some (Inr (None, s1))
                | Some d \<Rightarrow>
                    olift (copy_out b (pd_topic d) (pd_topic_len d)) (\<lambda>t. olift (deref (m5_config s1) (\<lambda>m.
                      resolve_topic mem j m (rp_topic_alias (pd_resp d)) t)) (\<lambda>(t, m, j).
                        (let s2 = s1\<lparr>m5_config := Some m, m5_allocs := j\<rparr> in
                         case t of
                           None \<Rightarrow> Some (Inr (None, s2))
                         | Some t \<Rightarrow>
                             Some (Inr (Some \<lparr>po_topic = t, po_data = pd_payload d, po_data_len = pd_payload_len d\<rparr>,
                                        s2\<lparr>m5_event_property := Some (store_properties (pd_resp d) ep1)\<rparr>)))))))))"

section \<open>User properties\<close>

text \<open>The items are copied until an allocation fails.\<close>
fun copy_user_items :: "(nat \<Rightarrow> bool) \<Rightarrow> nat \<Rightarrow> (bytes \<times> bytes) list \<Rightarrow> bool \<times> (bytes \<times> bytes) list \<times> nat" where
  "copy_user_items mem j [] = (True, [], j)"
| "copy_user_items mem j ((k, v) # its) =
     (if \<not> mem j then (False, [], j + 1)
      else if \<not> mem (j + 1) then (False, [], j + 2)
      else if \<not> mem (j + 2) then (False, [], j + 3)
      else (case copy_user_items mem (j + 3) its of (ok, l, j) \<Rightarrow> (ok, (k, v) # l, j)))"

definition esp_mqtt5_user_property_copy ::
  "(nat \<Rightarrow> bool) \<Rightarrow> nat \<Rightarrow> user_properties \<Rightarrow> user_properties \<Rightarrow> bool \<times> user_properties \<times> nat" where
  "esp_mqtt5_user_property_copy mem j new old =
     (case (new, old) of
        (Some n, Some its) \<Rightarrow> (case copy_user_items mem j its of (ok, l, j) \<Rightarrow> (ok, Some (n @ l), j))
      | _ \<Rightarrow> (False, new, j))"

text \<open>
  The stored list is replaced by a copy: the first result says whether the list head could be allocated, the
  second whether the items could be copied.
\<close>
definition replace_user_property :: "(nat \<Rightarrow> bool) \<Rightarrow> nat \<Rightarrow> user_properties \<Rightarrow> bool \<times> bool \<times> user_properties \<times> nat" where
  "replace_user_property mem j new =
     (if \<not> mem j then (False, False, None, j + 1)
      else (case esp_mqtt5_user_property_copy mem (j + 1) (Some []) new of (ok, u, j) \<Rightarrow> (True, ok, u, j)))"

text \<open>
  An item without key or value is passed over. The items are an array of \<open>item_num\<close> entries; the results are the
  error code, the list and the number of allocations.
\<close>
fun set_user_items ::
  "(nat \<Rightarrow> bool) \<Rightarrow> nat \<Rightarrow> (bytes option \<times> bytes option) list \<Rightarrow> nat \<Rightarrow> (bytes \<times> bytes) list \<Rightarrow> fault + bool \<times> (bytes \<times> bytes) list \<times> nat" where
  "set_user_items mem j arr 0 l = Inr (True, l, j)"
| "set_user_items mem j [] (Suc n) l = Inl Overrun"
| "set_user_items mem j (it # arr) (Suc n) l =
     (case it of
        (Some k, Some v) \<Rightarrow>
          (if \<not> mem j then Inr (False, l, j + 1)
           else if \<not> mem (j + 1) then Inr (False, l, j + 2)
           else if \<not> mem (j + 2) then Inr (False, l, j + 3)
           else set_user_items mem (j + 3) arr n (l @ [(k, v)]))
      | _ \<Rightarrow> set_user_items mem j arr n l)"

definition esp_mqtt5_client_set_user_property ::
  "(nat \<Rightarrow> bool) \<Rightarrow> nat \<Rightarrow> user_properties \<Rightarrow> (bytes option \<times> bytes option) list option \<Rightarrow> byte \<Rightarrow> fault + esp_err \<times> user_properties \<times> nat" where
  "esp_mqtt5_client_set_user_property mem j u arr item_num =
     (case arr of
        None \<Rightarrow> Inr (ESP_FAIL, u, j)
      | Some arr \<Rightarrow>
          (if item_num = 0 then Inr (ESP_FAIL, u, j)
           else if u = None \<and> \<not> mem j then Inr (ESP_ERR_NO_MEM, None, j + 1)
           else
             (let j = (if u = None then j + 1 else j); l = (case u of None \<Rightarrow> [] | Some l \<Rightarrow> l) in
              lft (set_user_items mem j arr (unat item_num) l) (\<lambda>(ok, l, j).
                Inr (if ok then (ESP_OK, Some l, j) else (ESP_ERR_NO_MEM, None, j))))))"

text \<open>Up to \<open>num\<close> items are copied out; on a failure what was copied is freed.\<close>
fun get_user_items :: "(nat \<Rightarrow> bool) \<Rightarrow> nat \<Rightarrow> (bytes \<times> bytes) list \<Rightarrow> nat \<Rightarrow> bool \<times> (bytes \<times> bytes) list \<times> nat" where
  "get_user_items mem j [] num = (True, [], j)"
| "get_user_items mem j (it # its) 0 = (True, [], j)"
| "get_user_items mem j ((k, v) # its) (Suc num) =
     (if \<not> mem j then (False, [], j + 1)
      else if \<not> mem (j + 1) then (False, [], j + 2)
      else (case get_user_items mem (j + 2) its num of (ok, l, j) \<Rightarrow> (ok, (k, v) # l, j)))"

text \<open>The array, of which \<open>item_num\<close> entries exist, is the list returned; the number stored is its length.\<close>
definition esp_mqtt5_client_get_user_property ::
  "(nat \<Rightarrow> bool) \<Rightarrow> nat \<Rightarrow> user_properties \<Rightarrow> byte \<Rightarrow> esp_err \<times> (bytes \<times> bytes) list \<times> byte \<times> nat" where
  "esp_mqtt5_client_get_user_property mem j u item_num =
     (case u of
        None \<Rightarrow> (ESP_FAIL, [], item_num, j)
      | Some its \<Rightarrow>
          (if item_num = 0 then (ESP_FAIL, [], item_num, j)
           else (case get_user_items mem j its (unat item_num) of (ok, l, j) \<Rightarrow>
             if ok then (ESP_OK, l, of_nat (length l), j) else (ESP_ERR_NO_MEM, [], item_num, j))))"

definition esp_mqtt5_client_get_user_property_count :: "user_properties \<Rightarrow> byte" where
  "esp_mqtt5_client_get_user_property_count u = (case u of None \<Rightarrow> 0 | Some its \<Rightarrow> fold (\<lambda>_ n. n + 1) its 0)"

section \<open>Properties that the application sets\<close>

definition esp_mqtt5_client_set_publish_property :: "publish_property option \<Rightarrow> mqtt5_client \<Rightarrow> fault + esp_err \<times> mqtt5_client" where
  "esp_mqtt5_client_set_publish_property p s =
     (if \<not> v5 s then Inr (ESP_FAIL, s)
      else deref p (\<lambda>q. deref (m5_config s) (\<lambda>m.
        Inr (if pp_topic_alias q > sr_topic_alias_maximum (server_resp_property_info m) then (ESP_FAIL, s)
             else (ESP_OK, s\<lparr>m5_config := Some (m\<lparr>publish_property_info := p\<rparr>)\<rparr>)))))"

definition no_name :: "bytes option \<Rightarrow> bool" where
  "no_name n = (case n of None \<Rightarrow> True | Some b \<Rightarrow> b = [])"

text \<open>The retain handling is looked at before the protocol version.\<close>
definition esp_mqtt5_client_set_subscribe_property :: "subscribe_property option \<Rightarrow> mqtt5_client \<Rightarrow> fault + esp_err \<times> mqtt5_client" where
  "esp_mqtt5_client_set_subscribe_property p s =
     deref p (\<lambda>q.
       if sp_retain_handle q > 2 then Inr (ESP_FAIL, s)
       else if \<not> v5 s then Inr (ESP_FAIL, s)
       else deref (m5_config s) (\<lambda>m.
         Inr (if sp_is_share_subscribe q
                 \<and> (sp_no_local_flag q \<or> \<not> sr_shared_subscribe_available (server_resp_property_info m) \<or> no_name (sp_share_name q))
              then (ESP_FAIL, s)
              else (ESP_OK, s\<lparr>m5_config := Some (m\<lparr>subscribe_property_info := p\<rparr>)\<rparr>))))"

definition esp_mqtt5_client_set_unsubscribe_property :: "unsubscribe_property option \<Rightarrow> mqtt5_client \<Rightarrow> fault + esp_err \<times> mqtt5_client" where
  "esp_mqtt5_client_set_unsubscribe_property p s =
     (if \<not> v5 s then Inr (ESP_FAIL, s)
      else deref p (\<lambda>q. deref (m5_config s) (\<lambda>m.
        Inr (if up_is_share_subscribe q
                \<and> (\<not> sr_shared_subscribe_available (server_resp_property_info m) \<or> no_name (up_share_name q))
             then (ESP_FAIL, s)
             else (ESP_OK, s\<lparr>m5_config := Some (m\<lparr>unsubscribe_property_info := p\<rparr>)\<rparr>)))))"

text \<open>A field that is 0 or null leaves the stored one as it is.\<close>
definition esp_mqtt5_client_set_disconnect_property ::
  "(nat \<Rightarrow> bool) \<Rightarrow> disconnect_property option \<Rightarrow> mqtt5_client \<Rightarrow> fault + esp_err \<times> mqtt5_client" where
  "esp_mqtt5_client_set_disconnect_property mem p s =
     (if \<not> v5 s then Inr (ESP_FAIL, s)
      else case p of
        None \<Rightarrow> Inr (ESP_OK, s)
      | Some q \<Rightarrow> deref (m5_config s) (\<lambda>m.
          (let d = disconnect_property_info m;
               d = (if dp_session_expiry_interval q \<noteq> 0 then d\<lparr>dp_session_expiry_interval := dp_session_expiry_interval q\<rparr> else d);
               d = (if dp_disconnect_reason q \<noteq> 0 then d\<lparr>dp_disconnect_reason := dp_disconnect_reason q\<rparr> else d);
               put = (\<lambda>u j. s\<lparr>m5_config := Some (m\<lparr>disconnect_property_info := d\<lparr>dp_user_property := u\<rparr>\<rparr>), m5_allocs := j\<rparr>) in
           if dp_user_property q = None then Inr (ESP_OK, put (dp_user_property d) (m5_allocs s))
           else Inr (case replace_user_property mem (m5_allocs s) (dp_user_property q) of
                       (False, _, u, j) \<Rightarrow> (ESP_ERR_NO_MEM, put u j)
                     | (True, False, u, j) \<Rightarrow> (ESP_FAIL, put None j)
                     | (True, True, u, j) \<Rightarrow> (ESP_OK, put u j)))))"

text \<open>
  \<open>esp_mqtt5_client_set_connect_property\<close> in the order of the source: the numbers of the connection, the user
  properties, the numbers of the will, its strings, the correlation data and its user properties. A step that runs out of
  memory gives \<open>False\<close>.
\<close>
definition set_connection_numbers :: "connection_property_config \<Rightarrow> int \<Rightarrow> connection_property \<Rightarrow> connection_property" where
  "set_connection_numbers c in_len p =
     (let p = p\<lparr>cp_maximum_packet_size := (if cc_maximum_packet_size c \<noteq> 0 then cc_maximum_packet_size c else of_int in_len)\<rparr>;
          p = (if cc_receive_maximum c \<noteq> 0 then p\<lparr>cp_receive_maximum := cc_receive_maximum c\<rparr> else p)
      in if cc_topic_alias_maximum c \<noteq> 0 then p\<lparr>cp_topic_alias_maximum := cc_topic_alias_maximum c\<rparr> else p)"

definition set_connection_flags :: "connection_property_config \<Rightarrow> connection_property \<Rightarrow> connection_property" where
  "set_connection_flags c p =
     (let p = (if cc_request_resp_info c then p\<lparr>cp_request_resp_info := True\<rparr> else p)
      in if cc_request_problem_info c then p\<lparr>cp_request_problem_info := True\<rparr> else p)"

definition set_will_numbers :: "connection_property_config \<Rightarrow> will_property \<Rightarrow> will_property" where
  "set_will_numbers c p =
     (let p = (if cc_payload_format_indicator c then p\<lparr>wp_payload_format_indicator := True\<rparr> else p);
          p = (if cc_will_delay_interval c \<noteq> 0 then p\<lparr>wp_will_delay_interval := cc_will_delay_interval c\<rparr> else p)
      in if cc_message_expiry_interval c \<noteq> 0 then p\<lparr>wp_message_expiry_interval := cc_message_expiry_interval c\<rparr> else p)"

text \<open>\<open>esp_mqtt_set_if_config\<close>.\<close>
definition set_if_config :: "(nat \<Rightarrow> bool) \<Rightarrow> nat \<Rightarrow> bytes option \<Rightarrow> bytes option \<Rightarrow> bool \<times> bytes option \<times> nat" where
  "set_if_config mem j new old = (case new of None \<Rightarrow> (True, old, j) | Some b \<Rightarrow> if mem j then (True, Some b, j + 1) else (False, None, j + 1))"

definition alias_list_step :: "(nat \<Rightarrow> bool) \<Rightarrow> connection_property_config \<Rightarrow> mqtt5_config \<times> nat \<Rightarrow> bool \<times> mqtt5_config \<times> nat" where
  "alias_list_step mem c x =
     (case x of (m, j) \<Rightarrow>
        if cc_topic_alias_maximum c \<noteq> 0 \<and> peer_topic_alias m = None then
          (if mem j then (True, m\<lparr>peer_topic_alias := Some []\<rparr>, j + 1) else (False, m, j + 1))
        else (True, m, j))"

definition connection_user_step :: "(nat \<Rightarrow> bool) \<Rightarrow> connection_property_config \<Rightarrow> mqtt5_config \<times> nat \<Rightarrow> bool \<times> mqtt5_config \<times> nat" where
  "connection_user_step mem c x =
     (case x of (m, j) \<Rightarrow>
        (let m = m\<lparr>connect_property_info := set_connection_flags c (connect_property_info m)\<rparr> in
         if cc_user_property c = None then (True, m, j)
         else (case replace_user_property mem j (cc_user_property c) of
                 (good, ok, u, j) \<Rightarrow> (good \<and> ok, m\<lparr>connect_property_info := (connect_property_info m)\<lparr>cp_user_property := u\<rparr>\<rparr>, j))))"

definition content_type_step :: "(nat \<Rightarrow> bool) \<Rightarrow> connection_property_config \<Rightarrow> mqtt5_config \<times> nat \<Rightarrow> bool \<times> mqtt5_config \<times> nat" where
  "content_type_step mem c x =
     (case x of (m, j) \<Rightarrow>
        (let w = set_will_numbers c (will_property_info m) in
         case set_if_config mem j (cc_content_type c) (wp_content_type w) of
           (ok, t, j) \<Rightarrow> (ok, m\<lparr>will_property_info := w\<lparr>wp_content_type := t\<rparr>\<rparr>, j)))"

definition response_topic_step :: "(nat \<Rightarrow> bool) \<Rightarrow> connection_property_config \<Rightarrow> mqtt5_config \<times> nat \<Rightarrow> bool \<times> mqtt5_config \<times> nat" where
  "response_topic_step mem c x =
     (case x of (m, j) \<Rightarrow>
        (let w = will_property_info m in
         case set_if_config mem j (cc_response_topic c) (wp_response_topic w) of
           (ok, t, j) \<Rightarrow> (ok, m\<lparr>will_property_info := w\<lparr>wp_response_topic := t\<rparr>\<rparr>, j)))"

text \<open>The data is read as far as the length says.\<close>
definition correlation_step :: "(nat \<Rightarrow> bool) \<Rightarrow> connection_property_config \<Rightarrow> mqtt5_config \<times> nat \<Rightarrow> fault + bool \<times> mqtt5_config \<times> nat" where
  "correlation_step mem c x =
     (case x of (m, j) \<Rightarrow>
        (let w = will_property_info m; n = unat (cc_correlation_data_len c) in
         case cc_correlation_data c of
           None \<Rightarrow> Inr (True, m, j)
         | Some d \<Rightarrow>
             (if n = 0 then Inr (True, m, j)
              else if \<not> mem j then Inr (False, m\<lparr>will_property_info := w\<lparr>wp_correlation_data := None\<rparr>\<rparr>, j + 1)
              else if n > length d then Inl Overrun
              else Inr (True, m\<lparr>will_property_info := w\<lparr>wp_correlation_data := Some (take n d), wp_correlation_data_len := cc_correlation_data_len c\<rparr>\<rparr>, j + 1))))"

definition will_user_step :: "(nat \<Rightarrow> bool) \<Rightarrow> connection_property_config \<Rightarrow> mqtt5_config \<times> nat \<Rightarrow> bool \<times> mqtt5_config \<times> nat" where
  "will_user_step mem c x =
     (case x of (m, j) \<Rightarrow>
        if cc_will_user_property c = None then (True, m, j)
        else (case replace_user_property mem j (cc_will_user_property c) of
                (good, ok, u, j) \<Rightarrow> (good \<and> ok, m\<lparr>will_property_info := (will_property_info m)\<lparr>wp_user_property := u\<rparr>\<rparr>, j)))"

fun run_steps :: "('a \<Rightarrow> fault + bool \<times> 'a) list \<Rightarrow> 'a \<Rightarrow> fault + bool \<times> 'a" where
  "run_steps [] x = Inr (True, x)"
| "run_steps (f # fs) x = lft (f x) (\<lambda>(ok, y). if ok then run_steps fs y else Inr (False, y))"

definition connect_property_steps :: "(nat \<Rightarrow> bool) \<Rightarrow> connection_property_config \<Rightarrow> (mqtt5_config \<times> nat \<Rightarrow> fault + bool \<times> mqtt5_config \<times> nat) list" where
  "connect_property_steps mem c =
     [Inr \<circ> alias_list_step mem c, Inr \<circ> connection_user_step mem c, Inr \<circ> content_type_step mem c, Inr \<circ> response_topic_step mem c,
      correlation_step mem c, Inr \<circ> will_user_step mem c]"

text \<open>What \<open>esp_mqtt_destroy_config\<close> leaves of the fields here: the information is zeroed and the configuration freed.\<close>
definition config_destroyed :: "mqtt5_client \<Rightarrow> mqtt5_client" where
  "config_destroyed s =
     (esp_mqtt5_client_destory s)\<lparr>m5_info :=
        \<lparr>client_id = None, username = None, password = None, will_topic = None, will_message = None, keepalive = 0, will_length = 0,
         will_qos = 0, will_retain = 0, clean_session = 0, protocol_ver = MQTT_PROTOCOL_UNDEFINED\<rparr>\<rparr>"

definition esp_mqtt5_client_set_connect_property ::
  "(nat \<Rightarrow> bool) \<Rightarrow> connection_property_config option \<Rightarrow> mqtt5_client \<Rightarrow> fault + esp_err \<times> mqtt5_client" where
  "esp_mqtt5_client_set_connect_property mem cfg s =
     (if \<not> v5 s then Inr (ESP_FAIL, s)
      else case cfg of
        None \<Rightarrow> Inr (ESP_OK, s)
      | Some c \<Rightarrow> deref (m5_config s) (\<lambda>m.
          (let p = connect_property_info m;
               p = (if cc_session_expiry_interval c \<noteq> 0 then p\<lparr>cp_session_expiry_interval := cc_session_expiry_interval c\<rparr> else p) in
           if cc_maximum_packet_size c \<noteq> 0 \<and> unat (cc_maximum_packet_size c) > sz (m5_in_buffer_length s)
           then Inr (ESP_FAIL, s\<lparr>m5_config := Some (m\<lparr>connect_property_info := p\<rparr>)\<rparr>)
           else
             lft (run_steps (connect_property_steps mem c)
                    (m\<lparr>connect_property_info := set_connection_numbers c (m5_in_buffer_length s) p\<rparr>, m5_allocs s)) (\<lambda>(ok, m, j).
               (let s = s\<lparr>m5_config := Some m, m5_allocs := j\<rparr> in Inr (if ok then (ESP_OK, s) else (ESP_ERR_NO_MEM, config_destroyed s)))))))"

end
