(* ===== verification/Mqtt5_Msg_Correct.thy ===== *)
theory Mqtt5_Msg_Correct
  imports Mqtt5_Msg Mqtt_Msg_Correct
begin

unbundle bit_operations_syntax

text \<open>
  Correctness of the MQTT 5 packet builder and readers. \<open>appends cap F s\<close> says that the builder step \<open>F\<close>, in
  continuation-passing style like the code's early returns, appends \<open>s\<close> to the packet body in a buffer of \<open>cap\<close> bytes
  or fails; the steps compose by \<open>appends_comp\<close>, and the collection \<open>appends\<close> holds the rule of each operation. The
  readers consume what the builder has appended item by item (\<open>loop_item\<close>).
\<close>

section \<open>Variable-length integers\<close>

lemma generate_variable_len_encoded: "generate_variable_len n = encoded_lens (int n)"
proof (induction n rule: less_induct)
  case (less n)
  then show ?case
    by (subst generate_variable_len.simps) (auto simp: encoded_lens_nat [of n] div_greater_zero_iff)
qed

lemma variable_scan_total:
  assumes "1 \<le> off" and "off \<le> i"
  shows "variable_scan b n off i tot = map_sum id (apsnd (\<lambda>k. k - 1)) (total_scan (drop (off - 1) b) (n - (off - 1)) (i - (off - 1)) tot)"
  using assms
proof (induction b n off i tot rule: variable_scan.induct)
  case (1 b n off i tot)
  have r: "rd (drop (off - 1) b) (i - (off - 1)) = rd b i" and s: "i - (off - 1) - 1 = i - off" "Suc (i - (off - 1)) = Suc i - (off - 1)"
    "i - (off - 1) < n - (off - 1) \<longleftrightarrow> i < n"
    using "1.prems" by (auto simp: rd_def)
  show ?case
    using "1.IH" "1.prems" r s
    by (subst variable_scan.simps, subst total_scan.simps) (auto simp: Let_def id_def split: sum.splits)
qed

lemma get_variable_len_encoded:
  assumes "b = pre @ encoded_lens (int v) @ rest" and "length pre = off" and "1 \<le> off" and "v < 268435456"
    and "off + length (encoded_lens (int v)) \<le> n"
  shows "get_variable_len b off n = Inr (v, length (encoded_lens (int v)))"
proof -
  have "total_scan (drop (off - 1) b) (n - (off - 1)) 1 0 = Inr (0 + of_nat (v * 128 ^ (1 - 1)), 1 + length (encoded_lens (int v)))"
    by (rule total_scan_encoded [where pre = "drop (off - 1) pre" and rest = rest]) (use assms in auto)
  then show ?thesis
    using assms(3,4) by (simp add: get_variable_len_def variable_scan_total lft_def take_bit_nat_eq_self unat_of_nat)
qed

section \<open>Appending\<close>

definition no_packet :: "fault + mqtt_connection \<Rightarrow> bool" where
  "no_packet r \<longleftrightarrow> (\<exists>c'. r = Inr c' \<and> conn_wf c' \<and> m_frag_total (outbound c') = 0 \<and> packet c' = [])"

text \<open>The length has run past the buffer, as it can where the place of a property length is reserved.\<close>
definition over :: "nat \<Rightarrow> mqtt_connection \<Rightarrow> bool" where
  "over cap c \<longleftrightarrow> conn_wf c \<and> cbuffer_length c = cap \<and> m_frag_total (outbound c) = 0 \<and> cap < out_length c \<and> out_length c \<le> 2 * cap"

text \<open>A body of \<open>n\<close> bytes that fits ends with \<open>Q\<close>, and one that does not fails.\<close>
definition outcome :: "nat \<Rightarrow> nat \<Rightarrow> (fault + mqtt_connection \<Rightarrow> bool) \<Rightarrow> fault + mqtt_connection \<Rightarrow> bool" where
  "outcome cap n Q r \<longleftrightarrow> (if 5 + n \<le> cap then Q r else no_packet r)"

definition appends :: "nat \<Rightarrow> ((mqtt_connection \<Rightarrow> fault + mqtt_connection) \<Rightarrow> mqtt_connection \<Rightarrow> fault + mqtt_connection) \<Rightarrow> bytes \<Rightarrow> bool" where
  "appends cap F s \<longleftrightarrow>
     (\<forall>k c b n Q. ready cap c b \<and> length b + length s \<le> n \<and> (\<forall>c'. ready cap c' (b @ s) \<longrightarrow> outcome cap n Q (k c')) \<longrightarrow> outcome cap n Q (F k c))
     \<and> (\<forall>k c. over cap c \<and> (\<forall>c'. over cap c' \<longrightarrow> no_packet (k c')) \<longrightarrow> no_packet (F k c))"

named_theorems appends_rules \<open>what each builder step appends\<close>

lemma appends_ready:
  "appends cap F s \<Longrightarrow> ready cap c b \<Longrightarrow> length b + length s \<le> n \<Longrightarrow> (\<And>c'. ready cap c' (b @ s) \<Longrightarrow> outcome cap n Q (k c'))
    \<Longrightarrow> outcome cap n Q (F k c)"
  unfolding appends_def by blast

lemma appends_over: "appends cap F s \<Longrightarrow> over cap c \<Longrightarrow> (\<And>c'. over cap c' \<Longrightarrow> no_packet (k c')) \<Longrightarrow> no_packet (F k c)"
  unfolding appends_def by blast

lemma appendsI:
  assumes "\<And>k c b n Q. ready cap c b \<Longrightarrow> length b + length s \<le> n \<Longrightarrow> (\<And>c'. ready cap c' (b @ s) \<Longrightarrow> outcome cap n Q (k c'))
      \<Longrightarrow> outcome cap n Q (F k c)"
    and "\<And>k c. over cap c \<Longrightarrow> (\<And>c'. over cap c' \<Longrightarrow> no_packet (k c')) \<Longrightarrow> no_packet (F k c)"
  shows "appends cap F s"
  unfolding appends_def using assms by blast

lemma appends_nothing [appends_rules]: "appends cap (\<lambda>k. k) []"
  by (rule appendsI) auto

lemma appends_comp:
  assumes "appends cap F s" and "appends cap G t"
  shows "appends cap (\<lambda>k. F (G k)) (s @ t)"
proof (rule appendsI)
  fix k c b n Q
  assume *: "ready cap c b" "length b + length (s @ t) \<le> n" "\<And>c'. ready cap c' (b @ s @ t) \<Longrightarrow> outcome cap n Q (k c')"
  show "outcome cap n Q (F (G k) c)"
  proof (rule appends_ready [OF assms(1) *(1)])
    show "length b + length s \<le> n" using *(2) by simp
    show "outcome cap n Q (G k c')" if "ready cap c' (b @ s)" for c'
      by (rule appends_ready [OF assms(2) that]) (use * in auto)
  qed
next
  fix k c
  assume "over cap c" "\<And>c'. over cap c' \<Longrightarrow> no_packet (k c')"
  then show "no_packet (F (G k) c)"
    by (intro appends_over [OF assms(1)] appends_over [OF assms(2)])
qed

lemma no_packet_fail [simp]: "conn_wf c \<Longrightarrow> m_frag_total (outbound c) = 0 \<Longrightarrow> no_packet (Inr (fail_message5 c))"
  by (simp add: no_packet_def fail_message5_def conn_wf_def packet_def)

lemma overlay_twice:
  "i + length xs + length ys \<le> length b \<Longrightarrow> overlay (overlay b i xs) (i + length xs) ys = overlay b i (xs @ ys)"
  by (simp add: overlay_def add_ac)

lemma buf_put_twice:
  assumes "buf_put i xs c = Inr c1" and "i + length xs + length ys \<le> length (cbuffer c)"
  shows "buf_put (i + length xs) ys c1 = buf_put i (xs @ ys) c"
  using assms by (auto simp: buf_put_def overlay_twice length_overlay add.assoc split: if_splits)

lemma length_be_bytes [simp]: "length (be_bytes occ n) = occ"
  by (simp add: be_bytes_def)

lemma be_bytes_2: "be_bytes 2 n = be16 n"
proof -
  have "of_nat n = (of_nat (n mod 256) :: byte)"
    by (simp add: word_unat_eq_iff unat_of_nat)
  then show ?thesis by (simp add: be_bytes_def be16_def upt_rec)
qed

text \<open>What \<open>append_property\<close> is to append.\<close>
definition property_bytes :: "byte \<Rightarrow> nat \<Rightarrow> bytes option \<Rightarrow> nat \<Rightarrow> bytes" where
  "property_bytes ty occ d n = (if ty \<noteq> 0 then [ty] else []) @ be_bytes occ n @ (case d of None \<Rightarrow> [] | Some b \<Rightarrow> take n b)"

definition data_ok :: "bytes option \<Rightarrow> nat \<Rightarrow> bool" where
  "data_ok d n \<longleftrightarrow> (case d of None \<Rightarrow> True | Some b \<Rightarrow> n \<le> length b \<and> n < 2147483648)"

lemma property_bytes_nonempty: "occ > 0 \<Longrightarrow> 0 < length (property_bytes ty occ d n)"
  by (simp add: property_bytes_def)

lemma length_property_bytes:
  "data_ok d n \<Longrightarrow> length (property_bytes ty occ d n) = (if ty \<noteq> 0 then 1 else 0) + occ + (if d \<noteq> None then n else 0)"
  by (auto simp: property_bytes_def data_ok_def split: option.splits)

lemma append_property_fits:
  assumes "ready cap c b" and "1 \<le> occ" and "occ \<le> 4" and "data_ok d n"
    and "5 + length b + length (property_bytes ty occ d n) \<le> cap"
  shows "\<exists>c'. append_property c ty occ d n = Inr (int (length (property_bytes ty occ d n)), c') \<and> ready cap c' (b @ property_bytes ty occ d n)"
proof -
  let ?h = "(if ty \<noteq> 0 then [ty] else []) @ be_bytes occ n"
  let ?d = "case d of None \<Rightarrow> [] | Some b \<Rightarrow> take n b"
  have c: "built c b" "m_frag_total (outbound c) = 0" "cbuffer_length c = cap" "out_length c = 5 + length b" "cap \<le> 268435456"
    "length (cbuffer c) = cap"
    using assms(1) by (auto simp: ready_def built_def conn_wf_def)
  have s: "property_bytes ty occ d n = ?h @ ?d" by (simp add: property_bytes_def)
  obtain c1 where c1: "buf_put (out_length c) (?h @ ?d) c = Inr c1" "built (set_length (out_length c + length (?h @ ?d)) c1) (b @ ?h @ ?d)" "same_ctl c c1"
    using built_buf_put [OF c(1), of "?h @ ?d"] assms(5) c unfolding s by auto
  have lim: "out_length c + length ?h + length ?d \<le> cap"
    using assms(5) c(4) unfolding s by simp
  then obtain c0 where c0: "buf_put (out_length c) ?h c = Inr c0"
    using c by (simp add: buf_put_def)
  have two: "buf_put (out_length c + length ?h) ?d c0 = Inr c1"
    using buf_put_twice [OF c0, of ?d] lim c(6) c1(1) by simp
  have r: "ready cap (set_length (out_length c + length (?h @ ?d)) c1) (b @ ?h @ ?d)"
    using c1 c by (simp add: ready_def same_ctl_def)
  have small: "wrap32 (out_length c + occ + (if d \<noteq> None then n else 0) + (if ty \<noteq> 0 then 1 else 0)) \<le> cap"
    using assms(4,5) c length_property_bytes [OF assms(4), of ty occ] by simp
  show ?thesis
  proof (cases d)
    case None
    then have "c0 = c1" using c0 c1(1) by simp
    with None small assms(2,3) c0 lim c(3,5) r show ?thesis
      unfolding s by (auto simp: append_property_def lft_def)
  next
    case (Some x)
    then have n: "n \<le> length x" "length ?d = n" using assms(4) by (simp_all add: data_ok_def)
    with Some small assms(2,3) c0 two lim c(3,5) r show ?thesis
      unfolding s by (auto simp: append_property_def lft_def buf_memcpy_def add.assoc)
  qed
qed

lemma append_property_full:
  assumes "conn_wf c" and "cbuffer_length c = cap" and "cap < out_length c + length (property_bytes ty occ d n)"
    and "out_length c \<le> 2 * cap" and "1 \<le> occ" and "occ \<le> 4" and "data_ok d n"
  shows "append_property c ty occ d n = Inr (- 1, c)"
proof -
  have "out_length c + occ + (if d \<noteq> None then n else 0) + (if ty \<noteq> 0 then 1 else 0) < 4294967296"
    using assms by (auto simp: conn_wf_def data_ok_def split: option.splits)
  with assms length_property_bytes [OF assms(7), of ty occ] show ?thesis
    by (simp add: append_property_def)
qed

text \<open>Every property with a length field of one to four bytes.\<close>
lemma append_property_appends [appends_rules]:
  assumes "occ \<in> {1, 2, 4}" and "data_ok d n"
  shows "appends cap (\<lambda>k c. append_check (append_property c ty occ d n) k) (property_bytes ty occ d n)"
proof (rule appendsI)
  fix k c b m Q
  assume *: "ready cap c b" "length b + length (property_bytes ty occ d n) \<le> m"
    "\<And>c'. ready cap c' (b @ property_bytes ty occ d n) \<Longrightarrow> outcome cap m Q (k c')"
  have c: "conn_wf c" "cbuffer_length c = cap" "out_length c = 5 + length b" "out_length c \<le> 2 * cap" "m_frag_total (outbound c) = 0"
    using *(1) by (auto simp: ready_def built_def)
  show "outcome cap m Q (append_check (append_property c ty occ d n) k)"
  proof (cases "5 + length b + length (property_bytes ty occ d n) \<le> cap")
    case True
    then obtain c' where "append_property c ty occ d n = Inr (int (length (property_bytes ty occ d n)), c')" "ready cap c' (b @ property_bytes ty occ d n)"
      using append_property_fits [OF *(1), of occ d n ty] assms by auto
    with *(3) show ?thesis by (auto simp: append_check_def lft_def)
  next
    case False
    then have "append_property c ty occ d n = Inr (- 1, c)"
      using append_property_full [OF c(1,2), of ty occ d n] c assms by auto
    with False *(2) c show ?thesis by (simp add: append_check_def lft_def outcome_def)
  qed
next
  fix k c
  assume *: "over cap c" "\<And>c'. over cap c' \<Longrightarrow> no_packet (k c')"
  then have "append_property c ty occ d n = Inr (- 1, c)"
    using assms by (intro append_property_full) (auto simp: over_def)
  with *(1) show "no_packet (append_check (append_property c ty occ d n) k)"
    by (simp add: append_check_def lft_def over_def)
qed

lemma append_if_appends [appends_rules]:
  assumes "b \<Longrightarrow> occ \<in> {1, 2, 4}" and "b \<Longrightarrow> data_ok d n"
  shows "appends cap (append_if b ty occ d n) (if b then property_bytes ty occ d n else [])"
proof (cases b)
  case True
  then show ?thesis using append_property_appends [of occ d n cap ty] assms by (simp add: append_if_def [abs_def])
next
  case False
  then show ?thesis using appends_nothing [of cap] by (simp add: append_if_def [abs_def])
qed

text \<open>Strings as the two optional parts of a property section have them.\<close>
definition string_property :: "byte \<Rightarrow> bytes option \<Rightarrow> bytes" where
  "string_property ty s = (case s of None \<Rightarrow> [] | Some b \<Rightarrow> (if ty \<noteq> 0 then [ty] else []) @ mqtt_string b)"

lemma property_bytes_string: "property_bytes ty 2 (Some b) (length b) = string_property ty (Some b)"
  by (simp add: property_bytes_def string_property_def be_bytes_2 mqtt_string_def)

lemma append_string_if_appends [appends_rules]:
  assumes "\<And>b. s = Some b \<Longrightarrow> length b < 2147483648"
  shows "appends cap (append_string_if ty s) (string_property ty s)"
proof (cases s)
  case None
  then show ?thesis using appends_nothing [of cap] by (simp add: append_string_if_def [abs_def] append_if_def string_property_def)
next
  case (Some b)
  have "appends cap (append_if True ty 2 (Some b) (length b)) (if True then property_bytes ty 2 (Some b) (length b) else [])"
    by (rule append_if_appends) (use assms [OF Some] in \<open>simp_all add: data_ok_def\<close>)
  with Some show ?thesis by (simp add: append_string_if_def [abs_def] property_bytes_string)
qed

lemma append_payload_string_appends [appends_rules]:
  assumes "length t < 2147483648"
  shows "appends cap (append_payload_string t) (mqtt_string t)"
proof -
  have "appends cap (\<lambda>k c. append_check (append_property c 0 2 (Some t) (length t)) k) (property_bytes 0 2 (Some t) (length t))"
    by (rule append_property_appends) (use assms in \<open>simp_all add: data_ok_def\<close>)
  then show ?thesis by (simp add: append_payload_string_def [abs_def] property_bytes_string string_property_def)
qed

definition user_bytes :: "user_properties \<Rightarrow> bytes" where
  "user_bytes u = concat (map (\<lambda>(k, v). 0x26 # mqtt_string k @ mqtt_string v) (case u of None \<Rightarrow> [] | Some its \<Rightarrow> its))"

definition users_ok :: "user_properties \<Rightarrow> bool" where
  "users_ok u \<longleftrightarrow> (\<forall>(k, v) \<in> set (case u of None \<Rightarrow> [] | Some its \<Rightarrow> its). length k < 65536 \<and> length v < 65536 \<and> 0 \<notin> set k \<and> 0 \<notin> set v)"

lemma append_user_items_appends:
  assumes "users_ok (Some its)"
  shows "appends cap (append_user_items its) (user_bytes (Some its))"
  using assms
proof (induction its)
  case Nil
  then show ?case using appends_nothing [of cap] by (simp add: user_bytes_def fun_eq_iff [symmetric] append_user_items.simps(1) [abs_def])
next
  case (Cons it its)
  obtain k v where it: "it = (k, v)" by fastforce
  have "appends cap (\<lambda>k' c. append_check (append_property c 0x26 2 (Some k) (length k)) k') (0x26 # mqtt_string k)"
    using append_property_appends [of 2 "Some k" "length k" cap "0x26"] Cons.prems it
    by (simp add: data_ok_def users_ok_def property_bytes_string string_property_def)
  moreover have "appends cap (append_payload_string v) (mqtt_string v)"
    by (rule append_payload_string_appends) (use Cons.prems it in \<open>simp add: users_ok_def\<close>)
  moreover have "appends cap (append_user_items its) (user_bytes (Some its))"
    by (rule Cons.IH) (use Cons.prems in \<open>simp add: users_ok_def\<close>)
  ultimately have "appends cap (\<lambda>k' c. append_check (append_property c 0x26 2 (Some k) (length k)) (append_payload_string v (append_user_items its k')))
      ((0x26 # mqtt_string k) @ mqtt_string v @ user_bytes (Some its))"
    by (rule appends_comp [OF _ appends_comp])
  then show ?case by (simp add: it user_bytes_def append_payload_string_def [abs_def] append_user_items.simps(2) [abs_def])
qed

lemma append_user_properties_appends [appends_rules]:
  "users_ok u \<Longrightarrow> appends cap (append_user_properties u) (user_bytes u)"
  by (cases u) (simp_all add: append_user_properties_def [abs_def] append_user_items_appends, simp add: user_bytes_def appends_nothing)

definition correlation_bytes :: "bytes option \<Rightarrow> u16 \<Rightarrow> bytes" where
  "correlation_bytes d n = (case d of Some b \<Rightarrow> if n \<noteq> 0 then 0x09 # mqtt_string (take (unat n) b) else [] | None \<Rightarrow> [])"

lemma unat_u16_less [simp]: "unat (n :: u16) < 65536"
  by (rule order.strict_trans2 [OF unsigned_less]) simp

lemma append_correlation_appends [appends_rules]:
  assumes "\<And>b. d = Some b \<Longrightarrow> unat n \<le> length b"
  shows "appends cap (append_correlation d n) (correlation_bytes d n)"
proof -
  have "unat n < 2147483648" by (rule order.strict_trans [OF unat_u16_less]) simp
  then have "appends cap (append_correlation d n) (if d \<noteq> None \<and> n \<noteq> 0 then property_bytes 0x09 2 d (unat n) else [])"
    unfolding append_correlation_def by (rule_tac append_if_appends) (auto simp: data_ok_def assms)
  moreover have "(if d \<noteq> None \<and> n \<noteq> 0 then property_bytes 0x09 2 d (unat n) else []) = correlation_bytes d n"
    using assms by (auto simp: correlation_bytes_def property_bytes_def be_bytes_2 mqtt_string_def split: option.splits)
  ultimately show ?thesis by simp
qed

section \<open>Property sections\<close>

text \<open>What \<open>appends\<close> says of a body that fits so far; a whole property section has only this.\<close>
definition adds :: "nat \<Rightarrow> ((mqtt_connection \<Rightarrow> fault + mqtt_connection) \<Rightarrow> mqtt_connection \<Rightarrow> fault + mqtt_connection) \<Rightarrow> bytes \<Rightarrow> bool" where
  "adds cap F s \<longleftrightarrow>
     (\<forall>k c b n Q. ready cap c b \<and> length b + length s \<le> n \<and> (\<forall>c'. ready cap c' (b @ s) \<longrightarrow> outcome cap n Q (k c')) \<longrightarrow> outcome cap n Q (F k c))"

lemma appends_adds: "appends cap F s \<Longrightarrow> adds cap F s"
  by (simp add: appends_def adds_def)

lemma addsI:
  assumes "\<And>k c b n Q. ready cap c b \<Longrightarrow> length b + length s \<le> n \<Longrightarrow> (\<And>c'. ready cap c' (b @ s) \<Longrightarrow> outcome cap n Q (k c'))
      \<Longrightarrow> outcome cap n Q (F k c)"
  shows "adds cap F s"
  unfolding adds_def using assms by blast

lemma addsD:
  "adds cap F s \<Longrightarrow> ready cap c b \<Longrightarrow> length b + length s \<le> n \<Longrightarrow> (\<And>c'. ready cap c' (b @ s) \<Longrightarrow> outcome cap n Q (k c'))
    \<Longrightarrow> outcome cap n Q (F k c)"
  unfolding adds_def by blast

lemma adds_comp:
  assumes "adds cap F s" and "adds cap G t"
  shows "adds cap (\<lambda>k. F (G k)) (s @ t)"
proof (rule addsI)
  fix k c b n Q
  assume *: "ready cap c b" "length b + length (s @ t) \<le> n" "\<And>c'. ready cap c' (b @ s @ t) \<Longrightarrow> outcome cap n Q (k c')"
  show "outcome cap n Q (F (G k) c)"
  proof (rule addsD [OF assms(1) *(1)])
    show "length b + length s \<le> n" using *(2) by simp
    show "outcome cap n Q (G k c')" if "ready cap c' (b @ s)" for c'
      by (rule addsD [OF assms(2) that]) (use * in auto)
  qed
qed

definition section_bytes :: "bytes \<Rightarrow> bytes" where
  "section_bytes s = encoded_lens (int (length s)) @ s"

lemma overlay_before:
  "i + length xs + length ys \<le> length b \<Longrightarrow> overlay (overlay b (i + length xs) ys) i xs = overlay b i (xs @ ys)"
  by (simp add: overlay_def add_ac)

lemma overlay_same: "take (length s) (drop i b) = s \<Longrightarrow> overlay b i s = b"
  unfolding overlay_def add.commute [of i] drop_drop [symmetric]
  using append_take_drop_id [of i b] append_take_drop_id [of "length s" "drop i b"] by simp

lemma buf_put_before:
  assumes "i + length xs + length ys \<le> length (cbuffer c)"
  shows "lft (buf_put (i + length xs) ys c) (buf_put i xs) = buf_put i (xs @ ys) c"
  using assms by (simp add: buf_put_def lft_def overlay_before length_overlay add.assoc)

lemma update_property_len_value_spec:
  assumes "ready cap c (b @ x # s)"
  shows "if 5 + length (b @ section_bytes s) \<le> cap
    then \<exists>c' v. update_property_len_value c (length s) (5 + length b) = Inr (v, c') \<and> v \<noteq> - 1 \<and> ready cap c' (b @ section_bytes s)
    else \<exists>c'. update_property_len_value c (length s) (5 + length b) = Inr (- 1, c') \<and> conn_wf c' \<and> m_frag_total (outbound c') = 0"
proof -
  let ?l = "encoded_lens (int (length s))"
  have c: "conn_wf c" "cbuffer_length c = cap" "length (cbuffer c) = cap" "cap \<le> 268435456" "out_length c = 5 + length b + 1 + length s"
    "m_frag_total (outbound c) = 0" "5 + length b + 1 + length s \<le> cap" and body: "take (length (b @ x # s)) (drop 5 (cbuffer c)) = b @ x # s"
    using assms by (auto simp: ready_def built_def conn_wf_def)
  have l: "length ?l \<le> 4" "0 < length ?l" using length_encoded_lens4 [of "length s"] c by auto
  let ?c1 = "set_length (out_length c + (length ?l - 1)) c"
  have o1: "out_length c + (length ?l - 1) = 5 + length b + length ?l + length s" using l c(5) by simp
  have s: "take (length s) (drop (5 + length b + 1) (cbuffer c)) = s"
    using arg_cong [OF body, of "drop (length b + 1)"] by (simp add: drop_take add_ac)
  have b: "take (length b) (drop 5 (cbuffer c)) = b"
    using arg_cong [OF body, of "take (length b)"] by simp
  show ?thesis
  proof (cases "5 + length (b @ section_bytes s) \<le> cap")
    case True
    let ?b0 = "set_length (5 + length b) c"
    have fit: "5 + length b + length ?l + length s \<le> cap" using True by (simp add: section_bytes_def)
    have "built ?b0 b" using c b by (simp add: built_def conn_wf_def)
    with fit c obtain c2 where c2: "buf_put (5 + length b) (?l @ s) ?b0 = Inr c2"
      "built (set_length (5 + length b + length (?l @ s)) c2) (b @ ?l @ s)" "same_ctl ?b0 c2"
      using built_buf_put [of ?b0 b "?l @ s"] by auto
    have put: "buf_put (5 + length b) (?l @ s) ?c1 = Inr (set_length (5 + length b + length (?l @ s)) c2)"
      using c2(1) o1 by (auto simp: buf_put_def set_length_def split: if_splits)
    have r: "ready cap (set_length (5 + length b + length (?l @ s)) c2) (b @ section_bytes s)"
      using c2(2,3) c by (simp add: ready_def same_ctl_def section_bytes_def)
    have "update_property_len_value c (length s) (5 + length b) = Inr (int (length ?l - 1), set_length (5 + length b + length (?l @ s)) c2)"
    proof (cases "length ?l = 1")
      case True
      have "buf_put (5 + length b) ?l ?c1 = buf_put (5 + length b) (?l @ s) ?c1"
      proof -
        have "overlay (cbuffer c) (5 + length b + 1) s = cbuffer c"
          by (rule overlay_same [OF s])
        then have "buf_put (5 + length b + length ?l) s ?c1 = Inr ?c1"
          using True fit c by (simp add: buf_put_def)
        then show ?thesis
          using buf_put_before [of "5 + length b" ?l s ?c1] fit c by (simp add: lft_def)
      qed
      with True put fit c show ?thesis
        by (simp add: update_property_len_value_def generate_variable_len_encoded lft_def)
    next
      case False
      have e: "5 + length b + 1 + (length ?l - 1) = 5 + length b + length ?l" using l by simp
      have f: "lft (buf_put (5 + length b + 1 + (length ?l - 1)) s ?c1) (buf_put (5 + length b) ?l) = Inr (set_length (5 + length b + length (?l @ s)) c2)"
        unfolding e using buf_put_before [of "5 + length b" ?l s ?c1] fit c(3) put by simp
      have w: "wrap32 (out_length c + (length ?l - 1)) = out_length c + (length ?l - 1)" "out_length c + (length ?l - 1) \<le> cap"
        using fit c(4) unfolding o1 by simp_all
      obtain c3 where c3: "buf_put (5 + length b + 1 + (length ?l - 1)) s ?c1 = Inr c3"
        "buf_put (5 + length b) ?l c3 = Inr (set_length (5 + length b + length (?l @ s)) c2)"
        using f unfolding lft_def by (cases "buf_put (5 + length b + 1 + (length ?l - 1)) s ?c1") simp_all
      have g: "\<not> length ?l > 4" "\<not> out_length ?c1 > cbuffer_length ?c1"
        "5 + length b + 1 + length s \<le> length (cbuffer ?c1)" "take (length s) (drop (5 + length b + 1) (cbuffer ?c1)) = s"
        using l(1) w(2) c(2,3,7) s by simp_all
      have p: "length ?l - 1 > 0" using l(2) False by linarith
      show ?thesis
        unfolding update_property_len_value_def generate_variable_len_encoded Let_def w(1)
        by (simp only: g(1,2) if_P [OF p] if_P [OF g(3)] g(4) if_False c3 lft_def sum.case)
    qed
    with True r show ?thesis by auto
  next
    case False
    then have "update_property_len_value c (length s) (5 + length b) = Inr (- 1, ?c1)"
      using l c o1 by (simp add: update_property_len_value_def generate_variable_len_encoded section_bytes_def)
    with False c show ?thesis by (simp add: conn_wf_def)
  qed
qed

lemma with_properties_adds:
  assumes "appends cap F s"
  shows "adds cap (with_properties F) (section_bytes s)"
proof (rule addsI)
  fix k c b n Q
  assume *: "ready cap c b" "length b + length (section_bytes s) \<le> n" "\<And>c'. ready cap c' (b @ section_bytes s) \<Longrightarrow> outcome cap n Q (k c')"
  let ?po = "5 + length b"
  let ?K = "\<lambda>c. append_check (update_property_len_value c (wrap32 (out_length c + 4294967296 - ?po - 1)) ?po) k"
  have c: "conn_wf c" "cbuffer_length c = cap" "length (cbuffer c) = cap" "cap \<le> 268435456" "out_length c = ?po" "?po \<le> cap"
    "m_frag_total (outbound c) = 0" "take (length b) (drop 5 (cbuffer c)) = b"
    using *(1) by (auto simp: ready_def built_def conn_wf_def)
  have l: "0 < length (encoded_lens (int (length s)))" by simp
  have unf: "with_properties F k c = F ?K (set_length (?po + 1) c)"
    using c by (simp add: with_properties_def)
  show "outcome cap n Q (with_properties F k c)"
  proof (cases "?po + 1 \<le> cap")
    case True
    let ?x = "cbuffer c ! ?po"
    have "take (length (b @ [?x])) (drop 5 (cbuffer c)) = b @ [?x]"
      using True c(3,8) by (simp add: take_Suc_conv_app_nth add.commute)
    then have r: "ready cap (set_length (?po + 1) c) (b @ [?x])"
      using True c by (simp add: ready_def built_def conn_wf_def)
    show ?thesis
      unfolding unf
    proof (rule appends_ready [OF assms r])
      show "length (b @ [?x]) + length s \<le> n"
        using *(2) l by (simp add: section_bytes_def Suc_le_eq del: length_greater_0_conv)
      fix c'
      assume c': "ready cap c' ((b @ [?x]) @ s)"
      then have len: "wrap32 (out_length c' + 4294967296 - ?po - 1) = length s"
        by (auto simp: ready_def built_def conn_wf_def)
      from update_property_len_value_spec [of cap c' b ?x s] c' *(2) *(3)
      show "outcome cap n Q (?K c')"
        unfolding len by (auto simp: append_check_def lft_def outcome_def split: if_splits)
    qed
  next
    case False
    have o: "over cap (set_length (?po + 1) c)"
      using False c by (simp add: over_def conn_wf_def)
    have "no_packet (F ?K (set_length (?po + 1) c))"
    proof (rule appends_over [OF assms o])
      fix c'
      assume c': "over cap c'"
      let ?n = "wrap32 (out_length c' + 4294967296 - ?po - 1)"
      have o': "cap < out_length c'" "out_length c' \<le> 2 * cap" "cbuffer_length c' = cap"
        using c' by (auto simp: over_def)
      have "out_length c' + 4294967296 - ?po - 1 = (out_length c' - ?po - 1) + 4294967296" "out_length c' - ?po - 1 < 4294967296"
        using o'(1,2) c(4,6) by linarith+
      then have n: "?n = out_length c' - ?po - 1" by (simp only: mod_add_self2 mod_less)
      have l4: "length (encoded_lens (int ?n)) \<le> 4"
        using n o'(2) c(4,6) False by (intro length_encoded_lens4) linarith
      have "out_length c' + (length (encoded_lens (int ?n)) - 1) < 4294967296"
        using o'(2) c(4) l4 by linarith
      then have "\<exists>v. update_property_len_value c' ?n ?po = Inr (- 1, set_length v c')"
        using o' l4 by (simp add: update_property_len_value_def generate_variable_len_encoded Let_def del: encoded_lens_nat) auto
      with c' show "no_packet (?K c')"
        by (auto simp: append_check_def lft_def over_def conn_wf_def)
    qed
    moreover have "\<not> 5 + n \<le> cap"
      using False *(2) l by (simp add: section_bytes_def del: length_greater_0_conv)
    ultimately show ?thesis by (simp add: unf outcome_def)
  qed
qed

lemma fini_message5_eq:
  assumes "out_length c = 5 + n" and "n < 268435456" and "m_frag_total (outbound c) = 0 \<or> m_frag_total (outbound c) < 268435456 \<and> 5 \<le> m_frag_total (outbound c)"
  shows "fini_message5 c ty dup qos retain = fini_message c ty dup qos retain"
proof -
  have m: "s32 (int (m_length (outbound c)) - 5) = int n"
    using assms(1,2) by (simp add: out_length_def s32_def)
  have t: "m_frag_total (outbound c) \<noteq> 0 \<Longrightarrow> s32 (int (m_frag_total (outbound c)) - 5) = int (m_frag_total (outbound c) - 5)"
    using assms(3) by (auto simp: s32_def of_nat_diff)
  have g: "generate_variable_len (sz (int k)) = encoded_lens (int k)" if "k < 268435456" for k
    using that by (simp add: sz_of_nat generate_variable_len_encoded)
  show ?thesis
    using assms(2,3) g [of n] g [of "m_frag_total (outbound c) - 5"]
    by (auto simp: fini_message5_def fini_message_def m t Let_def fail_message5_def fail_message_def)
qed

section \<open>Building a PUBLISH\<close>

text \<open>The response topic that is sent: with the broker's response information, if there is one.\<close>
definition sent_response_topic :: "bytes option \<Rightarrow> bytes option \<Rightarrow> bytes option" where
  "sent_response_topic rt ri = (case rt of None \<Rightarrow> None | Some t \<Rightarrow> Some (if nonempty ri then response_topic_with t (the ri) else t))"

definition publish_property_ok :: "publish_property \<Rightarrow> bytes option \<Rightarrow> bool" where
  "publish_property_ok p ri \<longleftrightarrow>
     (\<forall>t. sent_response_topic (pp_response_topic p) ri = Some t \<longrightarrow> length t < 65536)
     \<and> (\<forall>t. pp_content_type p = Some t \<longrightarrow> length t < 65536)
     \<and> (\<forall>d. pp_correlation_data p = Some d \<longrightarrow> unat (pp_correlation_data_len p) \<le> length d)
     \<and> users_ok (pp_user_property p)"

definition publish_property_bytes :: "publish_property \<Rightarrow> bytes option \<Rightarrow> bytes" where
  "publish_property_bytes p ri =
     (if pp_payload_format_indicator p then property_bytes 0x01 1 None 1 else [])
     @ (if pp_message_expiry_interval p \<noteq> 0 then property_bytes 0x02 4 None (unat (pp_message_expiry_interval p)) else [])
     @ (if pp_topic_alias p \<noteq> 0 then property_bytes 0x23 2 None (unat (pp_topic_alias p)) else [])
     @ string_property 0x08 (sent_response_topic (pp_response_topic p) ri)
     @ correlation_bytes (pp_correlation_data p) (pp_correlation_data_len p)
     @ user_bytes (pp_user_property p)
     @ string_property 0x03 (pp_content_type p)"

definition publish_section :: "publish_property option \<Rightarrow> bytes option \<Rightarrow> bytes" where
  "publish_section pr ri = (case pr of None \<Rightarrow> [] | Some p \<Rightarrow> publish_property_bytes p ri)"

lemma publish_response_topic_appends:
  assumes "\<And>t. sent_response_topic rt ri = Some t \<Longrightarrow> length t < 65536"
  shows "appends cap (publish_response_topic True rt ri) (string_property 0x08 (sent_response_topic rt ri))"
proof (cases rt)
  case None
  then show ?thesis
    using appends_nothing [of cap] by (simp add: publish_response_topic_def [abs_def] sent_response_topic_def string_property_def)
next
  case (Some t)
  have "appends cap (\<lambda>k c. append_check (append_property c 0x08 2 (Some x) (length x)) k) (string_property 0x08 (Some x))"
    if "length x < 65536" for x
    using append_property_appends [of 2 "Some x" "length x" cap "0x08"] that by (simp add: property_bytes_string data_ok_def)
  with Some assms show ?thesis
    by (auto simp: publish_response_topic_def [abs_def] sent_response_topic_def Let_def)
qed

lemma publish_properties_appends:
  assumes "\<And>p. pr = Some p \<Longrightarrow> publish_property_ok p ri"
  shows "appends cap (publish_properties True pr ri) (publish_section pr ri)"
proof (cases pr)
  case None
  then show ?thesis using appends_nothing [of cap] by (simp add: publish_properties_def [abs_def] publish_section_def)
next
  case (Some p)
  from assms [OF Some] have ok: "publish_property_ok p ri" .
  have len: "length t < 65536 \<Longrightarrow> length t < 2147483648" for t :: bytes by simp
  have "appends cap (publish_properties True (Some p) ri) (publish_property_bytes p ri)"
    unfolding publish_properties_def option.case publish_property_bytes_def
    by (intro appends_comp append_if_appends append_string_if_appends append_correlation_appends append_user_properties_appends
          publish_response_topic_appends)
      (use ok in \<open>simp_all add: publish_property_ok_def data_ok_def len\<close>)
  with Some show ?thesis by (simp add: publish_section_def)
qed

lemma append_message_id5_eq: "append_message_id5 c mid = append_message_id c mid"
  by (auto simp: append_message_id5_def append_message_id_def lft_def split: option.splits sum.splits)

lemma publish_payload5_eq: "publish_payload5 c (Some d) n = publish_payload c d n"
  by (simp add: publish_payload5_def publish_payload_def lft_def Let_def)

lemma init_message_eq: "init_message c = set_message_header_size c"
  by (simp add: init_message_def set_message_header_size_def)

lemma append_property_ids: "append_property c ty occ d n = Inr (v, c') \<Longrightarrow> ids_available c' = ids_available c"
  by (auto simp: append_property_def buf_put_def buf_memcpy_def ids_available_def set_length_def lft_def Let_def
      split: if_splits sum.splits option.splits)

definition publish5_body :: "int \<Rightarrow> bytes \<Rightarrow> nat \<Rightarrow> bytes \<Rightarrow> bytes \<Rightarrow> bytes" where
  "publish5_body qos topic i props payload = mqtt_string topic @ (if qos > 0 then be16 i else []) @ section_bytes props @ payload"

definition publish5_packet :: "int \<Rightarrow> int \<Rightarrow> bytes \<Rightarrow> nat \<Rightarrow> bytes \<Rightarrow> bytes \<Rightarrow> bytes" where
  "publish5_packet qos retain topic i props payload =
     type_byte 3 0 qos retain # encoded_lens (int (length (publish5_body qos topic i props payload))) @ publish5_body qos topic i props payload"

lemma mqtt5_msg_publish_fits:
  assumes "conn_wf c" and "m_frag_total (outbound c) = 0" and "topic \<noteq> [] \<or> (\<exists>p. pr = Some p \<and> pp_topic_alias p \<noteq> 0)"
    and "qos > 0 \<Longrightarrow> ids_available c" and "\<And>p. pr = Some p \<Longrightarrow> publish_property_ok p ri"
    and "5 + (length topic + 2) + (if qos > 0 then 2 else 0) + length (section_bytes (publish_section pr ri)) + length payload \<le> cbuffer_length c"
  shows "\<exists>c' i. mqtt5_msg_publish True c (Some topic) (Some payload) (int (length payload)) qos retain mid0 pr ri = Inr (c', i)
    \<and> conn_wf c' \<and> packet c' = publish5_packet qos retain topic i (publish_section pr ri) payload
    \<and> length (publish5_body qos topic i (publish_section pr ri) payload) < 268435456 \<and> (if qos > 0 then 0 < i else i = 0) \<and> i < 65536"
proof -
  let ?cap = "cbuffer_length c"
  let ?s = "publish_section pr ri"
  have cap: "?cap \<le> 268435456" using assms(1) by (simp add: conn_wf_def)
  have r0: "ready ?cap (init_message c) []" "ids_available (init_message c) = ids_available c"
    using built_header_size [OF assms(1)] assms(2)
    by (simp_all add: init_message_eq ready_def same_ctl_def) (simp add: set_message_header_size_def ids_available_def set_length_def)
  have d: "data_ok (Some topic) (length topic)" using assms(6) cap by (simp add: data_ok_def)
  obtain c1 where c1: "append_property (init_message c) 0 2 (Some topic) (length topic) = Inr (int (length topic + 2), c1)" "ready ?cap c1 (mqtt_string topic)"
    using append_property_fits [OF r0(1), of 2 "Some topic" "length topic" 0] assms(6) d
    by (auto simp: property_bytes_string string_property_def)
  obtain i c2 where c2: "(if qos > 0 then append_message_id5 c1 0 else Inr (0, c1)) = Inr (i, c2)" "if qos > 0 then 0 < i else i = 0" "i < 65536"
    "ready ?cap c2 (mqtt_string topic @ (if qos > 0 then be16 i else []))"
  proof (cases "qos > 0")
    case False
    with c1 show thesis by (intro that [of 0 c1]) simp_all
  next
    case True
    with assms(4) append_property_ids [OF c1(1)] r0(2) have "ids_available c1" by simp
    then obtain i d where i: "next_message_id c1 = Some (i, d)" "0 < i" "i < 65536" by (rule next_message_id_available)
    have b1: "built c1 (mqtt_string topic)" "cbuffer_length c1 = ?cap" "m_frag_total (outbound c1) = 0" using c1(2) by (simp_all add: ready_def)
    obtain c2 where "append_message_id c1 0 = Inr (i, c2)" "built c2 (mqtt_string topic @ be16 i)" "same_ctl c1 c2"
      using append_message_id_spec [OF b1(1), of 0 i d] i True assms(6) b1(2) by auto
    with b1 i True show thesis by (intro that [of i c2]) (simp_all add: same_ctl_def ready_def append_message_id5_eq)
  qed
  let ?h = "mqtt_string topic @ (if qos > 0 then be16 i else []) @ section_bytes ?s"
  let ?Q = "\<lambda>r. \<exists>c'. r = Inr c' \<and> conn_wf c' \<and> packet c' = publish5_packet qos retain topic i ?s payload \<and> length (publish5_body qos topic i ?s payload) < 268435456"
  let ?k = "\<lambda>c. lft (publish_payload5 c (Some payload) (int (length payload))) (\<lambda>c. fini_message5 c 3 0 qos retain)"
  have fit: "5 + length ?h + length payload \<le> ?cap" using assms(6) by (simp split: if_splits)
  have "outcome ?cap (length ?h) ?Q (with_properties (publish_properties True pr ri) ?k c2)"
  proof (rule addsD [OF with_properties_adds [OF publish_properties_appends] c2(4)])
    show "publish_property_ok p ri" if "pr = Some p" for p using assms(5) that .
    fix c3
    assume "ready ?cap c3 ((mqtt_string topic @ (if qos > 0 then be16 i else [])) @ section_bytes ?s)"
    then have r3: "built c3 ?h" "cbuffer_length c3 = ?cap" by (simp_all add: ready_def)
    with fit obtain c4 where c4: "publish_payload c3 payload (int (length payload)) = Inr c4" "built c4 (publish5_body qos topic i ?s payload)"
      "m_frag_total (outbound c4) = 0"
      using publish_payload_fits [OF r3(1), of payload] by (auto simp: publish5_body_def)
    then have lim: "out_length c4 = 5 + length (publish5_body qos topic i ?s payload)" "length (publish5_body qos topic i ?s payload) < 268435456"
      by (auto simp: built_def conn_wf_def)
    obtain c5 where "fini_message c4 3 0 qos retain = Inr c5" "conn_wf c5" "packet c5 = publish5_packet qos retain topic i ?s payload"
      using fini_message_spec [OF c4(2,3), of 3 0 qos retain] by (auto simp: publish5_packet_def)
    with c4 lim fini_message5_eq [OF lim, of 3 0 qos retain] have "?Q (?k c3)"
      by (simp add: publish_payload5_eq lft_def)
    then show "outcome ?cap (length ?h) ?Q (?k c3)" using fit by (simp add: outcome_def)
  qed simp
  with fit have "?Q (with_properties (publish_properties True pr ri) ?k c2)" by (simp add: outcome_def)
  then obtain c' where c': "with_properties (publish_properties True pr ri) ?k c2 = Inr c'" "conn_wf c'"
    "packet c' = publish5_packet qos retain topic i ?s payload" "length (publish5_body qos topic i ?s payload) < 268435456" by blast
  have na: "\<not> (\<not> nonempty (Some topic) \<and> (case pr of None \<Rightarrow> True | Some p \<Rightarrow> pp_topic_alias p = 0))"
    using assms(3) by (auto simp: nonempty_def)
  have "\<not> (qos > 0 \<and> i = 0)" using c2(2) by auto
  with c1(1) c2(1) c'(1) na
  have "mqtt5_msg_publish True c (Some topic) (Some payload) (int (length payload)) qos retain mid0 pr ri = Inr (c', i)"
    unfolding mqtt5_msg_publish_def Let_def by (auto simp: lft_def)
  with c' c2(2,3) show ?thesis by blast
qed

section \<open>Reading a property section\<close>

lemma po_add_small: "po + k < 65536 \<Longrightarrow> po_add po k = po + k"
  by (simp add: po_add_def)

lemma rd_drop: "drop i b = x # ys \<Longrightarrow> rd b i = Inr x"
  by (metis drop_all drop_eq_Nil list.distinct(1) not_le_imp_less nth_via_drop rd_def)

lemma drop_more: "drop i b = xs @ ys \<Longrightarrow> length xs = k \<Longrightarrow> drop (i + k) b = ys"
  by (metis add.commute append_eq_conv_conj drop_drop)

lemma prop_rd1_at: "drop (base + po) b = x # ys \<Longrightarrow> po + 1 < 65536 \<Longrightarrow> prop_rd1 b base po = Inr (x, po + 1)"
  by (simp add: prop_rd1_def rd_drop lft_def po_add_small)

lemma unat_be16: "n < 65536 \<Longrightarrow> unat (of_nat (n div 256) :: byte) * 256 + unat (of_nat (n mod 256) :: byte) = n"
  by (simp add: unat_of_nat_byte less_mult_imp_div_less)

lemma prop_rd2_at:
  assumes "drop (base + po) b = be16 n @ ys" and "n < 65536" and "po + 2 < 65536"
  shows "prop_rd2 b base po = Inr (n, po + 2)"
proof -
  have 1: "drop (base + po) b = of_nat (n div 256) # of_nat (n mod 256) # ys"
    using assms(1) by (simp add: be16_def)
  have 2: "drop (base + (po + 1)) b = of_nat (n mod 256) # ys"
    using drop_more [of "base + po" b "[of_nat (n div 256)]" "of_nat (n mod 256) # ys" 1] 1 by (simp add: add.assoc)
  show ?thesis
    using prop_rd1_at [OF 1] prop_rd1_at [OF 2] unat_be16 [OF assms(2)] assms(3) by (simp add: prop_rd2_def lft_def)
qed

lemma be_bytes_4: "be_bytes 4 n = be16 (n div 65536) @ be16 (n mod 65536)"
proof -
  have "of_nat k = (of_nat (k mod 256) :: byte)" for k
    by (simp add: word_unat_eq_iff unat_of_nat)
  from this [of "n div 65536"] this [of "n div 256"] this [of n] show ?thesis
    by (simp add: be_bytes_def be16_def upt_rec div_mult2_eq [symmetric] mod_div_mult_eq) (simp add: word_unat_eq_iff unat_of_nat mod_mult2_eq [of n 256 256, simplified] flip: mod_mod_cancel)
qed

lemma prop_rd4_at:
  assumes "drop (base + po) b = be_bytes 4 n @ ys" and "n < 4294967296" and "po + 4 < 65536"
  shows "prop_rd4 b base po = Inr (n, po + 4)"
proof -
  have 1: "drop (base + po) b = be16 (n div 65536) @ be16 (n mod 65536) @ ys"
    using assms(1) by (simp add: be_bytes_4)
  have 2: "drop (base + (po + 2)) b = be16 (n mod 65536) @ ys"
    using drop_more [OF 1, of 2] by (simp add: add.assoc)
  show ?thesis
    using prop_rd2_at [OF 1] prop_rd2_at [OF 2] assms(2,3) by (simp add: prop_rd4_def lft_def less_mult_imp_div_less)
qed

lemma prop_string_at:
  assumes "drop (base + po) b = mqtt_string s @ ys" and "length s < 65536" and "po + length s + 2 < 65536"
  shows "prop_string b base po = Inr (base + po + 2, length s, po + length s + 2)"
    and "take (length s) (drop (base + po + 2) b) = s"
proof -
  have 1: "drop (base + po) b = be16 (length s) @ s @ ys" using assms(1) by (simp add: mqtt_string_def)
  have "prop_rd2 b base po = Inr (length s, po + 2)" by (rule prop_rd2_at [OF 1 assms(2)]) (use assms(3) in simp)
  with assms(3) show "prop_string b base po = Inr (base + po + 2, length s, po + length s + 2)"
    by (simp add: prop_string_def lft_def po_add_small)
  show "take (length s) (drop (base + po + 2) b) = s" using drop_more [OF 1, of 2] by simp
qed

text \<open>
  \<open>reads step b base xs T\<close>: where the section at \<open>base\<close> has \<open>xs\<close>, the loop passes over it, and the states
  before and after are related by \<open>T\<close>.
\<close>
definition reads :: "(nat \<Rightarrow> 's \<Rightarrow> fault + bool \<times> nat \<times> 's) \<Rightarrow> bytes \<Rightarrow> nat \<Rightarrow> bytes \<Rightarrow> ('s \<Rightarrow> 's \<Rightarrow> bool) \<Rightarrow> bool" where
  "reads step b base xs T \<longleftrightarrow>
     (\<forall>po n s ys. drop (base + po) b = xs @ ys \<and> po + length xs \<le> n \<and> n < 65536 \<longrightarrow>
        (\<exists>s'. T s s' \<and> property_loop step n po s = property_loop step n (po + length xs) s'))"

lemma readsI:
  assumes "\<And>po s ys. drop (base + po) b = xs @ ys \<Longrightarrow> po + length xs < 65536 \<Longrightarrow> \<exists>s'. T s s' \<and> step po s = Inr (True, po + length xs, s')"
    and "xs \<noteq> []"
  shows "reads step b base xs T"
  unfolding reads_def
proof (intro allI impI)
  fix po n s ys
  assume *: "drop (base + po) b = xs @ ys \<and> po + length xs \<le> n \<and> n < 65536"
  with assms(1) [of po ys s] obtain s' where "T s s'" "step po s = Inr (True, po + length xs, s')" by auto
  moreover have "po < n" using * assms(2) by (cases xs) auto
  ultimately show "\<exists>s'. T s s' \<and> property_loop step n po s = property_loop step n (po + length xs) s'"
    by (intro exI [of _ s']) (simp add: property_loop.simps [of step n po])
qed

lemma reads_whole:
  assumes "reads step b base xs T" and "drop base b = xs @ rest" and "length xs < 65536"
  shows "\<exists>s'. T s s' \<and> property_loop step (length xs) 0 s = property_loop step (length xs) (length xs) s'"
  using assms(1) [unfolded reads_def, rule_format, of 0 rest "length xs" s] assms(2,3) by simp

lemma reads_nothing: "(\<And>s. T s s) \<Longrightarrow> reads step b base [] T"
  unfolding reads_def by auto

lemma reads_if: "(c \<Longrightarrow> reads step b base xs T) \<Longrightarrow> reads step b base (if c then xs else []) (\<lambda>s s'. if c then T s s' else s' = s)"
  by (cases c) (auto intro: reads_nothing)

lemma reads_comp:
  assumes "reads step b base xs T" and "reads step b base ys U"
  shows "reads step b base (xs @ ys) (T OO U)"
  unfolding reads_def
proof (intro allI impI)
  fix po n s zs
  assume *: "drop (base + po) b = (xs @ ys) @ zs \<and> po + length (xs @ ys) \<le> n \<and> n < 65536"
  then have "drop (base + po) b = xs @ (ys @ zs)" "po + length xs \<le> n" by auto
  with assms(1) * obtain s1 where s1: "T s s1" "property_loop step n po s = property_loop step n (po + length xs) s1"
    unfolding reads_def by blast
  have "drop (base + (po + length xs)) b = ys @ zs" "(po + length xs) + length ys \<le> n"
    using * drop_more [of "base + po" b xs "ys @ zs"] by (simp_all add: add.assoc)
  with assms(2) * obtain s2 where s2: "U s1 s2" "property_loop step n (po + length xs) s1 = property_loop step n (po + length xs + length ys) s2"
    unfolding reads_def by blast
  with s1 show "\<exists>s'. (T OO U) s s' \<and> property_loop step n po s = property_loop step n (po + length (xs @ ys)) s'"
    by (intro exI [of _ s2]) (auto simp: add.assoc)
qed

lemma drop_id: "drop (base + po) b = ty # xs \<Longrightarrow> drop (base + (po + 1)) b = xs"
  using drop_more [of "base + po" b "[ty]" xs 1] by (simp add: add.assoc)

lemma reads_byte_flag:
  "reads (publish_property_step mem b base n) b base (property_bytes 0x01 1 None 1) (\<lambda>s s'. s' = ((fst s)\<lparr>rp_payload_format_indicator := True\<rparr>, snd s))"
proof (rule readsI)
  fix po s ys
  assume *: "drop (base + po) b = property_bytes 0x01 1 None 1 @ ys" "po + length (property_bytes 0x01 1 None 1) < 65536"
  then have 1: "drop (base + po) b = 0x01 # 0x01 # ys" "po + 2 < 65536"
    by (simp_all add: property_bytes_def be_bytes_def)
  show "\<exists>s'. s' = ((fst s)\<lparr>rp_payload_format_indicator := True\<rparr>, snd s)
      \<and> publish_property_step mem b base n po s = Inr (True, po + length (property_bytes 0x01 1 None 1), s')"
    using prop_rd1_at [OF 1(1)] prop_rd1_at [OF drop_id [OF 1(1)]] 1(2)
    by (cases s) (simp add: publish_property_step_def lft_def property_bytes_def)
qed (simp add: property_bytes_def)

lemma reads_expiry:
  "reads (publish_property_step mem b base n) b base (property_bytes 0x02 4 None (unat (v :: u32)))
     (\<lambda>s s'. s' = ((fst s)\<lparr>rp_message_expiry_interval := v\<rparr>, snd s))"
proof (rule readsI)
  fix po s ys
  assume *: "drop (base + po) b = property_bytes 0x02 4 None (unat v) @ ys" "po + length (property_bytes 0x02 4 None (unat v)) < 65536"
  then have 1: "drop (base + po) b = 0x02 # be_bytes 4 (unat v) @ ys" "po + 5 < 65536"
    by (simp_all add: property_bytes_def)
  have "unat v < 4294967296" by (rule order.strict_trans2 [OF unsigned_less]) simp
  then show "\<exists>s'. s' = ((fst s)\<lparr>rp_message_expiry_interval := v\<rparr>, snd s)
      \<and> publish_property_step mem b base n po s = Inr (True, po + length (property_bytes 0x02 4 None (unat v)), s')"
    using prop_rd1_at [OF 1(1)] prop_rd4_at [OF drop_id [OF 1(1)]] 1(2)
    by (cases s) (simp add: publish_property_step_def lft_def property_bytes_def)
qed (simp add: property_bytes_def)

lemma reads_alias:
  "reads (publish_property_step mem b base n) b base (property_bytes 0x23 2 None (unat (v :: u16)))
     (\<lambda>s s'. s' = ((fst s)\<lparr>rp_topic_alias := v\<rparr>, snd s))"
proof (rule readsI)
  fix po s ys
  assume *: "drop (base + po) b = property_bytes 0x23 2 None (unat v) @ ys" "po + length (property_bytes 0x23 2 None (unat v)) < 65536"
  then have 1: "drop (base + po) b = 0x23 # be16 (unat v) @ ys" "po + 3 < 65536"
    by (simp_all add: property_bytes_def be_bytes_2)
  show "\<exists>s'. s' = ((fst s)\<lparr>rp_topic_alias := v\<rparr>, snd s)
      \<and> publish_property_step mem b base n po s = Inr (True, po + length (property_bytes 0x23 2 None (unat v)), s')"
    using prop_rd1_at [OF 1(1)] prop_rd2_at [OF drop_id [OF 1(1)]] 1(2)
    by (cases s) (simp add: publish_property_step_def lft_def property_bytes_def)
qed (simp add: property_bytes_def)

text \<open>The three strings of a PUBLISH; \<open>upd\<close> stores the place and the length.\<close>
definition string_at :: "bytes \<Rightarrow> bytes \<Rightarrow> nat \<Rightarrow> bool" where
  "string_at b t i \<longleftrightarrow> take (length t) (drop i b) = t"

lemma reads_string:
  assumes "ty = 0x08 \<and> upd = (\<lambda>i k. rp_response_topic_update (\<lambda>_. Some i) \<circ> rp_response_topic_len_update (\<lambda>_. int k))
      \<or> ty = 0x09 \<and> upd = (\<lambda>i k. rp_correlation_data_update (\<lambda>_. Some i) \<circ> rp_correlation_data_len_update (\<lambda>_. of_nat k))
      \<or> ty = 0x03 \<and> upd = (\<lambda>i k. rp_content_type_update (\<lambda>_. Some i) \<circ> rp_content_type_len_update (\<lambda>_. int k))"
    and "length t < 65536"
  shows "reads (publish_property_step mem b base n) b base (ty # mqtt_string t) (\<lambda>s s'. \<exists>i. string_at b t i \<and> s' = (upd i (length t) (fst s), snd s))"
proof (rule readsI)
  fix po s ys
  assume *: "drop (base + po) b = (ty # mqtt_string t) @ ys" "po + length (ty # mqtt_string t) < 65536"
  then have 1: "drop (base + po) b = ty # mqtt_string t @ ys" "po + 1 + length t + 2 < 65536" by simp_all
  note str = prop_string_at [OF drop_id [OF 1(1)] assms(2) 1(2)]
  have "publish_property_step mem b base n po s = Inr (True, po + length (ty # mqtt_string t), (upd (base + (po + 1) + 2) (length t) (fst s), snd s))"
    using assms(1) prop_rd1_at [OF 1(1)] str(1) 1(2)
    by (cases s) (auto simp: publish_property_step_def lft_def)
  moreover have "string_at b t (base + (po + 1) + 2)" using str(2) by (simp add: string_at_def)
  ultimately show "\<exists>s'. (\<exists>i. string_at b t i \<and> s' = (upd i (length t) (fst s), snd s))
      \<and> publish_property_step mem b base n po s = Inr (True, po + length (ty # mqtt_string t), s')" by blast
qed simp

lemma copy_out_string: "string_at b t i \<Longrightarrow> i + length t \<le> length b \<Longrightarrow> copy_out b i (length t) = Inr t"
  by (auto simp: copy_out_def string_at_def)

lemma c_string_id: "0 \<notin> set b \<Longrightarrow> c_string b = b"
  by (simp add: c_string_def takeWhile_eq_all_conv) metis

lemma reads_user_item:
  assumes "\<And>i. mem i" and "length k < 65536" and "length v < 65536" and "0 \<notin> set k" and "0 \<notin> set v"
  shows "reads (publish_property_step mem b base n) b base (0x26 # mqtt_string k @ mqtt_string v)
    (\<lambda>s s'. \<exists>j. s' = (fst s, Some ((case fst (snd s) of None \<Rightarrow> [] | Some l \<Rightarrow> l) @ [(k, v)]), j))"
proof (rule readsI)
  fix po ys and s :: "publish_resp \<times> user_properties \<times> nat"
  let ?xs = "0x26 # mqtt_string k @ mqtt_string v"
  assume *: "drop (base + po) b = ?xs @ ys" "po + length ?xs < 65536"
  obtain r u j where s: "s = (r, u, j)" by (cases s)
  have 1: "drop (base + po) b = 0x26 # mqtt_string k @ mqtt_string v @ ys" "po + 1 + length k + 2 < 65536"
    "(po + 1 + length k + 2) + length v + 2 < 65536" using * by simp_all
  have 2: "drop (base + (po + 1 + length k + 2)) b = mqtt_string v @ ys"
    using drop_more [OF drop_id [OF 1(1)], of "length k + 2"] by (simp add: add_ac)
  note str = prop_string_at [OF drop_id [OF 1(1)] assms(2) 1(2)] prop_string_at [OF 2 assms(3) 1(3)]
  have lb: "base + po + length ?xs \<le> length b"
    using arg_cong [OF *(1), of length] by simp
  have c: "copy_out b (base + (po + 1) + 2) (length k) = Inr k" "copy_out b (base + (po + 1 + length k + 2) + 2) (length v) = Inr v"
    using str(2,4) lb by (auto intro!: copy_out_string simp: string_at_def)
  show "\<exists>s'. (\<exists>j. s' = (fst s, Some ((case fst (snd s) of None \<Rightarrow> [] | Some l \<Rightarrow> l) @ [(k, v)]), j))
      \<and> publish_property_step mem b base n po s = Inr (True, po + length ?xs, s')"
    using prop_rd1_at [OF 1(1)] str(1,3) c assms(1) 1(2) c_string_id [OF assms(4)] c_string_id [OF assms(5)]
    by (auto simp: s publish_property_step_def read_user_property_def mqtt5_msg_set_user_property_def lft_def Let_def split: option.splits)
qed simp

lemma reads_user_items:
  assumes "\<And>i. mem i" and "users_ok (Some its)"
  shows "reads (publish_property_step mem b base n) b base (user_bytes (Some its))
    (\<lambda>s s'. \<exists>j. s' = (fst s, if its = [] then fst (snd s) else Some ((case fst (snd s) of None \<Rightarrow> [] | Some l \<Rightarrow> l) @ its), j))"
  using assms(2)
proof (induction its)
  case Nil
  show ?case
    by (simp add: user_bytes_def) (rule reads_nothing, metis prod.collapse)
next
  case (Cons it its)
  obtain k v where it: "it = (k, v)" by fastforce
  have kv: "length k < 65536" "length v < 65536" "0 \<notin> set k" "0 \<notin> set v" and ok: "users_ok (Some its)"
    using Cons.prems it by (simp_all add: users_ok_def)
  let ?T = "\<lambda>(s :: publish_resp \<times> user_properties \<times> nat) (s' :: publish_resp \<times> user_properties \<times> nat). \<exists>j. s' = (fst s, Some ((case fst (snd s) of None \<Rightarrow> [] | Some l \<Rightarrow> l) @ [(k, v)]), j)"
  let ?U = "\<lambda>its (s :: publish_resp \<times> user_properties \<times> nat) (s' :: publish_resp \<times> user_properties \<times> nat). \<exists>j. s' = (fst s, if its = [] then fst (snd s) else Some ((case fst (snd s) of None \<Rightarrow> [] | Some l \<Rightarrow> l) @ its), j)"
  have "reads (publish_property_step mem b base n) b base ((0x26 # mqtt_string k @ mqtt_string v) @ user_bytes (Some its)) (?T OO ?U its)"
    by (rule reads_comp [OF reads_user_item [OF assms(1) kv] Cons.IH [OF ok]])
  moreover have "?T OO ?U its = ?U (it # its)"
    by (auto simp: fun_eq_iff it split: option.splits)
  ultimately show ?case by (simp add: user_bytes_def it)
qed

definition slice :: "bytes \<Rightarrow> nat option \<Rightarrow> nat \<Rightarrow> bytes option" where
  "slice b i n = map_option (\<lambda>i. take n (drop i b)) i"

definition user_items :: "user_properties \<Rightarrow> user_properties" where
  "user_items u = (case u of None \<Rightarrow> None | Some its \<Rightarrow> if its = [] then None else Some its)"

text \<open>What the reader has found of the property \<open>p\<close>.\<close>
definition resp_of :: "bytes \<Rightarrow> publish_property \<Rightarrow> bytes option \<Rightarrow> publish_resp \<Rightarrow> bool" where
  "resp_of b p ri r \<longleftrightarrow>
     rp_payload_format_indicator r = pp_payload_format_indicator p
     \<and> rp_message_expiry_interval r = pp_message_expiry_interval p
     \<and> rp_topic_alias r = pp_topic_alias p
     \<and> slice b (rp_response_topic r) (nat (rp_response_topic_len r)) = sent_response_topic (pp_response_topic p) ri
     \<and> slice b (rp_correlation_data r) (unat (rp_correlation_data_len r))
        = (if pp_correlation_data_len p = 0 then None else map_option (take (unat (pp_correlation_data_len p))) (pp_correlation_data p))
     \<and> slice b (rp_content_type r) (nat (rp_content_type_len r)) = pp_content_type p
     \<and> rp_subscribe_id r = 0"

lemma reads_opt_string:
  assumes "ty = 0x08 \<and> upd = (\<lambda>i k. rp_response_topic_update (\<lambda>_. Some i) \<circ> rp_response_topic_len_update (\<lambda>_. int k))
      \<or> ty = 0x09 \<and> upd = (\<lambda>i k. rp_correlation_data_update (\<lambda>_. Some i) \<circ> rp_correlation_data_len_update (\<lambda>_. of_nat k))
      \<or> ty = 0x03 \<and> upd = (\<lambda>i k. rp_content_type_update (\<lambda>_. Some i) \<circ> rp_content_type_len_update (\<lambda>_. int k))"
    and "\<And>t. o' = Some t \<Longrightarrow> length t < 65536"
  shows "reads (publish_property_step mem b base n) b base (string_property ty o')
    (\<lambda>s s'. case o' of None \<Rightarrow> s' = s | Some t \<Rightarrow> \<exists>i. string_at b t i \<and> s' = (upd i (length t) (fst s), snd s))"
proof (cases o')
  case None
  then show ?thesis by (auto simp: string_property_def intro: reads_nothing)
next
  case (Some t)
  have "ty \<noteq> 0" using assms(1) by auto
  with Some reads_string [OF assms(1), of t mem b base n] assms(2) show ?thesis by (simp add: string_property_def)
qed

lemma correlation_bytes_string:
  "correlation_bytes d n = string_property 0x09 (if n = 0 then None else map_option (take (unat n)) d)"
  by (auto simp: correlation_bytes_def string_property_def split: option.splits)

type_synonym publish_state = "publish_resp \<times> user_properties \<times> nat"

text \<open>The correlation data that is sent, and what a string property does to the result \<open>s\<close>: \<open>g\<close> stores place and length.\<close>
definition sent_correlation :: "publish_property \<Rightarrow> bytes option" where
  "sent_correlation p = (if pp_correlation_data_len p = 0 then None else map_option (take (unat (pp_correlation_data_len p))) (pp_correlation_data p))"

definition stores :: "bytes \<Rightarrow> bytes option \<Rightarrow> (nat \<Rightarrow> nat \<Rightarrow> publish_resp \<Rightarrow> publish_resp) \<Rightarrow> publish_state \<Rightarrow> publish_state \<Rightarrow> bool" where
  "stores b d g s s' = (case d of None \<Rightarrow> s' = s | Some t \<Rightarrow> \<exists>i. string_at b t i \<and> s' = (g i (length t) (fst s), snd s))"

definition set_response_topic :: "nat \<Rightarrow> nat \<Rightarrow> publish_resp \<Rightarrow> publish_resp" where
  "set_response_topic i k r = r\<lparr>rp_response_topic := Some i, rp_response_topic_len := int k\<rparr>"
definition set_correlation :: "nat \<Rightarrow> nat \<Rightarrow> publish_resp \<Rightarrow> publish_resp" where
  "set_correlation i k r = r\<lparr>rp_correlation_data := Some i, rp_correlation_data_len := of_nat k\<rparr>"
definition set_content_type :: "nat \<Rightarrow> nat \<Rightarrow> publish_resp \<Rightarrow> publish_resp" where
  "set_content_type i k r = r\<lparr>rp_content_type := Some i, rp_content_type_len := int k\<rparr>"

definition sets :: "bool \<Rightarrow> (publish_resp \<Rightarrow> publish_resp) \<Rightarrow> publish_state \<Rightarrow> publish_state \<Rightarrow> bool" where
  "sets c g s s' = (if c then s' = (g (fst s), snd s) else s' = s)"

definition adds_users :: "(bytes \<times> bytes) list \<Rightarrow> publish_state \<Rightarrow> publish_state \<Rightarrow> bool" where
  "adds_users its s s' = (\<exists>j. s' = (fst s, if its = [] then fst (snd s) else Some ((case fst (snd s) of None \<Rightarrow> [] | Some l \<Rightarrow> l) @ its), j))"

text \<open>What reading the whole section does.\<close>
definition publish_effect :: "bytes \<Rightarrow> publish_property \<Rightarrow> bytes option \<Rightarrow> publish_state \<Rightarrow> publish_state \<Rightarrow> bool" where
  "publish_effect b p ri =
     sets (pp_payload_format_indicator p) (rp_payload_format_indicator_update (\<lambda>_. True)) OO
     sets (pp_message_expiry_interval p \<noteq> 0) (rp_message_expiry_interval_update (\<lambda>_. pp_message_expiry_interval p)) OO
     sets (pp_topic_alias p \<noteq> 0) (rp_topic_alias_update (\<lambda>_. pp_topic_alias p)) OO
     stores b (sent_response_topic (pp_response_topic p) ri) set_response_topic OO
     stores b (sent_correlation p) set_correlation OO
     adds_users (case pp_user_property p of None \<Rightarrow> [] | Some its \<Rightarrow> its) OO
     stores b (pp_content_type p) set_content_type"

lemma sent_correlation_length: "publish_property_ok p ri \<Longrightarrow> sent_correlation p = Some t \<Longrightarrow> length t < 65536"
  by (auto simp: publish_property_ok_def sent_correlation_def split: if_splits)

lemma publish_section_reads:
  assumes "publish_property_ok p ri" and "\<forall>i. mem i"
  shows "reads (publish_property_step mem b base n) b base (publish_property_bytes p ri) (publish_effect b p ri)"
proof -
  let ?step = "publish_property_step mem b base n"
  let ?u = "case pp_user_property p of None \<Rightarrow> [] | Some its \<Rightarrow> its"
  have u: "user_bytes (pp_user_property p) = user_bytes (Some ?u)" "users_ok (Some ?u)"
    using assms(1) by (auto simp: user_bytes_def publish_property_ok_def users_ok_def split: option.splits)
  have r1: "reads ?step b base (string_property 0x08 (sent_response_topic (pp_response_topic p) ri))
      (stores b (sent_response_topic (pp_response_topic p) ri) set_response_topic)"
    unfolding stores_def by (rule reads_opt_string) (use assms(1) in \<open>simp_all add: publish_property_ok_def set_response_topic_def fun_eq_iff\<close>)
  have r2: "reads ?step b base (correlation_bytes (pp_correlation_data p) (pp_correlation_data_len p)) (stores b (sent_correlation p) set_correlation)"
    unfolding correlation_bytes_string stores_def sent_correlation_def [symmetric]
    by (rule reads_opt_string) (use sent_correlation_length [OF assms(1)] in \<open>simp_all add: set_correlation_def fun_eq_iff\<close>)
  have r3: "reads ?step b base (string_property 0x03 (pp_content_type p)) (stores b (pp_content_type p) set_content_type)"
    unfolding stores_def by (rule reads_opt_string) (use assms(1) in \<open>simp_all add: publish_property_ok_def set_content_type_def fun_eq_iff\<close>)
  show ?thesis
    unfolding publish_property_bytes_def u(1) publish_effect_def sets_def adds_users_def
    by (intro reads_comp reads_if reads_byte_flag reads_expiry reads_alias r1 r2 r3 reads_user_items assms(2) [rule_format] u(2))
qed

text \<open>In terms of the result: a string property that was absent leaves the place null.\<close>
lemma stores_slice:
  assumes "stores b d g s s'" and "\<And>i n. g i n (fst s) = h (Some i) (w n) (fst s)" and "h None 0 (fst s) = fst s"
    and "\<And>t. d = Some t \<Longrightarrow> f (w (length t)) = length t"
  obtains i k where "s' = (h i k (fst s), snd s)" "slice b i (f k) = d"
proof (cases d)
  case None
  with assms(1,3) show thesis by (intro that [of None 0]) (simp_all add: slice_def stores_def)
next
  case (Some x)
  with assms(1) obtain i where "string_at b x i" "s' = (g i (length x) (fst s), snd s)" by (auto simp: stores_def)
  with Some assms(2,4) show thesis by (intro that [of "Some i" "w (length x)"]) (simp_all add: slice_def string_at_def)
qed

lemma publish_effect_resp:
  assumes "publish_effect b p ri (empty_publish_resp, None, j) s'" and "publish_property_ok p ri"
  shows "resp_of b p ri (fst s') \<and> fst (snd s') = user_items (pp_user_property p)"
proof -
  obtain s1 s2 s3 s4 s5 s6 where t:
    "sets (pp_payload_format_indicator p) (rp_payload_format_indicator_update (\<lambda>_. True)) (empty_publish_resp, None, j) s1"
    "sets (pp_message_expiry_interval p \<noteq> 0) (rp_message_expiry_interval_update (\<lambda>_. pp_message_expiry_interval p)) s1 s2"
    "sets (pp_topic_alias p \<noteq> 0) (rp_topic_alias_update (\<lambda>_. pp_topic_alias p)) s2 s3"
    "stores b (sent_response_topic (pp_response_topic p) ri) set_response_topic s3 s4" "stores b (sent_correlation p) set_correlation s4 s5"
    "adds_users (case pp_user_property p of None \<Rightarrow> [] | Some its \<Rightarrow> its) s5 s6" "stores b (pp_content_type p) set_content_type s6 s'"
    using assms(1) unfolding publish_effect_def by (elim relcomppE) (rule that)
  have s3: "s3 = (empty_publish_resp\<lparr>rp_payload_format_indicator := pp_payload_format_indicator p,
      rp_message_expiry_interval := pp_message_expiry_interval p, rp_topic_alias := pp_topic_alias p\<rparr>, None, j)"
    using t(1-3) by (auto simp: empty_publish_resp_def sets_def split: if_splits)
  obtain i4 k4 where s4: "s4 = ((fst s3)\<lparr>rp_response_topic := i4, rp_response_topic_len := k4\<rparr>, snd s3)"
      "slice b i4 (nat k4) = sent_response_topic (pp_response_topic p) ri"
    by (rule stores_slice [OF t(4), where h = "\<lambda>i k r. r\<lparr>rp_response_topic := i, rp_response_topic_len := k\<rparr>" and w = int and f = nat])
      (simp_all add: set_response_topic_def s3 empty_publish_resp_def)
  obtain i5 k5 where s5: "s5 = ((fst s4)\<lparr>rp_correlation_data := i5, rp_correlation_data_len := k5\<rparr>, snd s4)" "slice b i5 (unat k5) = sent_correlation p"
    by (rule stores_slice [OF t(5), where h = "\<lambda>i k r. r\<lparr>rp_correlation_data := i, rp_correlation_data_len := k\<rparr>" and w = of_nat and f = unat])
      (use sent_correlation_length [OF assms(2)] in \<open>simp_all add: set_correlation_def s3 s4(1) empty_publish_resp_def unat_of_nat\<close>)
  obtain j6 where s6: "s6 = (fst s5, user_items (pp_user_property p), j6)"
    using t(6) s5(1) s4(1) s3 by (auto simp: adds_users_def user_items_def split: option.splits)
  obtain i7 k7 where s7: "s' = ((fst s6)\<lparr>rp_content_type := i7, rp_content_type_len := k7\<rparr>, snd s6)" "slice b i7 (nat k7) = pp_content_type p"
    by (rule stores_slice [OF t(7), where h = "\<lambda>i k r. r\<lparr>rp_content_type := i, rp_content_type_len := k\<rparr>" and w = int and f = nat])
      (simp_all add: set_content_type_def s3 s4(1) s5(1) s6 empty_publish_resp_def)
  show ?thesis using s3 s4 s5 s6 s7 by (simp add: resp_of_def sent_correlation_def empty_publish_resp_def)
qed

lemma publish_section_read:
  assumes "publish_property_ok p ri" and "\<forall>i. mem i" and "drop base b = publish_property_bytes p ri @ rest"
    and "length (publish_property_bytes p ri) < 65536"
  shows "\<exists>r j'. property_loop (publish_property_step mem b base n) (length (publish_property_bytes p ri)) 0 (empty_publish_resp, None, j)
      = Some (Inr (True, length (publish_property_bytes p ri), r, user_items (pp_user_property p), j')) \<and> resp_of b p ri r"
proof -
  let ?step = "publish_property_step mem b base n" and ?n = "length (publish_property_bytes p ri)"
  from reads_whole [OF publish_section_reads [OF assms(1,2)] assms(3,4), where s = "(empty_publish_resp, None, j)" and n1 = n] obtain s' where
    s': "publish_effect b p ri (empty_publish_resp, None, j) s'"
      "property_loop ?step ?n 0 (empty_publish_resp, None, j) = property_loop ?step ?n ?n s'"
    by blast
  then show ?thesis
    using publish_effect_resp [OF s'(1) assms(1)] by (cases s') (auto simp: property_loop.simps [of ?step ?n ?n])
qed

section \<open>PUBLISH round trip\<close>

lemma publish5_length_field:
  assumes "length (publish5_body qos topic i props payload) < 268435456"
  shows "get_variable_len (publish5_packet qos retain topic i props payload) 1 (length (publish5_packet qos retain topic i props payload))
     = Inr (length (publish5_body qos topic i props payload), length (encoded_lens (int (length (publish5_body qos topic i props payload)))))"
  by (rule get_variable_len_encoded [where pre = "[type_byte 3 0 qos retain]"]) (use assms in \<open>simp_all add: publish5_packet_def\<close>)

lemma publish5_type_qos:
  assumes "qos \<in> {0..2}" and "retain \<in> {0, 1}"
  shows "mqtt_get_type (publish5_packet qos retain topic i props payload) = Inr 3"
    and "mqtt_get_qos (publish5_packet qos retain topic i props payload) = Inr qos"
  using type_byte_fields [of 3 qos retain] assms by (auto simp: mqtt_get_qos_def mqtt_get_type_def rd_def publish5_packet_def)

lemma publish5_drop:
  "drop (1 + length (encoded_lens (int (length (publish5_body qos topic i props payload))))) (publish5_packet qos retain topic i props payload)
     = publish5_body qos topic i props payload"
  by (simp add: publish5_packet_def)

lemma rd16_drop:
  assumes "drop i b = be16 n @ ys" and "n < 65536"
  shows "rd16 b i = Inr n"
proof -
  have 1: "drop i b = of_nat (n div 256) # of_nat (n mod 256) # ys" using assms(1) by (simp add: be16_def)
  then have 2: "drop (i + 1) b = of_nat (n mod 256) # ys" using drop_more [of i b "[of_nat (n div 256)]" "of_nat (n mod 256) # ys" 1] by simp
  show ?thesis using rd_drop [OF 1] rd_drop [OF 2] unat_be16 [OF assms(2)] by (simp add: rd16_def)
qed

lemma get_variable_len_drop:
  assumes "drop off b = encoded_lens (int v) @ ys" and "1 \<le> off" and "v < 268435456"
  shows "get_variable_len b off (length b) = Inr (v, length (encoded_lens (int v)))"
proof -
  have l: "off + length (encoded_lens (int v)) \<le> length b"
    using arg_cong [OF assms(1), of length] encoded_lens_ne [of "int v"] by (cases "off \<le> length b") auto
  show ?thesis
    by (rule get_variable_len_encoded [where pre = "take off b" and rest = ys]) (use assms l append_take_drop_id [of off b] in auto)
qed

lemma publish5_get_id:
  assumes "length (publish5_body qos topic i props payload) < 268435456" and "length topic < 65536" and "qos \<in> {1..2}" and "retain \<in> {0, 1}" and "i < 65536"
  shows "mqtt5_get_id (publish5_packet qos retain topic i props payload) (length (publish5_packet qos retain topic i props payload)) = Inr i"
proof -
  let ?p = "publish5_packet qos retain topic i props payload"
  let ?k = "length (encoded_lens (int (length (publish5_body qos topic i props payload))))"
  have q: "qos \<in> {0..2}" using assms(3) by auto
  note facts = publish5_length_field [OF assms(1), of retain] publish5_type_qos [OF q assms(4), of topic i props payload]
  have d: "drop (1 + ?k) ?p = be16 (length topic) @ topic @ be16 i @ section_bytes props @ payload"
    using publish5_drop [of qos topic i props payload retain] assms(3) by (simp add: publish5_body_def mqtt_string_def)
  have d2: "drop (1 + ?k + 2 + length topic) ?p = be16 i @ section_bytes props @ payload"
    using drop_more [OF drop_more [OF d, of 2], of "length topic"] by simp
  have "length ?p = 1 + ?k + 2 + length topic + 2 + length (section_bytes props @ payload)"
    using assms(3) by (simp add: publish5_packet_def publish5_body_def)
  then show ?thesis
    using facts rd16_drop [OF d assms(2)] rd16_drop [OF d2 assms(5)] assms(3)
    by (simp add: mqtt5_get_id_def lft_def Let_def add_ac)
qed

lemma publish5_read:
  assumes "length (publish5_body qos topic i (publish_property_bytes p ri) payload) < 268435456" and "length topic < 65536" and "qos \<in> {0..2}"
    and "retain \<in> {0, 1}" and "i < 65536" and "publish_property_ok p ri" and "length (publish_property_bytes p ri) < 65536" and "\<forall>i. mem i"
    and P: "P = publish5_packet qos retain topic i (publish_property_bytes p ri) payload"
  shows "\<exists>d j'. mqtt5_get_publish_property_payload mem P (length P) j = Some (Inr (Some d, user_items (pp_user_property p), j'))
    \<and> take (pd_topic_len d) (drop (pd_topic d) P) = topic \<and> take (pd_payload_len d) (drop (pd_payload d) P) = payload
    \<and> pd_payload_len d = length payload \<and> resp_of P p ri (pd_resp d) \<and> pd_topic_len d = length topic \<and> pd_topic d + length topic \<le> length P"
proof -
  let ?props = "publish_property_bytes p ri"
  let ?body = "publish5_body qos topic i ?props payload"
  let ?k = "length (encoded_lens (int (length ?body)))"
  let ?k2 = "length (encoded_lens (int (length ?props)))"
  let ?id = "if qos > 0 then be16 i else []"
  let ?o = "1 + ?k + 2 + length topic + length ?id"
  note facts = publish5_length_field [OF assms(1), of retain] publish5_type_qos(2) [OF assms(3,4), of topic i ?props payload]
  have d: "drop (1 + ?k) P = be16 (length topic) @ topic @ ?id @ section_bytes ?props @ payload"
    using publish5_drop [of qos topic i ?props payload retain] by (simp add: P publish5_body_def mqtt_string_def)
  have d1: "drop (1 + ?k + 2) P = topic @ ?id @ section_bytes ?props @ payload" using drop_more [OF d, of 2] by simp
  have d2: "drop ?o P = encoded_lens (int (length ?props)) @ ?props @ payload"
    using drop_more [OF drop_more [OF d1, of "length topic"] refl] by (simp add: section_bytes_def)
  have d3: "drop (?o + ?k2) P = ?props @ payload" using drop_more [OF d2 refl] .
  have d4: "drop (?o + ?k2 + length ?props) P = payload" using drop_more [OF d3 refl] .
  have lb: "length P = 1 + ?k + length ?body" "length P = ?o + ?k2 + length ?props + length payload"
    by (simp_all add: P publish5_packet_def publish5_body_def section_bytes_def)
  have k: "?k \<le> 4" "0 < ?k2" using length_encoded_lens4 [OF assms(1)] by auto
  from publish_section_read [OF assms(6,8) d3 assms(7), of "length P" j] obtain r j' where
    loop: "property_loop (publish_property_step mem P (?o + ?k2) (length P)) (length ?props) 0 (empty_publish_resp, None, j)
      = Some (Inr (True, length ?props, r, user_items (pp_user_property p), j'))" "resp_of P p ri r" by blast
  let ?d = "\<lparr>pd_topic = 1 + ?k + 2, pd_topic_len = length topic, pd_resp = r, pd_property_len = length ?props,
    pd_payload = ?o + ?k2 + length ?props, pd_payload_len = length payload\<rparr>"
  have tot: "wrap32 (length ?body + 1 + ?k) = length P" using lb(1) assms(1) k(1) by simp
  have pl: "sz (int (length P) - int (?o + ?k2 + length ?props)) = length payload"
  proof -
    have "int (length P) - int (?o + ?k2 + length ?props) = int (length payload)" using lb(2) by simp
    moreover have "length payload < 4294967296" using assms(1) by (simp add: publish5_body_def)
    ultimately show ?thesis by (simp add: sz_of_nat)
  qed
  have s: "publish_properties_payload mem P (length P) (length P) (1 + ?k + 2, length topic) ?o j = Some (Inr (Some ?d, user_items (pp_user_property p), j'))"
    using get_variable_len_drop [OF d2] assms(7) loop(1) pl
    unfolding publish_properties_payload_def olift_def by (simp add: Let_def)
  have "mqtt5_get_publish_property_payload mem P (length P) j = publish_properties_payload mem P (length P) (length P) (1 + ?k + 2, length topic) ?o j"
    using facts rd16_drop [OF d assms(2)] tot lb(2) k(2) unfolding P [symmetric] mqtt5_get_publish_property_payload_def olift_def Let_def
    by (simp add: add_ac)
  with s d1 d4 loop(2) lb(2) show ?thesis by (intro exI [of _ ?d] exI [of _ j']) simp
qed

text \<open>The properties of \<open>p\<close> as the reader reports them: numbers, and places and lengths of the strings.\<close>
definition properties_read :: "bytes \<Rightarrow> publish_property \<Rightarrow> publish_resp \<Rightarrow> bool" where
  "properties_read b p r \<longleftrightarrow>
     rp_payload_format_indicator r = pp_payload_format_indicator p
     \<and> rp_message_expiry_interval r = pp_message_expiry_interval p
     \<and> rp_topic_alias r = pp_topic_alias p
     \<and> slice b (rp_response_topic r) (nat (rp_response_topic_len r)) = pp_response_topic p
     \<and> slice b (rp_correlation_data r) (unat (rp_correlation_data_len r))
        = (if pp_correlation_data_len p = 0 then None else map_option (take (unat (pp_correlation_data_len p))) (pp_correlation_data p))
     \<and> slice b (rp_content_type r) (nat (rp_content_type_len r)) = pp_content_type p
     \<and> rp_subscribe_id r = 0"

lemma resp_of_no_information: "\<not> nonempty ri \<Longrightarrow> resp_of b p ri r \<longleftrightarrow> properties_read b p r"
  by (simp add: resp_of_def properties_read_def sent_response_topic_def option.case_eq_if)

text \<open>
  C13. Round trip of an MQTT 5 PUBLISH that fits the buffer, when the broker has given no response information: the packet that
  \<open>mqtt5_msg_publish\<close> builds is read back by
  \<open>mqtt5_get_publish_property_payload\<close> with the topic, the payload, every property and the list of user
  properties it was built from. The message id is read back too.
\<close>
theorem mqtt5_publish_roundtrip:
  assumes "conn_wf c" and "m_frag_total (outbound c) = 0" and "topic \<noteq> [] \<or> pp_topic_alias p \<noteq> 0" and "length topic < 65536"
    and "qos \<in> {0..2}" and "retain \<in> {0, 1}" and "qos > 0 \<Longrightarrow> ids_available c"
    and "publish_property_ok p ri" and "length (publish_property_bytes p ri) < 65536" and "\<forall>i. mem i"
    and "5 + (length topic + 2) + (if qos > 0 then 2 else 0) + length (section_bytes (publish_property_bytes p ri)) + length payload \<le> cbuffer_length c"
    and "\<not> nonempty ri"
  shows "\<exists>c' i d P j'. mqtt5_msg_publish True c (Some topic) (Some payload) (int (length payload)) qos retain mid0 (Some p) ri = Inr (c', i)
    \<and> conn_wf c' \<and> P = packet c' \<and> mqtt_get_type P = Inr 3 \<and> mqtt_get_qos P = Inr qos
    \<and> mqtt5_get_publish_property_payload mem P (length P) j = Some (Inr (Some d, user_items (pp_user_property p), j'))
    \<and> take (pd_topic_len d) (drop (pd_topic d) P) = topic
    \<and> take (pd_payload_len d) (drop (pd_payload d) P) = payload
    \<and> properties_read P p (pd_resp d)
    \<and> (qos > 0 \<longrightarrow> 0 < i \<and> mqtt5_get_id P (length P) = Inr i)"
proof -
  have 3: "topic \<noteq> [] \<or> (\<exists>q. Some p = Some q \<and> pp_topic_alias q \<noteq> 0)" using assms(3) by simp
  have 5: "publish_property_ok q ri" if "Some p = Some q" for q using that assms(8) by simp
  have s: "publish_section (Some p) ri = publish_property_bytes p ri" by (simp add: publish_section_def)
  from mqtt5_msg_publish_fits [OF assms(1,2) 3 assms(7) 5, unfolded s, OF _ _ assms(11), of retain mid0] obtain c' i where
    b: "mqtt5_msg_publish True c (Some topic) (Some payload) (int (length payload)) qos retain mid0 (Some p) ri = Inr (c', i)" "conn_wf c'"
    "packet c' = publish5_packet qos retain topic i (publish_property_bytes p ri) payload"
    "length (publish5_body qos topic i (publish_property_bytes p ri) payload) < 268435456" "if qos > 0 then 0 < i else i = 0" "i < 65536"
    by auto
  from publish5_read [OF b(4) assms(4-6) b(6) assms(8-10) b(3), of j] obtain d j' where
    d: "mqtt5_get_publish_property_payload mem (packet c') (length (packet c')) j = Some (Inr (Some d, user_items (pp_user_property p), j'))"
    "take (pd_topic_len d) (drop (pd_topic d) (packet c')) = topic" "take (pd_payload_len d) (drop (pd_payload d) (packet c')) = payload"
    "resp_of (packet c') p ri (pd_resp d)" by blast
  have id: "qos > 0 \<longrightarrow> 0 < i \<and> mqtt5_get_id (packet c') (length (packet c')) = Inr i"
    using publish5_get_id [OF b(4) assms(4) _ assms(6) b(6)] assms(5) b(5) by (auto simp: b(3))
  show ?thesis
    using b(1,2) d(1-3) d(4) [unfolded resp_of_no_information [OF assms(12)]] id
      publish5_type_qos [OF assms(5,6), of topic i "publish_property_bytes p ri" payload, folded b(3)] by blast
qed

definition sensor_property :: publish_property where
  "sensor_property = \<lparr>pp_payload_format_indicator = True, pp_message_expiry_interval = 300, pp_topic_alias = 0, pp_response_topic = Some [0x72],
     pp_correlation_data = Some [1, 2, 3], pp_correlation_data_len = 2, pp_content_type = None, pp_user_property = Some [([0x6b], [0x76])]\<rparr>"

theorem mqtt5_publish_roundtrip_witness:
  "\<exists>c' i d P j'. mqtt5_msg_publish True conn64 (Some [0x61]) (Some [0x31, 0x32]) 2 1 0 0 (Some sensor_property) None = Inr (c', i)
    \<and> P = packet c' \<and> mqtt5_get_publish_property_payload (\<lambda>_. True) P (length P) 0 = Some (Inr (Some d, Some [([0x6b], [0x76])], j'))
    \<and> take (pd_payload_len d) (drop (pd_payload d) P) = [0x31, 0x32] \<and> rp_message_expiry_interval (pd_resp d) = 300
    \<and> slice P (rp_response_topic (pd_resp d)) (nat (rp_response_topic_len (pd_resp d))) = Some [0x72] \<and> 0 < i"
proof -
  have r: "sent_response_topic (Some [0x72]) None = Some [0x72]" by (simp add: sent_response_topic_def nonempty_def)
  have ok: "publish_property_ok sensor_property None"
    by (auto simp: publish_property_ok_def sensor_property_def users_ok_def r)
  have l: "length (publish_property_bytes sensor_property None) = 23"
    by (simp add: publish_property_bytes_def sensor_property_def property_bytes_def r string_property_def correlation_bytes_def user_bytes_def)
  have s: "length (section_bytes (publish_property_bytes sensor_property None)) = 24"
    by (simp add: section_bytes_def l encoded_lens_nat [of 23, simplified])
  show ?thesis
    using mqtt5_publish_roundtrip [of conn64 "[0x61]" sensor_property 1 0 None "\<lambda>_. True" "[0x31, 0x32]" 0 0] ok l s
    by (auto simp: properties_read_def sensor_property_def user_items_def nonempty_def)
qed

text \<open>With the broker's response information the last character of the response topic is lost, and a zero is sent instead.\<close>
lemma response_topic_truncated:
  assumes "length rt + length ri < 65535"
  shows "response_topic_with rt ri = butlast (rt @ 0x2F # ri) @ [0]"
  using assms by (simp add: response_topic_with_def butlast_conv_take)

section \<open>A loop that does not end\<close>

lemma property_loop_stuck:
  assumes "po < n" and "step po s = Inr (True, po, s)"
  shows "property_loop step n po s = None"
proof (rule ccontr)
  assume "property_loop step n po s \<noteq> None"
  then obtain y where "property_loop step n po s = Some y" by blast
  then have "\<not> (po < n \<and> step po s = Inr (True, po, s))"
    by (rule property_loop.raw_induct [rotated 1]) (auto split: if_splits)
  with assms show False by simp
qed

text \<open>
  C31. The offset into the properties is a \<open>uint16_t\<close>, and the lengths in the properties are not compared with
  the packet: a PUBLISH whose only property is a reason string of the stated length 65533 brings the offset back
  to 0, and \<open>mqtt5_get_publish_property_payload\<close> does not return, whatever topic and payload are.
\<close>
theorem mqtt5_reason_string_hangs:
  assumes "length topic < 65536" and "length payload < 100000000"
  shows "mqtt5_get_publish_property_payload mem
      (0x30 # encoded_lens (int (length topic + 6 + length payload)) @ mqtt_string topic @ [0x03, 0x1F, 0xFF, 0xFD] @ payload)
      (length (0x30 # encoded_lens (int (length topic + 6 + length payload)) @ mqtt_string topic @ [0x03, 0x1F, 0xFF, 0xFD] @ payload)) j = None"
proof -
  define L where "L = encoded_lens (int (length topic + 6 + length payload))"
  define P where "P = 0x30 # L @ mqtt_string topic @ [0x03, 0x1F, 0xFF, 0xFD] @ payload"
  let ?o = "1 + length L + 2 + length topic"
  have d: "drop (1 + length L) P = be16 (length topic) @ topic @ [0x03] @ 0x1F # be16 65533 @ payload"
    by (simp add: P_def mqtt_string_def be16_def [of 65533])
  have d1: "drop ?o P = encoded_lens (int 3) @ 0x1F # be16 65533 @ payload"
    using drop_more [OF drop_more [OF d, of 2], of "length topic"] by (simp add: encoded_lens_nat [of 3, simplified])
  have d2: "drop (?o + 1) P = 0x1F # be16 65533 @ payload"
    using drop_more [OF d1, of 1] by (simp add: encoded_lens_nat [of 3, simplified])
  have v: "get_variable_len P 1 (length P) = Inr (length topic + 6 + length payload, length L)"
    unfolding L_def by (rule get_variable_len_drop) (use assms in \<open>simp_all add: P_def L_def\<close>)
  have step: "publish_property_step mem P (?o + 1) (length P) 0 s = Inr (True, 0, s)" for s
    using prop_rd1_at [of "?o + 1" 0 P] prop_rd2_at [of "?o + 1" 1 P] d2 drop_id [of "?o + 1" 0 P]
    by (cases s) (auto simp: publish_property_step_def prop_skip_def lft_def po_add_def)
  have g: "get_variable_len P ?o (length P) = Inr (3, 1)"
    using get_variable_len_drop [OF d1] by (simp add: encoded_lens_nat [of 3, simplified])
  have "publish_properties_payload mem P (length P) t tp ?o j = None" for t tp
    using g property_loop_stuck [of 0 3 "publish_property_step mem P (?o + 1) (length P)", OF _ step]
    by (simp add: publish_properties_payload_def olift_def)
  moreover have "mqtt_get_qos P = Inr 0" by (simp add: mqtt_get_qos_def rd_def P_def qos_of_def)
  moreover have "?o < length P" by (simp add: P_def)
  ultimately have "mqtt5_get_publish_property_payload mem P (length P) j = None"
    using v rd16_drop [OF d assms(1)] by (simp add: mqtt5_get_publish_property_payload_def olift_def Let_def)
  then show ?thesis by (simp add: P_def L_def)
qed

theorem mqtt5_reason_string_hangs_witness:
  "let P = [0x30, 6, 0, 0, 0x03, 0x1F, 0xFF, 0xFD] in mqtt5_get_publish_property_payload (\<lambda>_. True) P (length P) 0 = None"
  using mqtt5_reason_string_hangs [of "[]" "[]" "\<lambda>_. True" 0]
  by (simp add: mqtt_string_def be16_def encoded_lens_nat [of 6, simplified])

end
