(* ===== verification/Mqtt5_Packets.thy ===== *)
theory Mqtt5_Packets
  imports Mqtt5_Msg_Correct
begin

unbundle bit_operations_syntax

text \<open>
  The layout of the MQTT 5 packets other than PUBLISH, from the rules of \<open>Mqtt5_Msg_Correct\<close>. \<open>flagged cap F s v\<close>
  says that a step of the CONNECT builder appends \<open>s\<close> and sets the connect flags \<open>v\<close>.
\<close>

section \<open>CONNECT\<close>

definition flagged :: "nat \<Rightarrow> ((mqtt_connection \<Rightarrow> fault + mqtt_connection) \<Rightarrow> mqtt_connection \<Rightarrow> fault + mqtt_connection) \<Rightarrow> bytes \<Rightarrow> byte \<Rightarrow> bool" where
  "flagged cap F s v \<longleftrightarrow>
     (\<forall>k c h f b n Q. 7 < length h \<and> ready cap c (stage h 7 f b) \<and> length h + length b + length s \<le> n
        \<and> (\<forall>c'. ready cap c' (stage h 7 (f OR v) (b @ s)) \<longrightarrow> outcome cap n Q (k c')) \<longrightarrow> outcome cap n Q (F k c))"

lemma flagged_adds: "adds cap F s \<Longrightarrow> flagged cap F s 0"
  unfolding adds_def flagged_def by (metis length_stage or.right_neutral stage_append)

lemma flagged_or: "flagged cap (\<lambda>k c. k (or_byte 12 v c)) [] v"
proof -
  have "ready cap (or_byte 12 v c) (stage h 7 (f OR v) b)" if "ready cap c (stage h 7 f b)" "7 < length h" for c h f b
    using ready_stage_or [OF that, of v] by simp
  then show ?thesis unfolding flagged_def by simp
qed

lemma flagged_or_if: "flagged cap (\<lambda>k c. k (if p then or_byte 12 v c else c)) [] (if p then v else 0)"
  using flagged_or [of cap v] flagged_adds [OF appends_adds [OF appends_nothing [of cap]]] by (cases p) simp_all

lemma flagged_comp:
  assumes "flagged cap F s v" and "flagged cap G t w"
  shows "flagged cap (\<lambda>k. F (G k)) (s @ t) (v OR w)"
  unfolding flagged_def
proof (intro allI impI)
  fix k c h f b n Q
  assume *: "7 < length h \<and> ready cap c (stage h 7 f b) \<and> length h + length b + length (s @ t) \<le> n
    \<and> (\<forall>c'. ready cap c' (stage h 7 (f OR v OR w) (b @ s @ t)) \<longrightarrow> outcome cap n Q (k c'))"
  have "outcome cap n Q (G k c')" if c': "ready cap c' (stage h 7 (f OR v) (b @ s))" for c'
    by (rule assms(2) [unfolded flagged_def, rule_format, of h c' "f OR v" "b @ s"]) (use * c' in \<open>simp add: or.assoc\<close>)
  moreover have "length h + length b + length s \<le> n" using * by simp
  ultimately show "outcome cap n Q (F (G k) c)"
    using * by (intro assms(1) [unfolded flagged_def, rule_format, of h c f b]) simp
qed

lemma flagged_if:
  assumes "p \<Longrightarrow> flagged cap F s v"
  shows "flagged cap (\<lambda>k c. if p then F k c else k c) (if p then s else []) (if p then v else 0)"
  using assms flagged_adds [OF appends_adds [OF appends_nothing [of cap]]] by (cases p) (simp_all add: eta_contract_eq)

lemma flagged_string: "length t < 2147483648 \<Longrightarrow> flagged cap (append_payload_string t) (mqtt_string t) 0"
  by (rule flagged_adds [OF appends_adds [OF append_payload_string_appends]])

text \<open>The length alone, where the source passes a null pointer.\<close>
lemma flagged_empty: "flagged cap (\<lambda>k c. append_check (append_property c 0 2 None 0) k) (mqtt_string []) 0"
  using flagged_adds [OF appends_adds [OF append_property_appends [of 2 None 0 cap 0]]]
  by (simp add: data_ok_def property_bytes_def be_bytes_2 mqtt_string_def)

definition connect_property_bytes :: "connection_property \<Rightarrow> bytes" where
  "connect_property_bytes p =
     (if cp_session_expiry_interval p \<noteq> 0 then property_bytes 0x11 4 None (unat (cp_session_expiry_interval p)) else [])
     @ (if cp_maximum_packet_size p \<noteq> 0 then property_bytes 0x27 4 None (unat (cp_maximum_packet_size p)) else [])
     @ (if cp_receive_maximum p \<noteq> 0 then property_bytes 0x21 2 None (unat (cp_receive_maximum p)) else [])
     @ (if cp_topic_alias_maximum p \<noteq> 0 then property_bytes 0x22 2 None (unat (cp_topic_alias_maximum p)) else [])
     @ (if cp_request_resp_info p then property_bytes 0x19 1 None 1 else [])
     @ (if cp_request_problem_info p then property_bytes 0x17 1 None 1 else [])
     @ user_bytes (cp_user_property p)"

lemma connect_properties_appends:
  "users_ok (cp_user_property p) \<Longrightarrow> appends cap (connect_properties p) (connect_property_bytes p)"
  unfolding connect_properties_def connect_property_bytes_def
  by (intro appends_comp append_if_appends append_user_properties_appends) (simp_all add: data_ok_def)

definition will_property_ok :: "will_property \<Rightarrow> bool" where
  "will_property_ok p \<longleftrightarrow>
     (\<forall>t. wp_content_type p = Some t \<longrightarrow> length t < 2147483648) \<and> (\<forall>t. wp_response_topic p = Some t \<longrightarrow> length t < 2147483648)
     \<and> (\<forall>d. wp_correlation_data p = Some d \<longrightarrow> unat (wp_correlation_data_len p) \<le> length d) \<and> users_ok (wp_user_property p)"

definition will_property_bytes :: "will_property \<Rightarrow> bytes" where
  "will_property_bytes p =
     (if wp_will_delay_interval p \<noteq> 0 then property_bytes 0x18 4 None (unat (wp_will_delay_interval p)) else [])
     @ (if wp_payload_format_indicator p then property_bytes 0x01 1 None 1 else [])
     @ (if wp_message_expiry_interval p \<noteq> 0 then property_bytes 0x02 4 None (unat (wp_message_expiry_interval p)) else [])
     @ string_property 0x03 (wp_content_type p) @ string_property 0x08 (wp_response_topic p)
     @ correlation_bytes (wp_correlation_data p) (wp_correlation_data_len p) @ user_bytes (wp_user_property p)"

lemma will_properties_appends: "will_property_ok p \<Longrightarrow> appends cap (will_properties p) (will_property_bytes p)"
  unfolding will_properties_def will_property_bytes_def
  by (intro appends_comp append_if_appends append_string_if_appends append_correlation_appends append_user_properties_appends)
    (simp_all add: data_ok_def will_property_ok_def)

text \<open>The will: its properties, topic and message.\<close>
definition will5_part :: "mqtt_connect_info \<Rightarrow> will_property \<Rightarrow> bytes" where
  "will5_part info wp = (if nonempty (will_topic info) then section_bytes (will_property_bytes wp) @ will_part info else [])"

lemma connect5_will_flagged:
  assumes "info_wf info" and "will_property_ok wp"
  shows "flagged cap (connect5_will info wp 12) (will5_part info wp) (will_bits info)"
proof (cases "nonempty (will_topic info)")
  case False
  then have "connect5_will info wp 12 = (\<lambda>k. k)"
    by (auto simp: connect5_will_def fun_eq_iff nonempty_def split: option.splits)
  then show ?thesis
    using False flagged_adds [OF appends_adds [OF appends_nothing [of cap]]] by (simp add: will5_part_def will_bits_def)
next
  case True
  then obtain t where t: "will_topic info = Some t" "t \<noteq> []" by (auto simp: nonempty_def split: option.splits)
  let ?m = "opt_bytes (will_message info)"
  have len: "length t < 2147483648" "length ?m < 2147483648" "sz (will_length info) = length ?m"
    using assms(1) t by (auto simp: info_wf_def sz_of_nat)
  have m: "flagged cap (\<lambda>k c. append_check (append_property c 0 2 (will_message info) (sz (will_length info))) k) (mqtt_string ?m) 0"
  proof (cases "will_message info")
    case None
    then show ?thesis using flagged_empty [of cap] len(3) by simp
  next
    case (Some x)
    then show ?thesis
      using flagged_adds [OF appends_adds [OF append_property_appends [of 2 "Some x" "length x" cap 0]]] len
      by (simp add: data_ok_def property_bytes_string string_property_def)
  qed
  have r: "flagged cap (\<lambda>k c. k (or_byte 12 (of_int (push_bit 3 (will_qos info AND 3)))
        (if will_retain info \<noteq> 0 then or_byte 12 0x20 (or_byte 12 0x04 c) else or_byte 12 0x04 c))) ([] @ [] @ []) (will_bits info)"
    using flagged_comp [OF flagged_or [of cap "0x04"] flagged_comp [OF flagged_or_if [of cap "will_retain info \<noteq> 0" "0x20"]
          flagged_or [of cap "of_int (push_bit 3 (will_qos info AND 3))"]]] True
    by (simp add: will_bits_def or.assoc cong: if_cong)
  from flagged_comp [OF flagged_adds [OF with_properties_adds [OF will_properties_appends [OF assms(2)]]]
      flagged_comp [OF flagged_string [OF len(1)] flagged_comp [OF m r]]]
  show ?thesis
    using True t by (simp add: connect5_will_def [abs_def] will5_part_def will_part_def Let_def)
qed

lemma connect5_username_flagged:
  assumes "info_wf info"
  shows "flagged cap (connect5_username info 12) (user_part info) (user_bits info)"
proof (cases "nonempty (username info)")
  case False
  then have "connect5_username info 12 = (\<lambda>k. k)"
    by (auto simp: connect5_username_def fun_eq_iff nonempty_def split: option.splits)
  then show ?thesis
    using False flagged_adds [OF appends_adds [OF appends_nothing [of cap]]] by (simp add: user_part_def user_bits_def)
next
  case True
  then obtain t where t: "username info = Some t" "t \<noteq> []" by (auto simp: nonempty_def split: option.splits)
  then have "length t < 2147483648" using assms by (simp add: info_wf_def)
  from flagged_comp [OF flagged_string [OF this] flagged_or [of cap "0x80"]] show ?thesis
    using True t by (simp add: connect5_username_def [abs_def] user_part_def user_bits_def)
qed

lemma connect5_password_flagged:
  assumes "info_wf info"
  shows "flagged cap (connect5_password info 12) (pass_part info) (pass_bits info)"
proof (cases "nonempty (password info)")
  case False
  then have "connect5_password info 12 = (\<lambda>k. k)"
    by (auto simp: connect5_password_def fun_eq_iff nonempty_def split: option.splits)
  then show ?thesis
    using False flagged_adds [OF appends_adds [OF appends_nothing [of cap]]] by (simp add: pass_part_def pass_bits_def)
next
  case True
  then obtain t where t: "password info = Some t" "t \<noteq> []" by (auto simp: nonempty_def split: option.splits)
  then have len: "length t < 2147483648" using assms by (simp add: info_wf_def)
  note p = flagged_comp [OF flagged_string [OF len] flagged_or [of cap "0x40"]]
  show ?thesis
  proof (cases "nonempty (username info)")
    case u: True
    with p True t show ?thesis by (simp add: connect5_password_def [abs_def] pass_part_def pass_bits_def)
  next
    case u: False
    with flagged_comp [OF flagged_empty flagged_comp [OF flagged_or [of cap "0x80"] p]] True t show ?thesis
      by (simp add: connect5_password_def [abs_def] pass_part_def pass_bits_def Let_def)
  qed
qed

definition variable_header5 :: "mqtt_connect_info \<Rightarrow> bytes" where
  "variable_header5 info = [0, 4] @ map (of_nat \<circ> of_char) ''MQTT'' @ [5, 0, of_int (keepalive info div 256), of_int (keepalive info mod 256)]"

definition connect5_payload :: "mqtt_connect_info \<Rightarrow> connection_property \<Rightarrow> will_property \<Rightarrow> bytes" where
  "connect5_payload info p wp =
     section_bytes (connect_property_bytes p) @ mqtt_string (opt_bytes (client_id info)) @ will5_part info wp @ user_part info @ pass_part info"

definition connect5_body :: "mqtt_connect_info \<Rightarrow> connection_property \<Rightarrow> will_property \<Rightarrow> bytes" where
  "connect5_body info p wp = (variable_header5 info)[7 := connect_flags info] @ connect5_payload info p wp"

definition sends :: "byte \<Rightarrow> bytes \<Rightarrow> fault + mqtt_connection \<Rightarrow> bool" where
  "sends h body r \<longleftrightarrow> (\<exists>c'. r = Inr c' \<and> conn_wf c' \<and> m_frag_total (outbound c') = 0 \<and> packet c' = h # encoded_lens (int (length body)) @ body)"

lemma ready_fini5:
  assumes "ready cap c body"
  shows "outcome cap (length body) (sends (type_byte ty dup qos retain) body) (fini_message5 c ty dup qos retain)"
proof -
  have b: "built c body" "m_frag_total (outbound c) = 0" "5 + length body \<le> cap" "out_length c = 5 + length body" "length body < 268435456"
    using assms by (auto simp: ready_def built_def conn_wf_def)
  from fini_message_spec [OF b(1,2), of ty dup qos retain] b(2,3) fini_message5_eq [OF b(4,5), of ty dup qos retain]
  show ?thesis by (auto simp: outcome_def sends_def)
qed

text \<open>The five reserved bytes and an unconditional store behind them.\<close>
lemma first_put:
  assumes "conn_wf c" and "m_frag_total (outbound c) = 0" and "5 + length h \<le> cbuffer_length c"
  obtains c1 where "buf_put 5 h (init_message c) = Inr c1" "ready (cbuffer_length c) (set_length (5 + length h) c1) h"
proof -
  have c0: "built (init_message c) []" "cbuffer_length (init_message c) = cbuffer_length c" "out_length (init_message c) = 5"
    "m_frag_total (outbound (init_message c)) = 0"
    using built_header_size [OF assms(1)] assms(2) by (simp_all add: init_message_eq same_ctl_def set_message_header_size_def)
  obtain c1 where "buf_put 5 h (init_message c) = Inr c1" "built (set_length (5 + length h) c1) h" "same_ctl (init_message c) c1"
    using built_buf_put [OF c0(1), of h] assms(3) c0 by auto
  with c0 show thesis by (intro that [of c1]) (simp_all add: ready_def same_ctl_def)
qed

text \<open>
  C32. In a buffer of at least fifteen bytes, an MQTT 5 CONNECT packet that fits is the fixed header, the protocol name, level 5, the
  flags of the fields that are present, the keep-alive, the connection properties behind their length, and the
  client id, the will (with its own properties), the user name and the password in this order; one that does not
  fit leaves no packet. No byte outside the buffer is touched. In a smaller buffer the function would write fifteen bytes
  without asking.
\<close>
theorem mqtt5_connect_packet:
  assumes "conn_wf c" and "m_frag_total (outbound c) = 0" and "15 \<le> cbuffer_length c" and "info_wf info"
    and "users_ok (cp_user_property p)" and "will_property_ok wp"
  shows "\<exists>c'. mqtt5_msg_connect c info p wp = Inr c' \<and> conn_wf c'
    \<and> packet c' = (if 5 + length (connect5_body info p wp) \<le> cbuffer_length c
         then 0x10 # encoded_lens (int (length (connect5_body info p wp))) @ connect5_body info p wp else [])"
proof -
  let ?h = "variable_header5 info" and ?cap = "cbuffer_length c" and ?body = "connect5_body info p wp"
  have h: "length ?h = 10" "?h[7 := 0] = ?h" by (simp_all add: variable_header5_def)
  obtain c1 where c1: "buf_put 5 ?h (init_message c) = Inr c1" "ready ?cap (set_length 15 c1) ?h"
    using first_put [OF assms(1,2), of ?h] assms(3) h by auto
  let ?id = "if nonempty (client_id info) then append_payload_string (the (client_id info))
          else (\<lambda>k c. append_check (append_property c 0 2 None 0) k)"
  have id: "flagged ?cap ?id (mqtt_string (opt_bytes (client_id info))) 0"
    using flagged_empty flagged_string assms(4) by (auto simp: info_wf_def nonempty_def split: option.splits)
  note all = flagged_comp [OF flagged_or_if [of ?cap "clean_session info \<noteq> 0" "0x02"]
      flagged_comp [OF flagged_adds [OF with_properties_adds [OF connect_properties_appends [OF assms(5)]]]
      flagged_comp [OF id flagged_comp [OF connect5_will_flagged [OF assms(4,6)]
      flagged_comp [OF connect5_username_flagged [OF assms(4)] connect5_password_flagged [OF assms(4)]]]]]]
  have flags: "connect_flags info = clean_bits info OR (0 OR (0 OR (will_bits info OR (user_bits info OR pass_bits info))))"
    by (simp add: connect_flags_split or.assoc)
  have body: "?body = stage ?h 7 (connect_flags info) (connect5_payload info p wp)"
    by (simp add: connect5_body_def stage_def)
  have "outcome ?cap (length ?body) (sends 0x10 ?body)
      (with_properties (connect_properties p) (?id (connect5_will info wp 12 (connect5_username info 12 (connect5_password info 12
        (\<lambda>c. fini_message5 c 1 0 0 0))))) (if clean_session info \<noteq> 0 then or_byte 12 0x02 (set_length 15 c1) else set_length 15 c1))"
  proof (rule all [unfolded flagged_def, rule_format, of ?h "set_length 15 c1" 0 "[]"], intro conjI allI impI)
    show "ready ?cap (set_length 15 c1) (stage ?h 7 0 [])" using c1(2) h by (simp add: stage_def)
    fix c'
    assume "ready ?cap c' (stage ?h 7 (0 OR ((if clean_session info \<noteq> 0 then 0x02 else 0) OR (0 OR (0 OR (will_bits info OR user_bits info OR pass_bits info)))))
       ([] @ [] @ section_bytes (connect_property_bytes p) @ mqtt_string (opt_bytes (client_id info)) @ will5_part info wp @ user_part info @ pass_part info))"
    then have "ready ?cap c' ?body"
      unfolding body flags clean_bits_def connect5_payload_def by (simp add: or.assoc)
    from ready_fini5 [OF this, of 1 0 0 0] show "outcome ?cap (length ?body) (sends 0x10 ?body) (fini_message5 c' 1 0 0 0)"
      by (simp add: type_byte_def)
  qed (use h in \<open>simp_all add: body connect5_payload_def\<close>)
  then have "outcome ?cap (length ?body) (sends 0x10 ?body) (mqtt5_msg_connect c info p wp)"
    using c1(1) by (simp add: mqtt5_msg_connect_def lft_def variable_header5_def Let_def)
  then show ?thesis by (auto simp: outcome_def sends_def no_packet_def split: if_splits)
qed

text \<open>With a smaller buffer the ten bytes of the variable header run past its end.\<close>
lemma mqtt5_connect_small_buffer:
  assumes "conn_wf c" and "cbuffer_length c < 15"
  shows "mqtt5_msg_connect c info p wp = Inl Overrun"
  using assms by (simp add: mqtt5_msg_connect_def lft_def buf_put_def init_message_def conn_wf_def)

theorem mqtt5_connect_packet_witness:
  "\<exists>c'. mqtt5_msg_connect conn64 \<lparr>client_id = Some [0x65], username = None, password = Some [0x70], will_topic = None,
      will_message = None, keepalive = 120, will_length = 0, will_qos = 0, will_retain = 0, clean_session = 1,
      protocol_ver = MQTT_PROTOCOL_V_5\<rparr>
      \<lparr>cp_session_expiry_interval = 60, cp_maximum_packet_size = 0, cp_receive_maximum = 0, cp_topic_alias_maximum = 2,
        cp_request_resp_info = True, cp_request_problem_info = False, cp_user_property = None\<rparr>
      \<lparr>wp_will_delay_interval = 0, wp_message_expiry_interval = 0, wp_payload_format_indicator = False, wp_content_type = None,
        wp_response_topic = None, wp_correlation_data = None, wp_correlation_data_len = 0, wp_user_property = None\<rparr> = Inr c'
      \<and> conn_wf c' \<and> length (packet c') = 31 \<and> packet c' ! 9 = 0xc2"
proof -
  let ?info = "\<lparr>client_id = Some [0x65], username = None, password = Some [0x70], will_topic = None,
      will_message = None, keepalive = 120, will_length = 0, will_qos = 0, will_retain = 0, clean_session = 1,
      protocol_ver = MQTT_PROTOCOL_V_5\<rparr>"
  let ?p = "\<lparr>cp_session_expiry_interval = 60, cp_maximum_packet_size = 0, cp_receive_maximum = 0, cp_topic_alias_maximum = 2,
        cp_request_resp_info = True, cp_request_problem_info = False, cp_user_property = None\<rparr>"
  let ?wp = "\<lparr>wp_will_delay_interval = 0, wp_message_expiry_interval = 0, wp_payload_format_indicator = False, wp_content_type = None,
        wp_response_topic = None, wp_correlation_data = None, wp_correlation_data_len = 0, wp_user_property = None\<rparr>"
  have p: "length (connect_property_bytes ?p) = 10"
    by (simp add: connect_property_bytes_def property_bytes_def user_bytes_def)
  have s: "length (section_bytes (connect_property_bytes ?p)) = 11"
    by (simp add: section_bytes_def p encoded_lens_nat [of 10, simplified])
  have l: "length (connect5_body ?info ?p ?wp) = 29"
    by (simp add: connect5_body_def connect5_payload_def variable_header5_def s will5_part_def user_part_def pass_part_def nonempty_def)
  have f: "connect5_body ?info ?p ?wp ! 7 = 0xc2"
    by (simp add: connect5_body_def variable_header5_def connect_flags_def nonempty_def nth_append)
  show ?thesis
    using mqtt5_connect_packet [of conn64 ?info ?p ?wp] f
    by (auto simp: info_wf_def users_ok_def will_property_ok_def l encoded_lens_nat [of 29, simplified])
qed

section \<open>Acknowledgements\<close>

lemma nothing_adds: "adds cap (with_properties (\<lambda>k. k)) [0]"
  using with_properties_adds [OF appends_nothing [of cap]]
  by (simp add: section_bytes_def encoded_lens_nat [of 0, simplified])

lemma mqtt5_msg_ack_packet:
  assumes "conn_wf c" and "m_frag_total (outbound c) = 0" and "0 < i" and "i < 65536" and "9 \<le> cbuffer_length c"
  shows "\<exists>c'. mqtt5_msg_ack ty qos c i = Inr c' \<and> conn_wf c' \<and> packet c' = type_byte ty 0 qos 0 # 4 # be16 i @ [0, 0]"
proof -
  let ?cap = "cbuffer_length c"
  have c0: "built (init_message c) []" "cbuffer_length (init_message c) = ?cap" "out_length (init_message c) = 5"
    "m_frag_total (outbound (init_message c)) = 0"
    using built_header_size [OF assms(1)] assms(2) by (simp_all add: init_message_eq same_ctl_def set_message_header_size_def)
  obtain c1 where c1: "append_message_id5 (init_message c) i = Inr (i, c1)" "ready ?cap c1 (be16 i)"
    using append_message_id_spec [OF c0(1), of i i "init_message c"] assms(3,5) c0
    by (auto simp: same_ctl_def ready_def append_message_id5_eq)
  then have b1: "built c1 (be16 i)" "out_length c1 = 7" "cbuffer_length c1 = ?cap" "m_frag_total (outbound c1) = 0"
    by (auto simp: ready_def built_def)
  obtain c2 where c2: "buf_put (out_length c1) [0] c1 = Inr c2" "ready ?cap (set_length 8 c2) (be16 i @ [0])"
    using built_buf_put [OF b1(1), of "[0]"] b1 assms(5) by (auto simp: ready_def same_ctl_def)
  let ?body = "be16 i @ [0, 0]"
  have "outcome ?cap (length ?body) (sends (type_byte ty 0 qos 0) ?body)
      (with_properties (\<lambda>k. k) (\<lambda>c. fini_message5 c ty 0 qos 0) (set_length 8 c2))"
    by (rule addsD [OF nothing_adds c2(2)]) (use ready_fini5 [of ?cap _ ?body ty 0 qos 0] in \<open>simp_all\<close>)
  then have "sends (type_byte ty 0 qos 0) ?body (with_properties (\<lambda>k. k) (\<lambda>c. fini_message5 c ty 0 qos 0) (set_length 8 c2))"
    using assms(5) by (simp add: outcome_def)
  then show ?thesis
    using c1(1) c2(1) assms(3) b1(2) by (auto simp: mqtt5_msg_ack_def lft_def sends_def encoded_lens_nat [of 4, simplified])
qed

end
