(* ===== verification/Mqtt5_Client_Correct.thy ===== *)
theory Mqtt5_Client_Correct
  imports Mqtt5_Client Mqtt5_Packets
begin

unbundle bit_operations_syntax

text \<open>
  Correctness of the MQTT 5 part of the client: the list of topic aliases implements the map that the protocol
  speaks of (the interface \<open>alias_table\<close>), a PUBLISH without a topic is delivered under the topic its alias was bound to,
  and the number of unacknowledged publishes that the flow control allows.
\<close>

section \<open>Topic aliases\<close>

text \<open>A table of aliases, as the protocol describes it: binding an alias replaces what it stood for.\<close>
locale alias_table =
  fixes bind :: "'t \<Rightarrow> u16 \<Rightarrow> bytes \<Rightarrow> 't" and lookup :: "'t \<Rightarrow> u16 \<Rightarrow> bytes option"
    and inv :: "'t \<Rightarrow> bool" and topic_ok :: "bytes \<Rightarrow> bool"
  assumes inv_bind: "inv t \<Longrightarrow> topic_ok x \<Longrightarrow> inv (bind t a x)"
    and lookup_bind: "inv t \<Longrightarrow> topic_ok x \<Longrightarrow> lookup (bind t a x) b = (if b = a then Some x else lookup t b)"
begin

definition binds :: "(u16 \<times> bytes) list \<Rightarrow> 't \<Rightarrow> 't" where
  "binds ps t = fold (\<lambda>(a, x) t. bind t a x) ps t"

lemma inv_binds: "inv t \<Longrightarrow> \<forall>p \<in> set ps. topic_ok (snd p) \<Longrightarrow> inv (binds ps t)"
  unfolding binds_def by (induction ps arbitrary: t) (auto simp: inv_bind)

lemma lookup_binds:
  "inv t \<Longrightarrow> \<forall>p \<in> set ps. topic_ok (snd p) \<Longrightarrow>
     lookup (binds ps t) b = (case map_of (rev ps) b of Some x \<Rightarrow> Some x | None \<Rightarrow> lookup t b)"
  unfolding binds_def
proof (induction ps arbitrary: t)
  case (Cons p ps)
  obtain a x where p: "p = (a, x)" by fastforce
  with Cons show ?case
    by (auto simp: inv_bind lookup_bind map_add_def split: option.splits)
qed simp

end

text \<open>A topic with a zero in it would be compared only up to the zero.\<close>
definition alias_topic_ok :: "bytes \<Rightarrow> bool" where
  "alias_topic_ok x \<longleftrightarrow> length x < 65536 \<and> 0 \<notin> set x"

definition alias_list_ok :: "topic_alias list \<Rightarrow> bool" where
  "alias_list_ok l \<longleftrightarrow> (\<forall>it \<in> set l. \<exists>u. ta_topic it = Some u \<and> unat (ta_topic_len it) = length u \<and> 0 \<notin> set u)"

definition alias_topic :: "topic_alias list \<Rightarrow> u16 \<Rightarrow> bytes option" where
  "alias_topic l a = (case esp_mqtt5_client_get_topic_alias l a of (None, n) \<Rightarrow> None | (Some u, n) \<Rightarrow> Some (take n u))"

lemma alias_topic_simps [simp]:
  "alias_topic [] a = None"
  "alias_topic (it # l) a = (if ta_alias it = a then map_option (take (unat (ta_topic_len it))) (ta_topic it) else alias_topic l a)"
  by (auto simp: alias_topic_def split: option.splits)

lemma same_prefix_eq: "0 \<notin> set xs \<Longrightarrow> length xs = length ys \<Longrightarrow> same_prefix (length xs) xs ys = Inr (xs = ys)"
  by (induction xs ys rule: list_induct2') auto

lemma unat_length [simp]: "length x < 65536 \<Longrightarrow> unat (of_nat (length x) :: u16) = length x"
  by (simp add: unat_of_nat)

text \<open>An update either binds the alias or says that there is no memory; the other aliases stay as they are.\<close>
lemma update_alias_spec:
  assumes "alias_list_ok l" and "alias_topic_ok x"
  shows "\<exists>ok l' j'. esp_mqtt5_client_update_topic_alias mem j l a x = Inr (ok, l', j') \<and> ((\<forall>i. mem i) \<longrightarrow> ok)
    \<and> (ok \<longrightarrow> alias_list_ok l' \<and> alias_topic l' a = Some x) \<and> (\<forall>b. b \<noteq> a \<longrightarrow> alias_topic l' b = alias_topic l b)"
  using assms(1)
proof (induction l)
  case Nil
  then show ?case using assms(2) by (auto simp: alias_list_ok_def alias_topic_ok_def)
next
  case (Cons it l)
  from Cons.prems obtain u where u: "ta_topic it = Some u" "unat (ta_topic_len it) = length u" "0 \<notin> set u" and l: "alias_list_ok l"
    by (auto simp: alias_list_ok_def)
  show ?case
  proof (cases "ta_alias it = a")
    case True
    have same: "same_prefix (length x) x u = Inr (x = u)" if "length u = length x"
      using same_prefix_eq [of x u] that assms(2) by (simp add: alias_topic_ok_def)
    show ?thesis
      using True u l assms(2) same by (auto simp: lft_def deref_def alias_list_ok_def alias_topic_ok_def split: if_splits)
  next
    case False
    from Cons.IH [OF l] obtain ok l' j' where *: "esp_mqtt5_client_update_topic_alias mem j l a x = Inr (ok, l', j')" "(\<forall>i. mem i) \<longrightarrow> ok"
      "ok \<longrightarrow> alias_list_ok l' \<and> alias_topic l' a = Some x" "\<forall>b. b \<noteq> a \<longrightarrow> alias_topic l' b = alias_topic l b" by blast
    with False u show ?thesis by (auto simp: lft_def alias_list_ok_def)
  qed
qed

text \<open>The table when memory is not short.\<close>
definition alias_bind :: "topic_alias list \<Rightarrow> u16 \<Rightarrow> bytes \<Rightarrow> topic_alias list" where
  "alias_bind l a x = (case esp_mqtt5_client_update_topic_alias (\<lambda>_. True) 0 l a x of Inl f \<Rightarrow> l | Inr (ok, l', j) \<Rightarrow> l')"

lemma alias_bind_spec:
  assumes "alias_list_ok l" and "alias_topic_ok x"
  shows "alias_list_ok (alias_bind l a x)" and "alias_topic (alias_bind l a x) b = (if b = a then Some x else alias_topic l b)"
  using update_alias_spec [OF assms, of "\<lambda>_. True" 0 a] by (auto simp: alias_bind_def)

interpretation peer_aliases: alias_table alias_bind alias_topic alias_list_ok alias_topic_ok
  by unfold_locales (simp_all add: alias_bind_spec)

text \<open>
  C14. The list of the broker's topic aliases implements a map: after any sequence of updates that start with
  the empty list, in which aliases may come again and change their topics, an alias stands for the topic of its last update,
  and one that was never bound has none.
\<close>
theorem topic_aliases_refine_map:
  assumes "\<forall>p \<in> set ps. alias_topic_ok (snd p)"
  shows "alias_topic (fold (\<lambda>(a, x) l. alias_bind l a x) ps []) a = map_of (rev ps) a"
  using peer_aliases.lookup_binds [of "[]" ps a] assms
  by (simp add: alias_list_ok_def peer_aliases.binds_def split: option.splits)

theorem topic_aliases_refine_map_witness:
  "alias_topic (fold (\<lambda>(a, x) l. alias_bind l a x) [(1, [0x61]), (2, [0x62]), (1, [0x63])] []) 1 = Some [0x63]"
  using topic_aliases_refine_map [of "[(1, [0x61]), (2, [0x62]), (1, [0x63])]" 1] by (simp add: alias_topic_ok_def)

text \<open>After a failed allocation the alias has a length but no topic, and the next update of the same length reads through the null pointer.\<close>
lemma alias_out_of_memory_crashes:
  assumes "ta_alias it = a" and "unat (ta_topic_len it) = length x" and "ta_topic it = None" and "x \<noteq> []"
  shows "esp_mqtt5_client_update_topic_alias mem j (it # l) a x = Inl Null_Pointer"
  using assms by (simp add: lft_def deref_def)

section \<open>Delivery under an alias\<close>

lemma get_publish_data_resolves:
  assumes "length (publish5_body qos topic i (publish_property_bytes p ri) payload) < 268435456" and "length topic < 65536" and "qos \<in> {0..2}"
    and "retain \<in> {0, 1}" and "i < 65536" and "publish_property_ok p ri" and "length (publish_property_bytes p ri) < 65536" and "\<forall>i. mem i"
    and P: "P = publish5_packet qos retain topic i (publish_property_bytes p ri) payload"
    and "m5_config s = Some m" and "m5_event_property s = Some ep"
    and "\<And>j. \<exists>m' j'. resolve_topic mem j m (pp_topic_alias p) topic = Inr (Some t, m', j') \<and> Q m'"
  shows "\<exists>out s' m'. esp_mqtt5_get_publish_data mem s P (length P) = Some (Inr (Some out, s')) \<and> po_topic out = t
    \<and> take (po_data_len out) (drop (po_data out) P) = payload \<and> m5_config s' = Some m' \<and> Q m' \<and> (\<exists>ep'. m5_event_property s' = Some ep')"
proof -
  from publish5_read [OF assms(1-9), of "m5_allocs s"] obtain d j' where d:
    "mqtt5_get_publish_property_payload mem P (length P) (m5_allocs s) = Some (Inr (Some d, user_items (pp_user_property p), j'))"
    "take (pd_topic_len d) (drop (pd_topic d) P) = topic" "take (pd_payload_len d) (drop (pd_payload d) P) = payload"
    "resp_of P p ri (pd_resp d)" "pd_topic_len d = length topic" "pd_topic d + length topic \<le> length P" by blast
  from assms(12) [of j'] obtain m' j'' where r: "resolve_topic mem j' m (pp_topic_alias p) topic = Inr (Some t, m', j'')" "Q m'" by blast
  have c: "copy_out P (pd_topic d) (pd_topic_len d) = Inr topic"
    using d(2,5,6) by (auto simp: copy_out_def)
  have a: "rp_topic_alias (pd_resp d) = pp_topic_alias p" using d(4) by (simp add: resp_of_def)
  show ?thesis
    using d(1,3) c a r assms(10,11)
    by (simp add: esp_mqtt5_get_publish_data_def olift_def deref_def Let_def)
qed

text \<open>
  C33. Delivery under a topic alias: when the broker sends a PUBLISH with a topic and an alias, and then one
  with the same alias and no topic, the second is delivered under the topic of the first, and both with their own payload.
\<close>
theorem alias_stands_for_topic:
  assumes "m5_config s = Some m" and "peer_topic_alias m = Some l" and "alias_list_ok l" and "m5_event_property s = Some ep"
    and "alias_topic_ok topic" and "topic \<noteq> []" and "\<forall>i. mem i"
    and "a \<noteq> 0" and "a \<le> cp_topic_alias_maximum (connect_property_info m)" and "pp_topic_alias p = a" and "pp_topic_alias p' = a"
    and "publish_property_ok p ri" and "length (publish_property_bytes p ri) < 65536"
    and "publish_property_ok p' ri'" and "length (publish_property_bytes p' ri') < 65536"
    and "qos \<in> {0..2}" and "retain \<in> {0, 1}" and "i < 65536" and "qos' \<in> {0..2}" and "retain' \<in> {0, 1}" and "i' < 65536"
    and "length (publish5_body qos topic i (publish_property_bytes p ri) payload) < 268435456"
    and "length (publish5_body qos' [] i' (publish_property_bytes p' ri') payload') < 268435456"
    and "P = publish5_packet qos retain topic i (publish_property_bytes p ri) payload"
    and "P' = publish5_packet qos' retain' [] i' (publish_property_bytes p' ri') payload'"
  shows "\<exists>out s1 out' s2. esp_mqtt5_get_publish_data mem s P (length P) = Some (Inr (Some out, s1))
    \<and> esp_mqtt5_get_publish_data mem s1 P' (length P') = Some (Inr (Some out', s2))
    \<and> po_topic out = topic \<and> po_topic out' = topic
    \<and> take (po_data_len out) (drop (po_data out) P) = payload \<and> take (po_data_len out') (drop (po_data out') P') = payload'"
proof -
  let ?Q = "\<lambda>m'. connect_property_info m' = connect_property_info m \<and> (\<exists>l'. peer_topic_alias m' = Some l' \<and> alias_list_ok l' \<and> alias_topic l' a = Some topic)"
  have len: "length topic < 65536" using assms(5) by (simp add: alias_topic_ok_def)
  have "\<exists>m' j'. resolve_topic mem j m (pp_topic_alias p) topic = Inr (Some topic, m', j') \<and> ?Q m'" for j
  proof -
    from update_alias_spec [OF assms(3,5), of mem j a] assms(7) obtain l' j' where
      "esp_mqtt5_client_update_topic_alias mem j l a topic = Inr (True, l', j')" "alias_list_ok l'" "alias_topic l' a = Some topic" by auto
    with assms(2,6,8,9,10) show ?thesis by (simp add: resolve_topic_def deref_def lft_def not_less)
  qed
  from get_publish_data_resolves [OF assms(22) len assms(16-18,12,13,7,24,1,4), of topic ?Q, OF this] obtain out s1 m1 ep1 where
    1: "esp_mqtt5_get_publish_data mem s P (length P) = Some (Inr (Some out, s1))" "po_topic out = topic"
    "take (po_data_len out) (drop (po_data out) P) = payload" "m5_config s1 = Some m1" "?Q m1" "m5_event_property s1 = Some ep1" by blast
  have "\<exists>m' j'. resolve_topic mem j m1 (pp_topic_alias p') [] = Inr (Some topic, m', j') \<and> True" for j
  proof -
    from 1(5) obtain l1 where l1: "peer_topic_alias m1 = Some l1" "alias_list_ok l1" "alias_topic l1 a = Some topic" by blast
    then obtain u n where g: "esp_mqtt5_client_get_topic_alias l1 a = (Some u, n)" "topic = take n u"
      by (auto simp: alias_topic_def split: prod.splits option.splits)
    have "n = length u"
      using g(1) l1(2) by (induction l1) (auto simp: alias_list_ok_def split: if_splits)
    with g have "copy_out u 0 n = Inr topic" by (auto simp: copy_out_def)
    with g(1) l1(1) 1(5) assms(8,9,11) show ?thesis by (simp add: resolve_topic_def deref_def lft_def not_less)
  qed
  from get_publish_data_resolves [OF assms(23) _ assms(19-21,14,15,7,25) 1(4,6), of topic "\<lambda>_. True", OF _ this] obtain out' s2 where
    "esp_mqtt5_get_publish_data mem s1 P' (length P') = Some (Inr (Some out', s2))" "po_topic out' = topic"
    "take (po_data_len out') (drop (po_data out') P') = payload'" by auto
  with 1 show ?thesis by blast
qed

definition alias_property :: "u16 \<Rightarrow> publish_property" where
  "alias_property a = \<lparr>pp_payload_format_indicator = False, pp_message_expiry_interval = 0, pp_topic_alias = a, pp_response_topic = None,
     pp_correlation_data = None, pp_correlation_data_len = 0, pp_content_type = None, pp_user_property = None\<rparr>"

lemma alias_property_facts:
  "publish_property_ok (alias_property a) None" "length (publish_property_bytes (alias_property a) None) \<le> 3" "pp_topic_alias (alias_property a) = a"
  by (simp_all add: alias_property_def publish_property_ok_def sent_response_topic_def users_ok_def publish_property_bytes_def
      property_bytes_def string_property_def correlation_bytes_def user_bytes_def)

text \<open>A client of version 5 that accepts ten aliases.\<close>
definition client5 :: mqtt5_client where
  "client5 =
     \<lparr>m5_connection = conn64, m5_info = \<lparr>client_id = None, username = None, password = None, will_topic = None, will_message = None,
        keepalive = 120, will_length = 0, will_qos = 0, will_retain = 0, clean_session = 1, protocol_ver = MQTT_PROTOCOL_V_5\<rparr>,
      m5_in_buffer = replicate 64 0, m5_in_buffer_length = 64, m5_in_buffer_read_len = 0,
      m5_config = Some (default_config\<lparr>connect_property_info := (connect_property_info default_config)\<lparr>cp_topic_alias_maximum := 10\<rparr>, peer_topic_alias := Some []\<rparr>),
      m5_send_publish_packet_count = 0, m5_event_data = None, m5_event_data_len = 0, m5_event_total_data_len = 0, m5_event_current_data_offset = 0,
      m5_event_session_present = 0, m5_event_property = Some zero_event_property, m5_allocs = 0\<rparr>"

theorem alias_stands_for_topic_witness:
  "\<exists>P P' out s1 out' s2. esp_mqtt5_get_publish_data (\<lambda>_. True) client5 P (length P) = Some (Inr (Some out, s1))
    \<and> esp_mqtt5_get_publish_data (\<lambda>_. True) s1 P' (length P') = Some (Inr (Some out', s2))
    \<and> po_topic out = [0x61, 0x2f] \<and> po_topic out' = [0x61, 0x2f] \<and> take (po_data_len out') (drop (po_data out') P') = [0x32]"
proof -
  note f = alias_property_facts [of 7]
  have l: "length (encoded_lens (int (length (publish_property_bytes (alias_property 7) None)))) \<le> 4"
    by (rule length_encoded_lens4) (use f(2) in simp)
  have 1: "length (publish5_body 0 [0x61, 0x2f] 0 (publish_property_bytes (alias_property 7) None) [0x31]) < 268435456"
    and 2: "length (publish5_body 0 [] 0 (publish_property_bytes (alias_property 7) None) [0x32]) < 268435456"
    using f(2) l by (simp_all add: publish5_body_def section_bytes_def)
  let ?m = "default_config\<lparr>connect_property_info := (connect_property_info default_config)\<lparr>cp_topic_alias_maximum := 10\<rparr>, peer_topic_alias := Some []\<rparr>"
  let ?P = "publish5_packet 0 0 [0x61, 0x2f] 0 (publish_property_bytes (alias_property 7) None) [0x31]"
  let ?P' = "publish5_packet 0 0 [] 0 (publish_property_bytes (alias_property 7) None) [0x32]"
  have "\<exists>out s1 out' s2. esp_mqtt5_get_publish_data (\<lambda>_. True) client5 ?P (length ?P) = Some (Inr (Some out, s1))
    \<and> esp_mqtt5_get_publish_data (\<lambda>_. True) s1 ?P' (length ?P') = Some (Inr (Some out', s2))
    \<and> po_topic out = [0x61, 0x2f] \<and> po_topic out' = [0x61, 0x2f]
    \<and> take (po_data_len out) (drop (po_data out) ?P) = [0x31] \<and> take (po_data_len out') (drop (po_data out') ?P') = [0x32]"
    by (rule alias_stands_for_topic [where m = ?m and l = "[]" and ep = zero_event_property and a = 7 and p = "alias_property 7" and p' = "alias_property 7"
          and ri = None and ri' = None and qos = 0 and retain = 0 and i = 0 and qos' = 0 and retain' = 0 and i' = 0])
      (use f 1 2 in \<open>simp_all add: client5_def alias_list_ok_def alias_topic_ok_def default_config_def\<close>)
  then show ?thesis by blast
qed

section \<open>Flow control\<close>

text \<open>
  What the check before a publish lets pass. The counter of unacknowledged publishes may be equal to the Receive Maximum, so that the
  publish that follows exceeds by one what the broker has allowed [MQTT-3.3.4-7].
\<close>
lemma publish_check_passes:
  "m5_config s = Some m \<Longrightarrow> esp_mqtt5_client_publish_check s qos retain = Inr ESP_OK \<longleftrightarrow>
     qos \<le> uint (sr_max_qos (server_resp_property_info m)) \<and> (sr_retain_available (server_resp_property_info m) \<or> retain = 0)
     \<and> m5_send_publish_packet_count s \<le> sr_receive_maximum (server_resp_property_info m)"
  by (auto simp: esp_mqtt5_client_publish_check_def deref_def Let_def not_less)

lemma dup_of_packet: "mqtt_get_dup (packet c) = Inr 0 \<Longrightarrow> dup_of (cbuffer c ! m_data (outbound c)) = 0"
  by (auto simp: mqtt_get_dup_def rd_def packet_def nth_append split: if_splits)

lemma increment_first:
  assumes "mqtt_get_dup (packet c) = Inr 0" and "m_data (outbound c) < length (cbuffer c)"
  shows "esp_mqtt5_increment_packet_counter (s\<lparr>m5_connection := c\<rparr>)
    = Inr (s\<lparr>m5_connection := c, m5_send_publish_packet_count := m5_send_publish_packet_count s + 1\<rparr>)"
  using dup_of_packet [OF assms(1)] assms(2) by (simp add: esp_mqtt5_increment_packet_counter_def rd_def lft_def)

text \<open>A PUBREL has no DUP flag, so that sending one again counts as one more publish without an acknowledgement.\<close>
lemma pubrel_counts_as_publish:
  assumes "conn_wf c" and "m_frag_total (outbound c) = 0" and "0 < i" and "i < 65536" and "9 \<le> cbuffer_length c"
    and "mqtt5_msg_pubrel c i = Inr c'"
  shows "esp_mqtt5_increment_packet_counter (s\<lparr>m5_connection := c'\<rparr>)
    = Inr (s\<lparr>m5_connection := c', m5_send_publish_packet_count := m5_send_publish_packet_count s + 1\<rparr>)"
proof -
  have p: "packet c' = type_byte 6 0 1 0 # 4 # be16 i @ [0, 0]"
    using mqtt5_msg_ack_packet [OF assms(1-5), of 6 1] assms(6) by (auto simp: mqtt5_msg_pubrel_def)
  have "m_data (outbound c') < length (cbuffer c')"
    using arg_cong [OF p, of length] by (simp add: packet_def)
  moreover have "mqtt_get_dup (packet c') = Inr 0"
    by (simp add: p mqtt_get_dup_def rd_def type_byte_def dup_of_def)
  ultimately show ?thesis by (intro increment_first)
qed

section \<open>User properties\<close>

lemma set_user_items_all:
  assumes "\<forall>i. mem i"
  shows "\<exists>j'. set_user_items mem j (map (\<lambda>(k, v). (Some k, Some v)) its) (length its) l = Inr (True, l @ its, j')"
proof (induction its arbitrary: j l)
  case (Cons it its)
  obtain k v where it: "it = (k, v)" by fastforce
  have "mem j" "mem (j + 1)" "mem (j + 2)" using assms by blast+
  with Cons.IH [of "j + 3" "l @ [(k, v)]"] show ?case by (simp add: it)
qed simp

lemma get_user_items_all:
  assumes "\<forall>i. mem i"
  shows "\<exists>j'. get_user_items mem j its num = (True, take num its, j')"
proof (induction its arbitrary: j num)
  case (Cons it its)
  obtain k v where it: "it = (k, v)" by fastforce
  show ?case
  proof (cases num)
    case (Suc n)
    from Cons.IH [of "j + 2" n] obtain j' where "get_user_items mem (j + 2) its n = (True, take n its, j')" by auto
    moreover have "mem j" "mem (j + 1)" using assms(1) by blast+
    ultimately show ?thesis using Suc by (simp add: it)
  qed simp
qed simp

lemma user_property_count: "esp_mqtt5_client_get_user_property_count (Some its) = of_nat (length its)"
proof -
  have "fold (\<lambda>_ n. n + 1) its c = c + of_nat (length its)" for c :: byte
    by (induction its arbitrary: c) (simp_all add: add_ac)
  then show ?thesis by (simp add: esp_mqtt5_client_get_user_property_count_def)
qed

text \<open>
  Round trip of user properties: what \<open>esp_mqtt5_client_set_user_property\<close> adds to a list is read back by
  \<open>esp_mqtt5_client_get_user_property\<close> in order, up to the number of entries that the caller's array has, with the number
  that \<open>esp_mqtt5_client_get_user_property_count\<close> gives when there are fewer than 256.
\<close>
lemma user_property_roundtrip:
  assumes "\<forall>i. mem i" and "its \<noteq> []" and "length its < 256" and "num \<noteq> 0"
  shows "\<exists>u j1 j2. esp_mqtt5_client_set_user_property mem j None (Some (map (\<lambda>(k, v). (Some k, Some v)) its)) (of_nat (length its)) = Inr (ESP_OK, u, j1)
    \<and> unat (esp_mqtt5_client_get_user_property_count u) = length its
    \<and> esp_mqtt5_client_get_user_property mem j1 u num = (ESP_OK, take (unat num) its, of_nat (min (length its) (unat num)), j2)"
proof -
  have n: "unat (of_nat (length its) :: byte) = length its" using assms(3) by (simp add: unat_of_nat)
  then have z: "(of_nat (length its) :: byte) \<noteq> 0" using assms(2) by (metis length_0_conv unat_0)
  obtain j1 where set: "set_user_items mem (j + 1) (map (\<lambda>(k, v). (Some k, Some v)) its) (length its) [] = Inr (True, its, j1)"
    using set_user_items_all [OF assms(1), of "j + 1" its "[]"] by auto
  obtain j2 where get: "get_user_items mem j1 its (unat num) = (True, take (unat num) its, j2)"
    using get_user_items_all [OF assms(1), of j1 its "unat num"] by blast
  have "mem j" using assms(1) by blast
  then show ?thesis
    using z n set get assms(4)
    by (intro exI [of _ "Some its"] exI [of _ j1] exI [of _ j2])
      (simp add: esp_mqtt5_client_set_user_property_def esp_mqtt5_client_get_user_property_def user_property_count Let_def lft_def)
qed

lemma user_property_roundtrip_witness:
  "\<exists>u j1 j2. esp_mqtt5_client_set_user_property (\<lambda>_. True) 0 None (Some [(Some [0x6b], Some [0x76]), (Some [0x6c], Some [])]) 2 = Inr (ESP_OK, u, j1)
    \<and> esp_mqtt5_client_get_user_property (\<lambda>_. True) j1 u 1 = (ESP_OK, [([0x6b], [0x76])], 1, j2)"
  using user_property_roundtrip [of "\<lambda>_. True" "[([0x6b], [0x76]), ([0x6c], [])]" 1 0] by auto

end
