(* ===== verification/Spec2Isabelle.thy ===== *)
theory Spec2Isabelle
  imports Gateway_Service Mqtt_Delivery Mqtt_Receive Pb_Decode_Local Telemetry Custom_Outbox Mqtt5_Client_Correct
begin

text \<open>
  Verification of an industrial IoT gateway. ESP32 sensor nodes read temperature and humidity, encode
  them as protobuf records with nanopb and publish them over MQTT; a gateway daemon subscribes, hands the records from the
  MQTT callback to a worker over a blocking queue and ingests them. Paths are under \<^verbatim>\<open>src/\<close>;
  \<^verbatim>\<open>esp32-sensor-node/\<close> stands for \<^verbatim>\<open>firmware/esp32/esp32-sensor-node/\<close> and
  \<^verbatim>\<open>espressif__mqtt/\<close> for its managed component of that name.

  \<^bold>\<open>Parts and theories.\<close>

  \<^item> \<open>Prelude\<close>: bytes, machine words, byte-addressed memory, little-endian integers, lemmas on lists.

  \<^item> \<open>Safe_Queue\<close>, \<open>Gateway_Service\<close> (\<^verbatim>\<open>gateway-service/src/safe_queue.hpp\<close>, \<^verbatim>\<open>mqtt_wrapper.hpp\<close>,
  \<^verbatim>\<open>main.cpp\<close>): the queue with its mutex and condition variable as a step relation over any number of threads, and the daemon as
  the interleaving of main thread, worker, signal handler and callback. Shown: records are taken in the order in which they are
  pushed, every queued record has woken a thread of its own, \<open>abort\<close> releases every waiting thread and loses no record, the shutdown ends
  when the calls of the client come back, ingestion is in order of arrival,
  and after the stop at most one more record is taken. A call of the Paho client returns, throws or never comes back (\<open>outcome\<close>).

  \<^item> \<open>Sensor_Data\<close> (\<^verbatim>\<open>proto/sensor_data.proto\<close>): the record that both tiers exchange.

  \<^item> \<open>Pb_Common\<close>, \<open>Pb_Iter\<close> (\<^verbatim>\<open>external/nanopb/pb.h\<close>, \<^verbatim>\<open>pb_common.c\<close>): message
  descriptors, their packed words, the field iterator. Shown: what the macros pack is unpacked again; the search for a tag is right from any position.

  \<^item> \<open>Pb_Encode\<close>, \<open>Pb_Depth\<close>, \<open>Pb_Encode_Correct\<close>, \<open>Pb_Decode\<close>, \<open>Pb_Decode_Correct\<close>, \<open>Pb_Decode_Safe\<close>, \<open>Pb_Decode_Local\<close>
  (\<^verbatim>\<open>pb_encode.c\<close>, \<^verbatim>\<open>pb_decode.c\<close>): encoder and decoder over memory, with streams, callbacks, submessages and
  extensions. Shown: integers survive the round trip; encoding never writes outside its buffer, and returns at every
  depth beyond the nesting of the message type; decoding of arbitrary
  bytes ends, keeps its read position inside the input, writes only the message, and depends on no other byte of the memory.

  \<^item> \<open>Sensor_Codec\<close>, \<open>Sensor_Roundtrip\<close> (\<^verbatim>\<open>esp32-sensor-node/components/protobuf_serializer/\<close>): the
  serializer of the node. Shown: it produces the proto3 encoding of the record, and decoding that gives the record back.

  \<^item> \<open>Mqtt_Msg\<close>, \<open>Mqtt_Msg_Correct\<close> (\<^verbatim>\<open>espressif__mqtt/lib/mqtt_msg.c\<close>): builders and readers of MQTT
  3.1 and 3.1.1 packets. Shown: what each builder writes, round trips with the readers, fragments of a large PUBLISH.

  \<^item> \<open>Mqtt_Outbox\<close> (\<^verbatim>\<open>lib/mqtt_outbox.c\<close>): the list of messages that are not acknowledged. Shown: its size accounts for its
  items after any operations; what each deletion removes. \<open>message_store\<close> is its contract.
  \<open>Custom_Outbox\<close> (\<^verbatim>\<open>examples/custom_outbox/main/custom_outbox.cpp\<close>): the replacement in C++, a second provider of the contract. Shown: it gives the
  same answers as the C outbox (\<open>mirrors\<close> is the simulation relation), except for messages in two pieces.

  \<^item> \<open>Mqtt_Config\<close>, \<open>Mqtt_Init\<close>, \<open>Mqtt_Init_Correct\<close>, \<open>Mqtt_Client\<close> (\<^verbatim>\<open>mqtt_client.c\<close>,
  \<^verbatim>\<open>lib/platform_esp32_idf.c\<close>): the client. \<open>Mqtt_Client\<close> has its struct as the record \<open>client\<close>, one
  definition per function, and one round of the loop of its task (\<open>task_round\<close>, \<open>task_poll\<close>).
  \<open>Mqtt_Client_Correct\<close>: which steps leave connection state and outbox alone, proved once in the locale \<open>observed\<close>.
  \<open>Mqtt_Publish\<close>: storing before sending (locale \<open>wire\<close>). \<open>Mqtt_Receive\<close>: packets in pieces (locale \<open>peer\<close>).

  \<^item> \<open>Mqtt5_Msg\<close>, \<open>Mqtt5_Msg_Correct\<close>, \<open>Mqtt5_Packets\<close> (\<^verbatim>\<open>lib/mqtt5_msg.c\<close>): builders and readers of MQTT 5.
  What a step of a builder appends is the relation \<open>appends\<close> (\<open>adds\<close> for a property section, \<open>flagged\<close> for one that also sets
  connect flags), what a step of a reader consumes is \<open>reads\<close>; the lemmas about them compose along the packets. Shown: the CONNECT packet, the round trip of
  PUBLISH with its properties, a reader that does not end.

  \<^item> \<open>Mqtt5_Client\<close>, \<open>Mqtt5_Client_Correct\<close> (\<^verbatim>\<open>mqtt5_client.c\<close>): topic aliases, flow control, user properties and the
  operations that set properties, on the fields of the client that they use (\<open>mqtt5_client\<close>). Shown: the list of aliases implements a finite map
  (locale \<open>alias_table\<close>), an alias stands for the topic that it was bound to.

  \<^item> \<open>Edge_Node\<close>, \<open>Edge_Boot\<close>, \<open>Mqtt_Delivery\<close> (\<^verbatim>\<open>esp32-sensor-node/main/app_main.cpp\<close>,
  \<^verbatim>\<open>components/mqtt_manager/\<close>, \<^verbatim>\<open>components/wifi_manager/\<close>): the application over all of the above.
  \<open>node_step\<close> interleaves the application with the task of the client. Shown: one round of the application puts on the wire a PUBLISH
  whose payload decodes to the record; the manager's flag follows the connection; a message that is not acknowledged is kept until it expires.

  \<^item> \<open>Telemetry\<close>: both tiers. \<open>telemetry_reaches_gateway\<close> joins any run of the node to any run of the daemon: the packets that the node
  published, as its transport took them or its outbox kept them, carry the records; of the broker it assumes
  that it delivers nothing but payloads of these packets, of the parser of the gateway that it inverts the encoding (nanopb's decoder does, \<open>nanopb_parses\<close>).

  \<^bold>\<open>How the code is modelled.\<close> Structs are records, integers of fixed width are words, an \<open>int\<close> whose wrap-around matters
  is an integer brought to 32 bits by \<open>s32\<close>, conversions to \<open>size_t\<close> are \<open>sz\<close>. Each C function is a function
  from the state it changes to a sum: \<open>Inl\<close> of a fault (a step outside an array, a null pointer, a second \<open>free\<close>, a loop
  that does not end) or \<open>Inr\<close> of result and new state. A theorem that gives \<open>Inr\<close> therefore says that the code does none of these. The
  platform (transport, event loop, timer, allocator, TLS build options) is a record of functions on an abstract world, an argument of every
  operation; the theorems hold for all platforms, or under the laws of a locale that is interpreted on a platform built over an arbitrary
  one (\<open>recorded\<close> keeps what was written, \<open>fed\<close> has the bytes to come, \<open>node_platform\<close> delivers events to the manager).

  \<^bold>\<open>Bounds and fuel.\<close> The recursion of nanopb over submessages has a depth as argument (\<open>None\<close> when it runs
  out); \<open>serialize_sensor_data_correct\<close>, \<open>sensor_roundtrip\<close>, \<open>pb_encode_confined\<close> and \<open>pb_decode_safe\<close> give the depth or the number of
  iterations that is enough for their messages. The wait for the CONNACK (\<open>connack_loop n\<close>) is bounded by \<open>n\<close> calls because the
  code's loop ends by the clock of the platform; the theorems about the task hold for every \<open>n\<close> for which a round ends. The loops of
  packets, lists and varints terminate by their own measures.

  \<^bold>\<open>Where the code fails.\<close> Some theorems state faults of the code as it is: \<open>five_length_bytes_overrun\<close> (a packet that makes the client
  write past its input buffer), \<open>resumed_ack_swallows_next\<close>, \<open>mqtt_publish_oversize_overruns\<close>,
  \<open>mqtt5_reason_string_hangs\<close>, \<open>manager_out_of_memory_crashes\<close>, \<open>destructor_terminates\<close>, \<open>publish_check_passes\<close> (the counter may be equal to
  the Receive Maximum), \<open>response_topic_truncated\<close>, \<open>set_config_again_double_free\<close>, \<open>alpn_out_of_memory_crashes\<close>, \<open>gateway_stop_takes_at_most_one\<close>,
  \<open>wifi_connect_exact\<close> (no failure is ever reported).

  \<^bold>\<open>Not modelled.\<close> The branches of \<^verbatim>\<open>mqtt_client.c\<close> under \<open>MQTT_PROTOCOL_5\<close>, which the firmware does not
  compile: they call the functions of \<open>Mqtt5_Client\<close>; the branches of nanopb under \<open>PB_ENABLE_MALLOC\<close> and \<open>PB_CONVERT_DOUBLE_FLOAT\<close>, off by default; the macros of \<^verbatim>\<open>pb.h\<close>
  that compute struct layouts, and the generated \<^verbatim>\<open>sensor_data.pb.c\<close>, which is not in the repository: its descriptor is an argument with
  the hypothesis \<open>describes_sensor\<close>. Paho and the C++ protobuf library of the gateway, ESP-IDF and FreeRTOS are parameters. Logging and
  the freeing of memory are left out, except where it is freed twice. Examples, tests, the nanopb generator and the build files are not part of the program.
\<close>

end
